(* ===== verification/Base_Lib.thy ===== *)
theory Base_Lib
  imports Complex_Main "HOL-Library.Word" "HOL-Library.AList" "HOL-Library.Sublist"
begin

text \<open>
  Shared vocabulary of the development: the names of the value types, results as sums, SQL tables
  as lists of rows, Rust byte strings, decimal rendering of integers, and the interface of an
  enumeration with a textual form (\<open>as_str\<close> / \<open>FromStr\<close>), which every enum of the core crates has.
\<close>

section \<open>Value types\<close>

text \<open>
  \<open>rust_decimal::Decimal\<close> and SQL \<open>NUMERIC\<close> amounts are the rationals they denote; a
  \<open>Uuid\<close> is its 128 bits; an instant (\<open>DateTime<Utc>\<close>, \<open>timestamptz\<close>) counts microseconds.
\<close>

type_synonym decimal = rat
type_synonym uuid = "128 word"
type_synonym instant = int

definition seconds :: "int \<Rightarrow> instant" where
  "seconds n = n * 1000000"

definition minutes :: "int \<Rightarrow> instant" where
  "minutes n = seconds (60 * n)"

definition days :: "int \<Rightarrow> instant" where
  "days n = minutes (1440 * n)"

lemmas duration_defs = seconds_def minutes_def days_def

text \<open>Collections filled by the component theories.\<close>

named_theorems table_simps \<open>reading a table after an insert or an update\<close>
named_theorems ledger_simps \<open>balances and keys after a posted journal\<close>
named_theorems order_simps \<open>fields of a number order after a transition\<close>

section \<open>Results\<close>

text \<open>The \<open>?\<close> operator: go on with a value, return an error at once.\<close>

definition res_bind :: "'e + 'a \<Rightarrow> ('a \<Rightarrow> 'e + 'b) \<Rightarrow> 'e + 'b" where
  "res_bind r f = (case r of Inl e \<Rightarrow> Inl e | Inr x \<Rightarrow> f x)"

lemma res_bind_simps [simp]:
  "res_bind (Inl e) f = Inl e"
  "res_bind (Inr x) f = f x"
  by (simp_all add: res_bind_def)

lemma res_bind_Inr_iff: "res_bind r f = Inr y \<longleftrightarrow> (\<exists>x. r = Inr x \<and> f x = Inr y)"
  by (cases r) auto

lemma res_bind_Inr_E:
  assumes "res_bind r f = Inr y"
  obtains x where "r = Inr x" "f x = Inr y"
  using assms by (auto simp: res_bind_Inr_iff)

text \<open>\<open>ok_or\<close>, and \<open>ok\<close> back again.\<close>

definition ok_or :: "'e \<Rightarrow> 'a option \<Rightarrow> 'e + 'a" where
  "ok_or e o' = (case o' of None \<Rightarrow> Inl e | Some x \<Rightarrow> Inr x)"

lemma ok_or_simps [simp]:
  "ok_or e None = Inl e"
  "ok_or e (Some x) = Inr x"
  by (simp_all add: ok_or_def)

definition map_err :: "('e \<Rightarrow> 'f) \<Rightarrow> 'e + 'a \<Rightarrow> 'f + 'a" where
  "map_err f r = (case r of Inl e \<Rightarrow> Inl (f e) | Inr x \<Rightarrow> Inr x)"

lemma map_err_simps [simp]:
  "map_err f (Inl e) = Inl (f e)"
  "map_err f (Inr x) = Inr x"
  by (simp_all add: map_err_def)

lemma map_err_Inr_iff [simp]: "map_err f r = Inr x \<longleftrightarrow> r = Inr x"
  by (cases r) auto

definition ok :: "'e + 'a \<Rightarrow> 'a option" where
  "ok r = (case r of Inl _ \<Rightarrow> None | Inr x \<Rightarrow> Some x)"

lemma ok_simps [simp]:
  "ok (Inl e) = None"
  "ok (Inr x) = Some x"
  by (simp_all add: ok_def)

section \<open>Tables\<close>

text \<open>
  A table is the list of its rows. \<open>fetch_optional p\<close> is the row a query returns,
  \<open>update_where p f\<close> an \<open>UPDATE .. WHERE p\<close>, and \<open>rows_affected p\<close> the count it reports.
\<close>

definition fetch_optional :: "('r \<Rightarrow> bool) \<Rightarrow> 'r list \<Rightarrow> 'r option" where
  "fetch_optional p rows = List.find p rows"

definition update_where :: "('r \<Rightarrow> bool) \<Rightarrow> ('r \<Rightarrow> 'r) \<Rightarrow> 'r list \<Rightarrow> 'r list" where
  "update_where p f rows = map (\<lambda>r. if p r then f r else r) rows"

definition rows_affected :: "('r \<Rightarrow> bool) \<Rightarrow> 'r list \<Rightarrow> nat" where
  "rows_affected p rows = length (filter p rows)"

lemma fetch_optional_simps [simp]:
  "fetch_optional p [] = None"
  "fetch_optional p (r # rows) = (if p r then Some r else fetch_optional p rows)"
  by (simp_all add: fetch_optional_def)

lemma fetch_optional_SomeD:
  "fetch_optional p rows = Some r \<Longrightarrow> r \<in> set rows \<and> p r"
  by (induction rows) (auto split: if_splits)

lemma fetch_optional_None_iff:
  "fetch_optional p rows = None \<longleftrightarrow> (\<forall>r \<in> set rows. \<not> p r)"
  by (induction rows) auto

lemma fetch_optional_append [table_simps]:
  "fetch_optional p (xs @ ys) =
     (case fetch_optional p xs of Some r \<Rightarrow> Some r | None \<Rightarrow> fetch_optional p ys)"
  by (induction xs) auto

lemma fetch_optional_unique:
  assumes "r \<in> set rows" "p r" "\<And>r'. r' \<in> set rows \<Longrightarrow> p r' \<Longrightarrow> r' = r"
  shows "fetch_optional p rows = Some r"
proof (cases "fetch_optional p rows")
  case None
  with assms(1,2) show ?thesis by (auto simp: fetch_optional_None_iff)
next
  case (Some r')
  then have "r' \<in> set rows" "p r'" by (auto dest: fetch_optional_SomeD)
  then have "r' = r" by (rule assms(3))
  with Some show ?thesis by simp
qed

lemma update_where_simps [simp]:
  "update_where p f [] = []"
  "update_where p f (r # rows) = (if p r then f r else r) # update_where p f rows"
  by (simp_all add: update_where_def)

lemma length_update_where [simp]: "length (update_where p f rows) = length rows"
  by (simp add: update_where_def)

lemma map_update_where:
  assumes "\<And>r. g (f r) = g r"
  shows "map g (update_where p f rows) = map g rows"
  by (induction rows) (auto simp: assms)

lemma update_where_id: "(\<And>r. r \<in> set rows \<Longrightarrow> \<not> p r) \<Longrightarrow> update_where p f rows = rows"
  by (induction rows) auto

lemma set_update_where:
  "set (update_where p f rows) = (\<lambda>r. if p r then f r else r) ` set rows"
  by (simp add: update_where_def)

text \<open>Reading one row by its key after an update that keeps keys.\<close>

lemma fetch_update_where [table_simps]:
  assumes "\<And>r. key (f r) = key r"
  shows "fetch_optional (\<lambda>r. key r = k) (update_where p f rows) =
    map_option (\<lambda>r. if p r then f r else r) (fetch_optional (\<lambda>r. key r = k) rows)"
  by (induction rows) (auto simp: assms)

lemma rows_affected_key:
  assumes "distinct (map key rows)" "fetch_optional (\<lambda>r. key r = k) rows = Some r"
  shows "rows_affected (\<lambda>r. key r = k \<and> q r) rows = (if q r then 1 else 0)"
  using assms
proof (induction rows)
  case Nil
  then show ?case by simp
next
  case (Cons x xs)
  show ?case
  proof (cases "key x = k")
    case True
    with Cons.prems have "x = r" and "k \<notin> key ` set xs" by auto
    then have none: "filter (\<lambda>r. key r = k \<and> q r) xs = []"
      by (auto simp: filter_empty_conv)
    show ?thesis using True \<open>x = r\<close> none by (simp add: rows_affected_def)
  next
    case False
    with Cons show ?thesis by (simp add: rows_affected_def)
  qed
qed

text \<open>Sums over a table, split at the one row an update touches.\<close>

lemma sum_list_update_where:
  fixes g :: "'r \<Rightarrow> rat"
  assumes "distinct (map key rows)" "r \<in> set rows" "key r = k"
  shows "sum_list (map g (update_where (\<lambda>x. key x = k) f rows)) =
    sum_list (map g rows) - g r + g (f r)"
  using assms
proof (induction rows)
  case Nil
  then show ?case by simp
next
  case (Cons x xs)
  show ?case
  proof (cases "key x = k")
    case True
    with Cons.prems have xr: "x = r"
      by (metis distinct_map image_iff list.simps(9) distinct.simps(2) set_ConsD list.set_map)
    from Cons.prems True have "k \<notin> key ` set xs" by simp
    then have "\<And>y. y \<in> set xs \<Longrightarrow> key y \<noteq> k" by blast
    then have "update_where (\<lambda>x. key x = k) f xs = xs" by (rule update_where_id)
    with True xr show ?thesis by simp
  next
    case False
    with Cons.prems have "r \<in> set xs" by auto
    with Cons False show ?thesis by simp
  qed
qed

section \<open>The largest of a list\<close>

lemma fold_max_ge: "x \<le> fold max xs (x :: 'a :: linorder)"
  by (induction xs arbitrary: x) (simp_all, meson max.bounded_iff)

lemma fold_max_upper: "y \<in> set xs \<Longrightarrow> y \<le> fold max xs (x :: 'a :: linorder)"
proof (induction xs arbitrary: x)
  case (Cons z zs)
  have "z \<le> fold max zs (max z x)" by (meson fold_max_ge max.bounded_iff)
  then show ?case using Cons by auto
qed simp

lemma fold_max_in: "fold max xs x \<in> insert (x :: 'a :: linorder) (set xs)"
proof (induction xs arbitrary: x)
  case (Cons z zs)
  show ?case using Cons [of "max z x"] by (auto simp: max_def split: if_splits)
qed simp

section \<open>Interface of textual enumerations\<close>

text \<open>
  Each enum of the core crates is written with \<open>as_str\<close> and read back with \<open>FromStr\<close>. What its
  clients (database rows, environment variables, ledger keys) rely on is the round trip.
\<close>

locale str_enum =
  fixes to_s :: "'e \<Rightarrow> string"
    and of_s :: "string \<Rightarrow> 'e option"
  assumes of_to: "of_s (to_s x) = Some x"
begin

lemma to_s_inj: "to_s x = to_s y \<longleftrightarrow> x = y"
  by (metis of_to option.inject)

text \<open>A row filter on the written form selects exactly the rows of the value.\<close>

lemma filter_to_s: "filter (\<lambda>r. to_s (col r) = to_s x) rows = filter (\<lambda>r. col r = x) rows"
  by (simp add: to_s_inj)

lemma of_s_onto: "\<exists>s. of_s s = Some x"
  using of_to by blast

end

end
