(* ===== verification/Chains.thy ===== *)
theory Chains
  imports Rust_Strings
begin

text \<open>
  The core crate and the watcher's networks: \<open>crates/core/src/asset.rs\<close>, \<open>crates/core/src/chain.rs\<close>
  and \<open>crates/watcher/src/network.rs\<close>. Enumerations with their tables, their textual forms (each an
  interpretation of \<open>str_enum\<close>) and the derivation path of an address index.
\<close>

section \<open>Assets\<close>

datatype asset_kind = Native | Token | Fiat

datatype asset = Ngn | Btc | Eth | Bnb | Matic | Trx | Sol | Usdt | Usdc

datatype unknown_asset = UnknownAsset string

fun asset_kind_of :: "asset \<Rightarrow> asset_kind" where
  "asset_kind_of Ngn = Fiat"
| "asset_kind_of Usdt = Token"
| "asset_kind_of Usdc = Token"
| "asset_kind_of _ = Native"

fun asset_decimals :: "asset \<Rightarrow> nat" where
  "asset_decimals Ngn = 4"
| "asset_decimals Btc = 8"
| "asset_decimals Eth = 18"
| "asset_decimals Bnb = 18"
| "asset_decimals Matic = 18"
| "asset_decimals Trx = 6"
| "asset_decimals Sol = 9"
| "asset_decimals Usdt = 6"
| "asset_decimals Usdc = 6"

fun asset_as_str :: "asset \<Rightarrow> string" where
  "asset_as_str Ngn = ''NGN''"
| "asset_as_str Btc = ''BTC''"
| "asset_as_str Eth = ''ETH''"
| "asset_as_str Bnb = ''BNB''"
| "asset_as_str Matic = ''MATIC''"
| "asset_as_str Trx = ''TRX''"
| "asset_as_str Sol = ''SOL''"
| "asset_as_str Usdt = ''USDT''"
| "asset_as_str Usdc = ''USDC''"

definition asset_from_str :: "string \<Rightarrow> unknown_asset + asset" where
  "asset_from_str s =
     (let u = to_ascii_uppercase s in
      if u = ''NGN'' then Inr Ngn
      else if u = ''BTC'' then Inr Btc
      else if u = ''ETH'' then Inr Eth
      else if u = ''BNB'' then Inr Bnb
      else if u = ''MATIC'' then Inr Matic
      else if u = ''TRX'' then Inr Trx
      else if u = ''SOL'' then Inr Sol
      else if u = ''USDT'' then Inr Usdt
      else if u = ''USDC'' then Inr Usdc
      else Inl (UnknownAsset s))"

section \<open>Chains\<close>

datatype curve = Secp256k1 | Ed25519

datatype chain = Bitcoin | Evm | Tron | Solana

datatype unknown_chain = UnknownChain string

definition all_chains :: "chain list" where
  "all_chains = [Bitcoin, Evm, Tron, Solana]"

fun chain_curve :: "chain \<Rightarrow> curve" where
  "chain_curve Solana = Ed25519"
| "chain_curve _ = Secp256k1"

fun coin_type :: "chain \<Rightarrow> nat" where
  "coin_type Bitcoin = 0"
| "coin_type Evm = 60"
| "coin_type Tron = 195"
| "coin_type Solana = 501"

fun gas_asset :: "chain \<Rightarrow> asset option" where
  "gas_asset Bitcoin = None"
| "gas_asset Evm = Some Eth"
| "gas_asset Tron = Some Trx"
| "gas_asset Solana = Some Sol"

text \<open>The index is a \<open>u32\<close>; \<open>0x27\<close> is the apostrophe that marks a hardened step.\<close>

fun derivation_path :: "chain \<Rightarrow> 32 word \<Rightarrow> string" where
  "derivation_path Bitcoin i =
     ''m/84'' @ [CHR 0x27] @ ''/0'' @ [CHR 0x27] @ ''/0'' @ [CHR 0x27] @ ''/0/'' @ show_nat (unat i)"
| "derivation_path Evm i =
     ''m/44'' @ [CHR 0x27] @ ''/60'' @ [CHR 0x27] @ ''/0'' @ [CHR 0x27] @ ''/0/'' @ show_nat (unat i)"
| "derivation_path Tron i =
     ''m/44'' @ [CHR 0x27] @ ''/195'' @ [CHR 0x27] @ ''/0'' @ [CHR 0x27] @ ''/0/'' @ show_nat (unat i)"
| "derivation_path Solana i =
     ''m/44'' @ [CHR 0x27] @ ''/501'' @ [CHR 0x27] @ ''/'' @ show_nat (unat i) @ [CHR 0x27] @ ''/0'' @ [CHR 0x27]"

fun chain_min_confirmations :: "chain \<Rightarrow> nat" where
  "chain_min_confirmations Bitcoin = 2"
| "chain_min_confirmations Evm = 12"
| "chain_min_confirmations Tron = 20"
| "chain_min_confirmations Solana = 1"

fun chain_as_str :: "chain \<Rightarrow> string" where
  "chain_as_str Bitcoin = ''bitcoin''"
| "chain_as_str Evm = ''evm''"
| "chain_as_str Tron = ''tron''"
| "chain_as_str Solana = ''solana''"

definition chain_from_str :: "string \<Rightarrow> unknown_chain + chain" where
  "chain_from_str s =
     (let l = to_ascii_lowercase s in
      if l \<in> {''bitcoin'', ''btc''} then Inr Bitcoin
      else if l \<in> {''evm'', ''ethereum'', ''eth'', ''bsc'', ''polygon'', ''base''} then Inr Evm
      else if l \<in> {''tron'', ''trx''} then Inr Tron
      else if l \<in> {''solana'', ''sol''} then Inr Solana
      else Inl (UnknownChain s))"

section \<open>Networks\<close>

datatype network = NTron | Ethereum | Bsc | Polygon | Base | NBitcoin | NSolana

datatype unknown_network = UnknownNetwork string

definition all_networks :: "network list" where
  "all_networks = [NTron, Ethereum, Bsc, Polygon, Base, NBitcoin, NSolana]"

fun network_chain :: "network \<Rightarrow> chain" where
  "network_chain NTron = Tron"
| "network_chain Ethereum = Evm"
| "network_chain Bsc = Evm"
| "network_chain Polygon = Evm"
| "network_chain Base = Evm"
| "network_chain NBitcoin = Bitcoin"
| "network_chain NSolana = Solana"

fun min_confirmations :: "network \<Rightarrow> int" where
  "min_confirmations NBitcoin = 2"
| "min_confirmations Ethereum = 12"
| "min_confirmations Bsc = 20"
| "min_confirmations Polygon = 20"
| "min_confirmations Base = 10"
| "min_confirmations NTron = 20"
| "min_confirmations NSolana = 1"

definition rescan_depth :: "network \<Rightarrow> int" where
  "rescan_depth n = min_confirmations n * 3"

fun scan_overlap :: "network \<Rightarrow> int" where
  "scan_overlap Ethereum = 3"
| "scan_overlap Bsc = 10"
| "scan_overlap Polygon = 10"
| "scan_overlap Base = 10"
| "scan_overlap NTron = 0"
| "scan_overlap NBitcoin = 0"
| "scan_overlap NSolana = 0"

fun poll_interval_ms :: "network \<Rightarrow> nat" where
  "poll_interval_ms NBitcoin = 30000"
| "poll_interval_ms Ethereum = 6000"
| "poll_interval_ms Bsc = 2000"
| "poll_interval_ms Polygon = 2000"
| "poll_interval_ms Base = 2000"
| "poll_interval_ms NTron = 3000"
| "poll_interval_ms NSolana = 1000"

fun is_evm :: "network \<Rightarrow> bool" where
  "is_evm Ethereum = True"
| "is_evm Bsc = True"
| "is_evm Polygon = True"
| "is_evm Base = True"
| "is_evm _ = False"

fun network_as_str :: "network \<Rightarrow> string" where
  "network_as_str NTron = ''tron''"
| "network_as_str Ethereum = ''ethereum''"
| "network_as_str Bsc = ''bsc''"
| "network_as_str Polygon = ''polygon''"
| "network_as_str Base = ''base''"
| "network_as_str NBitcoin = ''bitcoin''"
| "network_as_str NSolana = ''solana''"

fun rpc_env_var :: "network \<Rightarrow> string" where
  "rpc_env_var NTron = ''TRON_RPC_URL''"
| "rpc_env_var Ethereum = ''ETHEREUM_RPC_URL''"
| "rpc_env_var Bsc = ''BSC_RPC_URL''"
| "rpc_env_var Polygon = ''POLYGON_RPC_URL''"
| "rpc_env_var Base = ''BASE_RPC_URL''"
| "rpc_env_var NBitcoin = ''BITCOIN_RPC_URL''"
| "rpc_env_var NSolana = ''SOLANA_RPC_URL''"

definition network_from_str :: "string \<Rightarrow> unknown_network + network" where
  "network_from_str s =
     (let l = to_ascii_lowercase s in
      if l = ''tron'' then Inr NTron
      else if l \<in> {''ethereum'', ''eth''} then Inr Ethereum
      else if l \<in> {''bsc'', ''bnb''} then Inr Bsc
      else if l \<in> {''polygon'', ''matic''} then Inr Polygon
      else if l = ''base'' then Inr Base
      else if l \<in> {''bitcoin'', ''btc''} then Inr NBitcoin
      else if l \<in> {''solana'', ''sol''} then Inr NSolana
      else Inl (UnknownNetwork s))"

section \<open>Textual forms\<close>

lemmas case_char_simps =
  to_ascii_uppercase_def to_ascii_lowercase_def to_ascii_upper_char_def to_ascii_lower_char_def

interpretation asset_text: str_enum asset_as_str "\<lambda>s. ok (asset_from_str s)"
  by unfold_locales (case_tac x; simp add: asset_from_str_def case_char_simps)

interpretation chain_text: str_enum chain_as_str "\<lambda>s. ok (chain_from_str s)"
  by unfold_locales (case_tac x; simp add: chain_from_str_def case_char_simps)

interpretation network_text: str_enum network_as_str "\<lambda>s. ok (network_from_str s)"
  by unfold_locales (case_tac x; simp add: network_from_str_def case_char_simps)

lemma network_as_str_no_colon: "CHR '':'' \<notin> set (network_as_str n)"
  by (cases n) simp_all

lemma asset_from_str_case: "ok (asset_from_str (to_ascii_uppercase s)) = ok (asset_from_str s)"
proof -
  have "to_ascii_uppercase (to_ascii_uppercase s) = to_ascii_uppercase s"
    by (auto simp: to_ascii_uppercase_def to_ascii_upper_char_def)
  then show ?thesis by (simp add: asset_from_str_def Let_def)
qed

section \<open>Derivation paths\<close>

text \<open>The part before the index tells the chains apart; the index is read back from its digits.\<close>

lemma show_nat_quote_inj:
  "show_nat m @ CHR 0x27 # s = show_nat n @ CHR 0x27 # t \<longleftrightarrow> m = n \<and> s = t"
  using append_sep_inj [of "CHR 0x27" "show_nat m" "show_nat n" s t]
    show_nat_no_special [of "CHR 0x27"] by (simp add: show_nat_inj)

lemma derivation_path_inj_iff:
  "derivation_path c i = derivation_path d j \<longleftrightarrow> c = d \<and> i = j"
  by (cases c; cases d) (auto simp: show_nat_inj show_nat_quote_inj word_unat_eq_iff)

section \<open>Scan windows\<close>

lemma min_confirmations_pos: "0 < min_confirmations n"
  by (cases n) simp_all

lemma network_windows:
  "min_confirmations n < rescan_depth n"
  "0 \<le> scan_overlap n"
  "scan_overlap n < rescan_depth n"
  "is_evm n \<Longrightarrow> 0 < scan_overlap n"
  by (cases n; simp add: rescan_depth_def)+

lemma is_evm_iff: "is_evm n \<longleftrightarrow> network_chain n = Evm"
  by (cases n) simp_all

end
