(* ===== verification/Journals.thy ===== *)
theory Journals
  imports Chains
begin

text \<open>
  The ledger crate: account kinds and their sign convention (\<open>crates/ledger/src/account.rs\<close>),
  journals and the builder that refuses an invalid one (\<open>crates/ledger/src/journal.rs\<close>).
  \<open>build_ok_iff\<close> characterises what it accepts.
\<close>

section \<open>Accounts\<close>

datatype account_kind =
    UserCrypto | UserNgn | NgnPayablePending | NumberPayablePending
  | CustodyDepositAddrs | CustodyHot | CustodyMaster | NgnFloat | SupplierFloat
  | SpreadRevenue | FeeRevenue | NumberRevenue
  | GasExpense | PayoutFeeExpense

definition is_liability :: "account_kind \<Rightarrow> bool" where
  "is_liability k \<longleftrightarrow> k \<in> {UserCrypto, UserNgn, NgnPayablePending, NumberPayablePending}"

definition is_user_scoped :: "account_kind \<Rightarrow> bool" where
  "is_user_scoped k \<longleftrightarrow> k \<in> {UserCrypto, UserNgn}"

definition is_custody :: "account_kind \<Rightarrow> bool" where
  "is_custody k \<longleftrightarrow> k \<in> {CustodyDepositAddrs, CustodyHot, CustodyMaster}"

definition user_facing_balance :: "account_kind \<Rightarrow> decimal \<Rightarrow> decimal" where
  "user_facing_balance k raw_sum = (if is_liability k then - raw_sum else raw_sum)"

fun account_kind_as_str :: "account_kind \<Rightarrow> string" where
  "account_kind_as_str UserCrypto = ''user_crypto''"
| "account_kind_as_str UserNgn = ''user_ngn''"
| "account_kind_as_str NgnPayablePending = ''ngn_payable_pending''"
| "account_kind_as_str NumberPayablePending = ''number_payable_pending''"
| "account_kind_as_str CustodyDepositAddrs = ''custody_deposit_addrs''"
| "account_kind_as_str CustodyHot = ''custody_hot''"
| "account_kind_as_str CustodyMaster = ''custody_master''"
| "account_kind_as_str NgnFloat = ''ngn_float''"
| "account_kind_as_str SupplierFloat = ''supplier_float''"
| "account_kind_as_str SpreadRevenue = ''spread_revenue''"
| "account_kind_as_str FeeRevenue = ''fee_revenue''"
| "account_kind_as_str NumberRevenue = ''number_revenue''"
| "account_kind_as_str GasExpense = ''gas_expense''"
| "account_kind_as_str PayoutFeeExpense = ''payout_fee_expense''"

lemmas account_class_defs = is_liability_def is_user_scoped_def is_custody_def

text \<open>The kinds a row's text can come from: distinct kinds have distinct texts.\<close>

lemma account_kind_as_str_inj: "account_kind_as_str k = account_kind_as_str l \<longleftrightarrow> k = l"
  by (cases k; cases l) simp_all

lemma custody_not_liability: "is_custody k \<Longrightarrow> \<not> is_liability k \<and> \<not> is_user_scoped k"
  by (auto simp: account_class_defs)

lemma user_scoped_is_liability: "is_user_scoped k \<Longrightarrow> is_liability k"
  by (auto simp: account_class_defs)

text \<open>\<open>LedgerAccount\<close>, also the row of \<open>ledger_accounts\<close>.\<close>

record ledger_account =
  la_id :: uuid
  la_kind :: account_kind
  la_user_id :: "uuid option"
  la_asset :: asset

section \<open>Journals\<close>

datatype journal_kind =
    DepositCredit | DepositReversal | Sweep | GasSpend | Sell
  | PayoutReserve | PayoutSettle | PayoutReversal | NgnDeposit
  | NumberReserve | NumberSettle | NumberRefund | Adjustment

definition is_custody_only :: "journal_kind \<Rightarrow> bool" where
  "is_custody_only k \<longleftrightarrow> k \<in> {Sweep, GasSpend}"

fun journal_kind_as_str :: "journal_kind \<Rightarrow> string" where
  "journal_kind_as_str DepositCredit = ''deposit_credit''"
| "journal_kind_as_str DepositReversal = ''deposit_reversal''"
| "journal_kind_as_str Sweep = ''sweep''"
| "journal_kind_as_str GasSpend = ''gas_spend''"
| "journal_kind_as_str Sell = ''sell''"
| "journal_kind_as_str PayoutReserve = ''payout_reserve''"
| "journal_kind_as_str PayoutSettle = ''payout_settle''"
| "journal_kind_as_str PayoutReversal = ''payout_reversal''"
| "journal_kind_as_str NgnDeposit = ''ngn_deposit''"
| "journal_kind_as_str NumberReserve = ''number_reserve''"
| "journal_kind_as_str NumberSettle = ''number_settle''"
| "journal_kind_as_str NumberRefund = ''number_refund''"
| "journal_kind_as_str Adjustment = ''adjustment''"

lemma journal_kind_as_str_inj: "journal_kind_as_str k = journal_kind_as_str l \<longleftrightarrow> k = l"
  by (cases k; cases l) simp_all

record entry =
  e_account_id :: uuid
  e_account_kind :: account_kind
  e_asset :: asset
  e_amount :: decimal

text \<open>The JSON values a journal's metadata is built from.\<close>

datatype json = JNull | JStr string | JInt int | JObj "(string \<times> json) list"

record journal =
  j_kind :: journal_kind
  j_reference :: string
  j_idempotency_key :: string
  j_entries :: "entry list"
  j_metadata :: json

text \<open>What a query can fail with: the constraint it ran into.\<close>

datatype db_error = UniqueViolation | ForeignKeyViolation | CheckViolation | RowNotFound | OutOfRange | NullColumn

datatype ledger_error =
    TooFewEntries nat
  | Unbalanced asset decimal
  | ZeroAmount uuid
  | CustodyJournalTouchedLiability journal_kind uuid
  | LedgerDb db_error

section \<open>The builder\<close>

text \<open>
  \<open>JournalBuilder\<close> has the fields of \<open>Journal\<close>; a builder in progress is one whose entries are
  the ones added so far.
\<close>

definition builder_new :: "journal_kind \<Rightarrow> string \<Rightarrow> string \<Rightarrow> journal" where
  "builder_new kind reference key =
     \<lparr>j_kind = kind, j_reference = reference, j_idempotency_key = key, j_entries = [],
      j_metadata = JNull\<rparr>"

definition builder_entry :: "uuid \<Rightarrow> account_kind \<Rightarrow> asset \<Rightarrow> decimal \<Rightarrow> journal \<Rightarrow> journal" where
  "builder_entry account_id kind a amount b =
     b\<lparr>j_entries := j_entries b @
        [\<lparr>e_account_id = account_id, e_account_kind = kind, e_asset = a, e_amount = amount\<rparr>]\<rparr>"

definition builder_metadata :: "json \<Rightarrow> journal \<Rightarrow> journal" where
  "builder_metadata m b = b\<lparr>j_metadata := m\<rparr>"

text \<open>
  The first loop of \<open>build\<close>: refuse a zero amount, else add to the sum of its asset. The sums are
  in the order the assets first occur; the \<open>HashMap\<close> of the source iterates in some order, so
  which of several unbalanced assets an error names is not determined there.
\<close>

definition add_sum :: "asset \<Rightarrow> decimal \<Rightarrow> (asset \<times> decimal) list \<Rightarrow> (asset \<times> decimal) list" where
  "add_sum a x acc = AList.update a ((case map_of acc a of None \<Rightarrow> 0 | Some y \<Rightarrow> y) + x) acc"

fun tally :: "entry list \<Rightarrow> (asset \<times> decimal) list \<Rightarrow> ledger_error + (asset \<times> decimal) list" where
  "tally [] acc = Inr acc"
| "tally (e # es) acc =
     (if e_amount e = 0 then Inl (ZeroAmount (e_account_id e))
      else tally es (add_sum (e_asset e) (e_amount e) acc))"

definition build :: "journal \<Rightarrow> ledger_error + journal" where
  "build b =
     (if length (j_entries b) < 2 then Inl (TooFewEntries (length (j_entries b)))
      else case tally (j_entries b) [] of
        Inl err \<Rightarrow> Inl err
      | Inr acc \<Rightarrow>
          (case List.find (\<lambda>(a, s). s \<noteq> 0) acc of
             Some (a, s) \<Rightarrow> Inl (Unbalanced a s)
           | None \<Rightarrow>
               (if is_custody_only (j_kind b) then
                  (case List.find (\<lambda>e. is_liability (e_account_kind e)) (j_entries b) of
                     Some bad \<Rightarrow> Inl (CustodyJournalTouchedLiability (j_kind b) (e_account_id bad))
                   | None \<Rightarrow> Inr b)
                else Inr b)))"

section \<open>What the builder accepts\<close>

definition asset_total :: "asset \<Rightarrow> entry list \<Rightarrow> decimal" where
  "asset_total a es = sum_list (map e_amount (filter (\<lambda>e. e_asset e = a) es))"

definition account_total :: "uuid \<Rightarrow> entry list \<Rightarrow> decimal" where
  "account_total acct es = sum_list (map e_amount (filter (\<lambda>e. e_account_id e = acct) es))"

lemma total_simps [simp]:
  "asset_total a [] = 0"
  "asset_total a (e # es) = (if e_asset e = a then e_amount e else 0) + asset_total a es"
  "account_total acct [] = 0"
  "account_total acct (e # es) = (if e_account_id e = acct then e_amount e else 0) + account_total acct es"
  by (simp_all add: asset_total_def account_total_def)

text \<open>The specification: a valid journal, without saying how it is checked.\<close>

definition valid_journal :: "journal \<Rightarrow> bool" where
  "valid_journal j \<longleftrightarrow>
     2 \<le> length (j_entries j) \<and>
     (\<forall>e \<in> set (j_entries j). e_amount e \<noteq> 0) \<and>
     (\<forall>a. asset_total a (j_entries j) = 0) \<and>
     (is_custody_only (j_kind j) \<longrightarrow> (\<forall>e \<in> set (j_entries j). \<not> is_liability (e_account_kind e)))"

definition sum_at :: "(asset \<times> decimal) list \<Rightarrow> asset \<Rightarrow> decimal" where
  "sum_at acc a = (case map_of acc a of None \<Rightarrow> 0 | Some y \<Rightarrow> y)"

lemma sum_at_add_sum: "sum_at (add_sum a x acc) b = sum_at acc b + (if a = b then x else 0)"
  by (simp add: sum_at_def add_sum_def update_conv')

lemma tally_Inr_iff:
  "(\<exists>acc'. tally es acc = Inr acc') \<longleftrightarrow> (\<forall>e \<in> set es. e_amount e \<noteq> 0)"
  by (induction es acc rule: tally.induct) auto

lemma tally_sums:
  "tally es acc = Inr acc' \<Longrightarrow> sum_at acc' a = sum_at acc a + asset_total a es"
  by (induction es acc rule: tally.induct) (auto simp: sum_at_add_sum split: if_splits)

lemma tally_distinct:
  "tally es acc = Inr acc' \<Longrightarrow> distinct (map fst acc) \<Longrightarrow> distinct (map fst acc')"
  by (induction es acc rule: tally.induct) (auto simp: add_sum_def distinct_update split: if_splits)

lemma find_sum_None_iff:
  assumes "distinct (map fst acc)"
  shows "List.find (\<lambda>(a, s). s \<noteq> 0) acc = None \<longleftrightarrow> (\<forall>a. sum_at acc a = 0)"
proof
  assume none: "List.find (\<lambda>(a, s). s \<noteq> 0) acc = None"
  then show "\<forall>a. sum_at acc a = 0"
    by (auto simp: find_None_iff sum_at_def dest!: map_of_SomeD split: option.splits)
next
  assume zero: "\<forall>a. sum_at acc a = 0"
  have "s = 0" if "(a, s) \<in> set acc" for a s
    using that zero assms by (metis map_of_is_SomeI option.case(2) sum_at_def)
  then show "List.find (\<lambda>(a, s). s \<noteq> 0) acc = None"
    by (auto simp: find_None_iff)
qed

lemma build_ok_iff: "build b = Inr j \<longleftrightarrow> j = b \<and> valid_journal b"
proof (cases "tally (j_entries b) []")
  case (Inl err)
  then have "\<not> (\<forall>e \<in> set (j_entries b). e_amount e \<noteq> 0)"
    using tally_Inr_iff [of "j_entries b" "[]"] by simp
  with Inl show ?thesis by (auto simp: build_def valid_journal_def)
next
  case (Inr acc)
  then have nz: "\<forall>e \<in> set (j_entries b). e_amount e \<noteq> 0"
    using tally_Inr_iff by blast
  have "sum_at acc a = asset_total a (j_entries b)" for a
    using tally_sums [OF Inr, of a] by (simp add: sum_at_def)
  then have bal: "List.find (\<lambda>(a, s). s \<noteq> 0) acc = None \<longleftrightarrow> (\<forall>a. asset_total a (j_entries b) = 0)"
    using find_sum_None_iff [OF tally_distinct [OF Inr]] by simp
  have liab: "List.find (\<lambda>e. is_liability (e_account_kind e)) (j_entries b) = None \<longleftrightarrow>
      (\<forall>e \<in> set (j_entries b). \<not> is_liability (e_account_kind e))"
    by (auto simp: find_None_iff)
  have "build b = Inr j \<longleftrightarrow> j = b \<and> 2 \<le> length (j_entries b) \<and>
      List.find (\<lambda>(a, s). s \<noteq> 0) acc = None \<and>
      (is_custody_only (j_kind b) \<longrightarrow>
        List.find (\<lambda>e. is_liability (e_account_kind e)) (j_entries b) = None)"
    by (auto simp: build_def Inr split: option.splits)
  then show ?thesis using nz bal liab by (auto simp: valid_journal_def)
qed

lemma build_valid: "build b = Inr j \<Longrightarrow> valid_journal j"
  by (simp add: build_ok_iff)

text \<open>Two opposite entries of one asset always build, unless a custody journal names a liability.\<close>

lemma build_pair:
  assumes "x \<noteq> 0" "x + y = 0" "\<not> is_custody_only kind"
  shows "build (builder_metadata m (builder_entry acct2 k2 a y
    (builder_entry acct1 k1 a x (builder_new kind reference key)))) =
    Inr \<lparr>j_kind = kind, j_reference = reference, j_idempotency_key = key,
         j_entries = [\<lparr>e_account_id = acct1, e_account_kind = k1, e_asset = a, e_amount = x\<rparr>,
                      \<lparr>e_account_id = acct2, e_account_kind = k2, e_asset = a, e_amount = y\<rparr>],
         j_metadata = m\<rparr>"
  using assms
  by (auto simp: build_ok_iff valid_journal_def builder_new_def builder_entry_def builder_metadata_def)

end
