(* ===== verification/Ledger_Store.thy ===== *)
theory Ledger_Store
  imports Journals
begin

text \<open>
  The ledger's tables and the writes on them: \<open>Journal::post\<close>
  (\<open>crates/ledger/src/journal.rs\<close>), the find-or-create of accounts
  (\<open>account_id\<close> of \<open>crates/watcher/src/store.rs\<close>, \<open>lock_user_ngn_account\<close> and \<open>platform_account\<close>
  of \<open>crates/api/src/payout_routes.rs\<close>). The constraints of \<open>migrations/0001_init.sql\<close> that the
  statements can run into are branches of the operations. The locale \<open>journal_store\<close> is the
  contract every money path relies on.
\<close>

section \<open>Tables\<close>

record journal_row =
  jr_id :: uuid
  jr_kind :: journal_kind
  jr_reference :: string
  jr_key :: string
  jr_metadata :: json

record entry_row =
  er_journal :: uuid
  er_account :: uuid
  er_asset :: asset
  er_amount :: decimal

record ledger =
  accounts :: "ledger_account list"
  journals :: "journal_row list"
  entries :: "entry_row list"

datatype post_outcome = Posted uuid | AlreadyPosted uuid

fun outcome_journal_id :: "post_outcome \<Rightarrow> uuid" where
  "outcome_journal_id (Posted i) = i"
| "outcome_journal_id (AlreadyPosted i) = i"

text \<open>
  What a call takes from its surroundings: the process clock, the database clock and the UUIDs
  generated on the way, numbered in program order.
\<close>

record env =
  app_now :: instant
  sql_now :: instant
  new_id :: "nat \<Rightarrow> uuid"

section \<open>Posting\<close>

definition row_of_entry :: "uuid \<Rightarrow> entry \<Rightarrow> entry_row" where
  "row_of_entry i e =
     \<lparr>er_journal = i, er_account = e_account_id e, er_asset = e_asset e, er_amount = e_amount e\<rparr>"

definition has_account :: "uuid \<Rightarrow> 'z ledger_scheme \<Rightarrow> bool" where
  "has_account a db \<longleftrightarrow> a \<in> la_id ` set (accounts db)"

fun insert_entries :: "uuid \<Rightarrow> entry list \<Rightarrow> 'z ledger_scheme \<Rightarrow> ledger_error + 'z ledger_scheme" where
  "insert_entries i [] db = Inr db"
| "insert_entries i (e # es) db =
     (if e_amount e = 0 then Inl (LedgerDb CheckViolation)
      else if \<not> has_account (e_account_id e) db then Inl (LedgerDb ForeignKeyViolation)
      else insert_entries i es (db\<lparr>entries := entries db @ [row_of_entry i e]\<rparr>))"

definition post :: "uuid \<Rightarrow> journal \<Rightarrow> 'z ledger_scheme \<Rightarrow> ledger_error + (post_outcome \<times> 'z ledger_scheme)" where
  "post i j db =
     (case fetch_optional (\<lambda>r. jr_key r = j_idempotency_key j) (journals db) of
        Some r \<Rightarrow> Inr (AlreadyPosted (jr_id r), db)
      | None \<Rightarrow>
          (if i \<in> jr_id ` set (journals db) then Inl (LedgerDb UniqueViolation)
           else case insert_entries i (j_entries j)
               (db\<lparr>journals := journals db @
                  [\<lparr>jr_id = i, jr_kind = j_kind j, jr_reference = j_reference j,
                    jr_key = j_idempotency_key j, jr_metadata = j_metadata j\<rparr>]\<rparr>) of
             Inl err \<Rightarrow> Inl err
           | Inr db' \<Rightarrow> Inr (Posted i, db')))"

section \<open>Accounts\<close>

definition account_matches :: "account_kind \<Rightarrow> uuid option \<Rightarrow> asset \<Rightarrow> ledger_account \<Rightarrow> bool" where
  "account_matches k u a r \<longleftrightarrow> la_kind r = k \<and> la_asset r = a \<and> la_user_id r = u"

definition find_account :: "account_kind \<Rightarrow> uuid option \<Rightarrow> asset \<Rightarrow> 'z ledger_scheme \<Rightarrow> uuid option" where
  "find_account k u a db = map_option la_id (fetch_optional (account_matches k u a) (accounts db))"

definition add_account :: "uuid \<Rightarrow> account_kind \<Rightarrow> uuid option \<Rightarrow> asset \<Rightarrow> 'z ledger_scheme \<Rightarrow> 'z ledger_scheme" where
  "add_account i k u a db =
     db\<lparr>accounts := accounts db @ [\<lparr>la_id = i, la_kind = k, la_user_id = u, la_asset = a\<rparr>]\<rparr>"

text \<open>\<open>CHECK user_scoped_kinds_have_a_user\<close>.\<close>

definition scope_ok :: "account_kind \<Rightarrow> uuid option \<Rightarrow> bool" where
  "scope_ok k u \<longleftrightarrow> (is_user_scoped k \<longleftrightarrow> u \<noteq> None)"

text \<open>
  \<open>account_id\<close> of the watcher: select, else insert \<open>ON CONFLICT DO NOTHING\<close>, else (the insert
  conflicted) select again.
\<close>

definition account_id :: "uuid \<Rightarrow> account_kind \<Rightarrow> uuid option \<Rightarrow> asset \<Rightarrow> 'z ledger_scheme \<Rightarrow> db_error + (uuid \<times> 'z ledger_scheme)" where
  "account_id i k u a db =
     (case find_account k u a db of
        Some x \<Rightarrow> Inr (x, db)
      | None \<Rightarrow>
          (if \<not> scope_ok k u then Inl CheckViolation
           else if \<not> has_account i db then Inr (i, add_account i k u a db)
           else (case find_account k u a db of
                   Some x \<Rightarrow> Inr (x, db)
                 | None \<Rightarrow> Inl RowNotFound)))"

text \<open>The API's two: an NGN account of a user, and one of the platform.\<close>

definition lock_user_ngn_account :: "uuid \<Rightarrow> uuid \<Rightarrow> 'z ledger_scheme \<Rightarrow> db_error + (uuid \<times> 'z ledger_scheme)" where
  "lock_user_ngn_account i user db =
     (case find_account UserNgn (Some user) Ngn db of
        Some x \<Rightarrow> Inr (x, db)
      | None \<Rightarrow>
          (if has_account i db then Inl UniqueViolation
           else Inr (i, add_account i UserNgn (Some user) Ngn db)))"

definition platform_account :: "uuid \<Rightarrow> account_kind \<Rightarrow> 'z ledger_scheme \<Rightarrow> db_error + (uuid \<times> 'z ledger_scheme)" where
  "platform_account i k db =
     (case find_account k None Ngn db of
        Some x \<Rightarrow> Inr (x, db)
      | None \<Rightarrow>
          (if \<not> scope_ok k None then Inl CheckViolation
           else if has_account i db then Inl UniqueViolation
           else Inr (i, add_account i k None Ngn db)))"

section \<open>Reading the ledger\<close>

definition raw_balance :: "'z ledger_scheme \<Rightarrow> uuid \<Rightarrow> decimal" where
  "raw_balance db a = sum_list (map er_amount (filter (\<lambda>r. er_account r = a) (entries db)))"

definition key_posted :: "'z ledger_scheme \<Rightarrow> string \<Rightarrow> bool" where
  "key_posted db k \<longleftrightarrow> k \<in> jr_key ` set (journals db)"

definition journal_residual :: "'z ledger_scheme \<Rightarrow> uuid \<Rightarrow> asset \<Rightarrow> decimal" where
  "journal_residual db i a =
     sum_list (map er_amount (filter (\<lambda>r. er_journal r = i \<and> er_asset r = a) (entries db)))"

definition asset_position :: "'z ledger_scheme \<Rightarrow> asset \<Rightarrow> decimal" where
  "asset_position db a = sum_list (map er_amount (filter (\<lambda>r. er_asset r = a) (entries db)))"

section \<open>What a post does\<close>

lemma insert_entries_Inr:
  "insert_entries i es db = Inr db' \<longleftrightarrow>
     (\<forall>e \<in> set es. e_amount e \<noteq> 0 \<and> has_account (e_account_id e) db) \<and>
     db' = db\<lparr>entries := entries db @ map (row_of_entry i) es\<rparr>"
  by (induction i es db rule: insert_entries.induct) (auto simp: has_account_def)

lemma insert_entries_cases:
  "insert_entries i es db = Inr (db\<lparr>entries := entries db @ map (row_of_entry i) es\<rparr>) \<and>
     (\<forall>e \<in> set es. e_amount e \<noteq> 0 \<and> has_account (e_account_id e) db) \<or>
   (\<exists>err. insert_entries i es db = Inl err) \<and>
     \<not> (\<forall>e \<in> set es. e_amount e \<noteq> 0 \<and> has_account (e_account_id e) db)"
  using insert_entries_Inr [of i es db] by (cases "insert_entries i es db") auto

lemma post_replay:
  assumes "key_posted db (j_idempotency_key j)"
  shows "\<exists>k. post i j db = Inr (AlreadyPosted k, db)"
proof -
  obtain r where "fetch_optional (\<lambda>r. jr_key r = j_idempotency_key j) (journals db) = Some r"
    using assms by (cases "fetch_optional (\<lambda>r. jr_key r = j_idempotency_key j) (journals db)")
      (auto simp: key_posted_def fetch_optional_None_iff)
  then show ?thesis by (simp add: post_def)
qed

lemma post_fresh_iff:
  assumes "\<not> key_posted db (j_idempotency_key j)"
  shows "post i j db = Inr (out, db') \<longleftrightarrow>
    out = Posted i \<and> i \<notin> jr_id ` set (journals db) \<and>
    (\<forall>e \<in> set (j_entries j). e_amount e \<noteq> 0 \<and> has_account (e_account_id e) db) \<and>
    db' = db\<lparr>journals := journals db @
        [\<lparr>jr_id = i, jr_kind = j_kind j, jr_reference = j_reference j,
          jr_key = j_idempotency_key j, jr_metadata = j_metadata j\<rparr>],
      entries := entries db @ map (row_of_entry i) (j_entries j)\<rparr>"
proof -
  have "fetch_optional (\<lambda>r. jr_key r = j_idempotency_key j) (journals db) = None"
    using assms by (force simp: key_posted_def fetch_optional_None_iff)
  then show ?thesis
    using insert_entries_cases [of i "j_entries j"
        "db\<lparr>journals := journals db @
            [\<lparr>jr_id = i, jr_kind = j_kind j, jr_reference = j_reference j,
              jr_key = j_idempotency_key j, jr_metadata = j_metadata j\<rparr>]\<rparr>"]
    by (auto simp: post_def has_account_def)
qed

lemma sum_map_entry_rows:
  "sum_list (map er_amount (filter (\<lambda>r. er_account r = a) (map (row_of_entry i) es))) = account_total a es"
  "sum_list (map er_amount (filter (\<lambda>r. er_asset r = c) (map (row_of_entry i) es))) = asset_total c es"
  by (induction es) (simp_all add: row_of_entry_def)

lemma raw_balance_append:
  "raw_balance (db\<lparr>journals := js, entries := entries db @ rows\<rparr>) a =
   raw_balance db a + sum_list (map er_amount (filter (\<lambda>r. er_account r = a) rows))"
  by (simp add: raw_balance_def)

lemma post_effect:
  assumes "post i j db = Inr (out, db')"
  shows "raw_balance db' a = raw_balance db a +
      (if key_posted db (j_idempotency_key j) then 0 else account_total a (j_entries j))"
    and "key_posted db' k \<longleftrightarrow> key_posted db k \<or> k = j_idempotency_key j"
    and "accounts db' = accounts db"
    and "key_posted db (j_idempotency_key j) \<Longrightarrow> db' = db"
    and "ledger.more db' = ledger.more db"
proof -
  consider (replay) "key_posted db (j_idempotency_key j)" "db' = db"
    | (fresh) "\<not> key_posted db (j_idempotency_key j)"
    using assms post_replay [of db j i] by fastforce
  note c = this
  show "raw_balance db' a = raw_balance db a +
      (if key_posted db (j_idempotency_key j) then 0 else account_total a (j_entries j))"
    using c
  proof cases
    case replay
    then show ?thesis by simp
  next
    case fresh
    with assms show ?thesis by (simp add: post_fresh_iff raw_balance_append sum_map_entry_rows)
  qed
  show "key_posted db' k \<longleftrightarrow> key_posted db k \<or> k = j_idempotency_key j"
    using c by cases (use assms in \<open>auto simp: post_fresh_iff key_posted_def\<close>)
  show "accounts db' = accounts db" "ledger.more db' = ledger.more db"
    using c by (cases, use assms in \<open>auto simp: post_fresh_iff\<close>)+
  show "key_posted db (j_idempotency_key j) \<Longrightarrow> db' = db"
    using c by cases auto
qed

section \<open>The contract of the store\<close>

text \<open>
  What the money paths rely on: a key that was used is a no-op that reports the old journal; a new
  key adds the journal's amounts to the balances and is used from then on.
\<close>

locale journal_store =
  fixes do_post :: "uuid \<Rightarrow> 'j \<Rightarrow> 's \<Rightarrow> 'e + (post_outcome \<times> 's)"
    and key_of :: "'j \<Rightarrow> string"
    and seen :: "'s \<Rightarrow> string \<Rightarrow> bool"
    and bal :: "'s \<Rightarrow> uuid \<Rightarrow> decimal"
    and net :: "'j \<Rightarrow> uuid \<Rightarrow> decimal"
  assumes replay: "seen s (key_of j) \<Longrightarrow> \<exists>k. do_post i j s = Inr (AlreadyPosted k, s)"
    and fresh_bal: "\<not> seen s (key_of j) \<Longrightarrow> do_post i j s = Inr (out, s') \<Longrightarrow>
          bal s' a = bal s a + net j a"
    and seen_after: "do_post i j s = Inr (out, s') \<Longrightarrow> seen s' k \<longleftrightarrow> seen s k \<or> k = key_of j"
begin

text \<open>A retry: an error leaves the state (the transaction is dropped).\<close>

definition attempt :: "'j \<Rightarrow> uuid \<Rightarrow> 's \<Rightarrow> 's" where
  "attempt j i s = (case do_post i j s of Inl e \<Rightarrow> s | Inr (out, s') \<Rightarrow> s')"

lemma attempt_seen_same: "seen s (key_of j) \<Longrightarrow> attempt j i s = s"
  using replay [of s j i] by (auto simp: attempt_def)

lemma seen_attempt: "seen s k \<Longrightarrow> seen (attempt j i s) k"
  by (auto simp: attempt_def seen_after split: sum.splits)

lemma bal_attempt:
  "bal (attempt j i s) a =
     bal s a + (if \<not> seen s (key_of j) \<and> seen (attempt j i s) (key_of j) then net j a else 0)"
proof (cases "do_post i j s")
  case (Inl e)
  then show ?thesis by (simp add: attempt_def)
next
  case (Inr r)
  obtain out s' where r: "r = (out, s')" by force
  have eq: "attempt j i s = s'" using Inr r by (simp add: attempt_def)
  have "seen s' (key_of j)" using Inr r by (simp add: seen_after)
  then show ?thesis
    using Inr r eq attempt_seen_same [of s j i] by (auto simp: fresh_bal)
qed

text \<open>Any number of retries of one journal moves its amounts exactly once, if one succeeded.\<close>

lemma retries_once:
  "bal (fold (attempt j) is s) a =
     bal s a + (if \<not> seen s (key_of j) \<and> seen (fold (attempt j) is s) (key_of j) then net j a else 0)"
proof (induction "is" arbitrary: s)
  case Nil
  then show ?case by simp
next
  case (Cons i "is")
  have stay: "fold (attempt j) xs t = t" if "seen t (key_of j)" for xs t
    using that by (induction xs) (simp_all add: attempt_seen_same)
  show ?case
  proof (cases "seen (attempt j i s) (key_of j)")
    case True
    then show ?thesis using stay [OF True, of "is"] bal_attempt [of j i s a] by simp
  next
    case False
    then have "\<not> seen s (key_of j)" using seen_attempt by blast
    with False show ?thesis using Cons.IH [of "attempt j i s"] bal_attempt [of j i s a] by simp
  qed
qed

text \<open>Two journals whose amounts cancel, both used exactly once, leave every balance as it was.\<close>

lemma cancel_pair:
  assumes "do_post i j s = Inr (o1, s1)" "do_post i' j' s1 = Inr (o2, s2)"
    and "\<not> seen s (key_of j)" "\<not> seen s (key_of j')" "key_of j \<noteq> key_of j'"
    and "net j' a = - net j a"
  shows "bal s2 a = bal s a"
proof -
  have "\<not> seen s1 (key_of j')" using assms by (auto simp: seen_after)
  then show ?thesis
    using fresh_bal [OF assms(3,1)] fresh_bal [OF _ assms(2)] assms(6) by simp
qed

end

interpretation ledger_store: journal_store
  "post :: uuid \<Rightarrow> journal \<Rightarrow> 'z ledger_scheme \<Rightarrow> _" j_idempotency_key key_posted raw_balance
  "\<lambda>j a. account_total a (j_entries j)"
  by unfold_locales (auto simp: post_replay post_effect)

section \<open>Well-formed ledgers\<close>

definition wf_ledger :: "'z ledger_scheme \<Rightarrow> bool" where
  "wf_ledger db \<longleftrightarrow>
     distinct (map la_id (accounts db)) \<and>
     distinct (map (\<lambda>r. (la_kind r, la_user_id r, la_asset r)) (accounts db)) \<and>
     (\<forall>r \<in> set (accounts db). scope_ok (la_kind r) (la_user_id r)) \<and>
     distinct (map jr_id (journals db)) \<and>
     distinct (map jr_key (journals db)) \<and>
     (\<forall>r \<in> set (entries db). er_journal r \<in> jr_id ` set (journals db) \<and>
        er_account r \<in> la_id ` set (accounts db) \<and> er_amount r \<noteq> 0) \<and>
     (\<forall>i a. journal_residual db i a = 0)"

lemma residual_append:
  "journal_residual (db\<lparr>journals := js, entries := entries db @ map (row_of_entry i) es\<rparr>) k a =
   journal_residual db k a + (if k = i then asset_total a es else 0)"
proof -
  have "sum_list (map er_amount (filter (\<lambda>r. er_journal r = k \<and> er_asset r = a)
      (map (row_of_entry i) es))) = (if k = i then asset_total a es else 0)"
    by (induction es) (auto simp: row_of_entry_def)
  then show ?thesis by (simp add: journal_residual_def)
qed

lemma post_wf:
  assumes "wf_ledger db" "valid_journal j" "post i j db = Inr (out, db')"
  shows "wf_ledger db'"
proof (cases "key_posted db (j_idempotency_key j)")
  case True
  then show ?thesis using assms post_effect(4) by blast
next
  case False
  then have db': "db' = db\<lparr>journals := journals db @
        [\<lparr>jr_id = i, jr_kind = j_kind j, jr_reference = j_reference j,
          jr_key = j_idempotency_key j, jr_metadata = j_metadata j\<rparr>],
      entries := entries db @ map (row_of_entry i) (j_entries j)\<rparr>"
    and i: "i \<notin> jr_id ` set (journals db)"
    and es: "\<forall>e \<in> set (j_entries j). e_amount e \<noteq> 0 \<and> has_account (e_account_id e) db"
    using assms(3) by (auto simp: post_fresh_iff)
  have "journal_residual db' k a = 0" for k a
    using assms(1,2) unfolding db' by (simp add: residual_append wf_ledger_def valid_journal_def)
  then show ?thesis
    using assms(1) i es False unfolding wf_ledger_def db'
    by (auto simp: key_posted_def has_account_def row_of_entry_def)
qed

lemma find_account_SomeD:
  "find_account k u a db = Some x \<Longrightarrow>
     \<exists>r \<in> set (accounts db). la_id r = x \<and> la_kind r = k \<and> la_user_id r = u \<and> la_asset r = a"
  unfolding find_account_def account_matches_def by (auto dest: fetch_optional_SomeD)

lemma find_account_None:
  "find_account k u a db = None \<longleftrightarrow>
     (\<forall>r \<in> set (accounts db). \<not> (la_kind r = k \<and> la_user_id r = u \<and> la_asset r = a))"
  unfolding find_account_def account_matches_def by (auto simp: fetch_optional_None_iff)

lemma add_account_wf:
  assumes "wf_ledger db" "find_account k u a db = None" "scope_ok k u" "\<not> has_account i db"
  shows "wf_ledger (add_account i k u a db)"
proof -
  have "journal_residual (add_account i k u a db) j c = journal_residual db j c" for j c
    by (simp add: journal_residual_def add_account_def)
  then show ?thesis
    using assms by (auto simp: wf_ledger_def add_account_def find_account_None has_account_def)
qed

text \<open>The three find-or-create operations in one form.\<close>

definition account_step :: "account_kind \<Rightarrow> uuid option \<Rightarrow> asset \<Rightarrow> uuid \<Rightarrow> 'z ledger_scheme \<Rightarrow> 'z ledger_scheme \<Rightarrow> bool" where
  "account_step k u a x db db' \<longleftrightarrow>
     find_account k u a db = Some x \<and> db' = db \<or>
     find_account k u a db = None \<and> scope_ok k u \<and> \<not> has_account x db \<and> db' = add_account x k u a db"

lemma account_id_step: "account_id i k u a db = Inr (x, db') \<Longrightarrow> account_step k u a x db db'"
  by (auto simp: account_id_def account_step_def split: option.splits if_splits)

lemma lock_user_step:
  "lock_user_ngn_account i user db = Inr (x, db') \<Longrightarrow> account_step UserNgn (Some user) Ngn x db db'"
  by (auto simp: lock_user_ngn_account_def account_step_def scope_ok_def is_user_scoped_def
      split: option.splits if_splits)

lemma platform_step:
  "platform_account i k db = Inr (x, db') \<Longrightarrow> account_step k None Ngn x db db'"
  by (auto simp: platform_account_def account_step_def split: option.splits if_splits)

lemmas account_steps = account_id_step lock_user_step platform_step

lemma account_step_frame:
  assumes "account_step k u a x db db'"
  shows "journals db' = journals db" "entries db' = entries db"
    and "raw_balance db' b = raw_balance db b" "key_posted db' s = key_posted db s"
    and "asset_position db' c = asset_position db c"
    and "ledger.more db' = ledger.more db"
    and "set (accounts db) \<subseteq> set (accounts db')"
  using assms
  by (auto simp: account_step_def add_account_def raw_balance_def key_posted_def asset_position_def)

lemma account_step_wf: "account_step k u a x db db' \<Longrightarrow> wf_ledger db \<Longrightarrow> wf_ledger db'"
  by (auto simp: account_step_def intro: add_account_wf)

lemma account_step_row:
  assumes "account_step k u a x db db'"
  shows "\<exists>r \<in> set (accounts db'). la_id r = x \<and> la_kind r = k \<and> la_user_id r = u \<and> la_asset r = a"
  using assms by (auto simp: account_step_def add_account_def dest: find_account_SomeD)

lemma account_step_has: "account_step k u a x db db' \<Longrightarrow> has_account x db'"
  using account_step_row by (fastforce simp: has_account_def)

lemma account_step_found:
  assumes "account_step k u a x db db'" "wf_ledger db"
  shows "find_account k u a db' = Some x"
  using assms
  by (auto simp: account_step_def add_account_def find_account_def account_matches_def
      fetch_optional_append split: option.splits)

text \<open>Finding an account is stable when others are created.\<close>

lemma account_step_keeps:
  assumes "account_step k u a x db db'" "find_account k' u' a' db = Some y"
  shows "find_account k' u' a' db' = Some y"
  using assms
  by (auto simp: account_step_def add_account_def find_account_def fetch_optional_append
      split: option.splits)

text \<open>
  Double entry: over all accounts together nothing is created or destroyed. Each journal nets to
  zero in each asset, so the ledger does.
\<close>

lemma position_by_journal:
  assumes "distinct js" "\<forall>r \<in> set rows. er_journal r \<in> set js"
  shows "sum_list (map er_amount (filter (\<lambda>r. er_asset r = a) rows)) =
    (\<Sum>j \<leftarrow> js. sum_list (map er_amount (filter (\<lambda>r. er_journal r = j \<and> er_asset r = a) rows)))"
  using assms(2)
proof (induction rows)
  case Nil
  then show ?case by simp
next
  case (Cons r rows)
  have none: "(\<Sum>j \<leftarrow> ks. if er_journal r = j then x else 0) = 0" if "er_journal r \<notin> set ks" for x :: rat and ks
    using that by (induction ks) auto
  have "(\<Sum>j \<leftarrow> js. if er_journal r = j then x else 0) = x" if "er_journal r \<in> set js" for x :: rat
    using assms(1) that by (induction js) (auto simp: none)
  moreover have "sum_list (map er_amount (filter (\<lambda>x. er_journal x = j \<and> er_asset x = a) (r # rows))) =
      (if er_journal r = j then (if er_asset r = a then er_amount r else 0) else 0) +
      sum_list (map er_amount (filter (\<lambda>x. er_journal x = j \<and> er_asset x = a) rows))" for j
    by simp
  ultimately show ?case
    using Cons by (simp add: sum_list_addf del: filter.simps) simp
qed

lemma wf_position_zero: "wf_ledger db \<Longrightarrow> asset_position db a = 0"
proof -
  assume wf: "wf_ledger db"
  have "asset_position db a = (\<Sum>j \<leftarrow> map jr_id (journals db). journal_residual db j a)"
    unfolding asset_position_def journal_residual_def
    by (rule position_by_journal) (use wf in \<open>auto simp: wf_ledger_def\<close>)
  then show ?thesis using wf by (simp add: wf_ledger_def o_def)
qed

section \<open>Balances by account\<close>

text \<open>
  The balance of the account of a kind, owner and asset, zero while there is none. Creating
  accounts never changes it; a posted journal of two entries moves exactly its two accounts.
\<close>

definition kind_balance :: "'z ledger_scheme \<Rightarrow> account_kind \<Rightarrow> uuid option \<Rightarrow> asset \<Rightarrow> decimal" where
  "kind_balance db k u a =
     (case find_account k u a db of None \<Rightarrow> 0 | Some x \<Rightarrow> raw_balance db x)"

lemma find_account_inj:
  assumes "wf_ledger db" "find_account k u a db = Some x" "find_account k' u' a' db = Some x"
  shows "k = k' \<and> u = u' \<and> a = a'"
proof -
  obtain r where r: "r \<in> set (accounts db)" "la_id r = x" "la_kind r = k" "la_user_id r = u" "la_asset r = a"
    using find_account_SomeD [OF assms(2)] by blast
  obtain r' where r': "r' \<in> set (accounts db)" "la_id r' = x" "la_kind r' = k'" "la_user_id r' = u'" "la_asset r' = a'"
    using find_account_SomeD [OF assms(3)] by blast
  have "inj_on la_id (set (accounts db))"
    using assms(1) by (simp add: wf_ledger_def distinct_map)
  with r r' have "r = r'" by (auto dest: inj_onD)
  with r r' show ?thesis by simp
qed

lemma fresh_account_balance:
  assumes "wf_ledger db" "\<not> has_account x db"
  shows "raw_balance db x = 0"
proof -
  have "filter (\<lambda>r. er_account r = x) (entries db) = []"
    using assms by (auto simp: wf_ledger_def has_account_def filter_empty_conv)
  then show ?thesis by (simp add: raw_balance_def)
qed

lemma account_step_kind_balance [ledger_simps]:
  assumes "account_step k u a x db db'" "wf_ledger db"
  shows "kind_balance db' k' u' a' = kind_balance db k' u' a'"
proof (cases "find_account k' u' a' db")
  case (Some y)
  then show ?thesis
    using assms account_step_keeps [OF assms(1) Some]
    by (simp add: kind_balance_def account_step_frame)
next
  case None
  then have "kind_balance db' k' u' a' = 0"
    using assms fresh_account_balance [OF assms(2)]
    by (auto simp: account_step_def kind_balance_def add_account_def find_account_def
        fetch_optional_append raw_balance_def split: option.splits if_splits)
  with None show ?thesis by (simp add: kind_balance_def)
qed

lemma pair_post:
  assumes "wf_ledger db" "find_account k1 u1 a db = Some x1" "find_account k2 u2 a db = Some x2"
    and "j_entries j = [\<lparr>e_account_id = x1, e_account_kind = k1, e_asset = a, e_amount = x\<rparr>,
                        \<lparr>e_account_id = x2, e_account_kind = k2, e_asset = a, e_amount = y\<rparr>]"
    and "post i j db = Inr (out, db')"
  shows "kind_balance db' k u b = kind_balance db k u b +
    (if key_posted db (j_idempotency_key j) then 0
     else (if k = k1 \<and> u = u1 \<and> b = a then x else 0) + (if k = k2 \<and> u = u2 \<and> b = a then y else 0))"
proof -
  have same: "find_account k u b db' = find_account k u b db"
    using post_effect(3) [OF assms(5)] by (simp add: find_account_def)
  show ?thesis
  proof (cases "find_account k u b db")
    case None
    then have "\<not> (k = k1 \<and> u = u1 \<and> b = a)" "\<not> (k = k2 \<and> u = u2 \<and> b = a)"
      using assms(2,3) by auto
    with None same show ?thesis by (auto simp: kind_balance_def)
  next
    case (Some z)
    have z1: "x1 = z \<longleftrightarrow> k = k1 \<and> u = u1 \<and> b = a"
    proof
      assume "x1 = z"
      then show "k = k1 \<and> u = u1 \<and> b = a"
        using find_account_inj [OF assms(1) Some, of k1 u1 a] assms(2) by simp
    next
      assume "k = k1 \<and> u = u1 \<and> b = a"
      then show "x1 = z" using assms(2) Some by simp
    qed
    have z2: "x2 = z \<longleftrightarrow> k = k2 \<and> u = u2 \<and> b = a"
    proof
      assume "x2 = z"
      then show "k = k2 \<and> u = u2 \<and> b = a"
        using find_account_inj [OF assms(1) Some, of k2 u2 a] assms(3) by simp
    next
      assume "k = k2 \<and> u = u2 \<and> b = a"
      then show "x2 = z" using assms(3) Some by simp
    qed
    have "account_total z (j_entries j) = (if x1 = z then x else 0) + (if x2 = z then y else 0)"
      by (simp add: assms(4))
    then have "account_total z (j_entries j) =
        (if k = k1 \<and> u = u1 \<and> b = a then x else 0) + (if k = k2 \<and> u = u2 \<and> b = a then y else 0)"
      by (simp only: z1 z2)
    with Some same post_effect(1) [OF assms(5), of z] show ?thesis
      by (simp add: kind_balance_def)
  qed
qed

text \<open>Posting and creating accounts keep what was found.\<close>

lemma post_find_account: "post i j db = Inr (out, db') \<Longrightarrow> find_account k u a db' = find_account k u a db"
  using post_effect(3) [of i j db out db'] by (simp add: find_account_def)

section \<open>A transaction of two accounts\<close>

lemma pair_transaction:
  assumes wf: "wf_ledger db"
    and s1: "account_step k1 u1 a x1 db db1" and s2: "account_step k2 u2 a x2 db1 db2"
    and valid: "valid_journal j"
    and es: "j_entries j = [\<lparr>e_account_id = x1, e_account_kind = k1, e_asset = a, e_amount = x\<rparr>,
                            \<lparr>e_account_id = x2, e_account_kind = k2, e_asset = a, e_amount = y\<rparr>] \<or>
              j_entries j = [\<lparr>e_account_id = x2, e_account_kind = k2, e_asset = a, e_amount = y\<rparr>,
                            \<lparr>e_account_id = x1, e_account_kind = k1, e_asset = a, e_amount = x\<rparr>]"
    and fresh: "\<not> key_posted db (j_idempotency_key j)"
    and p: "post i j db2 = Inr (out, db3)"
  shows "wf_ledger db3"
    and "kind_balance db3 k u b = kind_balance db k u b +
      ((if k = k1 \<and> u = u1 \<and> b = a then x else 0) + (if k = k2 \<and> u = u2 \<and> b = a then y else 0))"
    and "key_posted db3 s \<longleftrightarrow> key_posted db s \<or> s = j_idempotency_key j"
    and "ledger.more db3 = ledger.more db"
proof -
  have wf1: "wf_ledger db1" using account_step_wf [OF s1 wf] .
  have wf2: "wf_ledger db2" using account_step_wf [OF s2 wf1] .
  show "wf_ledger db3" using post_wf [OF wf2 valid p] .
  have f1: "find_account k1 u1 a db2 = Some x1"
    using account_step_keeps [OF s2 account_step_found [OF s1 wf]] .
  have f2: "find_account k2 u2 a db2 = Some x2" using account_step_found [OF s2 wf1] .
  have key: "key_posted db2 s = key_posted db s" for s
    using account_step_frame(4) [OF s1] account_step_frame(4) [OF s2] by simp
  have bal: "kind_balance db2 k u b = kind_balance db k u b" for k u b
    using account_step_kind_balance [OF s1 wf] account_step_kind_balance [OF s2 wf1] by simp
  show "kind_balance db3 k u b = kind_balance db k u b +
      ((if k = k1 \<and> u = u1 \<and> b = a then x else 0) + (if k = k2 \<and> u = u2 \<and> b = a then y else 0))"
    using es
  proof
    assume "j_entries j = [\<lparr>e_account_id = x1, e_account_kind = k1, e_asset = a, e_amount = x\<rparr>,
      \<lparr>e_account_id = x2, e_account_kind = k2, e_asset = a, e_amount = y\<rparr>]"
    from pair_post [OF wf2 f1 f2 this p, of k u b] show ?thesis using fresh by (simp only: key bal if_False)
  next
    assume "j_entries j = [\<lparr>e_account_id = x2, e_account_kind = k2, e_asset = a, e_amount = y\<rparr>,
      \<lparr>e_account_id = x1, e_account_kind = k1, e_asset = a, e_amount = x\<rparr>]"
    from pair_post [OF wf2 f2 f1 this p, of k u b] show ?thesis
      using fresh by (simp only: key bal if_False add.commute [of "if k = k2 \<and> u = u2 \<and> b = a then y else 0"])
  qed
  show "key_posted db3 s \<longleftrightarrow> key_posted db s \<or> s = j_idempotency_key j"
    using post_effect(2) [OF p] by (simp add: key)
  show "ledger.more db3 = ledger.more db"
    using post_effect(5) [OF p] account_step_frame(6) [OF s1] account_step_frame(6) [OF s2] by simp
qed

end
