(* ===== verification/Ledger_Runs.thy ===== *)
theory Ledger_Runs
  imports Ledger_Store
begin

text \<open>
  Runs of the ledger, \<open>crates/ledger/src/\<close>: any order of built journals posted and accounts created,
  with any ids and keys, by any of the processes that share the tables.
\<close>

inductive ledger_step :: "ledger \<Rightarrow> ledger \<Rightarrow> bool" where
  posted: "build b = Inr j \<Longrightarrow> post i j db = Inr (out, db') \<Longrightarrow> ledger_step db db'"
| watcher_account: "account_id i k u a db = Inr (x, db') \<Longrightarrow> ledger_step db db'"
| user_account: "lock_user_ngn_account i user db = Inr (x, db') \<Longrightarrow> ledger_step db db'"
| own_account: "platform_account i k db = Inr (x, db') \<Longrightarrow> ledger_step db db'"

inductive_cases ledger_stepE: "ledger_step db db'"

definition empty_ledger :: ledger where
  "empty_ledger = \<lparr>accounts = [], journals = [], entries = []\<rparr>"

inductive ledger_reach :: "ledger \<Rightarrow> bool" where
  start: "ledger_reach empty_ledger"
| step: "ledger_reach db \<Longrightarrow> ledger_step db db' \<Longrightarrow> ledger_reach db'"

lemma empty_ledger_wf: "wf_ledger empty_ledger"
  by (simp add: wf_ledger_def empty_ledger_def journal_residual_def)

lemma ledger_step_wf: "ledger_step db db' \<Longrightarrow> wf_ledger db \<Longrightarrow> wf_ledger db'"
  by (erule ledger_stepE) (blast intro: post_wf build_valid account_step_wf account_steps)+

lemma ledger_reach_wf: "ledger_reach db \<Longrightarrow> wf_ledger db"
  by (induction rule: ledger_reach.induct) (auto intro: empty_ledger_wf ledger_step_wf)

text \<open>Entries are only ever appended, and only together with a journal of a new key.\<close>

lemma ledger_step_appends:
  assumes "ledger_step db db'"
  shows "\<exists>es js. entries db' = entries db @ es \<and> journals db' = journals db @ js"
  using assms
proof (cases rule: ledger_step.cases)
  case (posted b j i out)
  then show ?thesis
    by (cases "key_posted db (j_idempotency_key j)")
      (auto dest: post_effect(4) [OF posted(2)] simp: post_fresh_iff)
qed (auto dest!: account_steps dest: account_step_frame(1,2))

text \<open>A caller that posts and goes on whatever the answer was: an error leaves the tables.\<close>

definition retry_post :: "journal \<Rightarrow> uuid \<Rightarrow> 'z ledger_scheme \<Rightarrow> 'z ledger_scheme" where
  "retry_post j i db = (case post i j db of Inl e \<Rightarrow> db | Inr (out, db') \<Rightarrow> db')"

lemma retry_post_attempt: "retry_post j = ledger_store.attempt j"
  by (intro ext) (simp add: retry_post_def ledger_store.attempt_def)

section \<open>Properties\<close>

text \<open>
  \<open>JournalBuilder::build\<close> accepts exactly the journals of the specification: at least two
  entries, none of them zero, every asset netting to zero, and no liability account in a
  custody-only kind; and it returns what was built unchanged.
\<close>

theorem build_accepts_valid:
  "build b = Inr j \<longleftrightarrow> j = b \<and> 2 \<le> length (j_entries b) \<and> (\<forall>e \<in> set (j_entries b). e_amount e \<noteq> 0) \<and>
     (\<forall>a. asset_total a (j_entries b) = 0) \<and>
     (is_custody_only (j_kind b) \<longrightarrow> (\<forall>e \<in> set (j_entries b). \<not> is_liability (e_account_kind e)))"
  by (simp add: build_ok_iff valid_journal_def)

text \<open>
  C2. Double entry: whatever journals are posted and accounts created, in any order, the amounts of
  every asset over all accounts sum to zero, within each journal and in total.
\<close>

theorem double_entry:
  assumes "ledger_reach db"
  shows "asset_position db a = 0 \<and> journal_residual db i a = 0"
  using ledger_reach_wf [OF assms] wf_position_zero by (auto simp: wf_ledger_def)

text \<open>
  A journal posted any number of times under its key, with whatever ids and errors in between,
  moves its amounts once if an attempt succeeded and the key was new, and not at all otherwise.
\<close>

theorem post_retries_once:
  fixes db :: ledger
  shows "raw_balance (fold (retry_post j) ids db) acct = raw_balance db acct +
     (if \<not> key_posted db (j_idempotency_key j) \<and> key_posted (fold (retry_post j) ids db) (j_idempotency_key j)
      then account_total acct (j_entries j) else 0)"
  unfolding retry_post_attempt by (rule ledger_store.retries_once)

section \<open>Witnesses\<close>

definition demo_journal :: journal where
  "demo_journal = \<lparr>j_kind = NgnDeposit, j_reference = ''r'', j_idempotency_key = ''k'',
     j_entries = [\<lparr>e_account_id = 2, e_account_kind = NgnFloat, e_asset = Ngn, e_amount = 500\<rparr>,
                  \<lparr>e_account_id = 1, e_account_kind = UserNgn, e_asset = Ngn, e_amount = -500\<rparr>],
     j_metadata = JNull\<rparr>"

definition demo_accounts :: ledger where
  "demo_accounts = add_account 2 NgnFloat None Ngn (add_account 1 UserNgn (Some 7) Ngn empty_ledger)"

definition demo_ledger :: ledger where
  "demo_ledger = (case post 3 demo_journal demo_accounts of Inl _ \<Rightarrow> demo_accounts | Inr (_, db) \<Rightarrow> db)"

lemma demo_journal_builds: "build demo_journal = Inr demo_journal"
  by code_simp

lemma demo_ledger_reach: "ledger_reach demo_ledger"
proof -
  have "lock_user_ngn_account 1 7 empty_ledger = Inr (1, add_account 1 UserNgn (Some 7) Ngn empty_ledger)"
    "platform_account 2 NgnFloat (add_account 1 UserNgn (Some 7) Ngn empty_ledger) = Inr (2, demo_accounts)"
    "post 3 demo_journal demo_accounts = Inr (Posted 3, demo_ledger)"
    by code_simp+
  then show ?thesis
    by (meson demo_journal_builds ledger_reach.step ledger_reach.start ledger_step.posted
        ledger_step.user_account ledger_step.own_account)
qed

theorem build_accepts_valid_witness: "asset_total Ngn (j_entries demo_journal) = 0"
  using build_accepts_valid [of demo_journal demo_journal] demo_journal_builds by blast

theorem double_entry_witness:
  "length (entries demo_ledger) = 2 \<and> asset_position demo_ledger Ngn = 0 \<and> journal_residual demo_ledger 3 Ngn = 0"
proof -
  have "length (entries demo_ledger) = 2" by code_simp
  then show ?thesis using double_entry [OF demo_ledger_reach] by blast
qed

end
