(* ===== verification/Rust_Text.thy ===== *)
theory Rust_Text
  imports Rust_Strings
begin

text \<open>
  More of Rust's \<open>str\<close>: facts on trimming, \<open>split_whitespace\<close>, and slices, which panic out of range
  and inside a character.
\<close>

section \<open>Trimming\<close>

lemma ws_encodings_list [code]: "ws_encodings =
    [[CHR 0x09], [CHR 0x0A], [CHR 0x0B], [CHR 0x0C], [CHR 0x0D], [CHR 0x20], [CHR 0xC2, CHR 0x85], [CHR
     0xC2, CHR 0xA0], [CHR 0xE1, CHR 0x9A, CHR 0x80], [CHR 0xE2, CHR 0x80, CHR 0x80], [CHR 0xE2, CHR
     0x80, CHR 0x81], [CHR 0xE2, CHR 0x80, CHR 0x82], [CHR 0xE2, CHR 0x80, CHR 0x83], [CHR 0xE2, CHR
     0x80, CHR 0x84], [CHR 0xE2, CHR 0x80, CHR 0x85], [CHR 0xE2, CHR 0x80, CHR 0x86], [CHR 0xE2, CHR
     0x80, CHR 0x87], [CHR 0xE2, CHR 0x80, CHR 0x88], [CHR 0xE2, CHR 0x80, CHR 0x89], [CHR 0xE2, CHR
     0x80, CHR 0x8A], [CHR 0xE2, CHR 0x80, CHR 0xA8], [CHR 0xE2, CHR 0x80, CHR 0xA9], [CHR 0xE2, CHR
     0x80, CHR 0xAF], [CHR 0xE2, CHR 0x81, CHR 0x9F], [CHR 0xE3, CHR 0x80, CHR 0x80]]"
  by code_simp

lemma strip_leading_stripped:
  assumes "w \<in> set ws" "w \<noteq> []"
  shows "\<not> prefix w (strip_leading ws s)"
proof
  assume p: "prefix w (strip_leading ws s)"
  then obtain w' where w': "List.find (\<lambda>w. w \<noteq> [] \<and> prefix w (strip_leading ws s)) ws = Some w'"
    using assms by (metis (mono_tags, lifting) find_None_iff option.exhaust)
  then have nz: "w' \<noteq> []" "prefix w' (strip_leading ws s)" by (auto simp: find_Some_iff)
  have "strip_leading ws (strip_leading ws s) = strip_leading ws (drop (length w') (strip_leading ws s))"
    using w' by (subst strip_leading.simps) simp
  then have "suffix (strip_leading ws s) (drop (length w') (strip_leading ws s))"
    by (metis strip_leading_idem strip_leading_suffix)
  then have "length (strip_leading ws s) \<le> length (strip_leading ws s) - length w'"
    by (metis length_drop suffix_length_le)
  moreover have "length w' \<le> length (strip_leading ws s)" using nz(2) by (rule prefix_length_le)
  moreover have "0 < length w'" using nz(1) by simp
  ultimately show False by linarith
qed

lemma trim_end_prefix: "prefix (trim_end s) s"
  using strip_leading_suffix [of "map rev ws_encodings" "rev s"]
  by (metis rev_rev_ident suffix_to_prefix trim_end_def)

lemma trim_idem [simp]: "trim (trim s) = trim s"
proof -
  have "\<not> prefix w (trim s)" if "w \<in> set ws_encodings" for w
  proof
    assume "prefix w (trim s)"
    then have "prefix w (trim_start s)"
      unfolding trim_def using trim_end_prefix prefix_order.trans by blast
    with that show False
      unfolding trim_start_def using strip_leading_stripped ws_encodings_nonempty by blast
  qed
  then have "trim_start (trim s) = trim s"
    unfolding trim_start_def by (intro strip_leading_same) blast
  then show ?thesis by (simp add: trim_def trim_end_def)
qed

text \<open>A string between visible ASCII characters has nothing to trim.\<close>

definition visible :: "char \<Rightarrow> bool" where
  "visible c \<longleftrightarrow> 33 \<le> (of_char c :: nat) \<and> (of_char c :: nat) < 128"

lemma ws_not_visible: "w \<in> set ws_encodings \<Longrightarrow> list_all (\<lambda>c. \<not> visible c) w"
  unfolding ws_encodings_def visible_def by auto

lemma trim_same:
  assumes "s \<noteq> []" "visible (hd s)" "visible (last s)"
  shows "trim s = s"
proof -
  have h: "\<not> prefix w t" if "list_all (\<lambda>c. \<not> visible c) w" "w \<noteq> []" "visible (hd t)" for w t
    using that by (cases w; cases t) auto
  have "strip_leading ws_encodings s = s"
    using h ws_not_visible assms(2) by (intro strip_leading_same) blast
  moreover have "strip_leading (map rev ws_encodings) (rev s) = rev s"
  proof (rule strip_leading_same)
    fix w assume "w \<in> set (map rev ws_encodings)"
    then have "list_all (\<lambda>c. \<not> visible c) w" using ws_not_visible by (auto simp: list_all_iff)
    moreover have "visible (hd (rev s))" using assms by (simp add: hd_rev)
    ultimately show "w = [] \<or> \<not> prefix w (rev s)" using h by blast
  qed
  ultimately show ?thesis by (simp add: trim_def trim_start_def trim_end_def)
qed

lemma digit_visible: "is_ascii_digit c \<Longrightarrow> visible c"
  by (simp add: is_ascii_digit_def visible_def)

text \<open>Trimming commutes with a change of characters that no white space takes part in.\<close>

lemma strip_leading_map:
  assumes "\<And>w t. w \<in> set ws \<Longrightarrow> prefix w (map f t) \<longleftrightarrow> prefix w t"
  shows "strip_leading ws (map f s) = map f (strip_leading ws s)"
  using assms
proof (induction ws s rule: strip_leading.induct)
  case (1 ws s)
  have "List.find (\<lambda>w. w \<noteq> [] \<and> prefix w (map f s)) ws = List.find (\<lambda>w. w \<noteq> [] \<and> prefix w s) ws"
    using 1(2) by (intro find_cong) auto
  then show ?case
    using 1 by (subst (1 2) strip_leading.simps) (auto split: option.splits simp: drop_map)
qed

lemma filter_strip_leading:
  assumes "\<And>w. w \<in> set ws \<Longrightarrow> filter p w = []"
  shows "filter p (strip_leading ws s) = filter p s"
  using assms
proof (induction ws s rule: strip_leading.induct)
  case (1 ws s)
  show ?case
  proof (cases "List.find (\<lambda>w. w \<noteq> [] \<and> prefix w s) ws")
    case None
    then show ?thesis by (subst strip_leading.simps) simp
  next
    case (Some w)
    then have w: "w \<in> set ws" "prefix w s" by (auto simp: find_Some_iff in_set_conv_nth)
    have "filter p (strip_leading ws s) = filter p (drop (length w) s)"
      using 1 Some by (subst strip_leading.simps) simp
    also have "\<dots> = filter p (w @ drop (length w) s)" using 1(2) w(1) by simp
    also have "w @ drop (length w) s = s" using w(2) by (auto simp: prefix_def)
    finally show ?thesis .
  qed
qed

text \<open>\<open>split_whitespace\<close>: the pieces between white space that are not empty.\<close>

function split_ws :: "string \<Rightarrow> string list" where
  "split_ws [] = [[]]"
| "split_ws (x # xs) =
     (case List.find (\<lambda>w. w \<noteq> [] \<and> prefix w (x # xs)) ws_encodings of
        Some w \<Rightarrow> [] # split_ws (drop (length w) (x # xs))
      | None \<Rightarrow> (case split_ws xs of p # ps \<Rightarrow> (x # p) # ps | [] \<Rightarrow> [[x]]))"
  by pat_completeness auto
termination
proof (relation "measure length")
  fix x :: char and xs w :: string
  assume "List.find (\<lambda>w. w \<noteq> [] \<and> prefix w (x # xs)) ws_encodings = Some w"
  then have "w \<noteq> []" by (auto simp: find_Some_iff)
  then show "(drop (length w) (x # xs), x # xs) \<in> measure length" by simp
qed auto

definition split_whitespace :: "string \<Rightarrow> string list" where
  "split_whitespace s = filter (\<lambda>p. p \<noteq> []) (split_ws s)"

section \<open>Slices\<close>

text \<open>
  \<open>&s[a..b]\<close>: it panics (\<open>None\<close>) out of range and inside a character, that is before a UTF-8
  continuation byte.
\<close>

definition continuation :: "char \<Rightarrow> bool" where
  "continuation c \<longleftrightarrow> 128 \<le> (of_char c :: nat) \<and> (of_char c :: nat) < 192"

definition char_boundary :: "string \<Rightarrow> nat \<Rightarrow> bool" where
  "char_boundary s i \<longleftrightarrow> i = 0 \<or> i = length s \<or> i < length s \<and> \<not> continuation (s ! i)"

definition str_slice :: "string \<Rightarrow> nat \<Rightarrow> nat \<Rightarrow> string option" where
  "str_slice s a b =
     (if a \<le> b \<and> b \<le> length s \<and> char_boundary s a \<and> char_boundary s b
      then Some (take (b - a) (drop a s)) else None)"

definition is_ascii :: "string \<Rightarrow> bool" where
  "is_ascii s \<longleftrightarrow> list_all (\<lambda>c. (of_char c :: nat) < 128) s"

lemma ascii_boundary: "is_ascii s \<Longrightarrow> i \<le> length s \<Longrightarrow> char_boundary s i"
  by (cases "i = length s") (auto simp: is_ascii_def char_boundary_def continuation_def list_all_length not_le)

lemma ascii_slice:
  "is_ascii s \<Longrightarrow> a \<le> b \<Longrightarrow> b \<le> length s \<Longrightarrow> str_slice s a b = Some (take (b - a) (drop a s))"
  by (simp add: str_slice_def ascii_boundary)

definition do_slices :: "string option \<Rightarrow> string option \<Rightarrow> string option \<Rightarrow> (string \<Rightarrow> string \<Rightarrow> string \<Rightarrow> string) \<Rightarrow> string option" where
  "do_slices a b c f =
     (case a of None \<Rightarrow> None | Some x \<Rightarrow> (case b of None \<Rightarrow> None | Some y \<Rightarrow> map_option (f x y) c))"

end
