(* ===== verification/Rpc.thy ===== *)
theory Rpc
  imports Rust_Text
begin

text \<open>
  The watcher's client, \<open>crates/watcher/src/rpc.rs\<close>: what an error of an endpoint means, how long to
  wait, and the retry loops of the two kinds of call. What the endpoint answers is a parameter.
\<close>

section \<open>Errors\<close>

datatype rpc_error = RateLimited string | RangeRefused string | RpcOther string

definition max_attempts :: nat where "max_attempts = 4"
definition max_rate_limit_wait :: nat where "max_rate_limit_wait = 30000"

text \<open>What follows the last occurrence of a marker: the first piece \<open>rsplit\<close> gives.\<close>

fun after_last :: "string \<Rightarrow> string \<Rightarrow> string option" where
  "after_last sub [] = None"
| "after_last sub (x # xs) =
     (case after_last sub xs of
        Some t \<Rightarrow> Some t
      | None \<Rightarrow> if prefix sub (x # xs) then Some (drop (length sub) (x # xs)) else None)"

definition retry_after_seconds :: "string \<Rightarrow> nat option" where
  "retry_after_seconds hint =
     (let piece = (case after_last ''retry-after '' hint of None \<Rightarrow> hint | Some t \<Rightarrow> t)
      in parse_unsigned (2 ^ 64) (trim piece))"

definition retry_after_hint :: "string option \<Rightarrow> string" where
  "retry_after_hint header =
     (case header of Some v \<Rightarrow> ''retry-after '' @ v | None \<Rightarrow> ''no retry-after'')"

text \<open>In milliseconds.\<close>

fun backoff :: "rpc_error \<Rightarrow> nat \<Rightarrow> nat" where
  "backoff (RateLimited hint) attempt =
     min (1000 * (case retry_after_seconds hint of Some s \<Rightarrow> s | None \<Rightarrow> 2 ^ min attempt 4)) max_rate_limit_wait"
| "backoff _ attempt = 200 * 2 ^ min attempt 3"

definition transient_markers :: "string list" where
  "transient_markers = [''beyond current head'', ''header not found'', ''block not found'']"

definition range_markers :: "string list" where
  "range_markers = [''limit exceeded'', ''block range'', ''range is too large'', ''too many blocks'',
     ''query returned more than'', ''response size exceeded'', ''archive'', ''exceed maximum'',
     ''log response size'']"

definition rate_markers :: "string list" where
  "rate_markers = [''rate limit'', ''too many requests'', ''throughput'', ''capacity exceeded'']"

definition classify_rpc :: "int option \<Rightarrow> string \<Rightarrow> string \<Rightarrow> rpc_error" where
  "classify_rpc code message context' =
     (let lower = to_ascii_lowercase message in
      if list_ex (\<lambda>m. contains m lower) transient_markers then RpcOther (''rpc error '' @ context')
      else if list_ex (\<lambda>m. contains m lower) rate_markers then RateLimited context'
      else if list_ex (\<lambda>m. contains m lower) range_markers then RangeRefused context'
      else if code = Some (- 32005) then RangeRefused context'
      else RpcOther (''rpc error '' @ context'))"

section \<open>One request\<close>

text \<open>
  What a request brings back: nothing, or a status with its \<open>Retry-After\<close> header and a body. The
  body of a JSON-RPC answer holds an error member, or a result that has the expected shape or not.
\<close>

datatype 'a rpc_body =
    NotJson
  | ErrorMember (em_code: "int option") (em_message: "string option") (em_text: string)
  | NoResult
  | WrongShape
  | RpcResult 'a

datatype 'a http_reply =
    SendFailed string
  | Replied (hr_status: nat) (hr_text: string) (hr_retry_after: "string option") (hr_body: "'a rpc_body")

fun try_call :: "string \<Rightarrow> 'a http_reply \<Rightarrow> rpc_error + 'a" where
  "try_call method (SendFailed _) = Inl (RpcOther (method @ '': request failed''))"
| "try_call method (Replied status text retry body) =
     (if status = 429 then Inl (RateLimited (method @ '': '' @ retry_after_hint retry))
      else (case body of
          NotJson \<Rightarrow> Inl (RpcOther (method @ '': response was not JSON (status '' @ text @ '')''))
        | ErrorMember code message err \<Rightarrow>
            Inl (classify_rpc code (case message of None \<Rightarrow> [] | Some m \<Rightarrow> m) (method @ '': '' @ err))
        | NoResult \<Rightarrow> Inl (RpcOther (method @ '': response had no result''))
        | WrongShape \<Rightarrow> Inl (RpcOther (method @ '': unexpected result shape''))
        | RpcResult v \<Rightarrow> Inr v))"

text \<open>The plain HTTP calls: any other status than success is worth another attempt.\<close>

fun try_http :: "string \<Rightarrow> 'a http_reply \<Rightarrow> (rpc_error + 'a) + rpc_error" where
  "try_http what (SendFailed e) = Inr (RpcOther e)"
| "try_http what (Replied status text retry body) =
     (if 200 \<le> status \<and> status < 300 then
        Inl (case body of RpcResult v \<Rightarrow> Inr v | _ \<Rightarrow> Inl (RpcOther (what @ '': unexpected shape'')))
      else if status = 429 then Inr (RateLimited (what @ '': '' @ retry_after_hint retry))
      else Inr (RpcOther (what @ '': status '' @ text)))"

section \<open>The retry loop\<close>

text \<open>
  Both loops: an attempt returns (\<open>Inl\<close>) or is retried with an error (\<open>Inr\<close>). The waits are listed in
  order; there is none after the last attempt.
\<close>

function attempts_from :: "(nat \<Rightarrow> (rpc_error + 'a) + rpc_error) \<Rightarrow> nat \<Rightarrow> rpc_error \<Rightarrow> (rpc_error + 'a) \<times> nat list" where
  "attempts_from answer attempt last_error =
     (if attempt < max_attempts then
        (case answer attempt of
           Inl r \<Rightarrow> (r, [])
         | Inr err \<Rightarrow>
             (let (r, waits) = attempts_from answer (attempt + 1) err in
              (r, if attempt + 1 < max_attempts then backoff err attempt # waits else waits)))
      else (Inl last_error, []))"
  by pat_completeness auto
termination by (relation "measure (\<lambda>(_, attempt, _). max_attempts - attempt)") auto

declare attempts_from.simps [simp del]

text \<open>A refused range is returned at once: the caller has to ask for less.\<close>

definition call_attempt :: "string \<Rightarrow> 'a http_reply \<Rightarrow> (rpc_error + 'a) + rpc_error" where
  "call_attempt method reply =
     (case try_call method reply of
        Inr v \<Rightarrow> Inl (Inr v)
      | Inl (RangeRefused r) \<Rightarrow> Inl (Inl (RangeRefused r))
      | Inl err \<Rightarrow> Inr err)"

definition rpc_call :: "string \<Rightarrow> (nat \<Rightarrow> 'a http_reply) \<Rightarrow> (rpc_error + 'a) \<times> nat list" where
  "rpc_call method replies =
     attempts_from (\<lambda>i. call_attempt method (replies i)) 0 (RpcOther (method @ '' failed''))"

definition http_call :: "string \<Rightarrow> string \<Rightarrow> (nat \<Rightarrow> 'a http_reply) \<Rightarrow> (rpc_error + 'a) \<times> nat list" where
  "http_call verb path replies =
     attempts_from (\<lambda>i. try_http (verb @ '' '' @ path) (replies i)) 0 (RpcOther (verb @ '' '' @ path @ '' failed''))"

section \<open>What the loops do\<close>

lemma backoff_bounds: "200 \<le> backoff e i \<or> backoff e i = 0 \<and> (\<exists>h. e = RateLimited h \<and> retry_after_seconds h = Some 0)"
  "backoff e i \<le> max_rate_limit_wait"
proof -
  have m: "(200 :: nat) \<le> min (1000 * n) max_rate_limit_wait" if "0 < n" for n
    using that by (simp add: max_rate_limit_wait_def)
  show "200 \<le> backoff e i \<or> backoff e i = 0 \<and> (\<exists>h. e = RateLimited h \<and> retry_after_seconds h = Some 0)"
  proof (cases e)
    case (RateLimited h)
    then show ?thesis using m by (cases "retry_after_seconds h") (auto simp: max_rate_limit_wait_def)
  qed simp_all
  have "(2 :: nat) ^ min i 3 \<le> 2 ^ 3" by (intro power_increasing) auto
  then show "backoff e i \<le> max_rate_limit_wait"
    by (cases e) (auto simp: max_rate_limit_wait_def)
qed

text \<open>
  The loop answers with the first attempt that returns, or with the error of the last one, and
  waits once before each further attempt.
\<close>

lemma attempts_from_step:
  "i < max_attempts \<Longrightarrow> answer i = Inl r \<Longrightarrow> attempts_from answer i e0 = (r, [])"
  "i < max_attempts \<Longrightarrow> answer i = Inr e \<Longrightarrow> attempts_from answer i e0 =
     (fst (attempts_from answer (Suc i) e),
      (if Suc i < max_attempts then [backoff e i] else []) @ snd (attempts_from answer (Suc i) e))"
  by (subst attempts_from.simps; simp split: prod.split)+

lemma attempts_from_end: "attempts_from answer max_attempts e0 = (Inl e0, [])"
  by (subst attempts_from.simps) simp

lemma attempts_from_first:
  assumes "i \<le> k" "k < max_attempts" "\<forall>m. i \<le> m \<and> m < k \<longrightarrow> answer m = Inr (err m)" "answer k = Inl r"
  shows "attempts_from answer i e0 = (r, map (\<lambda>m. backoff (err m) m) [i..<k])"
  using assms
proof (induction "k - i" arbitrary: i e0)
  case 0
  then show ?case by (simp add: attempts_from_step(1))
next
  case (Suc d)
  then have i: "i < k" "answer i = Inr (err i)" by auto
  then have "attempts_from answer (Suc i) (err i) = (r, map (\<lambda>m. backoff (err m) m) [Suc i..<k])"
    using Suc by (intro Suc.hyps(1)) auto
  then show ?case
    using i Suc.prems(2) by (subst attempts_from_step(2) [where e = "err i"]) (simp_all add: upt_conv_Cons)
qed

lemma attempts_from_fails:
  assumes "i < max_attempts" "\<forall>m. i \<le> m \<and> m < max_attempts \<longrightarrow> answer m = Inr (err m)"
  shows "attempts_from answer i e0 =
    (Inl (err (max_attempts - 1)), map (\<lambda>m. backoff (err m) m) [i..<max_attempts - 1])"
  using assms
proof (induction "max_attempts - 1 - i" arbitrary: i e0)
  case 0
  then have i: "i = max_attempts - 1" "Suc i = max_attempts" "answer i = Inr (err i)" by auto
  show ?case
    using i attempts_from_end [of answer "err i"] 0(2)
    by (subst attempts_from_step(2) [where e = "err i"]) simp_all
next
  case (Suc d)
  then have i: "Suc i < max_attempts" "answer i = Inr (err i)" by auto
  have "attempts_from answer (Suc i) (err i) =
    (Inl (err (max_attempts - 1)), map (\<lambda>m. backoff (err m) m) [Suc i..<max_attempts - 1])"
    using Suc i by (intro Suc.hyps(1)) auto
  then show ?case
    using i Suc.prems(1) by (subst attempts_from_step(2) [where e = "err i"]) (simp_all add: upt_conv_Cons)
qed

text \<open>A call: at most four requests and ninety seconds of waiting.\<close>

lemma attempts_waits:
  "length (snd (attempts_from answer i e0)) \<le> max_attempts - 1 - i \<and>
   (\<forall>w \<in> set (snd (attempts_from answer i e0)). w \<le> max_rate_limit_wait)"
proof (induction answer i e0 rule: attempts_from.induct)
  case (1 answer i e0)
  show ?case
  proof (cases "i < max_attempts")
    case False
    then show ?thesis by (subst (1 2) attempts_from.simps) simp
  next
    case True
    show ?thesis
    proof (cases "answer i")
      case (Inl r)
      then show ?thesis using True by (simp add: attempts_from_step(1))
    next
      case (Inr e)
      have IH: "length (snd (attempts_from answer (Suc i) e)) \<le> max_attempts - 1 - Suc i"
        "\<forall>w \<in> set (snd (attempts_from answer (Suc i) e)). w \<le> max_rate_limit_wait"
        using 1 [OF True Inr] by simp_all
      show ?thesis
        unfolding attempts_from_step(2) [of i answer e, OF True Inr]
        using IH backoff_bounds(2) [of e i] True by auto
    qed
  qed
qed

lemma waits_sum: "sum_list (snd (attempts_from answer 0 e)) \<le> 90000"
proof -
  have bound: "sum_list ws \<le> 30000 * length ws" if "\<forall>w \<in> set ws. w \<le> 30000" for ws :: "nat list"
    using that by (induction ws) auto
  have "length (snd (attempts_from answer 0 e)) \<le> 3" "\<forall>w \<in> set (snd (attempts_from answer 0 e)). w \<le> 30000"
    using attempts_waits [of answer 0 e] by (simp_all add: max_rate_limit_wait_def max_attempts_def)
  with bound [of "snd (attempts_from answer 0 e)"] show ?thesis by linarith
qed

lemma call_waits:
  "sum_list (snd (rpc_call method replies)) \<le> 90000" "sum_list (snd (http_call verb path replies')) \<le> 90000"
  unfolding rpc_call_def http_call_def by (rule waits_sum)+

text \<open>A refused range costs one request.\<close>

lemma refused_range_at_once:
  "try_call method (replies 0) = Inl (RangeRefused r) \<Longrightarrow> rpc_call method replies = (Inl (RangeRefused r), [])"
  by (simp add: rpc_call_def attempts_from_step(1) call_attempt_def max_attempts_def)

end
