(* ===== verification/Deposits.thy ===== *)
theory Deposits
  imports Ledger_Store
begin

text \<open>
  The decisions of the deposit pipeline, \<open>crates/watcher/src/deposit.rs\<close>: what to do with an
  observed transfer, and the journals that credit it and undo the credit.
\<close>

section \<open>Transfers\<close>

record observed_transfer =
  t_network :: network
  t_tx_hash :: string
  t_output_index :: int
  t_to_address :: string
  t_asset :: asset
  t_amount :: decimal
  t_block_number :: int
  t_block_hash :: string

datatype deposit_action = Record int | Credit int | IgnoreDust decimal

fun minimum_deposit :: "asset \<Rightarrow> decimal" where
  "minimum_deposit Usdt = 1"
| "minimum_deposit Usdc = 1"
| "minimum_deposit Btc = 1 / 10000"
| "minimum_deposit Eth = 5 / 1000"
| "minimum_deposit Bnb = 1 / 100"
| "minimum_deposit Sol = 5 / 100"
| "minimum_deposit Trx = 50"
| "minimum_deposit Matic = 5"
| "minimum_deposit Ngn = 0"

text \<open>Confirmations count the block the transfer is in, and never go below zero.\<close>

definition confirmations_at :: "int \<Rightarrow> int \<Rightarrow> int" where
  "confirmations_at head block = max (head - block + 1) 0"

definition classify :: "observed_transfer \<Rightarrow> int \<Rightarrow> deposit_action" where
  "classify t head =
     (let minimum = minimum_deposit (t_asset t) in
      if t_amount t < minimum then IgnoreDust minimum
      else let confirmations = confirmations_at head (t_block_number t) in
        if min_confirmations (t_network t) \<le> confirmations then Credit confirmations
        else Record confirmations)"

lemma minimum_deposit_nonneg: "0 \<le> minimum_deposit a"
  by (cases a) simp_all

text \<open>Which action, as one condition each.\<close>

lemma classify_iff:
  "classify t head = Credit c \<longleftrightarrow>
     minimum_deposit (t_asset t) \<le> t_amount t \<and>
     c = head - t_block_number t + 1 \<and> min_confirmations (t_network t) \<le> c"
  "classify t head = IgnoreDust m \<longleftrightarrow>
     t_amount t < minimum_deposit (t_asset t) \<and> m = minimum_deposit (t_asset t)"
  using min_confirmations_pos [of "t_network t"]
  by (auto simp: classify_def confirmations_at_def Let_def)

section \<open>Keys\<close>

definition idempotency_key :: "string \<Rightarrow> observed_transfer \<Rightarrow> string" where
  "idempotency_key kind t =
     kind @ '':'' @ network_as_str (t_network t) @ '':'' @ t_tx_hash t @ '':'' @
     show_int (t_output_index t)"

text \<open>
  The key determines what it was made of, whatever the transaction hash contains: the kind and the
  network end at the first two colons, the output index starts after the last.
\<close>

lemma idempotency_key_inj:
  assumes "CHR '':'' \<notin> set k" "CHR '':'' \<notin> set l"
  shows "idempotency_key k t = idempotency_key l u \<longleftrightarrow>
    k = l \<and> t_network t = t_network u \<and> t_tx_hash t = t_tx_hash u \<and>
    t_output_index t = t_output_index u"
proof -
  have "idempotency_key k t = idempotency_key l u \<longleftrightarrow> k = l \<and>
      network_as_str (t_network t) @ CHR '':'' # t_tx_hash t @ CHR '':'' # show_int (t_output_index t) =
      network_as_str (t_network u) @ CHR '':'' # t_tx_hash u @ CHR '':'' # show_int (t_output_index u)"
    using append_sep_inj [OF assms] by (simp add: idempotency_key_def)
  also have "\<dots> \<longleftrightarrow> k = l \<and> t_network t = t_network u \<and>
      t_tx_hash t @ CHR '':'' # show_int (t_output_index t) =
      t_tx_hash u @ CHR '':'' # show_int (t_output_index u)"
    by (simp add: append_sep_inj network_as_str_no_colon network_text.to_s_inj)
  also have "\<dots> \<longleftrightarrow> k = l \<and> t_network t = t_network u \<and> t_tx_hash t = t_tx_hash u \<and>
      t_output_index t = t_output_index u"
    by (simp add: append_sep_inj_right show_int_no_colon show_int_inj)
  finally show ?thesis .
qed

lemma deposit_reversal_keys_differ: "idempotency_key ''deposit'' t \<noteq> idempotency_key ''reversal'' u"
  by (simp add: idempotency_key_inj)

section \<open>Journals\<close>

text \<open>\<open>show_uuid\<close> is \<open>Uuid::to_string\<close> of the \<open>uuid\<close> crate.\<close>

definition credit_journal :: "(uuid \<Rightarrow> string) \<Rightarrow> uuid \<Rightarrow> uuid \<Rightarrow> uuid \<Rightarrow> asset \<Rightarrow> decimal \<Rightarrow> observed_transfer \<Rightarrow> ledger_error + journal" where
  "credit_journal show_uuid deposit_id custody_account user_account a amount t =
     build (builder_metadata (JObj
        [(''network'', JStr (network_as_str (t_network t))),
         (''txHash'', JStr (t_tx_hash t)),
         (''outputIndex'', JInt (t_output_index t)),
         (''blockNumber'', JInt (t_block_number t))])
       (builder_entry user_account UserCrypto a (- amount)
         (builder_entry custody_account CustodyDepositAddrs a amount
           (builder_new DepositCredit (show_uuid deposit_id) (idempotency_key ''deposit'' t)))))"

definition reversal_journal :: "(uuid \<Rightarrow> string) \<Rightarrow> uuid \<Rightarrow> uuid \<Rightarrow> uuid \<Rightarrow> asset \<Rightarrow> decimal \<Rightarrow> observed_transfer \<Rightarrow> ledger_error + journal" where
  "reversal_journal show_uuid deposit_id custody_account user_account a amount t =
     build (builder_metadata (JObj
        [(''reason'', JStr ''reorg''),
         (''network'', JStr (network_as_str (t_network t))),
         (''txHash'', JStr (t_tx_hash t)),
         (''blockNumber'', JInt (t_block_number t))])
       (builder_entry user_account UserCrypto a amount
         (builder_entry custody_account CustodyDepositAddrs a (- amount)
           (builder_new DepositReversal (show_uuid deposit_id) (idempotency_key ''reversal'' t)))))"

lemma credit_journal_ok:
  assumes "amount \<noteq> 0"
  obtains j where "credit_journal sh d c u a amount t = Inr j" "valid_journal j"
    "j_idempotency_key j = idempotency_key ''deposit'' t"
    "j_entries j = [\<lparr>e_account_id = c, e_account_kind = CustodyDepositAddrs, e_asset = a, e_amount = amount\<rparr>,
                    \<lparr>e_account_id = u, e_account_kind = UserCrypto, e_asset = a, e_amount = - amount\<rparr>]"
proof -
  have nc: "\<not> is_custody_only DepositCredit" by (simp add: is_custody_only_def)
  have "amount + - amount = 0" by simp
  note b = build_pair [OF assms this nc]
  show ?thesis
    by (rule that [unfolded credit_journal_def, OF b build_valid [OF b]]) simp_all
qed

lemma reversal_journal_ok:
  assumes "amount \<noteq> 0"
  obtains j where "reversal_journal sh d c u a amount t = Inr j" "valid_journal j"
    "j_idempotency_key j = idempotency_key ''reversal'' t"
    "j_entries j = [\<lparr>e_account_id = c, e_account_kind = CustodyDepositAddrs, e_asset = a, e_amount = - amount\<rparr>,
                    \<lparr>e_account_id = u, e_account_kind = UserCrypto, e_asset = a, e_amount = amount\<rparr>]"
proof -
  have nc: "\<not> is_custody_only DepositReversal" by (simp add: is_custody_only_def)
  have "- amount \<noteq> 0" "- amount + amount = 0" using assms by simp_all
  note b = build_pair [OF this nc]
  show ?thesis
    by (rule that [unfolded reversal_journal_def, OF b build_valid [OF b]]) simp_all
qed

end
