(* ===== verification/Deposit_Store.thy ===== *)
theory Deposit_Store
  imports Deposits
begin

text \<open>
  The watcher's tables and the writes on them, \<open>crates/watcher/src/store.rs\<close>: the upsert of a
  transfer, crediting and reversing a deposit inside a transaction, and the queries the watcher
  walks. The text columns \<open>chain\<close>, \<open>network\<close> and \<open>status\<close> hold values of their enumerations;
  \<open>asset\<close> stays text, because the watcher parses it back.
\<close>

section \<open>Tables\<close>

datatype deposit_status = Seen | Confirming | Confirmed | Reversed | Ignored

record wallet_row =
  wl_id :: uuid
  wl_user :: uuid
  wl_chain :: chain
  wl_address :: string

record deposit_row =
  dp_id :: uuid
  dp_user :: uuid
  dp_wallet :: uuid
  dp_chain :: chain
  dp_network :: network
  dp_asset :: string
  dp_tx_hash :: string
  dp_output_index :: int
  dp_amount :: decimal
  dp_block_number :: int
  dp_block_hash :: "string option"
  dp_confirmations :: int
  dp_status :: deposit_status
  dp_credited :: "uuid option"
  dp_reversed :: "uuid option"

record cursor_row =
  cu_network :: network
  cu_chain :: chain
  cu_last_block :: int
  cu_last_block_hash :: "string option"

record contract_row =
  tc_network :: network
  tc_contract :: "string option"
  tc_asset :: string
  tc_decimals :: int
  tc_active :: bool

record watcher_db = ledger +
  wallets :: "wallet_row list"
  deposits :: "deposit_row list"
  cursors :: "cursor_row list"
  contracts :: "contract_row list"

datatype watch_error = WDb db_error | WLedger ledger_error | WRpc string

text \<open>\<open>as i32\<close>: the low 32 bits, as a signed number.\<close>

definition as_i32 :: "int \<Rightarrow> int" where
  "as_i32 i = sint (word_of_int i :: 32 word)"

section \<open>Cursors, contracts, wallets\<close>

definition cursor :: "network \<Rightarrow> 'z watcher_db_scheme \<Rightarrow> (int \<times> string option) option" where
  "cursor n db = map_option (\<lambda>r. (cu_last_block r, cu_last_block_hash r))
     (fetch_optional (\<lambda>r. cu_network r = n) (cursors db))"

definition save_cursor :: "network \<Rightarrow> int \<Rightarrow> string option \<Rightarrow> 'z watcher_db_scheme \<Rightarrow> 'z watcher_db_scheme" where
  "save_cursor n block h db =
     (if fetch_optional (\<lambda>r. cu_network r = n) (cursors db) = None
      then db\<lparr>cursors := cursors db @ [\<lparr>cu_network = n, cu_chain = network_chain n,
        cu_last_block = block, cu_last_block_hash = h\<rparr>]\<rparr>
      else db\<lparr>cursors := update_where (\<lambda>r. cu_network r = n)
        (\<lambda>r. r\<lparr>cu_last_block := block, cu_last_block_hash := h\<rparr>) (cursors db)\<rparr>)"

text \<open>The maps of the source, as the association lists its loops build (a later row wins).\<close>

definition fold_key :: "network \<Rightarrow> string \<Rightarrow> string" where
  "fold_key n s = (if is_evm n then to_ascii_lowercase s else s)"

fun contract_map :: "network \<Rightarrow> contract_row list \<Rightarrow> (string \<times> asset \<times> nat) list" where
  "contract_map n [] = []"
| "contract_map n (r # rows) =
     (case tc_contract r of
        None \<Rightarrow> contract_map n rows
      | Some c \<Rightarrow>
          (case asset_from_str (tc_asset r) of
             Inl _ \<Rightarrow> contract_map n rows
           | Inr a \<Rightarrow> contract_map n rows @ [(fold_key n c, a, nat (tc_decimals r))]))"

definition token_contracts :: "network \<Rightarrow> 'z watcher_db_scheme \<Rightarrow> (string \<times> asset \<times> nat) list" where
  "token_contracts n db =
     contract_map n (filter (\<lambda>r. tc_network r = n \<and> tc_active r \<and> tc_contract r \<noteq> None) (contracts db))"

definition watched_addresses :: "network \<Rightarrow> 'z watcher_db_scheme \<Rightarrow> (string \<times> uuid) list" where
  "watched_addresses n db =
     map (\<lambda>r. (fold_key n (wl_address r), wl_user r))
       (rev (filter (\<lambda>r. wl_chain r = network_chain n) (wallets db)))"

definition wallet_for :: "network \<Rightarrow> string \<Rightarrow> 'z watcher_db_scheme \<Rightarrow> (uuid \<times> uuid) option" where
  "wallet_for n address db = map_option (\<lambda>r. (wl_id r, wl_user r))
     (fetch_optional (\<lambda>r. wl_chain r = network_chain n \<and>
        to_ascii_lowercase (wl_address r) = to_ascii_lowercase address) (wallets db))"

section \<open>Deposits\<close>

text \<open>The unique key of \<open>deposits\<close>: \<open>(chain, tx_hash, output_index)\<close>.\<close>

definition dp_key :: "deposit_row \<Rightarrow> chain \<times> string \<times> int" where
  "dp_key r = (dp_chain r, dp_tx_hash r, dp_output_index r)"

definition t_key :: "observed_transfer \<Rightarrow> chain \<times> string \<times> int" where
  "t_key t = (network_chain (t_network t), t_tx_hash t, t_output_index t)"

definition upsert_deposit :: "uuid \<Rightarrow> observed_transfer \<Rightarrow> uuid \<Rightarrow> uuid \<Rightarrow> int \<Rightarrow> deposit_status \<Rightarrow>
    'z watcher_db_scheme \<Rightarrow> db_error + ((uuid \<times> deposit_status) \<times> 'z watcher_db_scheme)" where
  "upsert_deposit i t user wallet confs status db =
     (if \<not> 0 < t_amount t then Inl CheckViolation
      else case fetch_optional (\<lambda>r. dp_key r = t_key t) (deposits db) of
        Some r \<Rightarrow> Inr ((dp_id r, dp_status r),
          db\<lparr>deposits := update_where (\<lambda>r. dp_key r = t_key t)
              (\<lambda>r. r\<lparr>dp_confirmations := as_i32 confs\<rparr>) (deposits db)\<rparr>)
      | None \<Rightarrow>
          (if i \<in> dp_id ` set (deposits db) then Inl UniqueViolation
           else if status \<in> {Confirmed, Reversed} then Inl CheckViolation
           else Inr ((i, status), db\<lparr>deposits := deposits db @
             [\<lparr>dp_id = i, dp_user = user, dp_wallet = wallet,
               dp_chain = network_chain (t_network t), dp_network = t_network t,
               dp_asset = asset_as_str (t_asset t), dp_tx_hash = t_tx_hash t,
               dp_output_index = t_output_index t, dp_amount = t_amount t,
               dp_block_number = t_block_number t, dp_block_hash = Some (t_block_hash t),
               dp_confirmations = as_i32 confs, dp_status = status,
               dp_credited = None, dp_reversed = None\<rparr>]\<rparr>)))"

text \<open>
  \<open>credit_deposit\<close> and \<open>reverse_deposit\<close>: one transaction each, whose writes are lost on an error.
  The ids are those of a new custody account, a new user account and the journal.
\<close>

definition credit_deposit :: "(uuid \<Rightarrow> string) \<Rightarrow> env \<Rightarrow> uuid \<Rightarrow> observed_transfer \<Rightarrow>
    'z watcher_db_scheme \<Rightarrow> watch_error + (bool \<times> 'z watcher_db_scheme)" where
  "credit_deposit show_uuid env deposit_id t db =
     (case fetch_optional (\<lambda>r. dp_id r = deposit_id) (deposits db) of
        None \<Rightarrow> Inr (False, db)
      | Some row \<Rightarrow>
          if dp_status row = Confirmed \<or> dp_status row = Reversed then Inr (False, db)
          else
            res_bind (map_err WDb (account_id (new_id env 0) CustodyDepositAddrs None (t_asset t) db))
              (\<lambda>(custody, db1).
            res_bind (map_err WDb (account_id (new_id env 1) UserCrypto (Some (dp_user row)) (t_asset t) db1))
              (\<lambda>(user_account, db2).
            res_bind (map_err WLedger (credit_journal show_uuid deposit_id custody user_account
                (t_asset t) (dp_amount row) t))
              (\<lambda>j.
            res_bind (map_err WLedger (post (new_id env 2) j db2))
              (\<lambda>(outcome, db3).
            Inr (True, db3\<lparr>deposits := update_where (\<lambda>r. dp_id r = deposit_id)
              (\<lambda>r. r\<lparr>dp_status := Confirmed, dp_credited := Some (outcome_journal_id outcome)\<rparr>)
              (deposits db3)\<rparr>))))))"

definition reverse_deposit :: "(uuid \<Rightarrow> string) \<Rightarrow> env \<Rightarrow> uuid \<Rightarrow> observed_transfer \<Rightarrow>
    'z watcher_db_scheme \<Rightarrow> watch_error + (bool \<times> 'z watcher_db_scheme)" where
  "reverse_deposit show_uuid env deposit_id t db =
     (case fetch_optional (\<lambda>r. dp_id r = deposit_id) (deposits db) of
        None \<Rightarrow> Inr (False, db)
      | Some row \<Rightarrow>
          if dp_status row \<noteq> Confirmed then Inr (False, db)
          else
            res_bind (map_err WDb (account_id (new_id env 0) CustodyDepositAddrs None (t_asset t) db))
              (\<lambda>(custody, db1).
            res_bind (map_err WDb (account_id (new_id env 1) UserCrypto (Some (dp_user row)) (t_asset t) db1))
              (\<lambda>(user_account, db2).
            res_bind (map_err WLedger (reversal_journal show_uuid deposit_id custody user_account
                (t_asset t) (dp_amount row) t))
              (\<lambda>j.
            res_bind (map_err WLedger (post (new_id env 2) j db2))
              (\<lambda>(outcome, db3).
            Inr (True, db3\<lparr>deposits := update_where (\<lambda>r. dp_id r = deposit_id)
              (\<lambda>r. r\<lparr>dp_status := Reversed, dp_reversed := Some (outcome_journal_id outcome)\<rparr>)
              (deposits db3)\<rparr>))))))"

definition pending_deposits :: "network \<Rightarrow> 'z watcher_db_scheme \<Rightarrow> deposit_row list" where
  "pending_deposits n db = sort_key dp_block_number
     (filter (\<lambda>r. dp_network r = n \<and> dp_status r \<in> {Seen, Confirming}) (deposits db))"

definition reorg_window :: "network \<Rightarrow> int \<Rightarrow> 'z watcher_db_scheme \<Rightarrow> deposit_row list" where
  "reorg_window n from_block db =
     filter (\<lambda>r. dp_network r = n \<and> dp_status r = Confirmed \<and> from_block \<le> dp_block_number r) (deposits db)"

definition relocate_deposit :: "uuid \<Rightarrow> int \<Rightarrow> string \<Rightarrow> 'z watcher_db_scheme \<Rightarrow> 'z watcher_db_scheme" where
  "relocate_deposit deposit_id block h db =
     db\<lparr>deposits := update_where (\<lambda>r. dp_id r = deposit_id)
       (\<lambda>r. r\<lparr>dp_block_number := block, dp_block_hash := Some h\<rparr>) (deposits db)\<rparr>"

definition set_confirmations :: "uuid \<Rightarrow> int \<Rightarrow> 'z watcher_db_scheme \<Rightarrow> 'z watcher_db_scheme" where
  "set_confirmations deposit_id confs db =
     db\<lparr>deposits := update_where (\<lambda>r. dp_id r = deposit_id \<and> dp_status r = Seen)
       (\<lambda>r. r\<lparr>dp_confirmations := as_i32 confs, dp_status := Confirming\<rparr>) (deposits db)\<rparr>"

end
