(* ===== verification/Chain_Adapters.thy ===== *)
theory Chain_Adapters
  imports Rpc Deposit_Store
begin

text \<open>
  Reading transfers from the chains: \<open>crates/watcher/src/evm.rs\<close> and \<open>tron.rs\<close>. A node's answer to
  each request, after the retries of \<open>rpc.rs\<close>, is a parameter. Where the source panics (a slice
  inside a character, a \<open>Decimal\<close> over 96 bits) the result is \<open>None\<close>.
\<close>

section \<open>Hexadecimal numbers\<close>

definition hex_digit :: "char \<Rightarrow> int option" where
  "hex_digit c =
     (let n = (of_char c :: nat) in
      if 48 \<le> n \<and> n \<le> 57 then Some (int n - 48)
      else if 97 \<le> n \<and> n \<le> 102 then Some (int n - 87)
      else if 65 \<le> n \<and> n \<le> 70 then Some (int n - 55)
      else None)"

fun hex_digits :: "int \<Rightarrow> string \<Rightarrow> int option" where
  "hex_digits acc [] = Some acc"
| "hex_digits acc (c # cs) =
     (case hex_digit c of None \<Rightarrow> None | Some d \<Rightarrow> hex_digits (16 * acc + d) cs)"

text \<open>\<open>from_str_radix(_, 16)\<close> at an integer type of the given range: a sign, then at least one digit.\<close>

definition from_str_radix16 :: "bool \<Rightarrow> int \<Rightarrow> int \<Rightarrow> string \<Rightarrow> int option" where
  "from_str_radix16 is_signed lo hi s =
     (let (negative, ds) =
        (case s of
           c # d # cs \<Rightarrow>
             if c = CHR ''+'' then (False, d # cs)
             else if c = CHR ''-'' \<and> is_signed then (True, d # cs)
             else (False, s)
         | _ \<Rightarrow> (False, s))
      in if ds = [] then None
         else case hex_digits 0 ds of
           None \<Rightarrow> None
         | Some n \<Rightarrow> (let v = (if negative then - n else n) in if lo \<le> v \<and> v \<le> hi then Some v else None))"

definition trim_0x :: "string \<Rightarrow> string" where
  "trim_0x s = strip_leading [''0x''] s"

definition parse_hex_i64 :: "string \<Rightarrow> int option" where
  "parse_hex_i64 raw = from_str_radix16 True (- (2 ^ 63)) (2 ^ 63 - 1) (trim_0x raw)"

section \<open>Amounts\<close>

text \<open>
  \<open>raw as i128\<close>, then \<open>from_i128_with_scale\<close>, which panics over 96 bits, and \<open>set_scale\<close>, which
  fails over 28 decimals.
\<close>

definition as_i128 :: "int \<Rightarrow> int" where
  "as_i128 n = (if n < 2 ^ 127 then n else n - 2 ^ 128)"

definition scaled :: "int \<Rightarrow> nat \<Rightarrow> decimal option option" where
  "scaled raw decimals =
     (if \<bar>as_i128 raw\<bar> \<le> 2 ^ 96 - 1 then
        Some (if decimals \<le> 28 then Some (of_int (as_i128 raw) / 10 ^ decimals) else None)
      else None)"

definition parse_amount :: "string \<Rightarrow> nat \<Rightarrow> decimal option option" where
  "parse_amount data decimals =
     (let clean = trim_0x data in
      if clean = [] then Some None
      else case str_slice clean 0 (min (length clean) 64) of
        None \<Rightarrow> None
      | Some word \<Rightarrow>
          (case from_str_radix16 False 0 (2 ^ 128 - 1) word of
             None \<Rightarrow> Some None
           | Some raw \<Rightarrow> scaled raw decimals))"

text \<open>\<open>tron.rs\<close>: the amount is a decimal string.\<close>

definition scale_amount :: "string \<Rightarrow> nat \<Rightarrow> decimal option option" where
  "scale_amount raw decimals =
     (case parse_unsigned (2 ^ 128) raw of
        None \<Rightarrow> Some None
      | Some base \<Rightarrow> scaled (int base) decimals)"

section \<open>Topics\<close>

definition char_count :: "string \<Rightarrow> nat" where
  "char_count s = length (filter (\<lambda>c. \<not> continuation c) s)"

definition address_to_topic :: "string \<Rightarrow> string" where
  "address_to_topic address =
     (let clean = to_ascii_lowercase (trim_0x address)
      in ''0x'' @ replicate (64 - char_count clean) (CHR ''0'') @ clean)"

definition topic_to_address :: "string \<Rightarrow> string option" where
  "topic_to_address topic =
     (let clean = trim_0x topic in
      if length clean < 40 then Some (''0x'' @ clean)
      else map_option (\<lambda>low. ''0x'' @ to_ascii_lowercase low)
        (str_slice clean (length clean - 40) (length clean)))"

section \<open>EVM\<close>

record rpc_log =
  lg_address :: string
  lg_topics :: "string list"
  lg_data :: string
  lg_block_number :: string
  lg_block_hash :: string
  lg_tx_hash :: string
  lg_index :: string

record rpc_block =
  bk_hash :: string
  bk_number :: string

record rpc_receipt =
  rc_block_number :: string
  rc_block_hash :: string

definition evm_head :: "rpc_error + string \<Rightarrow> rpc_error + int" where
  "evm_head reply = res_bind reply (\<lambda>raw. ok_or (RpcOther ''block number'') (parse_hex_i64 raw))"

definition evm_block_hash :: "rpc_error + rpc_block option \<Rightarrow> rpc_error + string option" where
  "evm_block_hash reply = res_bind reply (\<lambda>b. Inr (map_option bk_hash b))"

definition transaction_location :: "rpc_error + rpc_receipt option \<Rightarrow> rpc_error + (int \<times> string) option" where
  "transaction_location reply = res_bind reply (\<lambda>r. Inr (case r of
       None \<Rightarrow> None
     | Some r \<Rightarrow> map_option (\<lambda>number. (number, rc_block_hash r)) (parse_hex_i64 (rc_block_number r))))"

definition or_zero :: "int option \<Rightarrow> int" where
  "or_zero x = (case x of None \<Rightarrow> 0 | Some n \<Rightarrow> n)"

text \<open>One log: skipped (\<open>Some None\<close>), or the transfer it shows.\<close>

definition transfer_of_log :: "network \<Rightarrow> string list \<Rightarrow> (string \<times> asset \<times> nat) list \<Rightarrow> rpc_log \<Rightarrow>
    observed_transfer option option" where
  "transfer_of_log n watched contracts' l =
     (case map_of (rev contracts') (to_ascii_lowercase (lg_address l)) of
        None \<Rightarrow> Some None
      | Some (a, decimals) \<Rightarrow>
          (if length (lg_topics l) \<le> 2 then Some None
           else case topic_to_address (lg_topics l ! 2) of
             None \<Rightarrow> None
           | Some to_address \<Rightarrow>
               if to_address \<notin> set watched then Some None
               else case parse_amount (lg_data l) decimals of
                 None \<Rightarrow> None
               | Some None \<Rightarrow> Some None
               | Some (Some amount) \<Rightarrow>
                   Some (Some \<lparr>t_network = n, t_tx_hash = lg_tx_hash l,
                     t_output_index = as_i32 (or_zero (parse_hex_i64 (lg_index l))),
                     t_to_address = to_address, t_asset = a, t_amount = amount,
                     t_block_number = or_zero (parse_hex_i64 (lg_block_number l)),
                     t_block_hash = lg_block_hash l\<rparr>)))"

fun transfers_of_logs :: "network \<Rightarrow> string list \<Rightarrow> (string \<times> asset \<times> nat) list \<Rightarrow> rpc_log list \<Rightarrow>
    observed_transfer list option" where
  "transfers_of_logs n watched contracts' [] = Some []"
| "transfers_of_logs n watched contracts' (l # ls) =
     (case transfer_of_log n watched contracts' l of
        None \<Rightarrow> None
      | Some t \<Rightarrow> map_option (\<lambda>ts. (case t of None \<Rightarrow> ts | Some t \<Rightarrow> t # ts))
          (transfers_of_logs n watched contracts' ls))"

text \<open>The request is made only when there is something to watch; \<open>logs\<close> is its answer.\<close>

definition token_transfers :: "network \<Rightarrow> rpc_error + rpc_log list \<Rightarrow> string list \<Rightarrow>
    (string \<times> asset \<times> nat) list \<Rightarrow> (rpc_error + observed_transfer list) option" where
  "token_transfers n logs watched contracts' =
     (if watched = [] \<or> contracts' = [] then Some (Inr [])
      else case logs of
        Inl e \<Rightarrow> Some (Inl e)
      | Inr ls \<Rightarrow> map_option Inr (transfers_of_logs n watched contracts' ls))"

section \<open>The window of a log query\<close>

record log_window =
  lw_size :: int
  lw_max :: int

definition window_new :: "int \<Rightarrow> log_window" where
  "window_new m = \<lparr>lw_size = max m 1, lw_max = max m 1\<rparr>"

definition window_shrink :: "log_window \<Rightarrow> bool \<times> log_window" where
  "window_shrink w =
     (if lw_size w \<le> 1 then (False, w) else (True, w\<lparr>lw_size := max (lw_size w div 2) 1\<rparr>))"

definition window_grow :: "log_window \<Rightarrow> log_window" where
  "window_grow w = w\<lparr>lw_size := min (lw_size w + max (lw_size w div 4) 1) (lw_max w)\<rparr>"

definition window_ok :: "log_window \<Rightarrow> bool" where
  "window_ok w \<longleftrightarrow> 1 \<le> lw_size w \<and> lw_size w \<le> lw_max w"

lemma window_ok_new: "window_ok (window_new m)"
  by (simp add: window_ok_def window_new_def)

lemma window_ok_shrink: "window_ok w \<Longrightarrow> window_ok (snd (window_shrink w))"
  by (auto simp: window_ok_def window_shrink_def)

lemma window_ok_grow: "window_ok w \<Longrightarrow> window_ok (window_grow w)"
  by (auto simp: window_ok_def window_grow_def)

text \<open>A window can be halved as often as its size has bits.\<close>

lemma window_shrink_halves:
  "window_ok w \<Longrightarrow> lw_size w < 2 ^ Suc k \<Longrightarrow> window_shrink w = (True, w') \<Longrightarrow> window_ok w' \<and> lw_size w' < 2 ^ k \<and> 0 < k"
  by (cases k) (auto simp: window_ok_def window_shrink_def split: if_splits)

section \<open>TRON\<close>

record trc20_transfer =
  tt_id :: string
  tt_to :: string
  tt_value :: string
  tt_contract :: string

text \<open>\<open>blockNumber\<close> of a transaction's information, when it is there and a number.\<close>

definition tron_transfer :: "(string \<times> asset \<times> nat) list \<Rightarrow> string \<Rightarrow> (string \<Rightarrow> rpc_error + int option) \<Rightarrow>
    trc20_transfer \<Rightarrow> observed_transfer option option" where
  "tron_transfer contracts' address block_of t =
     (case map_of (rev contracts') (tt_contract t) of
        None \<Rightarrow> Some None
      | Some (a, decimals) \<Rightarrow>
          (if \<not> eq_ignore_ascii_case (tt_to t) address then Some None
           else case scale_amount (tt_value t) decimals of
             None \<Rightarrow> None
           | Some None \<Rightarrow> Some None
           | Some (Some amount) \<Rightarrow>
               (case block_of (tt_id t) of
                  Inr (Some block) \<Rightarrow>
                    Some (Some \<lparr>t_network = NTron, t_tx_hash = tt_id t, t_output_index = 0, t_to_address = tt_to t,
                      t_asset = a, t_amount = amount, t_block_number = block, t_block_hash = []\<rparr>)
                | Inr None \<Rightarrow> Some None
                | Inl _ \<Rightarrow> Some None)))"

fun tron_transfers :: "(string \<times> asset \<times> nat) list \<Rightarrow> string \<Rightarrow> (string \<Rightarrow> rpc_error + int option) \<Rightarrow>
    trc20_transfer list \<Rightarrow> observed_transfer list option" where
  "tron_transfers contracts' address block_of [] = Some []"
| "tron_transfers contracts' address block_of (t # ts) =
     (case tron_transfer contracts' address block_of t of
        None \<Rightarrow> None
      | Some r \<Rightarrow> map_option (\<lambda>rs. (case r of None \<Rightarrow> rs | Some x \<Rightarrow> x # rs))
          (tron_transfers contracts' address block_of ts))"

definition transfers_to :: "string \<Rightarrow> rpc_error + trc20_transfer list \<Rightarrow> (string \<Rightarrow> rpc_error + int option) \<Rightarrow>
    (string \<times> asset \<times> nat) list \<Rightarrow> (rpc_error + observed_transfer list) option" where
  "transfers_to address reply block_of contracts' =
     (case reply of
        Inl e \<Rightarrow> Some (Inl e)
      | Inr ts \<Rightarrow> map_option Inr (tron_transfers contracts' address block_of ts))"

section \<open>Facts\<close>

lemma transfers_of_logs_member:
  "transfers_of_logs n watched cs ls = Some ts \<Longrightarrow> l \<in> set ls \<Longrightarrow> transfer_of_log n watched cs l = Some (Some t) \<Longrightarrow> t \<in> set ts"
  by (induction ls arbitrary: ts) (auto split: option.splits)

lemma transfers_of_logs_from:
  "transfers_of_logs n watched cs ls = Some ts \<Longrightarrow> t \<in> set ts \<Longrightarrow> \<exists>l \<in> set ls. transfer_of_log n watched cs l = Some (Some t)"
  by (induction ls arbitrary: ts) (auto split: option.splits)

text \<open>Only a known contract is ever turned into a transfer, and only to a watched address.\<close>

lemma transfer_of_log_checked:
  assumes "transfer_of_log n watched cs l = Some (Some t)"
  shows "t_network t = n" "t_to_address t \<in> set watched" "t_tx_hash t = lg_tx_hash l"
    "\<exists>d. (to_ascii_lowercase (lg_address l), t_asset t, d) \<in> set cs \<and> parse_amount (lg_data l) d = Some (Some (t_amount t))"
  using assms unfolding transfer_of_log_def
  by (auto split: option.splits prod.splits if_splits dest!: map_of_SomeD)

section \<open>Addresses and topics round trip\<close>

definition hex_char :: "char \<Rightarrow> bool" where
  "hex_char c \<longleftrightarrow> hex_digit c \<noteq> None"

lemma trim_0x_hex:
  assumes "list_all hex_char s"
  shows "trim_0x (''0x'' @ s) = s" "trim_0x s = s"
proof -
  have "\<not> prefix ''0x'' s"
    using assms by (auto simp: prefix_def hex_char_def hex_digit_def)
  then have s: "strip_leading [''0x''] s = s" by (intro strip_leading_same) auto
  then show "trim_0x s = s" by (simp add: trim_0x_def)
  show "trim_0x (''0x'' @ s) = s"
    unfolding trim_0x_def by (subst strip_leading.simps) (simp add: s)
qed

lemma hex_char_lower: "hex_char c \<Longrightarrow> hex_char (to_ascii_lower_char c)"
  by (auto simp: hex_char_def hex_digit_def to_ascii_lower_char_def Let_def split: if_splits)

lemma hex_lowercase: "list_all hex_char s \<Longrightarrow> list_all hex_char (to_ascii_lowercase s)"
  by (auto simp: to_ascii_lowercase_def list_all_iff hex_char_lower)

lemma hex_not_continuation: "hex_char c \<Longrightarrow> \<not> continuation c"
  by (auto simp: hex_char_def hex_digit_def continuation_def Let_def split: if_splits)

lemma hex_ascii: "list_all hex_char s \<Longrightarrow> is_ascii s"
  by (auto simp: is_ascii_def list_all_iff hex_char_def hex_digit_def Let_def split: if_splits)

lemma hex_count: "list_all hex_char s \<Longrightarrow> char_count s = length s"
  by (simp add: char_count_def list_all_iff hex_not_continuation)

lemma topic_of_address:
  assumes "list_all hex_char a" "length a = 40"
  shows "topic_to_address (address_to_topic (''0x'' @ a)) = Some (''0x'' @ to_ascii_lowercase a)"
proof -
  let ?z = "replicate 24 (CHR ''0'')"
  have h: "list_all hex_char (?z @ to_ascii_lowercase a)"
    using hex_lowercase [OF assms(1)] by (simp add: list_all_iff hex_char_def hex_digit_def)
  have t: "address_to_topic (''0x'' @ a) = ''0x'' @ ?z @ to_ascii_lowercase a"
    unfolding address_to_topic_def trim_0x_hex(1) [OF assms(1)] Let_def hex_count [OF hex_lowercase [OF assms(1)]]
    using assms(2) by simp
  have "trim_0x (''0x'' @ ?z @ to_ascii_lowercase a) = ?z @ to_ascii_lowercase a" by (rule trim_0x_hex(1) [OF h])
  moreover have "str_slice (?z @ to_ascii_lowercase a) 24 64 = Some (to_ascii_lowercase a)"
    using assms by (subst ascii_slice [OF hex_ascii [OF h]]) simp_all
  ultimately show ?thesis using assms unfolding t topic_to_address_def Let_def by simp
qed

end
