(* ===== verification/Watcher.thy ===== *)
theory Watcher
  imports Deposit_Store
begin

text \<open>
  The steps of a network's watcher on the deposit tables, \<open>crates/watcher/src/main.rs\<close>: recording a
  transfer, advancing the deposits that wait for confirmations, and the reorg sweep. The answers of
  the node are parameters. The invariant ties every user's ledger balance to their confirmed
  deposits and is kept by each step.
\<close>

section \<open>Steps\<close>

definition handle_transfer :: "(uuid \<Rightarrow> string) \<Rightarrow> env \<Rightarrow> observed_transfer \<Rightarrow> int \<Rightarrow>
    'z watcher_db_scheme \<Rightarrow> 'z watcher_db_scheme" where
  "handle_transfer show_uuid env t head db =
     (case wallet_for (t_network t) (t_to_address t) db of
        None \<Rightarrow> db
      | Some (wallet, user) \<Rightarrow>
          (let action = classify t head;
               (status, confirmations) =
                 (case action of
                    IgnoreDust _ \<Rightarrow> (Ignored, 0)
                  | Record c \<Rightarrow> (Seen, c)
                  | Credit c \<Rightarrow> (Seen, c))
           in case upsert_deposit (new_id env 3) t user wallet confirmations status db of
                Inl _ \<Rightarrow> db
              | Inr ((deposit_id, existing), db1) \<Rightarrow>
                  if existing = Confirmed \<or> existing = Reversed then db1
                  else (case action of
                          Credit _ \<Rightarrow>
                            (case credit_deposit show_uuid env deposit_id t db1 of
                               Inl _ \<Rightarrow> db1
                             | Inr (_, db2) \<Rightarrow> db2)
                        | _ \<Rightarrow> db1)))"

text \<open>The transfer the watcher rebuilds from a stored deposit.\<close>

definition transfer_of_row :: "network \<Rightarrow> deposit_row \<Rightarrow> asset \<Rightarrow> observed_transfer" where
  "transfer_of_row n r a =
     \<lparr>t_network = n, t_tx_hash = dp_tx_hash r, t_output_index = dp_output_index r,
      t_to_address = [], t_asset = a, t_amount = dp_amount r,
      t_block_number = dp_block_number r,
      t_block_hash = (case dp_block_hash r of None \<Rightarrow> [] | Some h \<Rightarrow> h)\<rparr>"

text \<open>One turn of \<open>advance_pending\<close>; \<open>envs\<close> gives each deposit's transaction its ids.\<close>

definition advance_one :: "(uuid \<Rightarrow> string) \<Rightarrow> (uuid \<Rightarrow> env) \<Rightarrow> network \<Rightarrow> int \<Rightarrow> deposit_row \<Rightarrow>
    'z watcher_db_scheme \<Rightarrow> 'z watcher_db_scheme" where
  "advance_one show_uuid envs n head r db =
     (let confirmations = confirmations_at head (dp_block_number r) in
      if confirmations < min_confirmations n then set_confirmations (dp_id r) confirmations db
      else case asset_from_str (dp_asset r) of
        Inl _ \<Rightarrow> db
      | Inr a \<Rightarrow>
          (case credit_deposit show_uuid (envs (dp_id r)) (dp_id r) (transfer_of_row n r a) db of
             Inl _ \<Rightarrow> db
           | Inr (_, db') \<Rightarrow> db'))"

definition advance_pending :: "(uuid \<Rightarrow> string) \<Rightarrow> (uuid \<Rightarrow> env) \<Rightarrow> network \<Rightarrow> int \<Rightarrow>
    'z watcher_db_scheme \<Rightarrow> 'z watcher_db_scheme" where
  "advance_pending show_uuid envs n head db =
     fold (advance_one show_uuid envs n head) (pending_deposits n db) db"

text \<open>
  One turn of \<open>check_reorgs\<close>. \<open>block_hash\<close> is the node's answer at a height (asked once per height:
  the source caches it), \<open>location d\<close> its answer about the transaction of deposit \<open>d\<close>: an error, no
  receipt, or the block it is in. A failing reversal stops the sweep.
\<close>

definition reorg_one :: "(uuid \<Rightarrow> string) \<Rightarrow> (uuid \<Rightarrow> env) \<Rightarrow> network \<Rightarrow> (int \<Rightarrow> string option) \<Rightarrow>
    (uuid \<Rightarrow> string + (int \<times> string) option) \<Rightarrow> deposit_row \<Rightarrow>
    'z watcher_db_scheme \<Rightarrow> watch_error + 'z watcher_db_scheme" where
  "reorg_one show_uuid envs n block_hash location r db =
     (case dp_block_hash r of
        None \<Rightarrow> Inr db
      | Some recorded_hash \<Rightarrow>
          if recorded_hash = [] then Inr db
          else case block_hash (dp_block_number r) of
            None \<Rightarrow> Inr db
          | Some current \<Rightarrow>
              if eq_ignore_ascii_case current recorded_hash then Inr db
              else case location (dp_id r) of
                Inr (Some (block, h)) \<Rightarrow> Inr (relocate_deposit (dp_id r) block h db)
              | Inl _ \<Rightarrow> Inr db
              | Inr None \<Rightarrow>
                  (case asset_from_str (dp_asset r) of
                     Inl _ \<Rightarrow> Inr db
                   | Inr a \<Rightarrow>
                       (case reverse_deposit show_uuid (envs (dp_id r)) (dp_id r)
                              (transfer_of_row n r a) db of
                          Inl err \<Rightarrow> Inl err
                        | Inr (_, db') \<Rightarrow> Inr db')))"

text \<open>The sweep with the tables as it leaves them: each reversal was committed on its own.\<close>

fun reorg_sweep :: "(uuid \<Rightarrow> string) \<Rightarrow> (uuid \<Rightarrow> env) \<Rightarrow> network \<Rightarrow> (int \<Rightarrow> string option) \<Rightarrow>
    (uuid \<Rightarrow> string + (int \<times> string) option) \<Rightarrow> deposit_row list \<Rightarrow>
    'z watcher_db_scheme \<Rightarrow> watch_error option \<times> 'z watcher_db_scheme" where
  "reorg_sweep show_uuid envs n block_hash location [] db = (None, db)"
| "reorg_sweep show_uuid envs n block_hash location (r # rs) db =
     (case reorg_one show_uuid envs n block_hash location r db of
        Inl err \<Rightarrow> (Some err, db)
      | Inr db' \<Rightarrow> reorg_sweep show_uuid envs n block_hash location rs db')"

definition check_reorgs :: "(uuid \<Rightarrow> string) \<Rightarrow> (uuid \<Rightarrow> env) \<Rightarrow> network \<Rightarrow> int \<Rightarrow> (int \<Rightarrow> string option) \<Rightarrow>
    (uuid \<Rightarrow> string + (int \<times> string) option) \<Rightarrow>
    'z watcher_db_scheme \<Rightarrow> watch_error option \<times> 'z watcher_db_scheme" where
  "check_reorgs show_uuid envs n head block_hash location db =
     reorg_sweep show_uuid envs n block_hash location (reorg_window n (head - rescan_depth n) db) db"

section \<open>The invariant\<close>

text \<open>What a user holds of an asset by the deposit table, and by the ledger.\<close>

definition confirmed_total :: "'z watcher_db_scheme \<Rightarrow> uuid \<Rightarrow> asset \<Rightarrow> decimal" where
  "confirmed_total db user a = sum_list (map dp_amount
     (filter (\<lambda>r. dp_status r = Confirmed \<and> dp_user r = user \<and> dp_asset r = asset_as_str a) (deposits db)))"

definition confirmed_custody :: "'z watcher_db_scheme \<Rightarrow> asset \<Rightarrow> decimal" where
  "confirmed_custody db a = sum_list (map dp_amount
     (filter (\<lambda>r. dp_status r = Confirmed \<and> dp_asset r = asset_as_str a) (deposits db)))"

definition user_crypto_balance :: "'z watcher_db_scheme \<Rightarrow> uuid \<Rightarrow> asset \<Rightarrow> decimal" where
  "user_crypto_balance db user a =
     user_facing_balance UserCrypto (kind_balance db UserCrypto (Some user) a)"

definition row_for :: "observed_transfer \<Rightarrow> deposit_row \<Rightarrow> bool" where
  "row_for t r \<longleftrightarrow> dp_network r = t_network t \<and> dp_tx_hash r = t_tx_hash t \<and>
     dp_output_index r = t_output_index t"

text \<open>A settled key belongs to a deposit in the state the key says.\<close>

definition keys_settled :: "'z watcher_db_scheme \<Rightarrow> bool" where
  "keys_settled db \<longleftrightarrow>
     (\<forall>t. key_posted db (idempotency_key ''deposit'' t) \<longrightarrow>
        (\<exists>r \<in> set (deposits db). row_for t r \<and> dp_status r \<in> {Confirmed, Reversed})) \<and>
     (\<forall>t. key_posted db (idempotency_key ''reversal'' t) \<longrightarrow>
        (\<exists>r \<in> set (deposits db). row_for t r \<and> dp_status r = Reversed))"

definition deposits_ok :: "'z watcher_db_scheme \<Rightarrow> bool" where
  "deposits_ok db \<longleftrightarrow>
     distinct (map dp_id (deposits db)) \<and>
     distinct (map dp_key (deposits db)) \<and>
     (\<forall>r \<in> set (deposits db). 0 < dp_amount r \<and> dp_chain r = network_chain (dp_network r) \<and>
        (\<exists>a. dp_asset r = asset_as_str a) \<and>
        (dp_status r = Confirmed \<longrightarrow> dp_credited r \<noteq> None) \<and>
        (dp_status r = Reversed \<longrightarrow> dp_reversed r \<noteq> None))"

definition watch_inv :: "'z watcher_db_scheme \<Rightarrow> bool" where
  "watch_inv db \<longleftrightarrow> wf_ledger db \<and> deposits_ok db \<and> keys_settled db \<and>
     (\<forall>user a. kind_balance db UserCrypto (Some user) a = - confirmed_total db user a) \<and>
     (\<forall>a. kind_balance db CustodyDepositAddrs None a = confirmed_custody db a)"

text \<open>
  The transfer names the deposit row it collides with: same network and same asset. This is what a
  chain promises about a transaction hash and an output index; two EVM networks that carry the
  same hash do not satisfy it.
\<close>

definition agrees :: "observed_transfer \<Rightarrow> deposit_row \<Rightarrow> bool" where
  "agrees t r \<longleftrightarrow> dp_network r = t_network t \<and> dp_asset r = asset_as_str (t_asset t)"

definition no_collision :: "observed_transfer \<Rightarrow> 'z watcher_db_scheme \<Rightarrow> bool" where
  "no_collision t db \<longleftrightarrow> (\<forall>r \<in> set (deposits db). dp_key r = t_key t \<longrightarrow> agrees t r)"

section \<open>Credit and reversal keep the invariant\<close>

lemma row_for_key: "row_for t r \<Longrightarrow> dp_chain r = network_chain (dp_network r) \<Longrightarrow> dp_key r = t_key t"
  by (auto simp: row_for_def dp_key_def t_key_def)

lemma row_unique:
  assumes "deposits_ok db" "r \<in> set (deposits db)" "r' \<in> set (deposits db)" "dp_key r = dp_key r'"
  shows "r = r'"
proof -
  have "inj_on dp_key (set (deposits db))" using assms(1) by (simp add: deposits_ok_def distinct_map)
  then show ?thesis using assms(2-) by (auto dest: inj_onD)
qed

lemma row_id_unique:
  assumes "deposits_ok db" "r \<in> set (deposits db)" "r' \<in> set (deposits db)" "dp_id r = dp_id r'"
  shows "r = r'"
proof -
  have "inj_on dp_id (set (deposits db))" using assms(1) by (simp add: deposits_ok_def distinct_map)
  then show ?thesis using assms(2-) by (auto dest: inj_onD)
qed

text \<open>A change of one row's status moves the confirmed sums by that row's amount.\<close>

definition held :: "deposit_row \<Rightarrow> uuid \<Rightarrow> asset \<Rightarrow> decimal" where
  "held r user a =
     (if dp_status r = Confirmed \<and> dp_user r = user \<and> dp_asset r = asset_as_str a then dp_amount r else 0)"

definition held_custody :: "deposit_row \<Rightarrow> asset \<Rightarrow> decimal" where
  "held_custody r a = (if dp_status r = Confirmed \<and> dp_asset r = asset_as_str a then dp_amount r else 0)"

lemma sum_filter_if:
  fixes g :: "'r \<Rightarrow> rat"
  shows "sum_list (map g (filter p xs)) = sum_list (map (\<lambda>x. if p x then g x else 0) xs)"
  by (induction xs) simp_all

lemma confirmed_sums:
  "confirmed_total db user a = sum_list (map (\<lambda>r. held r user a) (deposits db))"
  "confirmed_custody db a = sum_list (map (\<lambda>r. held_custody r a) (deposits db))"
  by (simp_all add: confirmed_total_def confirmed_custody_def held_def held_custody_def sum_filter_if)

lemma confirmed_update:
  assumes "deposits_ok db" "r \<in> set (deposits db)"
    and "deposits db' = update_where (\<lambda>x. dp_id x = dp_id r) f (deposits db)"
  shows "confirmed_total db' user a = confirmed_total db user a - held r user a + held (f r) user a"
    and "confirmed_custody db' a = confirmed_custody db a - held_custody r a + held_custody (f r) a"
  using assms sum_list_update_where [of dp_id "deposits db" r "dp_id r"]
  by (simp_all add: confirmed_sums deposits_ok_def)

lemma deposits_ok_update:
  assumes "deposits_ok db" "deposits db' = update_where p f (deposits db)"
    and "\<And>r. dp_id (f r) = dp_id r" "\<And>r. dp_key (f r) = dp_key r"
    and "\<And>r. dp_amount (f r) = dp_amount r"
    and "\<And>r. dp_network (f r) = dp_network r" "\<And>r. dp_chain (f r) = dp_chain r"
    and "\<And>r. dp_asset (f r) = dp_asset r"
    and "\<And>r. r \<in> set (deposits db) \<Longrightarrow> p r \<Longrightarrow> dp_status (f r) = Confirmed \<Longrightarrow> dp_credited (f r) \<noteq> None"
    and "\<And>r. r \<in> set (deposits db) \<Longrightarrow> p r \<Longrightarrow> dp_status (f r) = Reversed \<Longrightarrow> dp_reversed (f r) \<noteq> None"
  shows "deposits_ok db'"
  using assms unfolding deposits_ok_def
  by (auto simp: map_update_where set_update_where)

lemma more_deposits: "ledger.more db = ledger.more db' \<Longrightarrow> deposits db = deposits db'"
  by (cases db; cases db') simp

lemma deposits_update_frame [simp]:
  "wf_ledger (db\<lparr>deposits := ds\<rparr>) = wf_ledger db"
  "key_posted (db\<lparr>deposits := ds\<rparr>) k = key_posted db k"
  "raw_balance (db\<lparr>deposits := ds\<rparr>) x = raw_balance db x"
  "find_account kd u a (db\<lparr>deposits := ds\<rparr>) = find_account kd u a db"
  by (simp_all add: wf_ledger_def key_posted_def find_account_def raw_balance_def journal_residual_def)

lemma deposits_update_kind [simp]:
  "kind_balance (db\<lparr>deposits := ds\<rparr>) kd u a = kind_balance db kd u a"
  by (simp add: kind_balance_def split: option.split)

text \<open>
  The common part of the two transactions: two accounts, a journal of amount \<open>x\<close> into custody and
  out of the user's account under a new key, and the row's new status.
\<close>

lemma settle_row:
  assumes inv: "watch_inv db" and r: "r \<in> set (deposits db)"
    and s1: "account_step CustodyDepositAddrs None a c db db1"
    and s2: "account_step UserCrypto (Some (dp_user r)) a u db1 db2"
    and j: "j_entries j = [\<lparr>e_account_id = c, e_account_kind = CustodyDepositAddrs, e_asset = a, e_amount = x\<rparr>,
                           \<lparr>e_account_id = u, e_account_kind = UserCrypto, e_asset = a, e_amount = - x\<rparr>]"
    and valid: "valid_journal j" and key: "j_idempotency_key j = idempotency_key kind t"
    and kind: "kind = ''deposit'' \<or> kind = ''reversal''"
    and fresh: "\<not> key_posted db (idempotency_key kind t)"
    and p: "post i j db2 = Inr (out, db3)"
    and db': "db' = db3\<lparr>deposits := update_where (\<lambda>y. dp_id y = dp_id r) f (deposits db3)\<rparr>"
    and f: "\<And>y. dp_id (f y) = dp_id y \<and> dp_key (f y) = dp_key y \<and> dp_amount (f y) = dp_amount y \<and>
        dp_network (f y) = dp_network y \<and> dp_chain (f y) = dp_chain y \<and> dp_user (f y) = dp_user y \<and>
        dp_asset (f y) = dp_asset y \<and> dp_status (f y) = st"
    and st: "st = Confirmed \<and> kind = ''deposit'' \<and> (\<forall>y. dp_credited (f y) \<noteq> None) \<or>
             st = Reversed \<and> (\<forall>y. dp_reversed (f y) \<noteq> None)"
    and x: "x = (if st = Confirmed then dp_amount r else 0) -
                (if dp_status r = Confirmed then dp_amount r else 0)"
    and agree: "row_for t r" "dp_asset r = asset_as_str a"
    and mono: "dp_status r \<noteq> Reversed"
  shows "watch_inv db'"
proof -
  have wf: "wf_ledger db" and ok: "deposits_ok db" and keys: "keys_settled db"
    and ub: "\<And>user b. kind_balance db UserCrypto (Some user) b = - confirmed_total db user b"
    and cb: "\<And>b. kind_balance db CustodyDepositAddrs None b = confirmed_custody db b"
    using inv by (auto simp: watch_inv_def)
  have wf1: "wf_ledger db1" using account_step_wf [OF s1 wf] .
  have wf2: "wf_ledger db2" using account_step_wf [OF s2 wf1] .
  have fc: "find_account CustodyDepositAddrs None a db2 = Some c"
    using account_step_keeps [OF s2 account_step_found [OF s1 wf]] .
  have fu: "find_account UserCrypto (Some (dp_user r)) a db2 = Some u"
    using account_step_found [OF s2 wf1] .
  have kp: "key_posted db2 k = key_posted db k" for k
    using account_step_frame(4) [OF s1] account_step_frame(4) [OF s2] by simp
  have kb: "kind_balance db2 k v b = kind_balance db k v b" for k v b
    using account_step_kind_balance [OF s1 wf] account_step_kind_balance [OF s2 wf1] by simp
  have kb3: "kind_balance db3 k v b = kind_balance db k v b +
      (if k = CustodyDepositAddrs \<and> v = None \<and> b = a then x else 0) +
      (if k = UserCrypto \<and> v = Some (dp_user r) \<and> b = a then - x else 0)" for k v b
    using pair_post [OF wf2 fc fu j p, of k v b] fresh by (simp add: kp kb key)
  have wf3: "wf_ledger db3" using post_wf [OF wf2 valid p] .
  have "ledger.more db3 = ledger.more db"
    using post_effect(5) [OF p] account_step_frame(6) [OF s2] account_step_frame(6) [OF s1] by simp
  then have ds3: "deposits db3 = deposits db" by (rule more_deposits)
  have ds': "deposits db' = update_where (\<lambda>y. dp_id y = dp_id r) f (deposits db)"
    by (simp add: db' ds3)
  have ok': "deposits_ok db'"
    by (rule deposits_ok_update [OF ok ds']) (use f st in auto)
  have sums: "confirmed_total db' user b = confirmed_total db user b - held r user b + held (f r) user b"
    "confirmed_custody db' b = confirmed_custody db b - held_custody r b + held_custody (f r) b" for user b
    using confirmed_update [OF ok r ds'] by blast+
  have fr: "dp_user (f r) = dp_user r" "dp_asset (f r) = dp_asset r" "dp_amount (f r) = dp_amount r"
    "dp_status (f r) = st" using f by auto
  have kb': "kind_balance db' k v b = kind_balance db3 k v b" for k v b
    by (simp add: db')
  have "kind_balance db' UserCrypto (Some user) b = - confirmed_total db' user b" for user b
    using kb3 [of UserCrypto "Some user" b] ub [of user b] agree(2) st x
    by (auto simp: kb' sums held_def fr asset_text.to_s_inj)
  moreover have "kind_balance db' CustodyDepositAddrs None b = confirmed_custody db' b" for b
    using kb3 [of CustodyDepositAddrs None b] cb [of b] agree(2) st x
    by (auto simp: kb' sums held_custody_def fr asset_text.to_s_inj)
  moreover have "keys_settled db'"
  proof -
    have seen: "key_posted db' k \<longleftrightarrow> key_posted db k \<or> k = idempotency_key kind t" for k
      using post_effect(2) [OF p, of k] by (simp add: db' kp key)
    have r': "f r \<in> set (deposits db')" using r by (force simp: ds' set_update_where)
    have other: "\<exists>y' \<in> set (deposits db'). (\<forall>t'. row_for t' y \<longrightarrow> row_for t' y') \<and>
        (dp_status y \<in> {Confirmed, Reversed} \<longrightarrow> dp_status y' \<in> {Confirmed, Reversed}) \<and>
        (dp_status y = Reversed \<longrightarrow> dp_status y' = Reversed)" if "y \<in> set (deposits db)" for y
    proof (cases "dp_id y = dp_id r")
      case True
      then have "y = r" using row_id_unique [OF ok that r] by simp
      then show ?thesis using r' f [of r] st mono
        by (intro bexI [of _ "f r"]) (auto simp: row_for_def dp_key_def)
    next
      case False
      then have "y \<in> set (deposits db')" using that by (force simp: ds' set_update_where)
      then show ?thesis by blast
    qed
    have this': "row_for t' (f r)" if "idempotency_key kind t' = idempotency_key kind t" for t'
    proof -
      have "CHR '':'' \<notin> set kind" using kind by auto
      then show ?thesis using that agree(1) f [of r]
        by (auto simp: idempotency_key_inj row_for_def dp_key_def)
    qed
    show ?thesis
      unfolding keys_settled_def
    proof (intro conjI allI impI)
      fix t' assume "key_posted db' (idempotency_key ''deposit'' t')"
      then consider "key_posted db (idempotency_key ''deposit'' t')"
        | "idempotency_key ''deposit'' t' = idempotency_key kind t" using seen by auto
      then show "\<exists>y \<in> set (deposits db'). row_for t' y \<and> dp_status y \<in> {Confirmed, Reversed}"
      proof cases
        case 1
        then show ?thesis using keys other unfolding keys_settled_def by meson
      next
        case 2
        then have "kind = ''deposit''" using kind deposit_reversal_keys_differ by auto
        then show ?thesis using 2 this' r' fr(4) st by auto
      qed
    next
      fix t' assume "key_posted db' (idempotency_key ''reversal'' t')"
      then consider "key_posted db (idempotency_key ''reversal'' t')"
        | "idempotency_key ''reversal'' t' = idempotency_key kind t" using seen by auto
      then show "\<exists>y \<in> set (deposits db'). row_for t' y \<and> dp_status y = Reversed"
      proof cases
        case 1
        then show ?thesis using keys other unfolding keys_settled_def by meson
      next
        case 2
        then have "kind = ''reversal''" using kind deposit_reversal_keys_differ by metis
        then show ?thesis using 2 this' r' fr(4) st by auto
      qed
    qed
  qed
  ultimately show ?thesis using wf3 ok' by (simp add: watch_inv_def db')
qed

lemma watch_inv_ok: "watch_inv db \<Longrightarrow> deposits_ok db"
  by (simp add: watch_inv_def)

lemma row_amount_pos: "deposits_ok db \<Longrightarrow> r \<in> set (deposits db) \<Longrightarrow> 0 < dp_amount r"
  by (simp add: deposits_ok_def)

text \<open>A key that was posted for another row's state is not this row's.\<close>

lemma fresh_deposit_key:
  assumes "watch_inv db" "r \<in> set (deposits db)" "row_for t r" "dp_status r \<notin> {Confirmed, Reversed}"
  shows "\<not> key_posted db (idempotency_key ''deposit'' t)"
proof
  assume "key_posted db (idempotency_key ''deposit'' t)"
  then obtain r' where r': "r' \<in> set (deposits db)" "row_for t r'" "dp_status r' \<in> {Confirmed, Reversed}"
    using assms(1) by (auto simp: watch_inv_def keys_settled_def)
  have "dp_key r = dp_key r'"
    using assms r' row_for_key watch_inv_ok [OF assms(1)] unfolding deposits_ok_def by metis
  then have "r = r'" using row_unique [OF watch_inv_ok [OF assms(1)] assms(2) r'(1)] by simp
  with r' assms(4) show False by simp
qed

lemma fresh_reversal_key:
  assumes "watch_inv db" "r \<in> set (deposits db)" "row_for t r" "dp_status r \<noteq> Reversed"
  shows "\<not> key_posted db (idempotency_key ''reversal'' t)"
proof
  assume "key_posted db (idempotency_key ''reversal'' t)"
  then obtain r' where r': "r' \<in> set (deposits db)" "row_for t r'" "dp_status r' = Reversed"
    using assms(1) by (auto simp: watch_inv_def keys_settled_def)
  have "dp_key r = dp_key r'"
    using assms r' row_for_key watch_inv_ok [OF assms(1)] unfolding deposits_ok_def by metis
  then have "r = r'" using row_unique [OF watch_inv_ok [OF assms(1)] assms(2) r'(1)] by simp
  with r' assms(4) show False by simp
qed

lemma fetch_by_id:
  assumes "deposits_ok db" "r \<in> set (deposits db)"
  shows "fetch_optional (\<lambda>y. dp_id y = dp_id r) (deposits db) = Some r"
  by (rule fetch_optional_unique) (use assms row_id_unique in auto)

lemma credit_deposit_inv:
  assumes inv: "watch_inv db" and r: "r \<in> set (deposits db)"
    and agree: "row_for t r" "dp_asset r = asset_as_str (t_asset t)"
    and res: "credit_deposit sh env (dp_id r) t db = Inr (b, db')"
  shows "watch_inv db'"
proof (cases "dp_status r = Confirmed \<or> dp_status r = Reversed")
  case True
  then show ?thesis using res inv fetch_by_id [OF watch_inv_ok [OF inv] r] by (auto simp: credit_deposit_def)
next
  case False
  note f = fetch_by_id [OF watch_inv_ok [OF inv] r]
  have nz: "dp_amount r \<noteq> 0" using row_amount_pos [OF watch_inv_ok [OF inv] r] by simp
  from res False f obtain c db1 u db2 j out db3 where
      s1: "account_id (new_id env 0) CustodyDepositAddrs None (t_asset t) db = Inr (c, db1)"
    and s2: "account_id (new_id env 1) UserCrypto (Some (dp_user r)) (t_asset t) db1 = Inr (u, db2)"
    and j: "credit_journal sh (dp_id r) c u (t_asset t) (dp_amount r) t = Inr j"
    and p: "post (new_id env 2) j db2 = Inr (out, db3)"
    and db': "db' = db3\<lparr>deposits := update_where (\<lambda>y. dp_id y = dp_id r)
          (\<lambda>y. y\<lparr>dp_status := Confirmed, dp_credited := Some (outcome_journal_id out)\<rparr>) (deposits db3)\<rparr>"
    by (auto simp: credit_deposit_def res_bind_Inr_iff)
  show ?thesis
    by (rule credit_journal_ok [OF nz, of sh "dp_id r" c u "t_asset t" t],
        rule settle_row [OF inv r account_id_step [OF s1] account_id_step [OF s2],
          where kind = "''deposit''" and t = t and st = Confirmed])
      (use j p db' agree False fresh_deposit_key [OF inv r agree(1)] in \<open>auto simp: dp_key_def\<close>)
qed

lemma reverse_deposit_inv:
  assumes inv: "watch_inv db" and r: "r \<in> set (deposits db)"
    and agree: "row_for t r" "dp_asset r = asset_as_str (t_asset t)"
    and res: "reverse_deposit sh env (dp_id r) t db = Inr (b, db')"
  shows "watch_inv db'"
proof (cases "dp_status r = Confirmed")
  case False
  then show ?thesis using res inv fetch_by_id [OF watch_inv_ok [OF inv] r] by (auto simp: reverse_deposit_def)
next
  case True
  note f = fetch_by_id [OF watch_inv_ok [OF inv] r]
  have nz: "dp_amount r \<noteq> 0" using row_amount_pos [OF watch_inv_ok [OF inv] r] by simp
  from res True f obtain c db1 u db2 j out db3 where
      s1: "account_id (new_id env 0) CustodyDepositAddrs None (t_asset t) db = Inr (c, db1)"
    and s2: "account_id (new_id env 1) UserCrypto (Some (dp_user r)) (t_asset t) db1 = Inr (u, db2)"
    and j: "reversal_journal sh (dp_id r) c u (t_asset t) (dp_amount r) t = Inr j"
    and p: "post (new_id env 2) j db2 = Inr (out, db3)"
    and db': "db' = db3\<lparr>deposits := update_where (\<lambda>y. dp_id y = dp_id r)
          (\<lambda>y. y\<lparr>dp_status := Reversed, dp_reversed := Some (outcome_journal_id out)\<rparr>) (deposits db3)\<rparr>"
    by (auto simp: reverse_deposit_def res_bind_Inr_iff)
  show ?thesis
    by (rule reversal_journal_ok [OF nz, of sh "dp_id r" c u "t_asset t" t],
        rule settle_row [OF inv r account_id_step [OF s1] account_id_step [OF s2],
          where kind = "''reversal''" and t = t and st = Reversed and x = "- dp_amount r"])
      (use j p db' agree True fresh_reversal_key [OF inv r agree(1)] in \<open>auto simp: dp_key_def\<close>)
qed

text \<open>Updates that leave identity, amount and status alone keep the invariant.\<close>

lemma keys_settled_weaken:
  assumes "keys_settled db" "\<And>k. key_posted db' k = key_posted db k"
    and "\<And>r t. r \<in> set (deposits db) \<Longrightarrow> \<exists>r' \<in> set (deposits db'). (row_for t r \<longrightarrow> row_for t r') \<and>
      (dp_status r \<in> {Confirmed, Reversed} \<longrightarrow> dp_status r' = dp_status r)"
  shows "keys_settled db'"
  using assms unfolding keys_settled_def by (smt (verit) insertCI)

lemma quiet_update_inv:
  assumes inv: "watch_inv db"
    and db': "db' = db\<lparr>deposits := update_where p f (deposits db)\<rparr>"
    and f: "\<And>r. dp_id (f r) = dp_id r \<and> dp_key (f r) = dp_key r \<and> dp_amount (f r) = dp_amount r \<and>
        dp_network (f r) = dp_network r \<and> dp_chain (f r) = dp_chain r \<and> dp_user (f r) = dp_user r \<and>
        dp_asset (f r) = dp_asset r \<and> dp_credited (f r) = dp_credited r \<and> dp_reversed (f r) = dp_reversed r"
    and st: "\<And>r. p r \<Longrightarrow> dp_status (f r) = dp_status r \<or> dp_status r = Seen \<and> dp_status (f r) = Confirming"
  shows "watch_inv db'"
proof -
  have ds: "deposits db' = update_where p f (deposits db)" by (simp add: db')
  have ok: "deposits_ok db'"
  proof (rule deposits_ok_update [OF watch_inv_ok [OF inv] ds])
    fix r assume "r \<in> set (deposits db)" "p r"
    then show "dp_status (f r) = Confirmed \<Longrightarrow> dp_credited (f r) \<noteq> None"
      "dp_status (f r) = Reversed \<Longrightarrow> dp_reversed (f r) \<noteq> None"
      using inv f [of r] st [of r] by (auto simp: watch_inv_def deposits_ok_def)
  qed (use f in auto)
  have same: "held (if p r then f r else r) user a = held r user a"
    "held_custody (if p r then f r else r) a = held_custody r a" for r user a
    using f [of r] st [of r] by (auto simp: held_def held_custody_def)
  have "confirmed_total db' user a = confirmed_total db user a" for user a
    unfolding confirmed_sums ds update_where_def by (simp add: same o_def)
  moreover have "confirmed_custody db' a = confirmed_custody db a" for a
    unfolding confirmed_sums ds update_where_def by (simp add: same o_def)
  moreover have "keys_settled db'"
  proof (rule keys_settled_weaken [of db])
    show "keys_settled db" using inv by (simp add: watch_inv_def)
    show "key_posted db' k = key_posted db k" for k by (simp add: db')
    fix r t assume r: "r \<in> set (deposits db)"
    show "\<exists>r' \<in> set (deposits db'). (row_for t r \<longrightarrow> row_for t r') \<and>
      (dp_status r \<in> {Confirmed, Reversed} \<longrightarrow> dp_status r' = dp_status r)"
      using r f [of r] st [of r]
      by (intro bexI [of _ "if p r then f r else r"])
        (auto simp: ds set_update_where row_for_def dp_key_def)
  qed
  ultimately show ?thesis using inv ok by (simp add: watch_inv_def db')
qed

lemma set_confirmations_inv: "watch_inv db \<Longrightarrow> watch_inv (set_confirmations d c db)"
  unfolding set_confirmations_def by (erule quiet_update_inv [OF _ refl]) (auto simp: dp_key_def)

lemma relocate_deposit_inv: "watch_inv db \<Longrightarrow> watch_inv (relocate_deposit d b h db)"
  unfolding relocate_deposit_def by (erule quiet_update_inv [OF _ refl]) (auto simp: dp_key_def)

lemma upsert_deposit_inv:
  assumes inv: "watch_inv db" and res: "upsert_deposit i t user w c st db = Inr ((d, st'), db')"
  shows "watch_inv db'"
proof (cases "fetch_optional (\<lambda>r. dp_key r = t_key t) (deposits db)")
  case (Some r)
  then have "db' = db\<lparr>deposits := update_where (\<lambda>r. dp_key r = t_key t)
      (\<lambda>r. r\<lparr>dp_confirmations := as_i32 c\<rparr>) (deposits db)\<rparr>"
    using res by (auto simp: upsert_deposit_def split: if_splits)
  then show ?thesis by (rule quiet_update_inv [OF inv]) (auto simp: dp_key_def)
next
  case None
  define row where "row = \<lparr>dp_id = i, dp_user = user, dp_wallet = w,
    dp_chain = network_chain (t_network t), dp_network = t_network t,
    dp_asset = asset_as_str (t_asset t), dp_tx_hash = t_tx_hash t,
    dp_output_index = t_output_index t, dp_amount = t_amount t,
    dp_block_number = t_block_number t, dp_block_hash = Some (t_block_hash t),
    dp_confirmations = as_i32 c, dp_status = st, dp_credited = None, dp_reversed = None\<rparr>"
  have db': "db' = db\<lparr>deposits := deposits db @ [row]\<rparr>"
    and c: "0 < t_amount t" "i \<notin> dp_id ` set (deposits db)" "st \<notin> {Confirmed, Reversed}"
    using res None by (auto simp: upsert_deposit_def row_def split: if_splits)
  have key: "dp_key row = t_key t" by (simp add: row_def dp_key_def t_key_def)
  have "t_key t \<notin> dp_key ` set (deposits db)" using None by (force simp: fetch_optional_None_iff)
  then have "deposits_ok db'"
    using inv c key by (auto simp: watch_inv_def deposits_ok_def db' row_def)
  moreover have "confirmed_total db' u a = confirmed_total db u a"
    "confirmed_custody db' a = confirmed_custody db a" for u a
    using c by (auto simp: db' confirmed_total_def confirmed_custody_def row_def)
  moreover have "keys_settled db'"
    by (rule keys_settled_weaken [of db]) (use inv in \<open>auto simp: watch_inv_def db'\<close>)
  ultimately show ?thesis using inv by (simp add: watch_inv_def db')
qed

text \<open>The row an upsert returns is the one of the transfer's key.\<close>

lemma upsert_row:
  assumes "deposits_ok db" "upsert_deposit i t user w c st db = Inr ((d, st'), db')" "no_collision t db"
  shows "\<exists>r \<in> set (deposits db'). dp_id r = d \<and> dp_status r = st' \<and> row_for t r \<and>
    dp_asset r = asset_as_str (t_asset t)"
proof (cases "fetch_optional (\<lambda>r. dp_key r = t_key t) (deposits db)")
  case (Some r)
  then have r: "r \<in> set (deposits db)" "dp_key r = t_key t" by (auto dest: fetch_optional_SomeD)
  then have "agrees t r" using assms(3) by (simp add: no_collision_def)
  moreover have "deposits db' = update_where (\<lambda>r. dp_key r = t_key t)
      (\<lambda>r. r\<lparr>dp_confirmations := as_i32 c\<rparr>) (deposits db)" "d = dp_id r" "st' = dp_status r"
    using assms(2) Some by (auto simp: upsert_deposit_def split: if_splits)
  ultimately show ?thesis using r
    by (intro bexI [of _ "r\<lparr>dp_confirmations := as_i32 c\<rparr>"])
      (auto simp: set_update_where row_for_def agrees_def dp_key_def t_key_def)
next
  case None
  then show ?thesis using assms(2)
    by (auto simp: upsert_deposit_def row_for_def split: if_splits)
qed

lemma handle_transfer_inv:
  assumes inv: "watch_inv db" and nc: "no_collision t db"
  shows "watch_inv (handle_transfer sh env t head db)"
proof (cases "wallet_for (t_network t) (t_to_address t) db")
  case None
  then show ?thesis using inv by (simp add: handle_transfer_def)
next
  case (Some wu)
  obtain w u where wu: "wu = (w, u)" by force
  obtain st c where act: "(case classify t head of IgnoreDust _ \<Rightarrow> (Ignored, 0)
      | Record c \<Rightarrow> (Seen, c) | Credit c \<Rightarrow> (Seen, c)) = (st, c)" by force
  show ?thesis
  proof (cases "upsert_deposit (new_id env 3) t u w c st db")
    case (Inl e)
    then show ?thesis using Some wu act inv by (simp add: handle_transfer_def)
  next
    case (Inr res)
    obtain d st' db1 where res: "res = ((d, st'), db1)" by (metis prod.collapse)
    note up = Inr [unfolded res]
    have inv1: "watch_inv db1" using upsert_deposit_inv [OF inv up] .
    obtain r where r: "r \<in> set (deposits db1)" "dp_id r = d" "row_for t r" "dp_asset r = asset_as_str (t_asset t)"
      using upsert_row [OF watch_inv_ok [OF inv] up nc] by blast
    have "watch_inv db2" if "credit_deposit sh env d t db1 = Inr (b, db2)" for b db2
      using credit_deposit_inv [OF inv1 r(1,3,4)] that r(2) by blast
    then show ?thesis using Some wu act up inv1
      by (auto simp: handle_transfer_def Let_def split: deposit_action.splits sum.splits)
  qed
qed

section \<open>Sweeps\<close>

text \<open>
  A sweep works through rows read before it started. What it takes from such a row never changes,
  so the row of that id still has it.
\<close>

definition same_ident :: "deposit_row \<Rightarrow> deposit_row \<Rightarrow> bool" where
  "same_ident r r' \<longleftrightarrow> dp_id r' = dp_id r \<and> dp_network r' = dp_network r \<and> dp_tx_hash r' = dp_tx_hash r \<and>
     dp_output_index r' = dp_output_index r \<and> dp_asset r' = dp_asset r"

definition known :: "'z watcher_db_scheme \<Rightarrow> deposit_row \<Rightarrow> bool" where
  "known db r \<longleftrightarrow> (\<exists>r' \<in> set (deposits db). same_ident r r')"

lemma known_update:
  assumes "known db r" "deposits db' = update_where p f (deposits db)"
    and "\<And>y. same_ident y (f y)"
  shows "known db' r"
proof -
  obtain y where y: "y \<in> set (deposits db)" "same_ident r y" using assms(1) by (auto simp: known_def)
  have "same_ident r (if p y then f y else y)" using y(2) assms(3) [of y] by (auto simp: same_ident_def)
  then show ?thesis unfolding known_def
    by (rule bexI) (use y(1) in \<open>auto simp: assms(2) set_update_where\<close>)
qed

lemma tx_deposits:
  assumes "account_id i k u a db = Inr (x, db1)" "account_id i' k' u' a' db1 = Inr (x', db2)"
    and "post i'' j db2 = Inr (out, db3)"
  shows "deposits db3 = deposits db"
  by (rule more_deposits) (metis assms account_id_step account_step_frame(6) post_effect(5))

lemma credit_deposit_deposits:
  assumes "credit_deposit sh env d t db = Inr (b, db')"
  shows "deposits db' = deposits db \<or>
    (\<exists>k. deposits db' = update_where (\<lambda>y. dp_id y = d)
      (\<lambda>y. y\<lparr>dp_status := Confirmed, dp_credited := Some k\<rparr>) (deposits db))"
proof -
  from assms consider "db' = db"
    | i k u a x db1 i' k' u' a' x' db2 i'' j out db3 where
      "account_id i k u a db = Inr (x, db1)" "account_id i' k' u' a' db1 = Inr (x', db2)"
      "post i'' j db2 = Inr (out, db3)"
      "db' = db3\<lparr>deposits := update_where (\<lambda>y. dp_id y = d)
        (\<lambda>y. y\<lparr>dp_status := Confirmed, dp_credited := Some (outcome_journal_id out)\<rparr>) (deposits db3)\<rparr>"
    by (auto simp: credit_deposit_def res_bind_Inr_iff split: option.splits if_splits)
  then show ?thesis
  proof cases
    case 2
    then show ?thesis using tx_deposits [OF 2(1-3)] by auto
  qed simp
qed

lemma reverse_deposit_deposits:
  assumes "reverse_deposit sh env d t db = Inr (b, db')"
  shows "deposits db' = deposits db \<or>
    (\<exists>k. deposits db' = update_where (\<lambda>y. dp_id y = d)
      (\<lambda>y. y\<lparr>dp_status := Reversed, dp_reversed := Some k\<rparr>) (deposits db))"
proof -
  from assms consider "db' = db"
    | i k u a x db1 i' k' u' a' x' db2 i'' j out db3 where
      "account_id i k u a db = Inr (x, db1)" "account_id i' k' u' a' db1 = Inr (x', db2)"
      "post i'' j db2 = Inr (out, db3)"
      "db' = db3\<lparr>deposits := update_where (\<lambda>y. dp_id y = d)
        (\<lambda>y. y\<lparr>dp_status := Reversed, dp_reversed := Some (outcome_journal_id out)\<rparr>) (deposits db3)\<rparr>"
    by (auto simp: reverse_deposit_def res_bind_Inr_iff split: option.splits if_splits)
  then show ?thesis
  proof cases
    case 2
    then show ?thesis using tx_deposits [OF 2(1-3)] by auto
  qed simp
qed

lemma known_settle:
  assumes "known db r" "credit_deposit sh env d t db = Inr (b, db') \<or> reverse_deposit sh env d t db = Inr (b, db')"
  shows "known db' r"
proof -
  have "deposits db' = deposits db \<or> (\<exists>f. deposits db' = update_where (\<lambda>y. dp_id y = d) f (deposits db) \<and>
      (\<forall>y. same_ident y (f y)))"
    using assms(2) by (auto dest!: credit_deposit_deposits reverse_deposit_deposits simp: same_ident_def)
  then show ?thesis using assms(1) known_update [OF assms(1)] by (auto simp: known_def)
qed

lemma known_row:
  assumes "known db r" "dp_network r = n" "asset_from_str (dp_asset r) = Inr a"
    and "dp_asset r = asset_as_str a"
  obtains r' where "r' \<in> set (deposits db)" "dp_id r' = dp_id r" "row_for (transfer_of_row n r a) r'"
    "dp_asset r' = asset_as_str (t_asset (transfer_of_row n r a))"
  using assms by (auto simp: known_def same_ident_def row_for_def transfer_of_row_def)

lemma asset_text_row:
  assumes "watch_inv db" "r \<in> set (deposits db)" "asset_from_str (dp_asset r) = Inr a"
  shows "dp_asset r = asset_as_str a"
proof -
  obtain b where b: "dp_asset r = asset_as_str b"
    using assms(1,2) by (auto simp: watch_inv_def deposits_ok_def)
  then have "a = b" using assms(3) asset_text.of_to [of b] by (auto split: sum.splits)
  with b show ?thesis by simp
qed

lemma asset_text_known:
  assumes "watch_inv db" "known db r" "asset_from_str (dp_asset r) = Inr a"
  shows "dp_asset r = asset_as_str a"
proof -
  obtain r' where "r' \<in> set (deposits db)" "dp_asset r' = dp_asset r"
    using assms(2) by (auto simp: known_def same_ident_def)
  then show ?thesis using asset_text_row [OF assms(1), of r' a] assms(3) by simp
qed

text \<open>One turn of either sweep keeps the invariant and every row it may still meet.\<close>

definition sweep_safe :: "network \<Rightarrow> (deposit_row \<Rightarrow> 'z watcher_db_scheme \<Rightarrow> 'z watcher_db_scheme) \<Rightarrow> bool" where
  "sweep_safe n step \<longleftrightarrow> (\<forall>db r. watch_inv db \<longrightarrow> known db r \<longrightarrow> dp_network r = n \<longrightarrow>
     watch_inv (step r db) \<and> (\<forall>q. known db q \<longrightarrow> known (step r db) q))"

lemma sweep_fold:
  assumes "sweep_safe n step"
  shows "watch_inv db \<Longrightarrow> \<forall>r \<in> set rs. known db r \<and> dp_network r = n \<Longrightarrow> watch_inv (fold step rs db)"
  using assms by (induction rs arbitrary: db) (auto simp: sweep_safe_def)

lemma known_self: "r \<in> set (deposits db) \<Longrightarrow> known db r"
  by (auto simp: known_def same_ident_def)

lemma known_set_confirmations: "known db q \<Longrightarrow> known (set_confirmations d c db) q"
  by (erule known_update [where f = "\<lambda>r. r\<lparr>dp_confirmations := as_i32 c, dp_status := Confirming\<rparr>"])
    (auto simp: set_confirmations_def same_ident_def)

lemma known_relocate: "known db q \<Longrightarrow> known (relocate_deposit d b h db) q"
  by (erule known_update [where f = "\<lambda>r. r\<lparr>dp_block_number := b, dp_block_hash := Some h\<rparr>"])
    (auto simp: relocate_deposit_def same_ident_def)

lemma settle_known_inv:
  assumes "watch_inv db" "known db r" "dp_network r = n" "asset_from_str (dp_asset r) = Inr a"
  shows "credit_deposit sh env (dp_id r) (transfer_of_row n r a) db = Inr (b, db') \<Longrightarrow> watch_inv db'"
    and "reverse_deposit sh env (dp_id r) (transfer_of_row n r a) db = Inr (b, db') \<Longrightarrow> watch_inv db'"
  by (rule known_row [OF assms(2,3,4) asset_text_known [OF assms(1,2,4)]];
      metis credit_deposit_inv [OF assms(1)] reverse_deposit_inv [OF assms(1)])+

lemma advance_one_safe: "sweep_safe n (advance_one sh envs n head)"
  unfolding sweep_safe_def advance_one_def Let_def
  by (auto split: sum.splits
      intro: set_confirmations_inv known_set_confirmations settle_known_inv known_settle)

lemma advance_pending_inv:
  assumes "watch_inv db"
  shows "watch_inv (advance_pending sh envs n head db)"
  unfolding advance_pending_def
  by (rule sweep_fold [OF advance_one_safe assms]) (auto simp: pending_deposits_def intro: known_self)

lemma reorg_one_inv:
  assumes "watch_inv db" "known db r" "dp_network r = n"
    and "reorg_one sh envs n bh loc r db = Inr db'"
  shows "watch_inv db' \<and> (\<forall>q. known db q \<longrightarrow> known db' q)"
  using assms unfolding reorg_one_def
  by (auto split: option.splits sum.splits if_splits
      intro: relocate_deposit_inv known_relocate settle_known_inv(2) known_settle)

lemma reorg_sweep_inv:
  "watch_inv db \<Longrightarrow> \<forall>r \<in> set rs. known db r \<and> dp_network r = n \<Longrightarrow>
   watch_inv (snd (reorg_sweep sh envs n bh loc rs db))"
proof (induction rs arbitrary: db)
  case (Cons r rs)
  show ?case
  proof (cases "reorg_one sh envs n bh loc r db")
    case (Inr db')
    then show ?thesis using Cons reorg_one_inv [OF Cons.prems(1) _ _ Inr] by auto
  qed (use Cons.prems in simp)
qed simp

lemma check_reorgs_inv:
  assumes "watch_inv db"
  shows "watch_inv (snd (check_reorgs sh envs n head bh loc db))"
  unfolding check_reorgs_def
  by (rule reorg_sweep_inv [OF assms]) (auto simp: reorg_window_def intro: known_self)

end
