(* ===== verification/Watcher_Runs.thy ===== *)
theory Watcher_Runs
  imports Watcher
begin

text \<open>
  Runs of a network's watcher: every order of the steps of \<open>crates/watcher/src/main.rs\<close>, with any
  answers of the node, keeps the ledger equal to the confirmed deposits; and the steps that are
  meant to credit do so, once.
\<close>

section \<open>Runs\<close>

text \<open>
  One step of the watcher process on the tables. Wallets and contracts are written by other
  processes and only read here. \<open>no_collision\<close> is what the tables need of the chain.
\<close>

inductive watch_step :: "(uuid \<Rightarrow> string) \<Rightarrow> watcher_db \<Rightarrow> watcher_db \<Rightarrow> bool"
  for show_uuid :: "uuid \<Rightarrow> string" where
  transfer: "no_collision t db \<Longrightarrow> watch_step show_uuid db (handle_transfer show_uuid env t head db)"
| advance: "watch_step show_uuid db (advance_pending show_uuid envs n head db)"
| reorgs: "watch_step show_uuid db (snd (check_reorgs show_uuid envs n head block_hash location db))"
| cursor: "watch_step show_uuid db (save_cursor n block h db)"
| wallet: "watch_step show_uuid db (db\<lparr>wallets := ws\<rparr>)"
| contract: "watch_step show_uuid db (db\<lparr>contracts := cs\<rparr>)"

inductive_cases watch_stepE: "watch_step show_uuid db db'"

definition start_db :: watcher_db where
  "start_db = \<lparr>accounts = [], journals = [], entries = [], wallets = [], deposits = [], cursors = [],
     contracts = []\<rparr>"

inductive watch_reach :: "(uuid \<Rightarrow> string) \<Rightarrow> watcher_db \<Rightarrow> bool"
  for show_uuid :: "uuid \<Rightarrow> string" where
  start: "watch_reach show_uuid start_db"
| step: "watch_reach show_uuid db \<Longrightarrow> watch_step show_uuid db db' \<Longrightarrow> watch_reach show_uuid db'"

lemma watch_inv_cong:
  assumes "accounts db' = accounts db" "journals db' = journals db" "entries db' = entries db"
    "deposits db' = deposits db"
  shows "watch_inv db' = watch_inv db"
proof -
  have "kind_balance db' k u a = kind_balance db k u a" "journal_residual db' i a = journal_residual db i a"
    for k u i a
    by (simp_all add: kind_balance_def raw_balance_def find_account_def journal_residual_def assms
        split: option.split)
  then show ?thesis
    by (simp add: watch_inv_def wf_ledger_def deposits_ok_def keys_settled_def key_posted_def
        confirmed_total_def confirmed_custody_def assms)
qed

lemma start_inv: "watch_inv start_db"
  by (simp add: watch_inv_def start_db_def wf_ledger_def deposits_ok_def keys_settled_def key_posted_def
      kind_balance_def find_account_def fetch_optional_def confirmed_total_def confirmed_custody_def
      journal_residual_def)

lemma watch_step_inv: "watch_step sh db db' \<Longrightarrow> watch_inv db \<Longrightarrow> watch_inv db'"
  by (erule watch_stepE)
    (auto intro: handle_transfer_inv advance_pending_inv check_reorgs_inv
      simp: watch_inv_cong [of "save_cursor n b h db" for n b h db] save_cursor_def
        watch_inv_cong [of "db\<lparr>wallets := ws\<rparr>" for db :: watcher_db and ws]
        watch_inv_cong [of "db\<lparr>contracts := cs\<rparr>" for db :: watcher_db and cs]
        watch_inv_cong [of "db\<lparr>cursors := cs\<rparr>" for db :: watcher_db and cs])

lemma reach_inv: "watch_reach sh db \<Longrightarrow> watch_inv db"
  by (induction rule: watch_reach.induct) (auto intro: start_inv watch_step_inv)

lemma confirmed_nonneg: "deposits_ok db \<Longrightarrow> 0 \<le> confirmed_total db u a"
  unfolding confirmed_total_def deposits_ok_def by (intro sum_list_nonneg) (auto intro: less_imp_le)

section \<open>Crediting succeeds\<close>

text \<open>The ids a transaction draws are new and the two accounts get different ones.\<close>

definition fresh_ids :: "env \<Rightarrow> 'z ledger_scheme \<Rightarrow> bool" where
  "fresh_ids env db \<longleftrightarrow> \<not> has_account (new_id env 0) db \<and> \<not> has_account (new_id env 1) db \<and>
     new_id env 0 \<noteq> new_id env 1 \<and> new_id env 2 \<notin> jr_id ` set (journals db)"

lemma account_id_succeeds:
  assumes "\<not> has_account i db" "scope_ok k u"
  obtains x db' where "account_id i k u a db = Inr (x, db')" "accounts db' = accounts db \<or>
    accounts db' = accounts db @ [\<lparr>la_id = i, la_kind = k, la_user_id = u, la_asset = a\<rparr>]"
proof (cases "find_account k u a db")
  case None
  show ?thesis
    by (rule that [of i "add_account i k u a db"]) (simp_all add: account_id_def None assms add_account_def)
next
  case (Some x)
  show ?thesis by (rule that [of x db]) (simp_all add: account_id_def Some)
qed

lemma credit_deposit_succeeds:
  assumes inv: "watch_inv db" and r: "r \<in> set (deposits db)"
    and st: "dp_status r \<noteq> Confirmed" "dp_status r \<noteq> Reversed"
    and agree: "row_for t r"
    and fresh: "fresh_ids env db"
  obtains db' where "credit_deposit sh env (dp_id r) t db = Inr (True, db')"
proof -
  note f = fetch_by_id [OF watch_inv_ok [OF inv] r]
  have nz: "dp_amount r \<noteq> 0" using row_amount_pos [OF watch_inv_ok [OF inv] r] by simp
  obtain c db1 where s1: "account_id (new_id env 0) CustodyDepositAddrs None (t_asset t) db = Inr (c, db1)"
    and a1: "accounts db1 = accounts db \<or> accounts db1 = accounts db @
      [\<lparr>la_id = new_id env 0, la_kind = CustodyDepositAddrs, la_user_id = None, la_asset = t_asset t\<rparr>]"
    using account_id_succeeds [of "new_id env 0" db CustodyDepositAddrs None] fresh
    by (auto simp: fresh_ids_def scope_ok_def is_user_scoped_def)
  have "\<not> has_account (new_id env 1) db1"
    using a1 fresh by (auto simp: fresh_ids_def has_account_def)
  then obtain u db2 where s2: "account_id (new_id env 1) UserCrypto (Some (dp_user r)) (t_asset t) db1 = Inr (u, db2)"
    using account_id_succeeds [of "new_id env 1" db1 UserCrypto "Some (dp_user r)" "t_asset t"]
    by (metis option.distinct(1) is_user_scoped_def insertCI scope_ok_def)
  obtain j where j: "credit_journal sh (dp_id r) c u (t_asset t) (dp_amount r) t = Inr j"
    "j_idempotency_key j = idempotency_key ''deposit'' t"
    "j_entries j = [\<lparr>e_account_id = c, e_account_kind = CustodyDepositAddrs, e_asset = t_asset t, e_amount = dp_amount r\<rparr>,
                    \<lparr>e_account_id = u, e_account_kind = UserCrypto, e_asset = t_asset t, e_amount = - dp_amount r\<rparr>]"
    using credit_journal_ok [OF nz] by metis
  note st1 = account_id_step [OF s1] and st2 = account_id_step [OF s2]
  have "has_account c db2" "has_account u db2"
    using account_step_has [OF st1] account_step_frame(7) [OF st2] account_step_has [OF st2]
    by (auto simp: has_account_def)
  moreover have "journals db2 = journals db"
    using account_step_frame(1) [OF st1] account_step_frame(1) [OF st2] by simp
  moreover have "\<not> key_posted db2 (j_idempotency_key j)"
    using fresh_deposit_key [OF inv r agree] st account_step_frame(4) [OF st1] account_step_frame(4) [OF st2] j(2)
    by simp
  ultimately obtain out db3 where "post (new_id env 2) j db2 = Inr (out, db3)"
    using post_fresh_iff [of db2 j "new_id env 2"] fresh j(3) nz by (auto simp: fresh_ids_def)
  then show ?thesis
    using that s1 s2 j(1) f st by (auto simp: credit_deposit_def)
qed

text \<open>What a credit that went through did.\<close>

lemma credit_deposit_effect:
  assumes inv: "watch_inv db" and r: "r \<in> set (deposits db)" "row_for t r" "dp_asset r = asset_as_str (t_asset t)"
    and st: "dp_status r \<noteq> Confirmed" "dp_status r \<noteq> Reversed"
    and res: "credit_deposit sh env (dp_id r) t db = Inr (True, db')"
  shows "user_crypto_balance db' u a = user_crypto_balance db u a +
      (if u = dp_user r \<and> a = t_asset t then dp_amount r else 0)"
    and "\<exists>r' \<in> set (deposits db'). dp_id r' = dp_id r \<and> dp_status r' = Confirmed"
proof -
  have inv': "watch_inv db'" using credit_deposit_inv [OF inv r res] .
  obtain k where d: "deposits db' = update_where (\<lambda>y. dp_id y = dp_id r)
      (\<lambda>y. y\<lparr>dp_status := Confirmed, dp_credited := Some k\<rparr>) (deposits db)"
  proof -
    from res st fetch_by_id [OF watch_inv_ok [OF inv] r(1)] obtain c db1 w db2 j out db3 where
      "account_id (new_id env 0) CustodyDepositAddrs None (t_asset t) db = Inr (c, db1)"
      "account_id (new_id env 1) UserCrypto (Some (dp_user r)) (t_asset t) db1 = Inr (w, db2)"
      "post (new_id env 2) j db2 = Inr (out, db3)"
      "db' = db3\<lparr>deposits := update_where (\<lambda>y. dp_id y = dp_id r)
          (\<lambda>y. y\<lparr>dp_status := Confirmed, dp_credited := Some (outcome_journal_id out)\<rparr>) (deposits db3)\<rparr>"
      by (auto simp: credit_deposit_def res_bind_Inr_iff)
    then show ?thesis using that tx_deposits by fastforce
  qed
  have "user_crypto_balance db' u a = confirmed_total db' u a"
    "user_crypto_balance db u a = confirmed_total db u a"
    using inv inv' by (simp_all add: watch_inv_def user_crypto_balance_def user_facing_balance_def is_liability_def)
  then show "user_crypto_balance db' u a = user_crypto_balance db u a +
      (if u = dp_user r \<and> a = t_asset t then dp_amount r else 0)"
    using confirmed_update(1) [OF watch_inv_ok [OF inv] r(1) d] st r(3)
    by (auto simp: held_def asset_text.to_s_inj)
  show "\<exists>r' \<in> set (deposits db'). dp_id r' = dp_id r \<and> dp_status r' = Confirmed"
    using r(1) by (intro bexI [of _ "r\<lparr>dp_status := Confirmed, dp_credited := Some k\<rparr>"])
      (auto simp: d set_update_where)
qed

section \<open>What a transfer does\<close>

text \<open>The steps of \<open>handle_transfer\<close> on a transfer that no row has the key of.\<close>

lemma upsert_new:
  assumes "fetch_optional (\<lambda>r. dp_key r = t_key t) (deposits db) = None" "0 < t_amount t"
    and "i \<notin> dp_id ` set (deposits db)" "st \<notin> {Confirmed, Reversed}"
  obtains r db' where "upsert_deposit i t user w c st db = Inr ((i, st), db')"
    "deposits db' = deposits db @ [r]" "dp_id r = i" "dp_status r = st" "row_for t r" "dp_user r = user"
    "dp_asset r = asset_as_str (t_asset t)" "dp_amount r = t_amount t"
    "db' = db\<lparr>deposits := deposits db @ [r]\<rparr>"
  using assms by (auto simp: upsert_deposit_def row_for_def)

lemma user_balance_deposits [simp]:
  "user_crypto_balance (db\<lparr>deposits := ds\<rparr>) u a = user_crypto_balance db u a"
  by (simp add: user_crypto_balance_def)

lemma has_account_deposits [simp]: "has_account i (db\<lparr>deposits := ds\<rparr>) = has_account i db"
  by (simp add: has_account_def)

lemma fresh_ids_deposits [simp]: "fresh_ids env (db\<lparr>deposits := ds\<rparr>) = fresh_ids env db"
  by (simp add: fresh_ids_def)

lemma classify_credit_amount: "classify t head = Credit c \<Longrightarrow> minimum_deposit (t_asset t) \<le> t_amount t"
  by (auto simp: classify_def Let_def split: if_splits)

text \<open>A row that is settled: the transfer's journal is not posted again.\<close>

lemma handle_transfer_settled:
  assumes ok: "deposits_ok db" and r: "r \<in> set (deposits db)" "dp_key r = t_key t" "dp_status r \<in> {Confirmed, Reversed}"
  obtains ds where "handle_transfer sh env t head db = db\<lparr>deposits := ds\<rparr>" "deposits_ok (db\<lparr>deposits := ds\<rparr>)"
    "\<exists>r' \<in> set ds. dp_key r' = t_key t \<and> dp_status r' \<in> {Confirmed, Reversed}"
proof -
  have f: "fetch_optional (\<lambda>x. dp_key x = t_key t) (deposits db) = Some r"
    by (rule fetch_optional_unique) (use r row_unique [OF ok] in auto)
  define bump where "bump c = update_where (\<lambda>r. dp_key r = t_key t)
    (\<lambda>r. r\<lparr>dp_confirmations := as_i32 c\<rparr>) (deposits db)" for c
  have "handle_transfer sh env t head db = db \<or> (\<exists>c. handle_transfer sh env t head db = db\<lparr>deposits := bump c\<rparr>)"
    using r(3)
    by (auto simp: handle_transfer_def upsert_deposit_def f Let_def bump_def
        split: option.splits deposit_action.splits)
  moreover have b1: "deposits_ok (db\<lparr>deposits := bump c\<rparr>)" for c
    by (rule deposits_ok_update [OF ok, of _ "\<lambda>r. dp_key r = t_key t" "\<lambda>r. r\<lparr>dp_confirmations := as_i32 c\<rparr>"])
      (use ok in \<open>auto simp: bump_def dp_key_def deposits_ok_def\<close>)
  moreover have b2: "\<exists>r' \<in> set (bump c). dp_key r' = t_key t \<and> dp_status r' \<in> {Confirmed, Reversed}" for c
    using r by (intro bexI [of _ "r\<lparr>dp_confirmations := as_i32 c\<rparr>"])
      (auto simp: bump_def set_update_where dp_key_def)
  ultimately show ?thesis
  proof (elim disjE exE)
    assume "handle_transfer sh env t head db = db"
    then show ?thesis by (intro that [of "deposits db"]) (use ok r in auto)
  next
    fix c assume "handle_transfer sh env t head db = db\<lparr>deposits := bump c\<rparr>"
    then show ?thesis by (rule that [OF _ b1 b2])
  qed
qed

section \<open>Properties\<close>


text \<open>
  A transfer of at least the minimum with enough confirmations, to a watched address and under a
  key not seen before, credits its user with exactly its amount and leaves every other balance alone.
\<close>

theorem transfer_credits:
  assumes inv: "watch_inv db" and w: "wallet_for (t_network t) (t_to_address t) db = Some (wallet, user)"
    and cl: "classify t head = Credit c" and new: "\<forall>r \<in> set (deposits db). dp_key r \<noteq> t_key t"
    and ids: "new_id env 3 \<notin> dp_id ` set (deposits db)" "fresh_ids env db" and pos: "0 < t_amount t"
  shows "user_crypto_balance (handle_transfer show_uuid env t head db) u a =
    user_crypto_balance db u a + (if u = user \<and> a = t_asset t then t_amount t else 0)"
proof -
  have "fetch_optional (\<lambda>r. dp_key r = t_key t) (deposits db) = None"
    using new by (auto simp: fetch_optional_None_iff)
  then obtain r db1 where up: "upsert_deposit (new_id env 3) t user wallet c Seen db = Inr ((new_id env 3, Seen), db1)"
    and r: "deposits db1 = deposits db @ [r]" "dp_id r = new_id env 3" "dp_status r = Seen" "row_for t r"
      "dp_user r = user" "dp_asset r = asset_as_str (t_asset t)" "dp_amount r = t_amount t"
    and db1: "db1 = db\<lparr>deposits := deposits db @ [r]\<rparr>"
    using upsert_new [OF _ pos ids(1), of Seen user wallet c] by (metis deposit_status.distinct insertE singletonD)
  have inv1: "watch_inv db1" using upsert_deposit_inv [OF inv up] .
  have mem: "r \<in> set (deposits db1)" by (simp add: r(1))
  have "fresh_ids env db1" using ids(2) by (simp add: db1)
  then obtain db2 where cr: "credit_deposit show_uuid env (dp_id r) t db1 = Inr (True, db2)"
    using credit_deposit_succeeds [OF inv1 mem _ _ r(4)] r(3) by auto
  have "handle_transfer show_uuid env t head db = db2"
    using cr by (simp add: handle_transfer_def w cl up r(2))
  then show ?thesis
    using credit_deposit_effect(1) [OF inv1 mem r(4,6) _ _ cr] r(3,5,7) by (simp add: db1)
qed

text \<open>
  A transfer whose deposit is already credited or reversed changes no ledger balance, however
  often and at whatever height the watcher sees it again.
\<close>

theorem transfer_credited_once:
  assumes "watch_inv db" "r \<in> set (deposits db)" "dp_key r = t_key t" "dp_status r \<in> {Confirmed, Reversed}"
  shows "user_crypto_balance (fold (\<lambda>(env, head). handle_transfer show_uuid env t head) runs db) u a =
    user_crypto_balance db u a"
proof -
  have "user_crypto_balance (fold (\<lambda>(env, head). handle_transfer show_uuid env t head) runs db) u a =
    user_crypto_balance db u a"
    if "deposits_ok db" "\<exists>r \<in> set (deposits db). dp_key r = t_key t \<and> dp_status r \<in> {Confirmed, Reversed}" for db
    using that
  proof (induction runs arbitrary: db)
    case (Cons run runs)
    obtain env head where run: "run = (env, head)" by force
    obtain r where r: "r \<in> set (deposits db)" "dp_key r = t_key t" "dp_status r \<in> {Confirmed, Reversed}"
      using Cons.prems(2) by blast
    obtain ds where "handle_transfer show_uuid env t head db = db\<lparr>deposits := ds\<rparr>"
      "deposits_ok (db\<lparr>deposits := ds\<rparr>)" "\<exists>r' \<in> set ds. dp_key r' = t_key t \<and> dp_status r' \<in> {Confirmed, Reversed}"
      by (rule handle_transfer_settled [OF Cons.prems(1) r])
    then show ?case using Cons.IH [of "db\<lparr>deposits := ds\<rparr>"] by (simp add: run)
  qed simp
  then show ?thesis using assms by (auto simp: watch_inv_def)
qed

text \<open>
  The unique key of the deposits table does not tell the EVM networks apart, while the journal's key
  does: a second transfer of the same transaction hash and output index on another EVM network meets
  the first one's row.
\<close>

theorem evm_networks_share_row_key:
  assumes "is_evm (t_network t)" "is_evm (t_network u)"
    and "t_tx_hash t = t_tx_hash u" "t_output_index t = t_output_index u" "CHR '':'' \<notin> set kind"
  shows "t_key t = t_key u \<and> (idempotency_key kind t = idempotency_key kind u \<longleftrightarrow> t_network t = t_network u)"
  using assms by (auto simp: t_key_def is_evm_iff idempotency_key_inj)

section \<open>Witnesses\<close>

definition demo_wallets :: watcher_db where
  "demo_wallets = start_db\<lparr>wallets := [\<lparr>wl_id = 5, wl_user = 7, wl_chain = Evm, wl_address = ''0xAb''\<rparr>]\<rparr>"

definition demo_transfer :: observed_transfer where
  "demo_transfer = \<lparr>t_network = Bsc, t_tx_hash = ''0x1'', t_output_index = 0, t_to_address = ''0xab'',
     t_asset = Bnb, t_amount = 2, t_block_number = 100, t_block_hash = ''0x2''\<rparr>"

definition demo_env :: env where
  "demo_env = \<lparr>app_now = 0, sql_now = 0, new_id = (\<lambda>n. word_of_nat n)\<rparr>"

definition demo_credited :: watcher_db where
  "demo_credited = handle_transfer (\<lambda>_. []) demo_env demo_transfer 1000 demo_wallets"

lemmas demo_defs = demo_wallets_def demo_transfer_def demo_env_def start_db_def

lemma demo_wallets_inv: "watch_inv demo_wallets"
  using start_inv watch_step_inv [OF watch_step.wallet start_inv] by (simp add: demo_wallets_def)

lemma demo_wallets_reach: "watch_reach (\<lambda>_. []) demo_wallets"
  unfolding demo_wallets_def by (rule watch_reach.step [OF watch_reach.start watch_step.wallet])

lemma demo_credited_reach: "watch_reach (\<lambda>_. []) demo_credited"
  unfolding demo_credited_def
  by (rule watch_reach.step [OF demo_wallets_reach watch_step.transfer])
    (simp add: no_collision_def demo_defs)

lemma demo_credited_total: "confirmed_total demo_credited 7 Bnb = 2"
  by code_simp


theorem transfer_credits_witness:
  "user_crypto_balance demo_credited 7 Bnb = user_crypto_balance demo_wallets 7 Bnb + 2"
proof -
  have "wallet_for Bsc ''0xab'' demo_wallets = Some (5, 7)"
    "classify demo_transfer 1000 = Credit 901" by code_simp+
  then show ?thesis
    using transfer_credits [of demo_wallets demo_transfer 5 7 1000 901 demo_env "\<lambda>_. []" 7 Bnb] demo_wallets_inv
    by (simp add: demo_credited_def demo_defs fresh_ids_def has_account_def)
qed

theorem transfer_credited_once_witness:
  "user_crypto_balance (fold (\<lambda>(env, head). handle_transfer (\<lambda>_. []) env demo_transfer head)
     [(demo_env, 1001), (demo_env, 1002)] demo_credited) 7 Bnb = user_crypto_balance demo_credited 7 Bnb"
proof -
  have "list_all (\<lambda>r. dp_key r = t_key demo_transfer \<and> dp_status r = Confirmed) (deposits demo_credited)"
    "deposits demo_credited \<noteq> []" by code_simp+
  then obtain r where "r \<in> set (deposits demo_credited)" "dp_key r = t_key demo_transfer" "dp_status r = Confirmed"
    by (cases "deposits demo_credited") auto
  then show ?thesis
    by (intro transfer_credited_once [OF reach_inv [OF demo_credited_reach]]) auto
qed

theorem evm_networks_share_row_key_witness:
  "t_key demo_transfer = t_key (demo_transfer\<lparr>t_network := Polygon\<rparr>) \<and>
   idempotency_key ''deposit'' demo_transfer \<noteq> idempotency_key ''deposit'' (demo_transfer\<lparr>t_network := Polygon\<rparr>)"
  using evm_networks_share_row_key [of demo_transfer "demo_transfer\<lparr>t_network := Polygon\<rparr>" "''deposit''"]
  by (simp add: demo_transfer_def is_evm_iff)

end
