(* ===== verification/Watcher_Loops.thy ===== *)
theory Watcher_Loops
  imports Chain_Adapters Watcher_Runs
begin

text \<open>
  The scanning loops of \<open>crates/watcher/src/main.rs\<close>: \<open>watch_evm\<close> with its cursor and its window of
  blocks, \<open>watch_tron\<close> with its sweep over addresses, and the restarts of \<open>supervise\<close>. One turn of a
  loop is a function of the node's answers in that turn; a run is the fold over a list of them.
\<close>

section \<open>EVM\<close>

definition max_log_window :: int where "max_log_window = 2000"
definition max_transient_failures :: nat where "max_transient_failures = 5"

text \<open>The node's answers in one turn, and the ids the database hands out.\<close>

record evm_answers =
  ea_head :: "rpc_error + string"
  ea_logs :: "int \<Rightarrow> int \<Rightarrow> rpc_error + rpc_log list"
  ea_block :: "int \<Rightarrow> rpc_error + rpc_block option"
  ea_receipt :: "string \<Rightarrow> rpc_error + rpc_receipt option"
  ea_transfer_env :: "nat \<Rightarrow> env"
  ea_advance_env :: "uuid \<Rightarrow> env"
  ea_reorg_env :: "uuid \<Rightarrow> env"

record evm_loop =
  el_cursor :: int
  el_window :: log_window
  el_failures :: nat

datatype ('s, 'd) loop_state = Running 's 'd | Failed 'd | Panicked 'd

fun loop_db :: "('s, 'd) loop_state \<Rightarrow> 'd" where
  "loop_db (Running _ db) = db"
| "loop_db (Failed db) = db"
| "loop_db (Panicked db) = db"

text \<open>The range of a turn's log query: at most a window past the cursor, with the overlap before it.\<close>

definition scan_to :: "evm_loop \<Rightarrow> int \<Rightarrow> int" where
  "scan_to s head = min (el_cursor s + lw_size (el_window s)) head"

definition scan_from :: "network \<Rightarrow> evm_loop \<Rightarrow> int" where
  "scan_from n s = max (el_cursor s + 1 - scan_overlap n) 0"

definition saturated :: "evm_loop \<Rightarrow> int \<Rightarrow> bool" where
  "saturated s head \<longleftrightarrow> lw_size (el_window s) \<le> scan_to s head - el_cursor s"

definition node_block_hash :: "evm_answers \<Rightarrow> int \<Rightarrow> string option" where
  "node_block_hash a b = (case evm_block_hash (ea_block a b) of Inl _ \<Rightarrow> None | Inr h \<Rightarrow> h)"

definition rpc_text :: "rpc_error \<Rightarrow> string" where
  "rpc_text e = (case e of RateLimited s \<Rightarrow> ''rate limited: '' @ s | RangeRefused s \<Rightarrow> ''range refused: '' @ s | RpcOther s \<Rightarrow> s)"

definition node_location :: "evm_answers \<Rightarrow> 'z watcher_db_scheme \<Rightarrow> uuid \<Rightarrow> string + (int \<times> string) option" where
  "node_location a db d =
     (case fetch_optional (\<lambda>r. dp_id r = d) (deposits db) of
        None \<Rightarrow> Inr None
      | Some r \<Rightarrow> map_err rpc_text (transaction_location (ea_receipt a (dp_tx_hash r))))"

definition handle_all :: "(uuid \<Rightarrow> string) \<Rightarrow> (nat \<Rightarrow> env) \<Rightarrow> int \<Rightarrow> observed_transfer list \<Rightarrow>
    'z watcher_db_scheme \<Rightarrow> 'z watcher_db_scheme" where
  "handle_all show_uuid envs head ts db =
     fold (\<lambda>(i, t). handle_transfer show_uuid (envs i) t head) (enumerate 0 ts) db"

text \<open>What follows a log query that was served.\<close>

definition evm_served :: "(uuid \<Rightarrow> string) \<Rightarrow> network \<Rightarrow> evm_answers \<Rightarrow> int \<Rightarrow> observed_transfer list \<Rightarrow> evm_loop \<Rightarrow>
    'z watcher_db_scheme \<Rightarrow> (evm_loop, 'z watcher_db_scheme) loop_state" where
  "evm_served show_uuid n a head transfers s db =
     (let db1 = handle_all show_uuid (ea_transfer_env a) head transfers db;
          db2 = advance_pending show_uuid (ea_advance_env a) n head db1;
          (err, db3) = check_reorgs show_uuid (ea_reorg_env a) n head (node_block_hash a) (node_location a db2) db2
      in case err of
           Some _ \<Rightarrow> Failed db3
         | None \<Rightarrow>
             (let to = scan_to s head in
              Running \<lparr>el_cursor = to,
                 el_window = (if saturated s head then window_grow (el_window s) else el_window s),
                 el_failures = 0\<rparr>
                (save_cursor n to (node_block_hash a to) db3)))"

definition evm_turn :: "(uuid \<Rightarrow> string) \<Rightarrow> network \<Rightarrow> (string \<times> asset \<times> nat) list \<Rightarrow> evm_answers \<Rightarrow> evm_loop \<Rightarrow>
    'z watcher_db_scheme \<Rightarrow> (evm_loop, 'z watcher_db_scheme) loop_state" where
  "evm_turn show_uuid n contracts' a s db =
     (case evm_head (ea_head a) of
        Inl _ \<Rightarrow> Failed db
      | Inr head \<Rightarrow>
          if head \<le> el_cursor s then Running s db
          else
            (case token_transfers n (ea_logs a (scan_from n s) (scan_to s head)) (map fst (watched_addresses n db)) contracts' of
               None \<Rightarrow> Panicked db
             | Some (Inr transfers) \<Rightarrow> evm_served show_uuid n a head transfers s db
             | Some (Inl (RangeRefused _)) \<Rightarrow>
                 (let (narrowed, w) = window_shrink (el_window s) in
                  if narrowed then Running (s\<lparr>el_window := w\<rparr>) db else Failed db)
             | Some (Inl _) \<Rightarrow>
                 (let failures = el_failures s + 1 in
                  if max_transient_failures \<le> failures then Failed db
                  else Running (s\<lparr>el_failures := failures\<rparr>) db)))"

fun evm_run :: "(uuid \<Rightarrow> string) \<Rightarrow> network \<Rightarrow> (string \<times> asset \<times> nat) list \<Rightarrow> evm_answers list \<Rightarrow>
    (evm_loop, 'z watcher_db_scheme) loop_state \<Rightarrow> (evm_loop, 'z watcher_db_scheme) loop_state" where
  "evm_run show_uuid n cs (a # as) (Running s db) = evm_run show_uuid n cs as (evm_turn show_uuid n cs a s db)"
| "evm_run show_uuid n cs _ st = st"

text \<open>Where a watcher starts, and the whole of \<open>watch_evm\<close>: \<open>head\<close> is the first answer.\<close>

definition evm_start :: "network \<Rightarrow> int \<Rightarrow> 'z watcher_db_scheme \<Rightarrow> evm_loop" where
  "evm_start n head db =
     \<lparr>el_cursor = (case cursor n db of
          Some (block, _) \<Rightarrow> max (block - rescan_depth n) 0
        | None \<Rightarrow> head - rescan_depth n),
      el_window = window_new max_log_window, el_failures = 0\<rparr>"

definition watch_evm :: "(uuid \<Rightarrow> string) \<Rightarrow> network \<Rightarrow> rpc_error + string \<Rightarrow> evm_answers list \<Rightarrow>
    'z watcher_db_scheme \<Rightarrow> (evm_loop, 'z watcher_db_scheme) loop_state" where
  "watch_evm show_uuid n first answers db =
     (case evm_head first of
        Inl _ \<Rightarrow> Failed db
      | Inr head \<Rightarrow> evm_run show_uuid n (token_contracts n db) answers (Running (evm_start n head db) db))"

section \<open>TRON\<close>

text \<open>
  The answers of one sweep: the head, and for each address the transfers TronGrid lists since a time
  (in milliseconds) and the block of each transaction.
\<close>

record tron_answers =
  ta_now :: int
  ta_head :: "rpc_error + int"
  ta_transfers :: "string \<Rightarrow> int \<Rightarrow> rpc_error + trc20_transfer list"
  ta_block :: "string \<Rightarrow> rpc_error + int option"
  ta_transfer_env :: "string \<Rightarrow> nat \<Rightarrow> env"
  ta_advance_env :: "uuid \<Rightarrow> env"

fun tron_sweep :: "(uuid \<Rightarrow> string) \<Rightarrow> (string \<times> asset \<times> nat) list \<Rightarrow> tron_answers \<Rightarrow> int \<Rightarrow> int \<Rightarrow> string list \<Rightarrow>
    'z watcher_db_scheme \<Rightarrow> bool \<times> 'z watcher_db_scheme" where
  "tron_sweep show_uuid cs a since head [] db = (True, db)"
| "tron_sweep show_uuid cs a since head (address # rest) db =
     (case transfers_to address (ta_transfers a address since) (ta_block a) cs of
        None \<Rightarrow> (False, db)
      | Some (Inl _) \<Rightarrow> tron_sweep show_uuid cs a since head rest db
      | Some (Inr ts) \<Rightarrow>
          tron_sweep show_uuid cs a since head rest (handle_all show_uuid (ta_transfer_env a address) head ts db))"

text \<open>The state of the loop is \<open>since\<close>. The keys of the address map come in any order, each once.\<close>

definition tron_turn :: "(uuid \<Rightarrow> string) \<Rightarrow> (string \<times> asset \<times> nat) list \<Rightarrow> tron_answers \<Rightarrow> int \<Rightarrow>
    'z watcher_db_scheme \<Rightarrow> (int, 'z watcher_db_scheme) loop_state" where
  "tron_turn show_uuid cs a since db =
     (case ta_head a of
        Inl _ \<Rightarrow> Failed db
      | Inr head \<Rightarrow>
          (let (done, db1) = tron_sweep show_uuid cs a since head (remdups (map fst (watched_addresses NTron db))) db in
           if \<not> done then Panicked db1
           else Running (ta_now a - 300000)
             (save_cursor NTron head None (advance_pending show_uuid (ta_advance_env a) NTron head db1))))"

fun tron_run :: "(uuid \<Rightarrow> string) \<Rightarrow> (string \<times> asset \<times> nat) list \<Rightarrow> tron_answers list \<Rightarrow>
    (int, 'z watcher_db_scheme) loop_state \<Rightarrow> (int, 'z watcher_db_scheme) loop_state" where
  "tron_run show_uuid cs (a # as) (Running since db) = tron_run show_uuid cs as (tron_turn show_uuid cs a since db)"
| "tron_run show_uuid cs _ st = st"

definition watch_tron :: "(uuid \<Rightarrow> string) \<Rightarrow> int \<Rightarrow> tron_answers list \<Rightarrow> 'z watcher_db_scheme \<Rightarrow>
    (int, 'z watcher_db_scheme) loop_state" where
  "watch_tron show_uuid now answers db =
     tron_run show_uuid (token_contracts NTron db) answers (Running (now - 86400000) db)"

section \<open>Restarts\<close>

text \<open>
  \<open>supervise\<close>: the wait, in seconds, before each restart. A watcher that returns an error doubles the
  next wait; a panic is not caught and ends the task.
\<close>

definition min_backoff :: nat where "min_backoff = 10"
definition max_backoff :: nat where "max_backoff = 300"

datatype watch_exit = ExitedCleanly | ExitedWithError | ExitedByPanic

fun restart_waits :: "nat \<Rightarrow> watch_exit list \<Rightarrow> nat list" where
  "restart_waits b [] = []"
| "restart_waits b (ExitedCleanly # es) = min_backoff # restart_waits min_backoff es"
| "restart_waits b (ExitedWithError # es) =
     (let b' = min (b * 2) max_backoff in b' # restart_waits b' es)"
| "restart_waits b (ExitedByPanic # es) = []"

definition watch_supported :: "network \<Rightarrow> bool" where
  "watch_supported n \<longleftrightarrow> n = NTron \<or> is_evm n"

end
