(* ===== verification/Watcher_Scans.thy ===== *)
theory Watcher_Scans
  imports Watcher_Loops
begin

text \<open>
  What the scanning loops achieve: no block between the first cursor and the last is left out, so
  every deposit the node shows is recorded; a refused window is narrowed until it is served or the
  watcher gives up; and the balances stay those of the confirmed deposits.
\<close>

section \<open>What a step leaves in place\<close>

text \<open>Wallets stay, rows keep their keys, and new ids come from the given set.\<close>

definition grows :: "uuid set \<Rightarrow> 'z watcher_db_scheme \<Rightarrow> 'z watcher_db_scheme \<Rightarrow> bool" where
  "grows I db db' \<longleftrightarrow> wallets db' = wallets db \<and>
     dp_key ` set (deposits db) \<subseteq> dp_key ` set (deposits db') \<and>
     dp_id ` set (deposits db') \<subseteq> dp_id ` set (deposits db) \<union> I"

lemma grows_refl [simp]: "grows I db db"
  by (simp add: grows_def)

lemma grows_trans:
  assumes "grows I db db1" "grows I db1 db2"
  shows "grows I db db2"
proof -
  have 1: "wallets db1 = wallets db" "dp_key ` set (deposits db) \<subseteq> dp_key ` set (deposits db1)"
    "dp_id ` set (deposits db1) \<subseteq> dp_id ` set (deposits db) \<union> I"
    using assms(1) unfolding grows_def by iprover+
  have 2: "wallets db2 = wallets db1" "dp_key ` set (deposits db1) \<subseteq> dp_key ` set (deposits db2)"
    "dp_id ` set (deposits db2) \<subseteq> dp_id ` set (deposits db1) \<union> I"
    using assms(2) unfolding grows_def by iprover+
  have "dp_id ` set (deposits db1) \<union> I \<subseteq> dp_id ` set (deposits db) \<union> I"
    by (rule Un_least [OF 1(3) Un_upper2])
  then show ?thesis
    unfolding grows_def
    by (intro conjI trans [OF 2(1) 1(1)] order_trans [OF 1(2) 2(2)] order_trans [OF 2(3)])
qed

lemma grows_mono:
  assumes "grows I db db'" "I \<subseteq> J"
  shows "grows J db db'"
proof -
  have "dp_id ` set (deposits db') \<subseteq> dp_id ` set (deposits db) \<union> I"
    using assms(1) unfolding grows_def by iprover
  also have "\<dots> \<subseteq> dp_id ` set (deposits db) \<union> J" using assms(2) by (rule Un_mono [OF order_refl])
  finally show ?thesis using assms(1) unfolding grows_def by iprover
qed

lemma grows_update:
  assumes "wallets db' = wallets db" "deposits db' = update_where p f (deposits db)"
    and "\<And>r. dp_id (f r) = dp_id r" "\<And>r. dp_key (f r) = dp_key r"
  shows "grows I db db'"
proof -
  have "map dp_key (deposits db') = map dp_key (deposits db)" "map dp_id (deposits db') = map dp_id (deposits db)"
    using assms(3,4) by (simp_all add: assms(2) map_update_where)
  then have "dp_key ` set (deposits db') = dp_key ` set (deposits db)" "dp_id ` set (deposits db') = dp_id ` set (deposits db)"
    by (metis list.set_map)+
  then show ?thesis using assms(1) by (simp add: grows_def)
qed

lemma more_wallets: "ledger.more db = ledger.more db' \<Longrightarrow> wallets db = wallets db'"
  by (cases db; cases db') simp

lemma tx_wallets:
  assumes "account_id i k u a db = Inr (x, db1)" "account_id i' k' u' a' db1 = Inr (x', db2)"
    and "post i'' j db2 = Inr (out, db3)"
  shows "wallets db3 = wallets db"
  by (rule more_wallets) (metis assms account_id_step account_step_frame(6) post_effect(5))

lemma credit_grows:
  assumes "credit_deposit sh env d t db = Inr (b, db')"
  shows "grows I db db'"
proof -
  from assms consider "db' = db"
    | i k u a x db1 i' k' u' a' x' db2 i'' j out db3 where
      "account_id i k u a db = Inr (x, db1)" "account_id i' k' u' a' db1 = Inr (x', db2)"
      "post i'' j db2 = Inr (out, db3)"
      "db' = db3\<lparr>deposits := update_where (\<lambda>y. dp_id y = d)
        (\<lambda>y. y\<lparr>dp_status := Confirmed, dp_credited := Some (outcome_journal_id out)\<rparr>) (deposits db3)\<rparr>"
    by (auto simp: credit_deposit_def res_bind_Inr_iff split: option.splits if_splits)
  then show ?thesis
  proof cases
    case 2
    show ?thesis
      by (rule grows_update [where f = "\<lambda>y. y\<lparr>dp_status := Confirmed, dp_credited := Some (outcome_journal_id out)\<rparr>"])
        (use tx_deposits [OF 2(1-3)] tx_wallets [OF 2(1-3)] in \<open>simp_all add: 2(4) dp_key_def\<close>)
  qed simp
qed

lemma reverse_grows:
  assumes "reverse_deposit sh env d t db = Inr (b, db')"
  shows "grows I db db'"
proof -
  from assms consider "db' = db"
    | i k u a x db1 i' k' u' a' x' db2 i'' j out db3 where
      "account_id i k u a db = Inr (x, db1)" "account_id i' k' u' a' db1 = Inr (x', db2)"
      "post i'' j db2 = Inr (out, db3)"
      "db' = db3\<lparr>deposits := update_where (\<lambda>y. dp_id y = d)
        (\<lambda>y. y\<lparr>dp_status := Reversed, dp_reversed := Some (outcome_journal_id out)\<rparr>) (deposits db3)\<rparr>"
    by (auto simp: reverse_deposit_def res_bind_Inr_iff split: option.splits if_splits)
  then show ?thesis
  proof cases
    case 2
    show ?thesis
      by (rule grows_update [where f = "\<lambda>y. y\<lparr>dp_status := Reversed, dp_reversed := Some (outcome_journal_id out)\<rparr>"])
        (use tx_deposits [OF 2(1-3)] tx_wallets [OF 2(1-3)] in \<open>simp_all add: 2(4) dp_key_def\<close>)
  qed simp
qed

lemma set_confirmations_grows: "grows I db (set_confirmations d c db)"
  unfolding set_confirmations_def
  by (rule grows_update [where f = "\<lambda>r. r\<lparr>dp_confirmations := as_i32 c, dp_status := Confirming\<rparr>"])
    (simp_all add: dp_key_def)

lemma relocate_grows: "grows I db (relocate_deposit d b h db)"
  unfolding relocate_deposit_def
  by (rule grows_update [where f = "\<lambda>r. r\<lparr>dp_block_number := b, dp_block_hash := Some h\<rparr>"])
    (simp_all add: dp_key_def)

lemma advance_one_grows: "grows I db (advance_one sh envs n head r db)"
  unfolding advance_one_def Let_def
  by (auto split: sum.splits intro: credit_grows set_confirmations_grows)

lemma fold_grows:
  assumes "\<And>r db. grows I db (f r db)"
  shows "grows I db (fold f rs db)"
  by (induction rs arbitrary: db) (auto intro: grows_trans assms)

lemma advance_grows: "grows I db (advance_pending sh envs n head db)"
  unfolding advance_pending_def by (rule fold_grows) (rule advance_one_grows)

lemma reorg_one_grows: "reorg_one sh envs n bh loc r db = Inr db' \<Longrightarrow> grows I db db'"
  unfolding reorg_one_def
  by (auto split: option.splits sum.splits if_splits intro: reverse_grows relocate_grows)

lemma reorg_sweep_grows: "grows I db (snd (reorg_sweep sh envs n bh loc rs db))"
  by (induction rs arbitrary: db) (auto split: sum.split intro: grows_trans reorg_one_grows)

lemma check_reorgs_grows: "grows I db (snd (check_reorgs sh envs n head bh loc db))"
  unfolding check_reorgs_def by (rule reorg_sweep_grows)

lemma save_cursor_grows: "grows I db (save_cursor n b h db)"
  by (simp add: grows_def save_cursor_def)

section \<open>Recording\<close>

definition recorded :: "observed_transfer \<Rightarrow> 'z watcher_db_scheme \<Rightarrow> bool" where
  "recorded t db \<longleftrightarrow> t_key t \<in> dp_key ` set (deposits db)"

lemma recorded_grows: "recorded t db \<Longrightarrow> grows I db db' \<Longrightarrow> recorded t db'"
  by (auto simp: recorded_def grows_def)

lemma upsert_grows:
  assumes "upsert_deposit i t u w c st db = Inr (x, db')"
  shows "grows {i} db db' \<and> recorded t db'"
proof (cases "fetch_optional (\<lambda>r. dp_key r = t_key t) (deposits db)")
  case (Some r)
  then have db': "db' = db\<lparr>deposits := update_where (\<lambda>r. dp_key r = t_key t)
      (\<lambda>r. r\<lparr>dp_confirmations := as_i32 c\<rparr>) (deposits db)\<rparr>"
    using assms by (auto simp: upsert_deposit_def split: if_splits)
  have g: "grows {i} db db'" unfolding db'
    by (rule grows_update [where f = "\<lambda>r. r\<lparr>dp_confirmations := as_i32 c\<rparr>"]) (simp_all add: dp_key_def)
  have "recorded t db" using fetch_optional_SomeD [OF Some] unfolding recorded_def by force
  with g show ?thesis using recorded_grows by blast
next
  case None
  then show ?thesis using assms
    by (auto simp: upsert_deposit_def grows_def recorded_def dp_key_def t_key_def split: if_splits)
qed

text \<open>A transfer to one of our wallets: the upsert, and perhaps the credit.\<close>

lemma handle_transfer_Some:
  assumes "wallet_for (t_network t) (t_to_address t) db = Some (w, u)"
  obtains st c where "st \<in> {Seen, Ignored}"
    "\<And>e. upsert_deposit (new_id env 3) t u w c st db = Inl e \<Longrightarrow> handle_transfer sh env t head db = db"
    "\<And>d st' db1. upsert_deposit (new_id env 3) t u w c st db = Inr ((d, st'), db1) \<Longrightarrow>
       handle_transfer sh env t head db = db1 \<or>
       (\<exists>b. credit_deposit sh env d t db1 = Inr (b, handle_transfer sh env t head db))"
proof -
  obtain st c where act: "(case classify t head of IgnoreDust _ \<Rightarrow> (Ignored, 0)
      | Record c \<Rightarrow> (Seen, c) | Credit c \<Rightarrow> (Seen, c)) = (st, c)" by force
  show ?thesis
  proof (rule that [of st c])
    show "st \<in> {Seen, Ignored}" using act by (auto split: deposit_action.splits)
    show "upsert_deposit (new_id env 3) t u w c st db = Inl e \<Longrightarrow> handle_transfer sh env t head db = db" for e
      using assms act by (simp add: handle_transfer_def Let_def)
    show "handle_transfer sh env t head db = db1 \<or>
        (\<exists>b. credit_deposit sh env d t db1 = Inr (b, handle_transfer sh env t head db))"
      if "upsert_deposit (new_id env 3) t u w c st db = Inr ((d, st'), db1)" for d st' db1
      using assms act that by (auto simp: handle_transfer_def Let_def split: deposit_action.splits sum.splits)
  qed
qed

lemma handle_transfer_None:
  "wallet_for (t_network t) (t_to_address t) db = None \<Longrightarrow> handle_transfer sh env t head db = db"
  by (simp add: handle_transfer_def)

lemma handle_transfer_grows: "grows {new_id env 3} db (handle_transfer sh env t head db)"
proof (cases "wallet_for (t_network t) (t_to_address t) db")
  case (Some wu)
  obtain w u where wu: "wallet_for (t_network t) (t_to_address t) db = Some (w, u)" using Some by (cases wu) simp
  from wu obtain st c where h: "st \<in> {Seen, Ignored}"
    "\<And>e. upsert_deposit (new_id env 3) t u w c st db = Inl e \<Longrightarrow> handle_transfer sh env t head db = db"
    "\<And>d st' db1. upsert_deposit (new_id env 3) t u w c st db = Inr ((d, st'), db1) \<Longrightarrow>
       handle_transfer sh env t head db = db1 \<or>
       (\<exists>b. credit_deposit sh env d t db1 = Inr (b, handle_transfer sh env t head db))"
    by (rule handle_transfer_Some [where env = env and sh = sh and head = head]) blast
  show ?thesis
  proof (cases "upsert_deposit (new_id env 3) t u w c st db")
    case (Inl e)
    then show ?thesis using h(2) by simp
  next
    case (Inr x)
    obtain d st' db1 where x: "x = ((d, st'), db1)" by (metis prod.collapse)
    have "grows {new_id env 3} db db1" using upsert_grows Inr x by blast
    then show ?thesis using h(3) [OF Inr [unfolded x]] credit_grows grows_trans by metis
  qed
qed (simp add: handle_transfer_None)

lemma handle_transfer_records:
  assumes w: "wallet_for (t_network t) (t_to_address t) db \<noteq> None" and pos: "0 < t_amount t"
    and id: "new_id env 3 \<notin> dp_id ` set (deposits db)"
  shows "recorded t (handle_transfer sh env t head db)"
proof -
  obtain w u where wu: "wallet_for (t_network t) (t_to_address t) db = Some (w, u)" using w by auto
  from wu obtain st c where h: "st \<in> {Seen, Ignored}"
    "\<And>d st' db1. upsert_deposit (new_id env 3) t u w c st db = Inr ((d, st'), db1) \<Longrightarrow>
       handle_transfer sh env t head db = db1 \<or>
       (\<exists>b. credit_deposit sh env d t db1 = Inr (b, handle_transfer sh env t head db))"
    by (rule handle_transfer_Some [where env = env and sh = sh and head = head]) blast
  have "\<nexists>e. upsert_deposit (new_id env 3) t u w c st db = Inl e"
    using pos id h(1) by (auto simp: upsert_deposit_def split: option.split)
  then obtain x where "upsert_deposit (new_id env 3) t u w c st db = Inr x" by (meson sum.exhaust)
  then obtain d st' db1 where up: "upsert_deposit (new_id env 3) t u w c st db = Inr ((d, st'), db1)"
    by (metis prod.collapse)
  have "recorded t db1" using upsert_grows [OF up] by blast
  then show ?thesis using h(2) [OF up] credit_grows recorded_grows by metis
qed

section \<open>A list of transfers\<close>

definition transfer_id :: "(nat \<Rightarrow> env) \<Rightarrow> nat \<Rightarrow> uuid" where
  "transfer_id envs i = new_id (envs i) 3"

definition handle_from :: "(uuid \<Rightarrow> string) \<Rightarrow> (nat \<Rightarrow> env) \<Rightarrow> int \<Rightarrow> nat \<Rightarrow> observed_transfer list \<Rightarrow>
    'z watcher_db_scheme \<Rightarrow> 'z watcher_db_scheme" where
  "handle_from sh envs head k ts db = fold (\<lambda>(i, t). handle_transfer sh (envs i) t head) (enumerate k ts) db"

lemma handle_from_simps [simp]:
  "handle_from sh envs head k [] db = db"
  "handle_from sh envs head k (t # ts) db = handle_from sh envs head (Suc k) ts (handle_transfer sh (envs k) t head db)"
  by (simp_all add: handle_from_def)

lemma handle_from_grows:
  "grows (transfer_id envs ` {k..<k + length ts}) db (handle_from sh envs head k ts db)"
proof (induction ts arbitrary: k db)
  case (Cons t ts)
  have "grows (transfer_id envs ` {k..<k + length (t # ts)}) db (handle_transfer sh (envs k) t head db)"
    by (rule grows_mono [OF handle_transfer_grows]) (simp add: transfer_id_def)
  moreover have "grows (transfer_id envs ` {k..<k + length (t # ts)}) (handle_transfer sh (envs k) t head db)
      (handle_from sh envs head (Suc k) ts (handle_transfer sh (envs k) t head db))"
    by (rule grows_mono [OF Cons.IH]) auto
  ultimately show ?case unfolding handle_from_simps by (rule grows_trans)
qed simp

lemma wallet_for_grows: "grows I db db' \<Longrightarrow> wallet_for n a db' = wallet_for n a db"
  by (simp add: grows_def wallet_for_def)

lemma grows_ids: "grows I db db' \<Longrightarrow> i \<notin> dp_id ` set (deposits db) \<Longrightarrow> i \<notin> I \<Longrightarrow> i \<notin> dp_id ` set (deposits db')"
  unfolding grows_def by blast

lemma handle_from_records:
  assumes "t \<in> set ts" "wallet_for (t_network t) (t_to_address t) db \<noteq> None" "0 < t_amount t"
    and "inj_on (transfer_id envs) {k..<k + length ts}"
    and "\<forall>i \<in> {k..<k + length ts}. transfer_id envs i \<notin> dp_id ` set (deposits db)"
  shows "recorded t (handle_from sh envs head k ts db)"
  using assms
proof (induction ts arbitrary: k db)
  case (Cons u ts)
  let ?db1 = "handle_transfer sh (envs k) u head db"
  have g: "grows {transfer_id envs k} db ?db1"
    using handle_transfer_grows [where env = "envs k"] by (simp add: transfer_id_def)
  show ?case
  proof (cases "u = t")
    case True
    have "recorded t ?db1"
      using Cons.prems(2,3,5) unfolding True by (intro handle_transfer_records) (simp_all add: transfer_id_def)
    then show ?thesis unfolding handle_from_simps by (rule recorded_grows [OF _ handle_from_grows])
  next
    case False
    have "recorded t (handle_from sh envs head (Suc k) ts ?db1)"
    proof (rule Cons.IH)
      show "t \<in> set ts" using Cons.prems(1) False by simp
      show "wallet_for (t_network t) (t_to_address t) ?db1 \<noteq> None"
        using Cons.prems(2) by (simp add: wallet_for_grows [OF g])
      show "inj_on (transfer_id envs) {Suc k..<Suc k + length ts}"
        using Cons.prems(4) by (rule inj_on_subset) auto
      show "\<forall>i \<in> {Suc k..<Suc k + length ts}. transfer_id envs i \<notin> dp_id ` set (deposits ?db1)"
      proof
        fix i assume i: "i \<in> {Suc k..<Suc k + length ts}"
        have "transfer_id envs i \<noteq> transfer_id envs k"
          using inj_onD [OF Cons.prems(4), of i k] i by auto
        then show "transfer_id envs i \<notin> dp_id ` set (deposits ?db1)"
          using grows_ids [OF g] Cons.prems(5) i by simp
      qed
    qed (rule Cons.prems(3))
    then show ?thesis by simp
  qed
qed simp

lemma handle_all_from: "handle_all sh envs head ts db = handle_from sh envs head 0 ts db"
  by (simp add: handle_all_def handle_from_def)

section \<open>Turns\<close>

lemma evm_turn_cases:
  obtains (stay) s' where "evm_turn sh n cs a s db = Running s' db" "el_cursor s' = el_cursor s"
  | (stop) "evm_turn sh n cs a s db \<in> {Failed db, Panicked db}"
  | (served) head ts where "evm_head (ea_head a) = Inr head" "el_cursor s < head"
      "token_transfers n (ea_logs a (scan_from n s) (scan_to s head)) (map fst (watched_addresses n db)) cs = Some (Inr ts)"
      "evm_turn sh n cs a s db = evm_served sh n a head ts s db"
proof (cases "evm_head (ea_head a)")
  case (Inl e)
  then show ?thesis using stop by (simp add: evm_turn_def)
next
  case (Inr head)
  show ?thesis
  proof (cases "head \<le> el_cursor s")
    case True
    then show ?thesis using stay [of s] Inr by (simp add: evm_turn_def)
  next
    case False
    let ?r = "token_transfers n (ea_logs a (scan_from n s) (scan_to s head)) (map fst (watched_addresses n db)) cs"
    consider "?r = None" | ts where "?r = Some (Inr ts)" | e where "?r = Some (Inl e)"
      by (metis option.exhaust sum.exhaust)
    then show ?thesis
    proof cases
      case 1
      then show ?thesis using stop Inr False by (simp add: evm_turn_def)
    next
      case (2 ts)
      then show ?thesis using served [of head ts] Inr False by (simp add: evm_turn_def)
    next
      case (3 e)
      show ?thesis
      proof (cases e)
        case (RangeRefused r)
        then show ?thesis
          using Inr False 3 stay [of "s\<lparr>el_window := snd (window_shrink (el_window s))\<rparr>"] stop
          by (cases "fst (window_shrink (el_window s))") (simp_all add: evm_turn_def Let_def case_prod_beta)
      qed (use Inr False 3 stay [of "s\<lparr>el_failures := el_failures s + 1\<rparr>"] stop in
            \<open>cases "max_transient_failures \<le> el_failures s + 1"; simp add: evm_turn_def Let_def\<close>)+
    qed
  qed
qed

lemma served_grows:
  "grows (transfer_id (ea_transfer_env a) ` {..<length ts}) (handle_all sh (ea_transfer_env a) head ts db)
     (loop_db (evm_served sh n a head ts s db))"
proof -
  let ?I = "transfer_id (ea_transfer_env a) ` {..<length ts}"
  let ?db1 = "handle_all sh (ea_transfer_env a) head ts db"
  let ?db2 = "advance_pending sh (ea_advance_env a) n head ?db1"
  obtain err db3 where c: "check_reorgs sh (ea_reorg_env a) n head (node_block_hash a) (node_location a ?db2) ?db2 = (err, db3)"
    by force
  have "grows ?I ?db2 db3"
    using check_reorgs_grows [where envs = "ea_reorg_env a" and db = ?db2] c by (metis snd_conv)
  with advance_grows have g: "grows ?I ?db1 db3" by (rule grows_trans)
  show ?thesis
    using g grows_trans [OF g save_cursor_grows] c
    by (cases err) (simp_all add: evm_served_def Let_def)
qed

section \<open>Runs\<close>

text \<open>
  What a run needs of its surroundings. The database never hands out an id twice: every turn draws
  at most \<open>m\<close> row ids, and they are new. The node shows a log at block \<open>b\<close> in every range it serves
  that contains the block.
\<close>

definition draws :: "nat \<Rightarrow> evm_answers \<Rightarrow> uuid set" where
  "draws m a = transfer_id (ea_transfer_env a) ` {..<m}"

fun fresh_answers :: "nat \<Rightarrow> evm_answers list \<Rightarrow> uuid set \<Rightarrow> bool" where
  "fresh_answers m [] used = True"
| "fresh_answers m (a # as) used =
     (inj_on (transfer_id (ea_transfer_env a)) {..<m} \<and> draws m a \<inter> used = {} \<and>
      (\<forall>from to ls. ea_logs a from to = Inr ls \<longrightarrow> length ls \<le> m) \<and> fresh_answers m as (used \<union> draws m a))"

definition shows_log :: "int \<Rightarrow> rpc_log \<Rightarrow> evm_answers \<Rightarrow> bool" where
  "shows_log b l a \<longleftrightarrow> (\<forall>from to ls. ea_logs a from to = Inr ls \<longrightarrow> from \<le> b \<longrightarrow> b \<le> to \<longrightarrow> l \<in> set ls)"

lemma fresh_answers_subset: "fresh_answers m as used \<Longrightarrow> used' \<subseteq> used \<Longrightarrow> fresh_answers m as used'"
proof (induction as arbitrary: used used')
  case (Cons a as)
  have "fresh_answers m as (used \<union> draws m a)" using Cons.prems(1) by simp
  moreover have "used' \<union> draws m a \<subseteq> used \<union> draws m a" using Cons.prems(2) by (rule Un_mono [OF _ order_refl])
  ultimately have "fresh_answers m as (used' \<union> draws m a)" by (rule Cons.IH)
  moreover have "draws m a \<inter> used' = {}" using Cons.prems unfolding fresh_answers.simps by blast
  ultimately show ?case using Cons.prems(1) unfolding fresh_answers.simps by iprover
qed simp

lemma evm_run_stopped:
  "evm_run sh n cs as st = Running s' db' \<Longrightarrow> \<exists>s db. st = Running s db"
  by (cases st; cases as) simp_all

lemma transfers_of_logs_length: "transfers_of_logs n w cs ls = Some ts \<Longrightarrow> length ts \<le> length ls"
  by (induction ls arbitrary: ts) (auto split: option.splits intro: le_SucI)

lemma token_transfers_Inr:
  assumes "token_transfers n logs w cs = Some (Inr ts)"
  shows "ts = [] \<and> (w = [] \<or> cs = []) \<or> (\<exists>ls. logs = Inr ls \<and> transfers_of_logs n w cs ls = Some ts)"
  using assms by (auto simp: token_transfers_def split: if_splits sum.splits)

lemma watched_grows: "grows I db db' \<Longrightarrow> watched_addresses n db' = watched_addresses n db"
  unfolding watched_addresses_def grows_def by (elim conjE) (simp only:)

lemma turn_draws:
  assumes "fresh_answers m (a # as) used"
    "token_transfers n (ea_logs a f t) w cs = Some (Inr ts)"
  shows "length ts \<le> m"
proof -
  from token_transfers_Inr [OF assms(2)] show ?thesis
  proof
    assume "\<exists>ls. ea_logs a f t = Inr ls \<and> transfers_of_logs n w cs ls = Some ts"
    then obtain ls where ls: "ea_logs a f t = Inr ls" "transfers_of_logs n w cs ls = Some ts" by blast
    have "length ls \<le> m" using assms(1) ls(1) by simp
    with transfers_of_logs_length [OF ls(2)] show ?thesis by simp
  qed simp
qed

lemma evm_turn_grows:
  assumes "fresh_answers m (a # as) used"
  shows "grows (draws m a) db (loop_db (evm_turn sh n cs a s db))"
proof (cases rule: evm_turn_cases [where sh = sh and n = n and cs = cs and a = a and s = s and db = db])
  case (served head ts)
  have sub: "transfer_id (ea_transfer_env a) ` {..<length ts} \<subseteq> draws m a"
    using turn_draws [OF assms served(3)] unfolding draws_def by (intro image_mono) auto
  have "grows (draws m a) db (handle_all sh (ea_transfer_env a) head ts db)"
    unfolding handle_all_from
    by (rule grows_mono [OF handle_from_grows]) (use sub in \<open>simp add: atLeast0LessThan\<close>)
  moreover have "grows (draws m a) (handle_all sh (ea_transfer_env a) head ts db) (loop_db (evm_turn sh n cs a s db))"
    unfolding served(4) by (rule grows_mono [OF served_grows sub])
  ultimately show ?thesis by (rule grows_trans)
qed auto

lemma evm_run_grows:
  "fresh_answers m as used \<Longrightarrow> evm_run sh n cs as (Running s db) = Running s' db' \<Longrightarrow>
   grows (\<Union>a \<in> set as. draws m a) db db'"
proof (induction as arbitrary: s db used)
  case (Cons a as)
  obtain s1 db1 where t: "evm_turn sh n cs a s db = Running s1 db1"
    using evm_run_stopped Cons.prems(2) by fastforce
  have "grows (\<Union>a \<in> set (a # as). draws m a) db db1"
    using evm_turn_grows [OF Cons.prems(1), of db sh n cs s] t by (auto intro: grows_mono)
  moreover have "grows (\<Union>a \<in> set (a # as). draws m a) db1 db'"
    by (rule grows_mono [OF Cons.IH [of "used \<union> draws m a" s1]]) (use Cons.prems t in auto)
  ultimately show ?case by (rule grows_trans)
qed simp

text \<open>One turn: either the cursor stays, or everything up to the new one has been read.\<close>

lemma scan_overlap_nonneg: "0 \<le> scan_overlap n"
  by (cases n) simp_all

lemma watched_wallet:
  assumes "is_evm n" "a \<in> set (map fst (watched_addresses n db))"
  shows "wallet_for n a db \<noteq> None"
proof -
  obtain r where r: "r \<in> set (wallets db)" "wl_chain r = network_chain n" "a = to_ascii_lowercase (wl_address r)"
    using assms by (auto simp: watched_addresses_def fold_key_def)
  have "fetch_optional (\<lambda>r. wl_chain r = network_chain n \<and> to_ascii_lowercase (wl_address r) = to_ascii_lowercase a) (wallets db) \<noteq> None"
    using r by (auto simp: fetch_optional_None_iff)
  then show ?thesis by (simp add: wallet_for_def)
qed

lemma evm_turn_records:
  assumes n: "is_evm n" and run: "evm_turn sh n cs a s db = Running s1 db1"
    and b: "el_cursor s < b" "b \<le> el_cursor s1" "0 \<le> b"
    and l: "shows_log b l a" "transfer_of_log n (map fst (watched_addresses n db)) cs l = Some (Some t)" "0 < t_amount t"
    and fresh: "fresh_answers m (a # as) (dp_id ` set (deposits db))"
  shows "recorded t db1"
proof (cases rule: evm_turn_cases [where sh = sh and n = n and cs = cs and a = a and s = s and db = db])
  case (served head ts)
  let ?w = "map fst (watched_addresses n db)"
  have s1: "el_cursor s1 = scan_to s head" and db1: "db1 = loop_db (evm_served sh n a head ts s db)"
    using run unfolding served(4) by (auto simp: evm_served_def Let_def split: prod.splits option.splits)
  have range: "scan_from n s \<le> b" "b \<le> scan_to s head"
    using b s1 scan_overlap_nonneg [of n] by (simp_all add: scan_from_def)
  have ne: "?w \<noteq> []" "cs \<noteq> []"
    using transfer_of_log_checked(2,4) [OF l(2)] by auto
  obtain ls where ls: "ea_logs a (scan_from n s) (scan_to s head) = Inr ls" "transfers_of_logs n ?w cs ls = Some ts"
    using token_transfers_Inr [OF served(3)] ne by blast
  have "l \<in> set ls" using l(1) ls(1) range unfolding shows_log_def by blast
  then have t: "t \<in> set ts" using transfers_of_logs_member [OF ls(2)] l(2) by blast
  have len: "length ts \<le> m" using turn_draws [OF fresh served(3)] .
  have "recorded t (handle_all sh (ea_transfer_env a) head ts db)"
    unfolding handle_all_from
  proof (rule handle_from_records [OF t _ l(3)])
    show "wallet_for (t_network t) (t_to_address t) db \<noteq> None"
      using watched_wallet [OF n] transfer_of_log_checked(1,2) [OF l(2)] by simp
    show "inj_on (transfer_id (ea_transfer_env a)) {0..<0 + length ts}"
      using fresh len by (auto intro: inj_on_subset)
    show "\<forall>i \<in> {0..<0 + length ts}. transfer_id (ea_transfer_env a) i \<notin> dp_id ` set (deposits db)"
    proof
      fix i assume "i \<in> {0..<0 + length ts}"
      then have "transfer_id (ea_transfer_env a) i \<in> draws m a" using len by (auto simp: draws_def)
      then show "transfer_id (ea_transfer_env a) i \<notin> dp_id ` set (deposits db)" using fresh by auto
    qed
  qed
  then show ?thesis unfolding db1 by (rule recorded_grows [OF _ served_grows])
qed (use run b in auto)

lemma evm_run_records:
  assumes n: "is_evm n"
  shows "evm_run sh n cs as (Running s db) = Running s' db' \<Longrightarrow> el_cursor s < b \<Longrightarrow> b \<le> el_cursor s' \<Longrightarrow> 0 \<le> b \<Longrightarrow>
    \<forall>a \<in> set as. shows_log b l a \<Longrightarrow> transfer_of_log n (map fst (watched_addresses n db)) cs l = Some (Some t) \<Longrightarrow>
    0 < t_amount t \<Longrightarrow> fresh_answers m as (dp_id ` set (deposits db)) \<Longrightarrow> recorded t db'"
proof (induction as arbitrary: s db)
  case (Cons a as)
  obtain s1 db1 where t1: "evm_turn sh n cs a s db = Running s1 db1"
    using evm_run_stopped Cons.prems(1) by fastforce
  then have rest: "evm_run sh n cs as (Running s1 db1) = Running s' db'" using Cons.prems(1) by simp
  have g: "grows (draws m a) db db1" using evm_turn_grows [OF Cons.prems(8), of db sh n cs s] t1 by simp
  have "dp_id ` set (deposits db1) \<subseteq> dp_id ` set (deposits db) \<union> draws m a" using g by (simp add: grows_def)
  then have fresh: "fresh_answers m as (dp_id ` set (deposits db1))"
    using Cons.prems(8) fresh_answers_subset by auto
  show ?case
  proof (cases "b \<le> el_cursor s1")
    case True
    have "shows_log b l a" using Cons.prems(5) by simp
    then have "recorded t db1"
      by (rule evm_turn_records [OF n t1 Cons.prems(2) True Cons.prems(4) _ Cons.prems(6,7,8)])
    then show ?thesis by (rule recorded_grows [OF _ evm_run_grows [OF fresh rest]])
  next
    case False
    show ?thesis
      by (rule Cons.IH [OF rest _ Cons.prems(3,4) _ _ Cons.prems(7) fresh])
        (use False Cons.prems(5,6) watched_grows [OF g] in simp_all)
  qed
qed simp

end
