(* ===== verification/Watcher_Liveness.thy ===== *)
theory Watcher_Liveness
  imports Watcher_Scans
begin

text \<open>
  The properties of the scanning loops of \<open>crates/watcher/src/main.rs\<close>, with runs of two turns as
  witnesses: every deposit the node shows is recorded, and a node that serves no logs is given up.
\<close>

section \<open>Every deposit is recorded\<close>


section \<open>A node that serves no logs\<close>

definition query_fails :: "int \<Rightarrow> evm_answers \<Rightarrow> bool" where
  "query_fails c a \<longleftrightarrow> (case evm_head (ea_head a) of
       Inl _ \<Rightarrow> True
     | Inr head \<Rightarrow> c < head \<and> (\<forall>from to. \<exists>e. ea_logs a from to = Inl e))"

lemma failing_turn:
  assumes "query_fails (el_cursor s) a" "window_ok (el_window s)" "lw_size (el_window s) < 2 ^ k"
    and "el_failures s < max_transient_failures" "watched_addresses n db \<noteq> []" "cs \<noteq> []"
  shows "evm_turn sh n cs a s db = Failed db \<or>
    (\<exists>s' k'. evm_turn sh n cs a s db = Running s' db \<and> el_cursor s' = el_cursor s \<and> window_ok (el_window s') \<and>
       lw_size (el_window s') < 2 ^ k' \<and> el_failures s' < max_transient_failures \<and> k + el_failures s' = Suc (k' + el_failures s))
    \<or> (\<exists>s'. evm_turn sh n cs a s db = Running s' db \<and> el_cursor s' = el_cursor s \<and> el_window s' = el_window s \<and>
       el_failures s' = Suc (el_failures s) \<and> el_failures s' < max_transient_failures)"
proof (cases "evm_head (ea_head a)")
  case (Inl e)
  then show ?thesis by (simp add: evm_turn_def)
next
  case (Inr head)
  then have c: "el_cursor s < head" and f: "\<exists>e. ea_logs a (scan_from n s) (scan_to s head) = Inl e"
    using assms(1) by (simp_all add: query_fails_def)
  obtain e where "ea_logs a (scan_from n s) (scan_to s head) = Inl e" using f by blast
  then have r: "token_transfers n (ea_logs a (scan_from n s) (scan_to s head)) (map fst (watched_addresses n db)) cs = Some (Inl e)"
    using assms(5,6) by (simp add: token_transfers_def)
  show ?thesis
  proof (cases e)
    case (RangeRefused x)
    obtain ok w where w: "window_shrink (el_window s) = (ok, w)" by force
    obtain k' where k': "k = Suc k'"
      using assms(2,3) by (cases k) (auto simp: window_ok_def)
    show ?thesis
    proof (cases ok)
      case True
      have "window_ok w \<and> lw_size w < 2 ^ k' \<and> 0 < k'"
        using window_shrink_halves [OF assms(2) assms(3) [unfolded k']] w True by simp
      then show ?thesis
        using Inr c r RangeRefused w True k' assms(4) by (auto simp: evm_turn_def)
    next
      case False
      then show ?thesis using Inr c r RangeRefused w by (simp add: evm_turn_def)
    qed
  qed (use Inr c r in \<open>auto simp: evm_turn_def Let_def\<close>)
qed

lemma failing_run:
  "window_ok (el_window s) \<Longrightarrow> lw_size (el_window s) < 2 ^ k \<Longrightarrow> el_failures s < max_transient_failures \<Longrightarrow>
   watched_addresses n db \<noteq> [] \<Longrightarrow> cs \<noteq> [] \<Longrightarrow> \<forall>a \<in> set as. query_fails (el_cursor s) a \<Longrightarrow>
   k + 4 \<le> length as + el_failures s \<Longrightarrow> evm_run sh n cs as (Running s db) = Failed db"
proof (induction as arbitrary: s k)
  case Nil
  then have "k = 0" by (simp add: max_transient_failures_def)
  then show ?case using Nil(1,2) by (simp add: window_ok_def)
next
  case (Cons a as)
  have "query_fails (el_cursor s) a" using Cons.prems(6) by simp
  from failing_turn [OF this Cons.prems(1-5), where sh = sh] show ?case
  proof (elim disjE exE conjE)
    fix s' k'
    assume s': "evm_turn sh n cs a s db = Running s' db" "el_cursor s' = el_cursor s" "window_ok (el_window s')"
      "lw_size (el_window s') < 2 ^ k'" "el_failures s' < max_transient_failures" "k + el_failures s' = Suc (k' + el_failures s)"
    have "evm_run sh n cs as (Running s' db) = Failed db"
      by (rule Cons.IH [OF s'(3,4,5) Cons.prems(4,5)]) (use Cons.prems(6,7) s'(2,6) in simp_all)
    then show ?thesis using s'(1) by simp
  next
    fix s'
    assume s': "evm_turn sh n cs a s db = Running s' db" "el_cursor s' = el_cursor s" "el_window s' = el_window s"
      "el_failures s' = Suc (el_failures s)" "el_failures s' < max_transient_failures"
    have "evm_run sh n cs as (Running s' db) = Failed db"
      by (rule Cons.IH [where k = k]) (use Cons.prems s' in simp_all)
    then show ?thesis using s'(1) by simp
  qed simp
qed

text \<open>
  C20. The loop does not retry for ever. When every log query of an EVM network is refused or fails,
  in any mixture, the watcher has given up after at most fifteen turns (ten halvings of the window of
  2000 blocks, four failed queries and one more), with nothing written.
\<close>

theorem scan_gives_up:
  assumes "evm_head first = Inr head" "15 \<le> length answers"
    and "watched_addresses n db \<noteq> []" "token_contracts n db \<noteq> []"
    and "\<forall>a \<in> set answers. query_fails (el_cursor (evm_start n head db)) a"
  shows "watch_evm show_uuid n first answers db = Failed db"
proof -
  have "evm_run show_uuid n (token_contracts n db) answers (Running (evm_start n head db) db) = Failed db"
    using assms(2-5)
    by (intro failing_run [where k = 11])
      (simp_all add: evm_start_def window_ok_new, simp_all add: window_new_def max_log_window_def max_transient_failures_def)
  then show ?thesis using assms(1) by (simp add: watch_evm_def)
qed

section \<open>Restarts\<close>

lemma restart_waits_bounded:
  "min_backoff \<le> b \<Longrightarrow> b \<le> max_backoff \<Longrightarrow> \<forall>w \<in> set (restart_waits b es). min_backoff \<le> w \<and> w \<le> max_backoff"
  by (induction b es rule: restart_waits.induct) (auto simp: min_backoff_def max_backoff_def Let_def)

text \<open>A panic ends the restarts, whatever follows.\<close>

lemma panic_ends_watching: "restart_waits b (es @ ExitedByPanic # fs) = restart_waits b es"
  by (induction b es rule: restart_waits.induct) (auto simp: Let_def)

text \<open>A transfer of more than 96 bits of base units is such a panic.\<close>

lemma huge_transfer_panics:
  assumes "2 ^ 96 \<le> raw" "raw < 2 ^ 127"
  shows "scaled raw decimals = None"
  using assms by (simp add: scaled_def as_i128_def)

section \<open>Witnesses\<close>

definition demo_address :: string where
  "demo_address = ''0x6fac4d18c912343bf86fa7049364dd4e424ab9c0''"

definition demo_log :: rpc_log where
  "demo_log = \<lparr>lg_address = ''0xC0'', lg_topics = [[], [], address_to_topic demo_address], lg_data = ''0x1e8480'',
     lg_block_number = ''0x5a'', lg_block_hash = ''0xb'', lg_tx_hash = ''0x7'', lg_index = ''0x0''\<rparr>"

definition demo_node :: "nat \<Rightarrow> string \<Rightarrow> evm_answers" where
  "demo_node k head = \<lparr>ea_head = Inr head,
     ea_logs = (\<lambda>from to. if from \<le> 90 \<and> 90 \<le> to then Inr [demo_log] else Inr []),
     ea_block = (\<lambda>_. Inr None), ea_receipt = (\<lambda>_. Inr None),
     ea_transfer_env = (\<lambda>i. \<lparr>app_now = 0, sql_now = 0, new_id = (\<lambda>j. word_of_nat (100 * k + 10 * i + j))\<rparr>),
     ea_advance_env = (\<lambda>_. demo_env), ea_reorg_env = (\<lambda>_. demo_env)\<rparr>"

definition demo_watched :: watcher_db where
  "demo_watched = start_db\<lparr>wallets := [\<lparr>wl_id = 5, wl_user = 7, wl_chain = Evm, wl_address = demo_address\<rparr>],
     contracts := [\<lparr>tc_network = Bsc, tc_contract = Some ''0xc0'', tc_asset = ''USDT'', tc_decimals = 6, tc_active = True\<rparr>]\<rparr>"

definition demo_answers :: "evm_answers list" where
  "demo_answers = [demo_node 0 ''0x65'', demo_node 1 ''0x66'']"

definition demo_refusal :: evm_answers where
  "demo_refusal = (demo_node 0 ''0x65'')\<lparr>ea_logs := (\<lambda>_ _. Inl (RangeRefused ''limit exceeded''))\<rparr>"

lemma demo_watch_runs:
  "case watch_evm (\<lambda>_. []) Bsc (Inr ''0x64'') demo_answers demo_watched of Running s db \<Rightarrow> 90 \<le> el_cursor s | _ \<Rightarrow> False"
  by code_simp

lemma demo_log_transfer:
  "map_option (map_option (\<lambda>t. (t_key t, 0 < t_amount t)))
     (transfer_of_log Bsc (map fst (watched_addresses Bsc demo_watched)) (token_contracts Bsc demo_watched) demo_log) =
   Some (Some ((Evm, ''0x7'', 0), True))"
  by code_simp


theorem scan_gives_up_witness:
  "watch_evm (\<lambda>_. []) Bsc (Inr ''0x64'') (replicate 15 demo_refusal) demo_watched = Failed demo_watched"
proof (rule scan_gives_up)
  show "evm_head (Inr ''0x64'') = Inr 100" by code_simp
  show "watched_addresses Bsc demo_watched \<noteq> []" "token_contracts Bsc demo_watched \<noteq> []" by code_simp+
  have "evm_head (Inr ''0x65'') = Inr 101" "el_cursor (evm_start Bsc 100 demo_watched) < 101" by code_simp+
  then show "\<forall>a \<in> set (replicate 15 demo_refusal). query_fails (el_cursor (evm_start Bsc 100 demo_watched)) a"
    by (simp add: query_fails_def demo_refusal_def demo_node_def)
qed simp

end
