(* ===== verification/Api_Error.thy ===== *)
theory Api_Error
  imports Journals Rust_Strings
begin

text \<open>
  The error envelope of the API, \<open>crates/api/src/error.rs\<close>: the variants of \<open>ApiError\<close>, the code and
  status the client branches on, and the response, which never carries an internal error's text.
\<close>

section \<open>Errors\<close>

text \<open>What an \<open>anyhow::Error\<close> of the API was made from: a database error, a ledger error or a message.\<close>

datatype internal_error = IDb db_error | ILedger ledger_error | IMsg string

datatype api_error =
    OtpInvalid int
  | OtpExpired
  | OtpThrottled int
  | PinInvalid int
  | PinLocked int
  | Unauthorized
  | InsufficientBalance
  | LimitExceeded string
  | KycRequired string
  | QuoteExpired
  | QuoteConsumed
  | PriceMoved string
  | BankUnverified
  | AssetPaused string
  | ServiceUnavailable string
  | BadRequest string
  | TotpLocked
  | OperatorDisabled
  | RefundCap
  | RecheckUnavailable
  | ClaimConflict
  | LastProvider
  | Conflict string
  | NotFound
  | RateLimited int
  | Internal internal_error

fun api_code :: "api_error \<Rightarrow> string" where
  "api_code (OtpInvalid _) = ''OTP_INVALID''"
| "api_code OtpExpired = ''OTP_EXPIRED''"
| "api_code (OtpThrottled _) = ''OTP_THROTTLED''"
| "api_code (PinInvalid _) = ''PIN_INVALID''"
| "api_code (PinLocked _) = ''PIN_LOCKED''"
| "api_code Unauthorized = ''UNAUTHORIZED''"
| "api_code InsufficientBalance = ''INSUFFICIENT_BALANCE''"
| "api_code (LimitExceeded _) = ''LIMIT_EXCEEDED''"
| "api_code (KycRequired _) = ''KYC_REQUIRED''"
| "api_code QuoteExpired = ''QUOTE_EXPIRED''"
| "api_code QuoteConsumed = ''QUOTE_CONSUMED''"
| "api_code (PriceMoved _) = ''PRICE_MOVED''"
| "api_code BankUnverified = ''BANK_UNVERIFIED''"
| "api_code (AssetPaused _) = ''ASSET_PAUSED''"
| "api_code (ServiceUnavailable _) = ''SERVICE_UNAVAILABLE''"
| "api_code (BadRequest _) = ''BAD_REQUEST''"
| "api_code TotpLocked = ''TOTP_LOCKED''"
| "api_code OperatorDisabled = ''FORBIDDEN''"
| "api_code RefundCap = ''REFUND_CAP''"
| "api_code RecheckUnavailable = ''RECHECK_UNAVAILABLE''"
| "api_code ClaimConflict = ''CLAIM_CONFLICT''"
| "api_code LastProvider = ''LAST_PROVIDER''"
| "api_code (Conflict _) = ''CONFLICT''"
| "api_code NotFound = ''NOT_FOUND''"
| "api_code (RateLimited _) = ''RATE_LIMITED''"
| "api_code (Internal _) = ''INTERNAL''"

fun api_status :: "api_error \<Rightarrow> nat" where
  "api_status (OtpInvalid _) = 401"
| "api_status OtpExpired = 410"
| "api_status (OtpThrottled _) = 429"
| "api_status (PinInvalid _) = 401"
| "api_status (PinLocked _) = 423"
| "api_status Unauthorized = 401"
| "api_status InsufficientBalance = 422"
| "api_status (LimitExceeded _) = 422"
| "api_status (KycRequired _) = 403"
| "api_status QuoteExpired = 409"
| "api_status QuoteConsumed = 409"
| "api_status (PriceMoved _) = 409"
| "api_status BankUnverified = 422"
| "api_status (AssetPaused _) = 503"
| "api_status (ServiceUnavailable _) = 503"
| "api_status (BadRequest _) = 400"
| "api_status TotpLocked = 400"
| "api_status OperatorDisabled = 403"
| "api_status RefundCap = 400"
| "api_status RecheckUnavailable = 409"
| "api_status ClaimConflict = 409"
| "api_status LastProvider = 409"
| "api_status (Conflict _) = 409"
| "api_status NotFound = 404"
| "api_status (RateLimited _) = 429"
| "api_status (Internal _) = 500"

text \<open>\<open>Display\<close>, with the naira sign as its three UTF-8 bytes.\<close>

fun api_display :: "(internal_error \<Rightarrow> string) \<Rightarrow> api_error \<Rightarrow> string" where
  "api_display show_internal (OtpInvalid _) = ''that code isn'' @ [CHR 0x27] @ ''t right''"
| "api_display show_internal OtpExpired = ''that code has expired''"
| "api_display show_internal (OtpThrottled _) = ''too many attempts, try again shortly''"
| "api_display show_internal (PinInvalid _) = ''that PIN isn'' @ [CHR 0x27] @ ''t right''"
| "api_display show_internal (PinLocked _) = ''PIN entry is locked''"
| "api_display show_internal Unauthorized = ''please sign in again''"
| "api_display show_internal InsufficientBalance = ''not enough balance''"
| "api_display show_internal (LimitExceeded _) = ''that would go over your limit''"
| "api_display show_internal (KycRequired _) = ''verification required''"
| "api_display show_internal QuoteExpired = ''that rate expired''"
| "api_display show_internal QuoteConsumed = ''that quote was already used''"
| "api_display show_internal (PriceMoved p) = ''that price changed to '' @ [CHR 0xE2, CHR 0x82, CHR 0xA6] @ p"
| "api_display show_internal BankUnverified = ''this bank account isn'' @ [CHR 0x27] @ ''t verified yet''"
| "api_display show_internal (AssetPaused a) = a @ '' is paused right now''"
| "api_display show_internal (ServiceUnavailable m) = m"
| "api_display show_internal (BadRequest m) = m"
| "api_display show_internal TotpLocked = ''too many TOTP attempts, try again shortly''"
| "api_display show_internal OperatorDisabled = ''this operator is disabled''"
| "api_display show_internal RefundCap = ''that refund is over the configured cap''"
| "api_display show_internal RecheckUnavailable = ''this order cannot be rechecked without buying again''"
| "api_display show_internal ClaimConflict = ''another worker is updating this order''"
| "api_display show_internal LastProvider = ''Keep at least one supplier on.''"
| "api_display show_internal (Conflict m) = m"
| "api_display show_internal NotFound = ''not found''"
| "api_display show_internal (RateLimited _) = ''too many requests, try again shortly''"
| "api_display show_internal (Internal err) = show_internal err"

fun api_meta :: "api_error \<Rightarrow> json option" where
  "api_meta (OtpInvalid n) = Some (JObj [(''attemptsRemaining'', JInt n)])"
| "api_meta (PinInvalid n) = Some (JObj [(''attemptsRemaining'', JInt n)])"
| "api_meta (OtpThrottled s) = Some (JObj [(''retryAfter'', JInt s)])"
| "api_meta (PinLocked s) = Some (JObj [(''retryAfter'', JInt s)])"
| "api_meta (RateLimited s) = Some (JObj [(''retryAfter'', JInt s)])"
| "api_meta (LimitExceeded l) = Some (JObj [(''limit'', JStr l)])"
| "api_meta (KycRequired s) = Some (JObj [(''nextStep'', JStr s)])"
| "api_meta (AssetPaused a) = Some (JObj [(''asset'', JStr a)])"
| "api_meta (PriceMoved p) = Some (JObj [(''priceNgn'', JStr p)])"
| "api_meta _ = None"

record api_response =
  rp_status :: nat
  rp_code :: string
  rp_message :: string
  rp_meta :: "json option"
  rp_retry_after :: "string option"

definition into_response :: "(internal_error \<Rightarrow> string) \<Rightarrow> api_error \<Rightarrow> api_response" where
  "into_response show_internal err =
     (let message = (case err of
            Internal _ \<Rightarrow> ''Something went wrong on our end. Please try again.''
          | other \<Rightarrow> api_display show_internal other);
          retry_after = (case err of RateLimited s \<Rightarrow> Some s | _ \<Rightarrow> None)
      in \<lparr>rp_status = api_status err, rp_code = api_code err, rp_message = message,
          rp_meta = api_meta err, rp_retry_after = map_option show_int retry_after\<rparr>)"

text \<open>\<open>From<sqlx::Error>\<close>, and the conversions through \<open>anyhow\<close>.\<close>

fun from_sqlx :: "db_error \<Rightarrow> api_error" where
  "from_sqlx RowNotFound = NotFound"
| "from_sqlx e = Internal (IDb e)"

definition via_anyhow :: "db_error \<Rightarrow> api_error" where
  "via_anyhow e = Internal (IDb e)"

definition ledger_internal :: "ledger_error \<Rightarrow> api_error" where
  "ledger_internal e = Internal (ILedger e)"

section \<open>Facts\<close>

lemma api_status_range: "400 \<le> api_status err \<and> api_status err < 600"
  by (cases err) simp_all

text \<open>Only internal errors are a 500, and a 500 says nothing about its cause.\<close>

lemma internal_iff_500: "api_status err = 500 \<longleftrightarrow> (\<exists>e. err = Internal e)"
  by (cases err) simp_all

lemma into_response_internal:
  "into_response sh (Internal e) = into_response sh' (Internal e')"
  by (simp add: into_response_def)

lemma api_code_determines_status: "api_code err = api_code err' \<Longrightarrow> api_status err = api_status err'"
  by (cases err; cases err') simp_all

end
