(* ===== verification/Order_Store.thy ===== *)
theory Order_Store
  imports Ledger_Store Api_Error
begin

text \<open>
  The tables of the virtual-number orders (migrations 0008 to 0024) as the code of
  \<open>crates/api/src/\<close> uses them: \<open>number_orders\<close>, \<open>number_messages\<close>, \<open>operator_alerts\<close> and
  \<open>number_provider_slots\<close>, on top of the ledger's. The CHECK and UNIQUE constraints are part of
  every write; \<open>updated_at\<close> is left out, since no code of the repository reads it.
\<close>

section \<open>Supplier answers\<close>

record sms =
  sms_sender :: "string option"
  sms_body :: string
  sms_code_of :: "string option"
  sms_received_at :: "instant option"
  sms_provider_id :: "string option"

datatype activation_lifecycle = Open | Closed

record activation_check =
  ck_messages :: "sms list"
  ck_lifecycle :: activation_lifecycle
  ck_expires_at :: "instant option"

definition check_open :: activation_check where
  "check_open = \<lparr>ck_messages = [], ck_lifecycle = Open, ck_expires_at = None\<rparr>"

definition check_closed :: activation_check where
  "check_closed = \<lparr>ck_messages = [], ck_lifecycle = Closed, ck_expires_at = None\<rparr>"

definition with_messages :: "sms list \<Rightarrow> activation_check \<Rightarrow> activation_check" where
  "with_messages ms c = c\<lparr>ck_messages := ms\<rparr>"

record activation =
  av_provider_order_id :: string
  av_phone :: string
  av_cost :: "decimal option"
  av_cost_currency :: "string option"
  av_expires_at :: "instant option"

datatype purchase_error = Rejected api_error | Ambiguous

section \<open>Tables\<close>

datatype order_status = OReserved | OAwaiting | ODelivered | OExpired | OCancelled | OFailed | OReview

fun order_status_as_str :: "order_status \<Rightarrow> string" where
  "order_status_as_str OReserved = ''reserved''"
| "order_status_as_str OAwaiting = ''awaiting_code''"
| "order_status_as_str ODelivered = ''delivered''"
| "order_status_as_str OExpired = ''expired''"
| "order_status_as_str OCancelled = ''cancelled''"
| "order_status_as_str OFailed = ''failed''"
| "order_status_as_str OReview = ''review_required''"

text \<open>A claim: its token and when it lapses. The two columns are null together.\<close>

type_synonym claim = "(uuid \<times> instant) option"

record order_row =
  no_id :: uuid
  no_user :: uuid
  no_product :: uuid
  no_country :: uuid
  no_price :: decimal
  no_provider :: string
  no_provider_order :: "string option"
  no_provider_cost :: "decimal option"
  no_cost_currency :: "string option"
  no_phone :: "string option"
  no_sms_code :: "string option"
  no_sms_text :: "string option"
  no_received_at :: "instant option"
  no_status :: order_status
  no_expires_at :: "instant option"
  no_reserved :: uuid
  no_settled :: "uuid option"
  no_refunded :: "uuid option"
  no_failure_reason :: "string option"
  no_reference :: string
  no_created_at :: instant
  no_idempotency :: uuid
  no_expected_price :: "decimal option"
  no_idem_complete :: bool
  no_purchase_started :: "instant option"
  no_next_at :: "instant option"
  no_last_checked :: "instant option"
  no_attempts :: int
  no_last_error :: "string option"
  no_claim :: claim
  no_review_at :: "instant option"
  no_review_reason :: "string option"
  no_payload_complete :: bool
  no_activation_open :: bool
  no_offer :: "uuid option"
  no_source :: "(string \<times> string \<times> string) option"

record message_row =
  nm_id :: uuid
  nm_order :: uuid
  nm_sender :: "string option"
  nm_text :: string
  nm_code :: "string option"
  nm_received_at :: instant
  nm_key :: string

record alert_row =
  al_id :: uuid
  al_order :: uuid
  al_key :: string
  al_delivered :: bool
  al_attempts :: int
  al_next_at :: instant
  al_last_error :: "string option"
  al_claim :: claim
  al_delivered_at :: "instant option"
  al_created_at :: instant

record slot_row =
  sl_slot :: nat
  sl_claim :: claim

record number_db = ledger +
  orders :: "order_row list"
  messages :: "message_row list"
  alerts :: "alert_row list"
  slots :: "slot_row list"

section \<open>Constraints\<close>

text \<open>\<open>length(btrim(s)) = 0\<close>: nothing but spaces.\<close>

definition blank :: "string \<Rightarrow> bool" where
  "blank s \<longleftrightarrow> list_all (\<lambda>c. c = CHR '' '') s"

definition money_open :: "order_status \<Rightarrow> bool" where
  "money_open st \<longleftrightarrow> st = OReserved \<or> st = OAwaiting \<or> st = OReview"

definition refunded_status :: "order_status \<Rightarrow> bool" where
  "refunded_status st \<longleftrightarrow> st = OExpired \<or> st = OCancelled \<or> st = OFailed"

text \<open>\<open>number_orders_financial_state_valid\<close>.\<close>

definition financial_ok :: "order_row \<Rightarrow> bool" where
  "financial_ok r \<longleftrightarrow>
     (case no_status r of
        ODelivered \<Rightarrow> no_settled r \<noteq> None \<and> no_refunded r = None \<and> no_failure_reason r = None
      | OReview \<Rightarrow> no_settled r = None \<and> no_refunded r = None \<and> no_review_at r \<noteq> None \<and>
          (case no_review_reason r of None \<Rightarrow> False | Some s \<Rightarrow> \<not> blank s)
      | OReserved \<Rightarrow> no_settled r = None \<and> no_refunded r = None \<and> no_failure_reason r = None
      | OAwaiting \<Rightarrow> no_settled r = None \<and> no_refunded r = None \<and> no_failure_reason r = None
      | _ \<Rightarrow> no_settled r = None \<and> no_refunded r \<noteq> None \<and>
          (case no_failure_reason r of None \<Rightarrow> False | Some s \<Rightarrow> \<not> blank s))"

definition bounded :: "string option \<Rightarrow> bool" where
  "bounded s = (case s of None \<Rightarrow> True | Some x \<Rightarrow> length x \<le> 64)"

definition order_row_ok :: "order_row \<Rightarrow> bool" where
  "order_row_ok r \<longleftrightarrow> 0 < no_price r \<and> financial_ok r \<and> 0 \<le> no_attempts r \<and>
     bounded (no_last_error r) \<and> bounded (no_review_reason r)"

definition orders_unique :: "order_row list \<Rightarrow> bool" where
  "orders_unique rows \<longleftrightarrow> distinct (map no_id rows) \<and> distinct (map no_reference rows) \<and>
     distinct (map (\<lambda>r. (no_user r, no_idempotency r)) rows) \<and> distinct (map no_reserved rows) \<and>
     distinct (filter (\<lambda>s. s \<noteq> None) (map no_settled rows)) \<and>
     distinct (filter (\<lambda>s. s \<noteq> None) (map no_refunded rows))"

definition orders_ok :: "order_row list \<Rightarrow> bool" where
  "orders_ok rows \<longleftrightarrow> list_all order_row_ok rows \<and> orders_unique rows"

definition put_orders :: "order_row list \<Rightarrow> 'z number_db_scheme \<Rightarrow> db_error + 'z number_db_scheme" where
  "put_orders rows db =
     (if \<not> list_all order_row_ok rows then Inl CheckViolation
      else if \<not> orders_unique rows then Inl UniqueViolation
      else Inr (db\<lparr>orders := rows\<rparr>))"

text \<open>\<open>UPDATE number_orders .. WHERE\<close>, with the number of rows it changed.\<close>

definition update_orders :: "(order_row \<Rightarrow> bool) \<Rightarrow> (order_row \<Rightarrow> order_row) \<Rightarrow> 'z number_db_scheme \<Rightarrow>
    db_error + (nat \<times> 'z number_db_scheme)" where
  "update_orders p f db =
     (case put_orders (update_where p f (orders db)) db of
        Inl e \<Rightarrow> Inl e
      | Inr db' \<Rightarrow> Inr (rows_affected p (orders db), db'))"

definition find_order :: "uuid \<Rightarrow> 'z number_db_scheme \<Rightarrow> order_row option" where
  "find_order i db = fetch_optional (\<lambda>r. no_id r = i) (orders db)"

text \<open>\<open>INSERT INTO operator_alerts .. ON CONFLICT (dedupe_key) DO NOTHING\<close>.\<close>

definition raise_alert :: "(uuid \<Rightarrow> string) \<Rightarrow> uuid \<Rightarrow> instant \<Rightarrow> uuid \<Rightarrow> 'z number_db_scheme \<Rightarrow> 'z number_db_scheme" where
  "raise_alert show_uuid i now order_id db =
     (let key = ''number-review:'' @ show_uuid order_id in
      if key \<in> al_key ` set (alerts db) then db
      else db\<lparr>alerts := alerts db @ [\<lparr>al_id = i, al_order = order_id, al_key = key, al_delivered = False,
        al_attempts = 0, al_next_at = now, al_last_error = None, al_claim = None,
        al_delivered_at = None, al_created_at = now\<rparr>]\<rparr>)"

text \<open>The key of an order's reservation: one per user and \<open>Idempotency-Key\<close>.\<close>

definition reservation_key :: "(uuid \<Rightarrow> string) \<Rightarrow> uuid \<Rightarrow> uuid \<Rightarrow> string" where
  "reservation_key show_uuid user key = ''number-reserve:'' @ show_uuid user @ '':'' @ show_uuid key"

section \<open>Facts\<close>

text \<open>
  What the keys need of the text form of a UUID: it is injective and made of hexadecimal digits and
  hyphens.
\<close>

definition uuid_char :: "char \<Rightarrow> bool" where
  "uuid_char c \<longleftrightarrow> c \<in> set ''0123456789abcdefABCDEF-''"

definition uuid_text :: "(uuid \<Rightarrow> string) \<Rightarrow> bool" where
  "uuid_text show_uuid \<longleftrightarrow> inj show_uuid \<and> (\<forall>u. \<forall>c \<in> set (show_uuid u). uuid_char c)"

lemma uuid_text_no_colon: "uuid_text sh \<Longrightarrow> CHR '':'' \<notin> set (sh u)"
proof -
  have "\<not> uuid_char CHR '':''" by (simp add: uuid_char_def)
  moreover assume "uuid_text sh"
  ultimately show ?thesis unfolding uuid_text_def by blast
qed

lemma reservation_key_inj:
  assumes "uuid_text sh"
  shows "reservation_key sh u k = reservation_key sh v l \<longleftrightarrow> u = v \<and> k = l"
proof -
  have "reservation_key sh u k = reservation_key sh v l \<longleftrightarrow> sh u = sh v \<and> sh k = sh l"
    using append_sep_inj [OF uuid_text_no_colon [OF assms, of u] uuid_text_no_colon [OF assms, of v]]
    by (simp add: reservation_key_def)
  then show ?thesis using assms by (auto simp: uuid_text_def inj_eq)
qed

text \<open>It is never the key that ends an order.\<close>

lemma reservation_key_suffix:
  assumes "uuid_text sh" "reservation_key sh u k = s @ CHR '':'' # t" "CHR '':'' \<notin> set t"
  shows "\<forall>c \<in> set t. uuid_char c"
proof -
  have "(''number-reserve:'' @ sh u) @ CHR '':'' # sh k = s @ CHR '':'' # t"
    using assms(2) by (simp add: reservation_key_def)
  then have "sh k = t"
    using append_sep_inj_right [OF uuid_text_no_colon [OF assms(1), of k] assms(3)] by blast
  then show ?thesis using assms(1) by (auto simp: uuid_text_def)
qed

lemma reservation_key_ends:
  assumes "uuid_text sh"
  shows "reservation_key sh u k \<noteq> s @ '':settle''" "reservation_key sh u k \<noteq> s @ '':refund''"
proof -
  have "\<not> uuid_char CHR ''t''" "\<not> uuid_char CHR ''r''" by (simp_all add: uuid_char_def)
  then show "reservation_key sh u k \<noteq> s @ '':settle''" "reservation_key sh u k \<noteq> s @ '':refund''"
    using reservation_key_suffix [OF assms, of u k s "''settle''"]
      reservation_key_suffix [OF assms, of u k s "''refund''"] by fastforce+
qed

lemma put_orders_Inr_iff: "put_orders rows db = Inr db' \<longleftrightarrow> orders_ok rows \<and> db' = db\<lparr>orders := rows\<rparr>"
  by (auto simp: put_orders_def orders_ok_def)

lemma update_orders_Inr_iff:
  "update_orders p f db = Inr (n, db') \<longleftrightarrow>
     orders_ok (update_where p f (orders db)) \<and> n = rows_affected p (orders db) \<and>
     db' = db\<lparr>orders := update_where p f (orders db)\<rparr>"
  by (auto simp: update_orders_def put_orders_Inr_iff split: sum.splits)
    (metis put_orders_Inr_iff old.sum.distinct(1))

lemma status_classes: "money_open st \<or> st = ODelivered \<or> refunded_status st"
  "\<not> (money_open st \<and> refunded_status st)" "money_open st \<Longrightarrow> st \<noteq> ODelivered"
  "refunded_status st \<Longrightarrow> st \<noteq> ODelivered"
  by (cases st; simp add: money_open_def refunded_status_def)+

text \<open>The financial columns follow the class of the status.\<close>

lemma financial_money_open: "financial_ok r \<Longrightarrow> money_open (no_status r) \<Longrightarrow> no_settled r = None \<and> no_refunded r = None"
  by (cases "no_status r") (auto simp: financial_ok_def money_open_def)

lemma financial_delivered: "financial_ok r \<Longrightarrow> no_status r = ODelivered \<longleftrightarrow> no_settled r \<noteq> None"
  by (cases "no_status r") (auto simp: financial_ok_def)

lemma financial_refunded: "financial_ok r \<Longrightarrow> refunded_status (no_status r) \<longleftrightarrow> no_refunded r \<noteq> None"
  by (cases "no_status r") (auto simp: financial_ok_def refunded_status_def)

lemma find_order_SomeD: "find_order i db = Some r \<Longrightarrow> r \<in> set (orders db) \<and> no_id r = i"
  unfolding find_order_def by (auto dest: fetch_optional_SomeD)

lemma find_order_mem:
  assumes "orders_ok (orders db)" "r \<in> set (orders db)"
  shows "find_order (no_id r) db = Some r"
  unfolding find_order_def
  by (rule fetch_optional_unique) (use assms in \<open>auto simp: orders_ok_def orders_unique_def distinct_map inj_on_def\<close>)

lemma orders_ok_row: "orders_ok rows \<Longrightarrow> r \<in> set rows \<Longrightarrow> order_row_ok r"
  by (auto simp: orders_ok_def list_all_iff)

lemma orders_update_frame [simp]:
  "kind_balance (db\<lparr>orders := rs\<rparr>) k u a = kind_balance db k u a"
  "key_posted (db\<lparr>orders := rs\<rparr>) s = key_posted db s"
  "wf_ledger (db\<lparr>orders := rs\<rparr>) = wf_ledger db"
  by (simp_all add: kind_balance_def find_account_def raw_balance_def key_posted_def wf_ledger_def
      journal_residual_def split: option.split)

lemma side_tables_frame [simp]:
  "kind_balance (db\<lparr>messages := ms\<rparr>) k u a = kind_balance db k u a"
  "key_posted (db\<lparr>messages := ms\<rparr>) s = key_posted db s"
  "wf_ledger (db\<lparr>messages := ms\<rparr>) = wf_ledger db"
  "kind_balance (db\<lparr>alerts := xs\<rparr>) k u a = kind_balance db k u a"
  "key_posted (db\<lparr>alerts := xs\<rparr>) s = key_posted db s"
  "wf_ledger (db\<lparr>alerts := xs\<rparr>) = wf_ledger db"
  "kind_balance (db\<lparr>slots := ys\<rparr>) k u a = kind_balance db k u a"
  "key_posted (db\<lparr>slots := ys\<rparr>) s = key_posted db s"
  "wf_ledger (db\<lparr>slots := ys\<rparr>) = wf_ledger db"
  by (simp_all add: kind_balance_def find_account_def raw_balance_def key_posted_def wf_ledger_def
      journal_residual_def split: option.split)

lemma raise_alert_frame [simp]:
  "orders (raise_alert sh i now o' db) = orders db" "messages (raise_alert sh i now o' db) = messages db"
  "slots (raise_alert sh i now o' db) = slots db"
  "kind_balance (raise_alert sh i now o' db) k u a = kind_balance db k u a"
  "key_posted (raise_alert sh i now o' db) s = key_posted db s"
  "wf_ledger (raise_alert sh i now o' db) = wf_ledger db"
  by (simp_all add: raise_alert_def Let_def)

end
