(* ===== verification/Order_Transitions.thy ===== *)
theory Order_Transitions
  imports Order_Store
begin

text \<open>
  The transitions of a number order, \<open>crates/api/src/number_order_transitions.rs\<close>: what a supplier's
  check and an operator's decision do to the order, its messages and the ledger, each in one
  transaction under a row lock. An error drops the transaction, so the result carries new tables
  only on success. \<open>msg_digest\<close> is the SHA-256 the database computes over a message
  (\<open>pgcrypto\<close>), \<open>show_uuid\<close> the text form of a UUID.
\<close>

section \<open>Requests and outcomes\<close>

datatype refund_status = RFailed | RExpired | RCancelled

fun refund_status_of :: "refund_status \<Rightarrow> order_status" where
  "refund_status_of RFailed = OFailed"
| "refund_status_of RExpired = OExpired"
| "refund_status_of RCancelled = OCancelled"

datatype order_transition = Deliver string string | Refund refund_status string

datatype transition_outcome = Applied | AlreadyTerminal order_status

section \<open>Messages\<close>

type_synonym digest = "string \<Rightarrow> sms \<Rightarrow> string"

definition message_key :: "digest \<Rightarrow> string \<Rightarrow> sms \<Rightarrow> string" where
  "message_key msg_digest provider_order_id m =
     (case sms_provider_id m of
        Some sid \<Rightarrow> (if sid \<noteq> [] then ''sid:'' @ sid else msg_digest provider_order_id m)
      | None \<Rightarrow> msg_digest provider_order_id m)"

text \<open>The loop over the messages; a key the order already has is skipped.\<close>

fun insert_messages :: "digest \<Rightarrow> env \<Rightarrow> nat \<Rightarrow> uuid \<Rightarrow> string \<Rightarrow> sms list \<Rightarrow> 'z number_db_scheme \<Rightarrow>
    db_error + 'z number_db_scheme" where
  "insert_messages msg_digest env n order_id provider_order_id [] db = Inr db"
| "insert_messages msg_digest env n order_id provider_order_id (m # ms) db =
     (let key = message_key msg_digest provider_order_id m in
      if (order_id, key) \<in> (\<lambda>r. (nm_order r, nm_key r)) ` set (messages db)
      then insert_messages msg_digest env (Suc n) order_id provider_order_id ms db
      else if new_id env n \<in> nm_id ` set (messages db) then Inl UniqueViolation
      else insert_messages msg_digest env (Suc n) order_id provider_order_id ms
        (db\<lparr>messages := messages db @ [\<lparr>nm_id = new_id env n, nm_order = order_id,
           nm_sender = sms_sender m, nm_text = sms_body m, nm_code = sms_code_of m,
           nm_received_at = (case sms_received_at m of None \<Rightarrow> sql_now env | Some t \<Rightarrow> t),
           nm_key = key\<rparr>]\<rparr>))"

definition inbox :: "uuid \<Rightarrow> 'z number_db_scheme \<Rightarrow> message_row list" where
  "inbox order_id db = filter (\<lambda>r. nm_order r = order_id) (messages db)"

text \<open>The earliest message with a code that is not blank, by arrival and id.\<close>

definition qualifying :: "uuid \<Rightarrow> 'z number_db_scheme \<Rightarrow> (string \<times> string) option" where
  "qualifying order_id db =
     (case sort_key nm_received_at (sort_key nm_id
          (filter (\<lambda>r. case nm_code r of None \<Rightarrow> False | Some c \<Rightarrow> \<not> blank c) (inbox order_id db))) of
        [] \<Rightarrow> None
      | r # _ \<Rightarrow> map_option (\<lambda>c. (c, nm_text r)) (nm_code r))"

section \<open>Ends of a transition\<close>

definition poll_delay :: "env \<Rightarrow> instant \<Rightarrow> instant" where
  "poll_delay env created_at = (if app_now env - created_at < minutes 5 then seconds 10 else seconds 30)"

definition schedule_open :: "env \<Rightarrow> uuid \<Rightarrow> instant \<Rightarrow> bool \<Rightarrow> 'z number_db_scheme \<Rightarrow>
    api_error + 'z number_db_scheme" where
  "schedule_open env order_id created_at is_open db =
     map_err via_anyhow (res_bind (update_orders (\<lambda>r. no_id r = order_id)
       (\<lambda>r. r\<lparr>no_activation_open := is_open,
          no_next_at := (if is_open then Some (min
             (case no_expires_at r of None \<Rightarrow> sql_now env + minutes 15 | Some t \<Rightarrow> t)
             (sql_now env + poll_delay env created_at)) else None),
          no_claim := None,
          no_last_checked := Some (sql_now env),
          no_attempts := 0\<rparr>) db) (\<lambda>(_, db'). Inr db'))"

definition settle_journal :: "uuid \<Rightarrow> uuid \<Rightarrow> string \<Rightarrow> decimal \<Rightarrow> ledger_error + journal" where
  "settle_journal pending revenue reference price =
     build (builder_entry revenue NumberRevenue Ngn (- price)
       (builder_entry pending NumberPayablePending Ngn price
         (builder_new NumberSettle reference (reference @ '':settle''))))"

definition refund_journal :: "uuid \<Rightarrow> uuid \<Rightarrow> string \<Rightarrow> decimal \<Rightarrow> string \<Rightarrow> ledger_error + journal" where
  "refund_journal pending user_account reference price reason =
     build (builder_metadata (JObj [(''reason'', JStr reason)])
       (builder_entry user_account UserNgn Ngn (- price)
         (builder_entry pending NumberPayablePending Ngn price
           (builder_new NumberRefund reference (reference @ '':refund'')))))"

definition settle_open :: "env \<Rightarrow> order_row \<Rightarrow> string \<Rightarrow> string \<Rightarrow> bool \<Rightarrow> 'z number_db_scheme \<Rightarrow>
    api_error + (transition_outcome \<times> 'z number_db_scheme)" where
  "settle_open env row code body stay_open db =
     (if no_status row = ODelivered
      then res_bind (schedule_open env (no_id row) (no_created_at row) stay_open db) (\<lambda>db'. Inr (Applied, db'))
      else
        res_bind (map_err via_anyhow (platform_account (new_id env 0) NumberPayablePending db)) (\<lambda>(pending, db1).
        res_bind (map_err via_anyhow (platform_account (new_id env 1) NumberRevenue db1)) (\<lambda>(revenue, db2).
        res_bind (map_err ledger_internal (settle_journal pending revenue (no_reference row) (no_price row))) (\<lambda>j.
        res_bind (map_err ledger_internal (post (new_id env 2) j db2)) (\<lambda>(posted, db3).
        res_bind (map_err via_anyhow (update_orders (\<lambda>r. no_id r = no_id row \<and> money_open (no_status r))
          (\<lambda>r. r\<lparr>no_status := ODelivered,
             no_sms_code := (case no_sms_code r of None \<Rightarrow> Some code | Some c \<Rightarrow> Some c),
             no_sms_text := (case no_sms_text r of None \<Rightarrow> Some body | Some c \<Rightarrow> Some c),
             no_received_at := (case no_received_at r of None \<Rightarrow> Some (sql_now env) | Some t \<Rightarrow> Some t),
             no_settled := Some (outcome_journal_id posted),
             no_activation_open := stay_open,
             no_next_at := (if stay_open then Some (sql_now env + poll_delay env (no_created_at row)) else None),
             no_claim := None\<rparr>) db3)) (\<lambda>(_, db4).
        Inr (Applied, db4)))))))"

definition review_open :: "(uuid \<Rightarrow> string) \<Rightarrow> env \<Rightarrow> order_row \<Rightarrow> string \<Rightarrow> 'z number_db_scheme \<Rightarrow>
    api_error + (transition_outcome \<times> 'z number_db_scheme)" where
  "review_open show_uuid env row reason db =
     res_bind (map_err via_anyhow (update_orders (\<lambda>r. no_id r = no_id row \<and> money_open (no_status r))
       (\<lambda>r. r\<lparr>no_status := OReview, no_review_at := Some (sql_now env), no_review_reason := Some reason,
          no_activation_open := False, no_next_at := None, no_claim := None\<rparr>) db)) (\<lambda>(_, db1).
     Inr (Applied, raise_alert show_uuid (new_id env 3) (sql_now env) (no_id row) db1))"

text \<open>
  \<open>reason.trim().is_empty()\<close> trims Unicode white space; the database's own check trims spaces.
\<close>

definition refund_open :: "env \<Rightarrow> order_row \<Rightarrow> refund_status \<Rightarrow> string \<Rightarrow> 'z number_db_scheme \<Rightarrow>
    api_error + (transition_outcome \<times> 'z number_db_scheme)" where
  "refund_open env row status reason db =
     (if trim reason = [] then Inl (Internal (IMsg ''refund reason is empty''))
      else
        res_bind (map_err via_anyhow (lock_user_ngn_account (new_id env 0) (no_user row) db)) (\<lambda>(user_account, db1).
        res_bind (map_err via_anyhow (platform_account (new_id env 1) NumberPayablePending db1)) (\<lambda>(pending, db2).
        res_bind (map_err ledger_internal
          (refund_journal pending user_account (no_reference row) (no_price row) reason)) (\<lambda>j.
        res_bind (map_err ledger_internal (post (new_id env 2) j db2)) (\<lambda>(posted, db3).
        res_bind (map_err via_anyhow (update_orders (\<lambda>r. no_id r = no_id row \<and> money_open (no_status r))
          (\<lambda>r. r\<lparr>no_status := refund_status_of status, no_failure_reason := Some reason,
             no_refunded := Some (outcome_journal_id posted), no_activation_open := False,
             no_next_at := None, no_claim := None\<rparr>) db3)) (\<lambda>(_, db4).
        Inr (Applied, db4)))))))"

section \<open>A supplier's check\<close>

text \<open>The guard both entry points share: the caller's claim is the stored one and has not lapsed.\<close>

definition claim_current :: "env \<Rightarrow> order_row \<Rightarrow> uuid option \<Rightarrow> bool" where
  "claim_current env row claim_token =
     (case claim_token of
        None \<Rightarrow> True
      | Some token \<Rightarrow> (case no_claim row of
          None \<Rightarrow> False
        | Some (stored, until) \<Rightarrow> stored = token \<and> app_now env < until))"

definition claim_lost :: api_error where
  "claim_lost = Conflict ''The reconciliation claim is no longer current.''"

text \<open>The later of the stored and the reported expiry is kept.\<close>

definition advance_expiry :: "env \<Rightarrow> order_row \<Rightarrow> activation_check \<Rightarrow> 'z number_db_scheme \<Rightarrow>
    api_error + (instant option \<times> 'z number_db_scheme)" where
  "advance_expiry env row check db =
     (case ck_expires_at check of
        None \<Rightarrow> Inr (no_expires_at row, db)
      | Some newer \<Rightarrow>
          (if (case no_expires_at row of None \<Rightarrow> True | Some current \<Rightarrow> current < newer)
           then res_bind (map_err via_anyhow (update_orders (\<lambda>r. no_id r = no_id row)
                  (\<lambda>r. r\<lparr>no_expires_at := Some newer\<rparr>) db)) (\<lambda>(_, db'). Inr (Some newer, db'))
           else Inr (no_expires_at row, db)))"

definition record_messages :: "digest \<Rightarrow> env \<Rightarrow> order_row \<Rightarrow> activation_check \<Rightarrow> 'z number_db_scheme \<Rightarrow>
    api_error + 'z number_db_scheme" where
  "record_messages msg_digest env row check db =
     (if ck_messages check = [] then Inr db
      else res_bind (ok_or (Internal (IMsg ''delivery has no provider order'')) (no_provider_order row))
        (\<lambda>provider_order_id.
          map_err via_anyhow
            (insert_messages msg_digest env 10 (no_id row) provider_order_id (ck_messages check) db)))"

text \<open>What the transaction ends with, once the expiry and the messages are written.\<close>

definition conclude_check :: "(uuid \<Rightarrow> string) \<Rightarrow> env \<Rightarrow> order_row \<Rightarrow> activation_lifecycle \<Rightarrow> bool \<Rightarrow>
    'z number_db_scheme \<Rightarrow> api_error + (transition_outcome \<times> 'z number_db_scheme)" where
  "conclude_check show_uuid env row lifecycle expired db =
     (let stay_open = (lifecycle = Open \<and> \<not> expired) in
      if money_open (no_status row) then
        (case qualifying (no_id row) db of
           Some (code, body) \<Rightarrow> settle_open env row code body stay_open db
         | None \<Rightarrow>
             if lifecycle = Closed \<or> expired then
               (if inbox (no_id row) db \<noteq> []
                then review_open show_uuid env row
                  (if lifecycle = Closed then ''closed_without_code'' else ''expired_without_code'') db
                else refund_open env row RExpired
                  (if lifecycle = Closed then ''supplier_finished'' else ''expired'') db)
             else res_bind (schedule_open env (no_id row) (no_created_at row) True db)
               (\<lambda>db'. Inr (Applied, db')))
      else if no_status row = ODelivered then
        res_bind (schedule_open env (no_id row) (no_created_at row) stay_open db) (\<lambda>db'. Inr (Applied, db'))
      else Inr (AlreadyTerminal (no_status row), db))"

definition apply_check :: "(uuid \<Rightarrow> string) \<Rightarrow> digest \<Rightarrow> env \<Rightarrow> uuid \<Rightarrow> uuid option \<Rightarrow> activation_check \<Rightarrow>
    'z number_db_scheme \<Rightarrow> api_error + (transition_outcome \<times> 'z number_db_scheme)" where
  "apply_check show_uuid msg_digest env order_id claim_token check db =
     (case find_order order_id db of
        None \<Rightarrow> Inl NotFound
      | Some row \<Rightarrow>
          if \<not> claim_current env row claim_token then Inl claim_lost
          else if refunded_status (no_status row) then Inr (AlreadyTerminal (no_status row), db)
          else
            res_bind (advance_expiry env row check db) (\<lambda>(expires_at, db1).
            res_bind (record_messages msg_digest env row check db1) (\<lambda>db2.
            conclude_check show_uuid env row (ck_lifecycle check)
              (case expires_at of None \<Rightarrow> False | Some expiry \<Rightarrow> expiry \<le> app_now env) db2)))"

text \<open>\<open>deliver\<close> and \<open>deliver_claimed\<close> wrap a code into a check.\<close>

definition check_from_legacy_deliver :: "string \<Rightarrow> string \<Rightarrow> sms list \<Rightarrow> activation_check" where
  "check_from_legacy_deliver code body ms =
     with_messages
       (if ms = [] \<and> code \<noteq> []
        then [\<lparr>sms_sender = None, sms_body = body, sms_code_of = Some code, sms_received_at = None,
               sms_provider_id = None\<rparr>]
        else ms) check_open"

definition deliver :: "(uuid \<Rightarrow> string) \<Rightarrow> digest \<Rightarrow> env \<Rightarrow> uuid \<Rightarrow> uuid option \<Rightarrow> string \<Rightarrow> string \<Rightarrow> sms list \<Rightarrow>
    'z number_db_scheme \<Rightarrow> api_error + (transition_outcome \<times> 'z number_db_scheme)" where
  "deliver show_uuid msg_digest env order_id claim_token code body ms db =
     apply_check show_uuid msg_digest env order_id claim_token (check_from_legacy_deliver code body ms) db"

section \<open>A requested transition\<close>

definition transition_journal :: "env \<Rightarrow> order_row \<Rightarrow> order_transition \<Rightarrow> 'z number_db_scheme \<Rightarrow>
    api_error + (journal \<times> order_status \<times> string option \<times> string option \<times> string option \<times> 'z number_db_scheme)" where
  "transition_journal env row transition db =
     (case transition of
        Deliver code body \<Rightarrow>
          res_bind (map_err via_anyhow (platform_account (new_id env 0) NumberPayablePending db)) (\<lambda>(pending, db1).
          res_bind (map_err via_anyhow (platform_account (new_id env 1) NumberRevenue db1)) (\<lambda>(revenue, db2).
          res_bind (map_err ledger_internal (settle_journal pending revenue (no_reference row) (no_price row))) (\<lambda>j.
          Inr (j, ODelivered, None, Some code, Some body, db2))))
      | Refund status reason \<Rightarrow>
          (if trim reason = [] then Inl (Internal (IMsg ''refund reason is empty''))
           else
             res_bind (map_err via_anyhow (lock_user_ngn_account (new_id env 0) (no_user row) db)) (\<lambda>(user_account, db1).
             res_bind (map_err via_anyhow (platform_account (new_id env 1) NumberPayablePending db1)) (\<lambda>(pending, db2).
             res_bind (map_err ledger_internal
               (refund_journal pending user_account (no_reference row) (no_price row) reason)) (\<lambda>j.
             Inr (j, refund_status_of status, Some reason, None, None, db2))))))"

definition apply_inner :: "digest \<Rightarrow> env \<Rightarrow> uuid \<Rightarrow> order_transition \<Rightarrow> uuid option \<Rightarrow> sms list \<Rightarrow>
    'z number_db_scheme \<Rightarrow> api_error + (transition_outcome \<times> 'z number_db_scheme)" where
  "apply_inner msg_digest env order_id transition claim_token ms db =
     (case find_order order_id db of
        None \<Rightarrow> Inl NotFound
      | Some row \<Rightarrow>
          if \<not> claim_current env row claim_token then Inl claim_lost
          else if \<not> money_open (no_status row) then Inr (AlreadyTerminal (no_status row), db)
          else
            res_bind (record_messages msg_digest env row (with_messages ms check_open) db) (\<lambda>db0.
            res_bind (transition_journal env row transition db0) (\<lambda>(j, next_status, reason, code, body, db2).
            res_bind (map_err ledger_internal (post (new_id env 2) j db2)) (\<lambda>(posted, db3).
            res_bind (map_err via_anyhow (update_orders (\<lambda>r. no_id r = order_id \<and> money_open (no_status r))
              (\<lambda>r. r\<lparr>no_status := next_status, no_failure_reason := reason,
                 no_sms_code := (case code of None \<Rightarrow> no_sms_code r | Some c \<Rightarrow> Some c),
                 no_sms_text := (case body of None \<Rightarrow> no_sms_text r | Some c \<Rightarrow> Some c),
                 no_received_at := (if next_status = ODelivered then Some (sql_now env) else no_received_at r),
                 no_settled := (if next_status = ODelivered then Some (outcome_journal_id posted) else no_settled r),
                 no_refunded := (if next_status \<noteq> ODelivered then Some (outcome_journal_id posted) else no_refunded r),
                 no_activation_open := (next_status = ODelivered),
                 no_next_at := None, no_claim := None\<rparr>) db3)) (\<lambda>(n, db4).
            if n \<noteq> 1 then Inl (Internal (IMsg (''number order transition updated '' @ show_nat n @ '' rows'')))
            else Inr (Applied, db4))))))"

definition apply_transition :: "digest \<Rightarrow> env \<Rightarrow> uuid \<Rightarrow> order_transition \<Rightarrow> 'z number_db_scheme \<Rightarrow>
    api_error + (transition_outcome \<times> 'z number_db_scheme)" where
  "apply_transition msg_digest env order_id transition db =
     apply_inner msg_digest env order_id transition None [] db"

definition apply_claimed :: "digest \<Rightarrow> env \<Rightarrow> uuid \<Rightarrow> uuid \<Rightarrow> order_transition \<Rightarrow> 'z number_db_scheme \<Rightarrow>
    api_error + (transition_outcome \<times> 'z number_db_scheme)" where
  "apply_claimed msg_digest env order_id claim_token transition db =
     apply_inner msg_digest env order_id transition (Some claim_token) [] db"

end
