(* ===== verification/Order_Money.thy ===== *)
theory Order_Money
  imports Order_Transitions
begin

text \<open>
  The money of the number orders: the pending liability is the prices of the open orders, the
  revenue those of the delivered ones, and a user has paid for exactly their orders that were not
  refunded. Every transition keeps this.
\<close>

lemma more_orders: "ledger.more db = ledger.more db' \<Longrightarrow>
    orders db = orders db' \<and> messages db = messages db' \<and> alerts db = alerts db' \<and> slots db = slots db'"
  by (cases db; cases db') simp

lemmas journal_defs = settle_journal_def refund_journal_def builder_new_def builder_entry_def builder_metadata_def

lemma settle_journal_Inr:
  assumes "settle_journal pending revenue reference price = Inr j"
  shows "j_entries j = [\<lparr>e_account_id = pending, e_account_kind = NumberPayablePending, e_asset = Ngn, e_amount = price\<rparr>,
      \<lparr>e_account_id = revenue, e_account_kind = NumberRevenue, e_asset = Ngn, e_amount = - price\<rparr>]"
    and "j_idempotency_key j = reference @ '':settle''" and "valid_journal j"
  using assms by (auto simp: journal_defs build_ok_iff)

lemma refund_journal_Inr:
  assumes "refund_journal pending user_account reference price reason = Inr j"
  shows "j_entries j = [\<lparr>e_account_id = pending, e_account_kind = NumberPayablePending, e_asset = Ngn, e_amount = price\<rparr>,
      \<lparr>e_account_id = user_account, e_account_kind = UserNgn, e_asset = Ngn, e_amount = - price\<rparr>]"
    and "j_idempotency_key j = reference @ '':refund''" and "valid_journal j"
  using assms by (auto simp: journal_defs build_ok_iff)

lemma journals_build:
  assumes "price \<noteq> 0"
  shows "\<exists>j. settle_journal pending revenue reference price = Inr j"
    and "\<exists>j. refund_journal pending user_account reference price reason = Inr j"
  using assms by (auto simp: journal_defs build_ok_iff valid_journal_def is_custody_only_def)

lemma status_class_simps [simp]:
  "money_open OReserved" "money_open OAwaiting" "money_open OReview" "\<not> money_open ODelivered"
  "\<not> money_open OExpired" "\<not> money_open OCancelled" "\<not> money_open OFailed"
  "refunded_status OExpired" "refunded_status OCancelled" "refunded_status OFailed"
  "\<not> refunded_status ODelivered" "\<not> refunded_status OReserved" "\<not> refunded_status OAwaiting"
  "\<not> refunded_status OReview"
  by (simp_all add: money_open_def refunded_status_def)

lemma refund_status_refunds [simp]: "refunded_status (refund_status_of s)" "refund_status_of s \<noteq> ODelivered"
  "\<not> money_open (refund_status_of s)"
  by (cases s; simp)+

section \<open>The invariant\<close>

definition held_price :: "order_row \<Rightarrow> decimal" where
  "held_price r = (if money_open (no_status r) then no_price r else 0)"

definition earned_price :: "order_row \<Rightarrow> decimal" where
  "earned_price r = (if no_status r = ODelivered then no_price r else 0)"

definition paid_price :: "uuid \<Rightarrow> order_row \<Rightarrow> decimal" where
  "paid_price u r = (if no_user r = u \<and> \<not> refunded_status (no_status r) then no_price r else 0)"

definition settled_keys :: "'z number_db_scheme \<Rightarrow> bool" where
  "settled_keys db \<longleftrightarrow>
     (\<forall>s. key_posted db (s @ '':settle'') \<longrightarrow> (\<exists>r \<in> set (orders db). no_reference r = s \<and> no_status r = ODelivered)) \<and>
     (\<forall>s. key_posted db (s @ '':refund'') \<longrightarrow> (\<exists>r \<in> set (orders db). no_reference r = s \<and> refunded_status (no_status r)))"

definition ended_keys :: "'z number_db_scheme \<Rightarrow> bool" where
  "ended_keys db \<longleftrightarrow> (\<forall>r \<in> set (orders db).
     (no_status r = ODelivered \<longrightarrow> key_posted db (no_reference r @ '':settle'')) \<and>
     (refunded_status (no_status r) \<longrightarrow> key_posted db (no_reference r @ '':refund'')))"

text \<open>A used reservation key belongs to an order of that user and idempotency key.\<close>

definition reserve_keys :: "(uuid \<Rightarrow> string) \<Rightarrow> 'z number_db_scheme \<Rightarrow> bool" where
  "reserve_keys show_uuid db \<longleftrightarrow>
     (\<forall>u k. key_posted db (reservation_key show_uuid u k) \<longrightarrow>
        (\<exists>r \<in> set (orders db). no_user r = u \<and> no_idempotency r = k))"

text \<open>
  \<open>bs_opening u\<close> is the raw balance user \<open>u\<close> had before any order: minus what they could
  spend. No order takes a balance below zero (a positive raw balance) that was not there before.
\<close>

record basis =
  bs_opening :: "uuid \<Rightarrow> decimal"
  bs_keys :: "string set"

definition orders_money :: "(uuid \<Rightarrow> string) \<Rightarrow> basis \<Rightarrow> 'z number_db_scheme \<Rightarrow> bool" where
  "orders_money shu base db \<longleftrightarrow> uuid_text shu \<and> wf_ledger db \<and> (\<forall>s \<in> bs_keys base. key_posted db s) \<and> ended_keys db \<and>
     orders_ok (orders db) \<and> settled_keys db \<and>
     reserve_keys shu db \<and>
     kind_balance db NumberPayablePending None Ngn = - sum_list (map held_price (orders db)) \<and>
     kind_balance db NumberRevenue None Ngn = - sum_list (map earned_price (orders db)) \<and>
     (\<forall>u. kind_balance db UserNgn (Some u) Ngn = bs_opening base u + sum_list (map (paid_price u) (orders db))) \<and>
     (\<forall>u. bs_opening base u + sum_list (map (paid_price u) (orders db)) \<le> max 0 (bs_opening base u))"

text \<open>The row the code read under its lock still describes the order.\<close>

definition same_order :: "order_row \<Rightarrow> order_row \<Rightarrow> bool" where
  "same_order row r \<longleftrightarrow> no_id r = no_id row \<and> no_user r = no_user row \<and> no_price r = no_price row \<and>
     no_reference r = no_reference row \<and> no_status r = no_status row"

definition current :: "'z number_db_scheme \<Rightarrow> order_row \<Rightarrow> bool" where
  "current db row \<longleftrightarrow> (\<exists>r \<in> set (orders db). same_order row r)"

lemma money_ok: "orders_money shu base db \<Longrightarrow> orders_ok (orders db)"
  by (simp add: orders_money_def)

lemma money_wf: "orders_money shu base db \<Longrightarrow> wf_ledger db"
  by (simp add: orders_money_def)

lemma same_reference:
  assumes "orders_ok rows" "r \<in> set rows" "r' \<in> set rows" "no_reference r = no_reference r'"
  shows "r = r'"
  using assms by (auto simp: orders_ok_def orders_unique_def distinct_map dest: inj_onD)

lemma same_id:
  assumes "orders_ok rows" "r \<in> set rows" "r' \<in> set rows" "no_id r = no_id r'"
  shows "r = r'"
  using assms by (auto simp: orders_ok_def orders_unique_def distinct_map dest: inj_onD)

text \<open>The keys of an open order were not used.\<close>

lemma open_keys_fresh:
  assumes "orders_money shu base db" "current db row" "money_open (no_status row)"
  shows "\<not> key_posted db (no_reference row @ '':settle'')" "\<not> key_posted db (no_reference row @ '':refund'')"
proof -
  obtain r where r: "r \<in> set (orders db)" "same_order row r" using assms(2) by (auto simp: current_def)
  have one: "r' = r" if "r' \<in> set (orders db)" "no_reference r' = no_reference row" for r'
    using same_reference [OF money_ok [OF assms(1)] that(1) r(1)] r(2) that(2) by (simp add: same_order_def)
  have k: "settled_keys db" using assms(1) by (simp add: orders_money_def)
  show "\<not> key_posted db (no_reference row @ '':settle'')"
  proof
    assume "key_posted db (no_reference row @ '':settle'')"
    then obtain r' where "r' \<in> set (orders db)" "no_reference r' = no_reference row" "no_status r' = ODelivered"
      using k by (auto simp: settled_keys_def)
    then show False using one [of r'] r(2) assms(3) status_classes(3) by (auto simp: same_order_def)
  qed
  show "\<not> key_posted db (no_reference row @ '':refund'')"
  proof
    assume "key_posted db (no_reference row @ '':refund'')"
    then obtain r' where "r' \<in> set (orders db)" "no_reference r' = no_reference row" "refunded_status (no_status r')"
      using k by (auto simp: settled_keys_def)
    then show False using one [of r'] r(2) assms(3) status_classes(2) by (auto simp: same_order_def)
  qed
qed

text \<open>Writing one row moves the three sums by that row.\<close>

lemma price_sums_update:
  fixes g :: "order_row \<Rightarrow> rat"
  assumes "orders_ok rows" "r \<in> set rows" "no_id r = i" "p r" "\<And>x. p x \<Longrightarrow> no_id x = i"
  shows "sum_list (map g (update_where p f rows)) = sum_list (map g rows) - g r + g (f r)"
proof -
  have d: "distinct (map no_id rows)" using assms(1) by (simp add: orders_ok_def orders_unique_def)
  have "update_where p f rows = update_where (\<lambda>x. no_id x = i) f rows"
    unfolding update_where_def
    by (rule map_cong [OF refl]) (use assms same_id in \<open>metis\<close>)
  then show ?thesis using sum_list_update_where [OF d assms(2,3), of g f] by simp
qed

text \<open>An update that leaves user, price, reference and the class of the status alone.\<close>

definition quiet :: "(order_row \<Rightarrow> order_row) \<Rightarrow> order_row \<Rightarrow> bool" where
  "quiet f r \<longleftrightarrow> no_id (f r) = no_id r \<and> no_user (f r) = no_user r \<and> no_price (f r) = no_price r \<and>
     no_reference (f r) = no_reference r \<and> no_idempotency (f r) = no_idempotency r \<and>
     (no_status (f r) = no_status r \<or> money_open (no_status r) \<and> money_open (no_status (f r)))"

lemma quiet_prices:
  "quiet f r \<Longrightarrow> held_price (f r) = held_price r \<and> earned_price (f r) = earned_price r \<and> paid_price u (f r) = paid_price u r"
  using status_classes(2,3) by (auto simp: quiet_def held_price_def earned_price_def paid_price_def)

lemma settled_keys_quiet:
  assumes k: "settled_keys db" and q: "\<And>r. r \<in> set (orders db) \<Longrightarrow> p r \<Longrightarrow> quiet f r"
    and o': "orders db' = update_where p f (orders db)" and keys: "\<And>s. key_posted db' s = key_posted db s"
  shows "settled_keys db'"
proof -
  have step: "\<exists>r' \<in> set (orders db'). no_reference r' = no_reference r \<and>
      (no_status r = ODelivered \<longrightarrow> no_status r' = ODelivered) \<and>
      (refunded_status (no_status r) \<longrightarrow> refunded_status (no_status r'))" if r: "r \<in> set (orders db)" for r
  proof (rule bexI [of _ "if p r then f r else r"])
    show "(if p r then f r else r) \<in> set (orders db')" using r by (auto simp: o' set_update_where)
  qed (use q [OF r] status_classes in \<open>auto simp: quiet_def\<close>)
  show ?thesis unfolding settled_keys_def keys
    using k step unfolding settled_keys_def by metis
qed

lemma reserve_keys_update:
  assumes k: "reserve_keys shu db" and o': "orders db' = update_where p f (orders db)"
    and f: "\<And>r. r \<in> set (orders db) \<Longrightarrow> p r \<Longrightarrow> no_user (f r) = no_user r \<and> no_idempotency (f r) = no_idempotency r"
    and keys: "\<And>u k. key_posted db' (reservation_key shu u k) \<Longrightarrow> key_posted db (reservation_key shu u k)"
  shows "reserve_keys shu db'"
  unfolding reserve_keys_def
proof (intro allI impI)
  fix u k' assume "key_posted db' (reservation_key shu u k')"
  then obtain r where r: "r \<in> set (orders db)" "no_user r = u" "no_idempotency r = k'"
    using keys [of u k'] k unfolding reserve_keys_def by metis
  then show "\<exists>r \<in> set (orders db'). no_user r = u \<and> no_idempotency r = k'"
    using f [OF r(1)] unfolding o' set_update_where by (intro bexI [of _ "if p r then f r else r"]) auto
qed

lemma quiet_money:
  assumes inv: "orders_money shu base db" and q: "\<And>r. r \<in> set (orders db) \<Longrightarrow> p r \<Longrightarrow> quiet f r"
    and u: "update_orders p f db = Inr (n, db')"
  shows "orders_money shu base db'"
proof -
  have o': "orders db' = update_where p f (orders db)" and ok: "orders_ok (orders db')"
    and db': "db' = db\<lparr>orders := update_where p f (orders db)\<rparr>"
    using u by (auto simp: update_orders_Inr_iff)
  have sums: "map held_price (orders db') = map held_price (orders db)"
    "map earned_price (orders db') = map earned_price (orders db)"
    "map (paid_price v) (orders db') = map (paid_price v) (orders db)" for v
    unfolding o' update_where_def using q quiet_prices by auto
  have "settled_keys db'"
    by (rule settled_keys_quiet [OF _ q o']) (use inv in \<open>auto simp: orders_money_def db'\<close>)
  moreover have "reserve_keys shu db'"
    by (rule reserve_keys_update [OF _ o']) (use inv q in \<open>auto simp: orders_money_def db' quiet_def\<close>)
  moreover have "ended_keys db'"
    unfolding ended_keys_def
  proof
    fix r' assume "r' \<in> set (orders db')"
    then obtain r where r: "r \<in> set (orders db)" "r' = (if p r then f r else r)"
      by (auto simp: o' set_update_where)
    have same: "key_posted db' s = key_posted db s" for s by (simp add: db')
    have "no_reference r' = no_reference r" "no_status r' = ODelivered \<Longrightarrow> no_status r = ODelivered"
      "refunded_status (no_status r') \<Longrightarrow> refunded_status (no_status r)"
      using r q [OF r(1)] status_classes(2,3) by (cases "p r"; auto simp: quiet_def)+
    then show "(no_status r' = ODelivered \<longrightarrow> key_posted db' (no_reference r' @ '':settle'')) \<and>
        (refunded_status (no_status r') \<longrightarrow> key_posted db' (no_reference r' @ '':refund''))"
      using inv r(1) by (auto simp: same orders_money_def ended_keys_def)
  qed
  ultimately show ?thesis
    using inv ok unfolding orders_money_def sums by (simp add: db')
qed

section \<open>Settling and refunding\<close>

text \<open>
  The end of an order: a journal from the pending account to the revenue or back to the user, under a
  key of the order that was not used, and the row's final status.
\<close>

lemma finish_order:
  assumes inv: "orders_money shu base db" and cur: "current db row" and open_row: "money_open (no_status row)"
    and s1: "account_step k1 u1 Ngn x1 db db1" and s2: "account_step k2 u2 Ngn x2 db1 db2"
    and post: "post i j db2 = Inr (out, db3)" and valid: "valid_journal j"
    and es: "j_entries j = [\<lparr>e_account_id = x1, e_account_kind = k1, e_asset = Ngn, e_amount = p1\<rparr>,
                            \<lparr>e_account_id = x2, e_account_kind = k2, e_asset = Ngn, e_amount = p2\<rparr>] \<or>
             j_entries j = [\<lparr>e_account_id = x2, e_account_kind = k2, e_asset = Ngn, e_amount = p2\<rparr>,
                            \<lparr>e_account_id = x1, e_account_kind = k1, e_asset = Ngn, e_amount = p1\<rparr>]"
    and kinds: "st = ODelivered \<and> (k1, u1, p1) = (NumberPayablePending, None, no_price row) \<and>
        (k2, u2, p2) = (NumberRevenue, None, - no_price row) \<and> key = '':settle'' \<or>
      refunded_status st \<and> (k2, u2, p2) = (NumberPayablePending, None, no_price row) \<and>
        (k1, u1, p1) = (UserNgn, Some (no_user row), - no_price row) \<and> key = '':refund''"
    and key: "j_idempotency_key j = no_reference row @ key"
    and u: "update_orders (\<lambda>r. no_id r = no_id row \<and> money_open (no_status r)) f db3 = Inr (n, db4)"
    and f: "\<And>r. no_id (f r) = no_id r \<and> no_user (f r) = no_user r \<and> no_price (f r) = no_price r \<and>
        no_reference (f r) = no_reference r \<and> no_idempotency (f r) = no_idempotency r \<and> no_status (f r) = st"
  shows "orders_money shu base db4 \<and> n = 1"
proof -
  have fresh: "\<not> key_posted db (j_idempotency_key j)"
    using open_keys_fresh [OF inv cur open_row] kinds key by auto
  note wf = money_wf [OF inv]
  note pt = pair_transaction [OF wf s1 s2 valid es fresh post]
  have od3: "orders db3 = orders db" using more_orders [OF pt(4)] by simp
  have db4: "db4 = db3\<lparr>orders := orders db4\<rparr>" and ok4: "orders_ok (orders db4)"
    and n: "n = rows_affected (\<lambda>r. no_id r = no_id row \<and> money_open (no_status r)) (orders db)"
    and od4: "orders db4 = update_where (\<lambda>r. no_id r = no_id row \<and> money_open (no_status r)) f (orders db)"
    using u by (auto simp: update_orders_Inr_iff od3)
  obtain r where r: "r \<in> set (orders db)" "same_order row r" using cur by (auto simp: current_def)
  have one: "n = 1"
    using rows_affected_key [of no_id "orders db" "no_id row" r "\<lambda>r. money_open (no_status r)"]
      money_ok [OF inv] find_order_mem [OF money_ok [OF inv] r(1)] r(2) open_row n
    by (simp add: same_order_def find_order_def orders_ok_def orders_unique_def)
  have sums: "sum_list (map g (orders db4)) = sum_list (map g (orders db)) - g r + g (f r)" for g :: "order_row \<Rightarrow> rat"
    unfolding od4 by (rule price_sums_update [OF money_ok [OF inv] r(1)])
      (use r(2) open_row in \<open>auto simp: same_order_def\<close>)
  have fr: "held_price (f r) = 0" "held_price r = no_price row" "earned_price r = 0"
    "earned_price (f r) = (if st = ODelivered then no_price row else 0)"
    "paid_price v r = (if v = no_user row then no_price row else 0)"
    "paid_price v (f r) = (if v = no_user row \<and> \<not> refunded_status st then no_price row else 0)" for v
    using f [of r] r(2) open_row kinds status_classes(2,3)
    by (auto simp: held_price_def earned_price_def paid_price_def same_order_def)
  have bal: "kind_balance db4 k v Ngn = kind_balance db k v Ngn +
      ((if k = k1 \<and> v = u1 then p1 else 0) + (if k = k2 \<and> v = u2 then p2 else 0))" for k v
    by (subst db4) (simp add: pt(2))
  have stays: "r' \<in> set (orders db4)" if "r' \<in> set (orders db)" "\<not> money_open (no_status r')" for r'
    using that unfolding od4 set_update_where by force
  have last: "f r \<in> set (orders db4)" "no_reference (f r) = no_reference row" "no_status (f r) = st"
    using r f [of r] open_row unfolding od4 set_update_where same_order_def by force+
  have keys4: "key_posted db4 s \<longleftrightarrow> key_posted db s \<or> s = no_reference row @ key" for s
    by (subst db4) (simp add: pt(3) key)
  have old: "settled_keys db" using inv by (simp add: orders_money_def)
  have "settled_keys db4"
    unfolding settled_keys_def
  proof (intro conjI allI impI)
    fix s assume "key_posted db4 (s @ '':settle'')"
    then consider "key_posted db (s @ '':settle'')" | "s = no_reference row" "st = ODelivered"
      using kinds by (auto simp: keys4)
    then show "\<exists>r \<in> set (orders db4). no_reference r = s \<and> no_status r = ODelivered"
    proof cases
      case 1
      then obtain r' where "r' \<in> set (orders db)" "no_reference r' = s" "no_status r' = ODelivered"
        using old by (auto simp: settled_keys_def)
      then show ?thesis using stays [of r'] by auto
    qed (use last in auto)
  next
    fix s assume "key_posted db4 (s @ '':refund'')"
    then consider "key_posted db (s @ '':refund'')" | "s = no_reference row" "refunded_status st"
      using kinds by (auto simp: keys4)
    then show "\<exists>r \<in> set (orders db4). no_reference r = s \<and> refunded_status (no_status r)"
    proof cases
      case 1
      then obtain r' where "r' \<in> set (orders db)" "no_reference r' = s" "refunded_status (no_status r')"
        using old by (auto simp: settled_keys_def)
      then show ?thesis using stays [of r'] status_classes(2) by auto
    qed (use last in auto)
  qed
  moreover have "kind_balance db4 NumberPayablePending None Ngn = - sum_list (map held_price (orders db4))"
    using kinds inv by (auto simp: bal sums fr orders_money_def)
  moreover have "kind_balance db4 NumberRevenue None Ngn = - sum_list (map earned_price (orders db4))"
    using kinds inv by (auto simp: bal sums fr orders_money_def)
  moreover have "kind_balance db4 UserNgn (Some v) Ngn = bs_opening base v + sum_list (map (paid_price v) (orders db4))" for v
    using kinds inv by (auto simp: bal sums fr orders_money_def)
  moreover have "bs_opening base v + sum_list (map (paid_price v) (orders db4)) \<le> max 0 (bs_opening base v)" for v
  proof -
    have "bs_opening base v + sum_list (map (paid_price v) (orders db)) \<le> max 0 (bs_opening base v)"
      using inv by (simp add: orders_money_def)
    moreover have "0 < no_price row"
      using orders_ok_row [OF money_ok [OF inv] r(1)] r(2) by (simp add: order_row_ok_def same_order_def)
    then have "sum_list (map (paid_price v) (orders db4)) \<le> sum_list (map (paid_price v) (orders db))"
      by (simp add: sums fr)
    ultimately show ?thesis by linarith
  qed
  moreover have "wf_ledger db4" by (subst db4) (simp add: pt(1))
  moreover have "\<forall>s \<in> bs_keys base. key_posted db4 s" using inv by (simp add: keys4 orders_money_def)
  moreover have "ended_keys db4"
    unfolding ended_keys_def
  proof
    fix r' assume "r' \<in> set (orders db4)"
    then consider x where "x \<in> set (orders db)" "r' = f x" "no_id x = no_id row" | "r' \<in> set (orders db)"
      by (auto simp: od4 set_update_where split: if_splits)
    then show "(no_status r' = ODelivered \<longrightarrow> key_posted db4 (no_reference r' @ '':settle'')) \<and>
        (refunded_status (no_status r') \<longrightarrow> key_posted db4 (no_reference r' @ '':refund''))"
    proof cases
      case 1
      then have "x = r" using same_id [OF money_ok [OF inv] _ r(1)] r(2) by (simp add: same_order_def)
      then have "no_reference r' = no_reference row" "no_status r' = st"
        using 1(2) last(2,3) by simp_all
      then show ?thesis using kinds status_classes(4) by (auto simp: keys4)
    next
      case 2
      then show ?thesis using inv by (auto simp: keys4 orders_money_def ended_keys_def)
    qed
  qed
  moreover have "reserve_keys shu db4"
  proof (rule reserve_keys_update [OF _ od4])
    show "reserve_keys shu db" using inv by (simp add: orders_money_def)
    show "key_posted db (reservation_key shu u k)" if "key_posted db4 (reservation_key shu u k)" for u k
      using that kinds reservation_key_ends [of shu u k] inv by (auto simp: keys4 orders_money_def)
  qed (use f in auto)
  ultimately show ?thesis using ok4 one inv by (simp add: orders_money_def)
qed

section \<open>Every transition keeps the money right\<close>

lemma current_quiet:
  assumes "current db row" "\<And>r. p r \<Longrightarrow> same_order r (f r)" "update_orders p f db = Inr (n, db')"
  shows "current db' row"
proof -
  obtain r where r: "r \<in> set (orders db)" "same_order row r" using assms(1) by (auto simp: current_def)
  have "orders db' = update_where p f (orders db)" using assms(3) by (auto simp: update_orders_Inr_iff)
  then have "(if p r then f r else r) \<in> set (orders db')" using r(1) by (auto simp: set_update_where)
  then show ?thesis unfolding current_def
    by (rule bexI [rotated]) (use r(2) assms(2) [of r] in \<open>auto simp: same_order_def\<close>)
qed

lemma messages_frame:
  "orders_money shu base (db\<lparr>messages := ms\<rparr>) = orders_money shu base db"
  "current (db\<lparr>messages := ms\<rparr>) row = current db row"
  by (simp_all add: orders_money_def settled_keys_def reserve_keys_def ended_keys_def current_def)

lemma insert_messages_frame:
  "insert_messages dg env n i po ms db = Inr db' \<Longrightarrow> \<exists>xs. db' = db\<lparr>messages := xs\<rparr>"
proof (induction dg env n i po ms db rule: insert_messages.induct)
  case (1 dg env n i po db)
  have "db = db\<lparr>messages := messages db\<rparr>" by simp
  with 1 show ?case by (metis insert_messages.simps(1) sum.inject(2))
next
  case (2 dg env n i po m ms db)
  then show ?case by (auto simp: Let_def split: if_splits)
qed

lemma record_messages_frame:
  assumes "record_messages dg env row check db = Inr db'"
  shows "\<exists>xs. db' = db\<lparr>messages := xs\<rparr>"
proof (cases "ck_messages check = []")
  case True
  have "db = db\<lparr>messages := messages db\<rparr>" by simp
  with True assms show ?thesis by (metis record_messages_def sum.inject(2))
next
  case False
  with assms show ?thesis
    by (auto simp: record_messages_def res_bind_Inr_iff ok_or_def split: option.splits dest: insert_messages_frame)
qed

lemma record_messages_money:
  assumes "record_messages dg env row check db = Inr db'"
  shows "orders_money shu base db' = orders_money shu base db" "current db' r = current db r"
  using record_messages_frame [OF assms] by (auto simp: messages_frame)

lemma advance_expiry_money:
  assumes "advance_expiry env row check db = Inr (e, db')" "orders_money shu base db" "current db row"
  shows "orders_money shu base db' \<and> current db' row"
  using assms unfolding advance_expiry_def
  by (auto simp: res_bind_Inr_iff quiet_def same_order_def split: option.splits if_splits
      elim!: quiet_money [rotated 2] current_quiet [rotated 2])

lemma schedule_open_money:
  assumes "schedule_open env i c b db = Inr db'" "orders_money shu base db"
  shows "orders_money shu base db'"
  using assms unfolding schedule_open_def
  by (auto simp: res_bind_Inr_iff quiet_def elim!: quiet_money [rotated 2])

lemma review_open_money:
  assumes "review_open sh env row reason db = Inr (out, db')" "orders_money shu base db"
  shows "orders_money shu base db'"
proof -
  obtain n db1 where u: "update_orders (\<lambda>r. no_id r = no_id row \<and> money_open (no_status r))
       (\<lambda>r. r\<lparr>no_status := OReview, no_review_at := Some (sql_now env), no_review_reason := Some reason,
          no_activation_open := False, no_next_at := None, no_claim := None\<rparr>) db = Inr (n, db1)"
    and db': "db' = raise_alert sh (new_id env 3) (sql_now env) (no_id row) db1"
    using assms(1) by (auto simp: review_open_def res_bind_Inr_iff)
  have "orders_money shu base db1"
    by (rule quiet_money [OF assms(2) _ u]) (auto simp: quiet_def)
  then show ?thesis by (simp add: db' orders_money_def settled_keys_def reserve_keys_def ended_keys_def)
qed

lemma settle_open_money:
  assumes "settle_open env row code body so db = Inr (out, db')" "orders_money shu base db" "current db row"
    "money_open (no_status row)"
  shows "orders_money shu base db'"
proof -
  obtain pending db1 revenue db2 j posted db3 n f where
      s1: "platform_account (new_id env 0) NumberPayablePending db = Inr (pending, db1)"
    and s2: "platform_account (new_id env 1) NumberRevenue db1 = Inr (revenue, db2)"
    and j: "settle_journal pending revenue (no_reference row) (no_price row) = Inr j"
    and p: "post (new_id env 2) j db2 = Inr (posted, db3)"
    and u: "update_orders (\<lambda>r. no_id r = no_id row \<and> money_open (no_status r)) f db3 = Inr (n, db')"
    and f: "\<And>r. no_id (f r) = no_id r \<and> no_user (f r) = no_user r \<and> no_price (f r) = no_price r \<and>
        no_reference (f r) = no_reference r \<and> no_idempotency (f r) = no_idempotency r \<and> no_status (f r) = ODelivered"
    using assms(1,4) status_classes(3) [of "no_status row"]
    by (auto simp: settle_open_def res_bind_Inr_iff)
  note jf = settle_journal_Inr [OF j]
  show ?thesis
    using finish_order [OF assms(2-4) platform_step [OF s1] platform_step [OF s2] p jf(3)
        disjI1 [OF jf(1)] _ jf(2) u f] by auto
qed

lemma refund_open_money:
  assumes "refund_open env row status reason db = Inr (out, db')" "orders_money shu base db" "current db row"
    "money_open (no_status row)"
  shows "orders_money shu base db'"
proof -
  obtain acct db1 pending db2 j posted db3 n f where
      s1: "lock_user_ngn_account (new_id env 0) (no_user row) db = Inr (acct, db1)"
    and s2: "platform_account (new_id env 1) NumberPayablePending db1 = Inr (pending, db2)"
    and j: "refund_journal pending acct (no_reference row) (no_price row) reason = Inr j"
    and p: "post (new_id env 2) j db2 = Inr (posted, db3)"
    and u: "update_orders (\<lambda>r. no_id r = no_id row \<and> money_open (no_status r)) f db3 = Inr (n, db')"
    and f: "\<And>r. no_id (f r) = no_id r \<and> no_user (f r) = no_user r \<and> no_price (f r) = no_price r \<and>
        no_reference (f r) = no_reference r \<and> no_idempotency (f r) = no_idempotency r \<and> no_status (f r) = refund_status_of status"
    using assms(1) by (auto simp: refund_open_def res_bind_Inr_iff split: if_splits)
  note jf = refund_journal_Inr [OF j]
  show ?thesis
    using finish_order [OF assms(2-4) lock_user_step [OF s1] platform_step [OF s2] p jf(3)
        disjI2 [OF jf(1)] _ jf(2) u f] by auto
qed

lemma conclude_check_money:
  assumes "conclude_check sh env row lc ex db = Inr (out, db')" "orders_money shu base db" "current db row"
  shows "orders_money shu base db'"
  using assms unfolding conclude_check_def
  by (auto simp: Let_def res_bind_Inr_iff split: if_splits option.splits
      intro: settle_open_money schedule_open_money review_open_money refund_open_money)

lemma find_order_current: "find_order i db = Some row \<Longrightarrow> current db row \<and> no_id row = i"
  by (auto simp: current_def same_order_def dest: find_order_SomeD)

lemma apply_check_money:
  assumes "apply_check sh dg env i ct check db = Inr (out, db')" "orders_money shu base db"
  shows "orders_money shu base db'"
proof (cases "find_order i db")
  case (Some row)
  note cur = find_order_current [OF Some]
  show ?thesis
    using assms(1) Some assms(2) cur unfolding apply_check_def
    by (auto simp: res_bind_Inr_iff split: if_splits
        dest!: advance_expiry_money [OF _ assms(2)] dest: record_messages_money
        intro: conclude_check_money)
qed (use assms in \<open>simp add: apply_check_def\<close>)

text \<open>The two journals of a requested transition, as one description of what they pay.\<close>

lemma transition_journal_cases:
  assumes "transition_journal env row tr db = Inr (j, st, reason, code, body, db2)"
  obtains k1 u1 p1 x1 k2 u2 p2 x2 key db1 where
      "account_step k1 u1 Ngn x1 db db1" "account_step k2 u2 Ngn x2 db1 db2" "valid_journal j"
      "j_entries j = [\<lparr>e_account_id = x1, e_account_kind = k1, e_asset = Ngn, e_amount = p1\<rparr>,
                      \<lparr>e_account_id = x2, e_account_kind = k2, e_asset = Ngn, e_amount = p2\<rparr>] \<or>
       j_entries j = [\<lparr>e_account_id = x2, e_account_kind = k2, e_asset = Ngn, e_amount = p2\<rparr>,
                      \<lparr>e_account_id = x1, e_account_kind = k1, e_asset = Ngn, e_amount = p1\<rparr>]"
      "st = ODelivered \<and> (k1, u1, p1) = (NumberPayablePending, None, no_price row) \<and>
        (k2, u2, p2) = (NumberRevenue, None, - no_price row) \<and> key = '':settle'' \<or>
       refunded_status st \<and> (k2, u2, p2) = (NumberPayablePending, None, no_price row) \<and>
        (k1, u1, p1) = (UserNgn, Some (no_user row), - no_price row) \<and> key = '':refund''"
      "j_idempotency_key j = no_reference row @ key"
proof (cases tr)
  case (Deliver c b)
  then obtain pending db1 revenue where
      s1: "platform_account (new_id env 0) NumberPayablePending db = Inr (pending, db1)"
    and s2: "platform_account (new_id env 1) NumberRevenue db1 = Inr (revenue, db2)"
    and j: "settle_journal pending revenue (no_reference row) (no_price row) = Inr j" and st: "st = ODelivered"
    using assms by (auto simp: transition_journal_def res_bind_Inr_iff)
  note jf = settle_journal_Inr [OF j]
  show ?thesis
    by (rule that [OF platform_step [OF s1] platform_step [OF s2] jf(3) disjI1 [OF jf(1)] _ jf(2)])
      (simp add: st)
next
  case (Refund status r)
  then obtain acct db1 pending where
      s1: "lock_user_ngn_account (new_id env 0) (no_user row) db = Inr (acct, db1)"
    and s2: "platform_account (new_id env 1) NumberPayablePending db1 = Inr (pending, db2)"
    and j: "refund_journal pending acct (no_reference row) (no_price row) r = Inr j"
    and st: "st = refund_status_of status"
    using assms by (auto simp: transition_journal_def res_bind_Inr_iff split: if_splits)
  note jf = refund_journal_Inr [OF j]
  show ?thesis
    by (rule that [OF lock_user_step [OF s1] platform_step [OF s2] jf(3) disjI2 [OF jf(1)] _ jf(2)])
      (simp add: st)
qed

lemma transition_status:
  "transition_journal env row tr db = Inr (j, st, rest) \<Longrightarrow>
   st = (case tr of Deliver _ _ \<Rightarrow> ODelivered | Refund s _ \<Rightarrow> refund_status_of s)"
  by (auto simp: transition_journal_def res_bind_Inr_iff split: order_transition.splits if_splits)

text \<open>An applied transition, taken apart.\<close>

lemma apply_inner_Applied:
  assumes "apply_inner dg env i tr ct ms db = Inr (out, db')"
  obtains (terminal) row where "find_order i db = Some row" "\<not> money_open (no_status row)" "db' = db"
      "out = AlreadyTerminal (no_status row)"
    | (applied) row db0 j st reason code body db2 posted db3 n f where
      "find_order i db = Some row" "money_open (no_status row)"
      "record_messages dg env row (with_messages ms check_open) db = Inr db0"
      "transition_journal env row tr db0 = Inr (j, st, reason, code, body, db2)"
      "post (new_id env 2) j db2 = Inr (posted, db3)"
      "update_orders (\<lambda>r. no_id r = no_id row \<and> money_open (no_status r)) f db3 = Inr (n, db')"
      "\<And>r. no_id (f r) = no_id r \<and> no_user (f r) = no_user r \<and> no_price (f r) = no_price r \<and>
        no_reference (f r) = no_reference r \<and> no_idempotency (f r) = no_idempotency r \<and> no_status (f r) = st" "out = Applied"
proof (cases "find_order i db")
  case None
  then show ?thesis using assms by (simp add: apply_inner_def)
next
  case (Some row)
  note id = conjunct2 [OF find_order_current [OF Some]]
  show ?thesis
  proof (cases "money_open (no_status row)")
    case False
    then show ?thesis using assms Some terminal by (auto simp: apply_inner_def split: if_splits)
  next
    case True
    with assms Some id obtain db0 j st reason code body db2 posted db3 n f where
      "record_messages dg env row (with_messages ms check_open) db = Inr db0"
      "transition_journal env row tr db0 = Inr (j, st, reason, code, body, db2)"
      "post (new_id env 2) j db2 = Inr (posted, db3)"
      "update_orders (\<lambda>r. no_id r = no_id row \<and> money_open (no_status r)) f db3 = Inr (n, db')"
      "\<And>r. no_id (f r) = no_id r \<and> no_user (f r) = no_user r \<and> no_price (f r) = no_price r \<and>
        no_reference (f r) = no_reference r \<and> no_idempotency (f r) = no_idempotency r \<and> no_status (f r) = st" "out = Applied"
      by (auto simp: apply_inner_def res_bind_Inr_iff split: if_splits)
    then show ?thesis using applied Some True by blast
  qed
qed

lemma apply_inner_money:
  assumes "apply_inner dg env i tr ct ms db = Inr (out, db')" "orders_money shu base db"
  shows "orders_money shu base db'"
  using assms(1)
proof (cases rule: apply_inner_Applied)
  case terminal
  with assms(2) show ?thesis by simp
next
  case (applied row db0 j st reason code body db2 posted db3 n f)
  have inv: "orders_money shu base db0" and cur: "current db0 row"
    using record_messages_money [OF applied(3)] assms(2) find_order_current [OF applied(1)] by auto
  show ?thesis
  proof (rule transition_journal_cases [OF applied(4)], goal_cases)
    case (1 k1 u1 p1 x1 k2 u2 p2 x2 key db1)
    show ?case using finish_order [OF inv cur applied(2) 1(1,2) applied(5) 1(3-6) applied(6,7)] by blast
  qed
qed

lemma deliver_money:
  "deliver sh dg env i ct code body ms db = Inr (out, db') \<Longrightarrow> orders_money shu base db \<Longrightarrow> orders_money shu base db'"
  unfolding deliver_def by (rule apply_check_money)

end
