(* ===== verification/Order_Claims.thy ===== *)
theory Order_Claims
  imports Order_Money
begin

text \<open>
  Claims of \<open>crates/api/src/number_reconciler.rs\<close>: the leases by which one worker at a time handles an
  order, a supplier slot or an operator alert, and the contract they share.
\<close>

section \<open>Leases\<close>

definition lease_seconds :: instant where
  "lease_seconds = seconds 60"

text \<open>\<open>claimed_until IS NULL OR claimed_until < now()\<close>.\<close>

definition claim_free :: "instant \<Rightarrow> claim \<Rightarrow> bool" where
  "claim_free now c = (case c of None \<Rightarrow> True | Some (_, until) \<Rightarrow> until < now)"

definition claimed_by :: "uuid \<Rightarrow> claim \<Rightarrow> bool" where
  "claimed_by token c = (case c of None \<Rightarrow> False | Some (t, _) \<Rightarrow> t = token)"

text \<open>
  What every claim table promises: an acquisition succeeds only on a free lease, sets the lease of
  its key for a minute and touches no other.
\<close>

locale lease_store =
  fixes acquire :: "uuid \<Rightarrow> instant \<Rightarrow> 'k \<Rightarrow> 's \<Rightarrow> 's option"
    and lease :: "'s \<Rightarrow> 'k \<Rightarrow> claim"
  assumes acquire_free: "acquire token now k s = Some s' \<Longrightarrow> claim_free now (lease s k)"
    and acquire_lease: "acquire token now k s = Some s' \<Longrightarrow> lease s' k = Some (token, now + lease_seconds)"
    and acquire_other: "acquire token now k s = Some s' \<Longrightarrow> k' \<noteq> k \<Longrightarrow> lease s' k' = lease s k'"
begin

definition try_all :: "(uuid \<times> instant \<times> 'k) list \<Rightarrow> 's \<Rightarrow> 's" where
  "try_all = fold (\<lambda>(token, now, k) s. case acquire token now k s of None \<Rightarrow> s | Some s' \<Rightarrow> s')"

text \<open>Until it lapses a lease is nobody else's, whoever tries and whichever keys they try.\<close>

lemma refused_while_held:
  "lease s k = Some (token, until) \<Longrightarrow> now \<le> until \<Longrightarrow> acquire token' now k s = None"
  using acquire_free [of token' now k s] by (cases "acquire token' now k s") (auto simp: claim_free_def)

lemma held_through:
  assumes "lease s k = Some (token, until)" "\<forall>(t, now, k') \<in> set tries. now \<le> until"
  shows "lease (try_all tries s) k = Some (token, until)"
  using assms
proof (induction tries arbitrary: s)
  case Nil
  then show ?case by (simp add: try_all_def)
next
  case (Cons a tries)
  obtain t now k' where a: "a = (t, now, k')" by (metis prod.exhaust)
  define s1 where "s1 = (case acquire t now k' s of None \<Rightarrow> s | Some s' \<Rightarrow> s')"
  have "lease s1 k = Some (token, until)"
  proof (cases "acquire t now k' s")
    case (Some s')
    then show ?thesis
      using Cons.prems refused_while_held [of s k token until now t] acquire_other [OF Some, of k]
      by (cases "k' = k") (auto simp: s1_def a)
  qed (use Cons.prems in \<open>simp add: s1_def\<close>)
  then show ?case using Cons.IH [of s1] Cons.prems by (simp add: try_all_def a s1_def)
qed

lemma exclusive:
  assumes "acquire token now k s = Some s'" "\<forall>(t, n, k') \<in> set tries. n \<le> now + lease_seconds"
  shows "lease (try_all tries s') k = Some (token, now + lease_seconds)"
  using held_through [OF acquire_lease [OF assms(1)] assms(2)] .

text \<open>After it lapsed a lease can be taken: a worker that dies blocks nobody for longer.\<close>

lemma lapses: "lease s k = Some (token, until) \<Longrightarrow> until < now \<Longrightarrow> claim_free now (lease s k)"
  by (simp add: claim_free_def)

end

section \<open>Orders\<close>

text \<open>\<open>try_claim_order\<close> and \<open>try_claim_held_order\<close>: one more status for the latter.\<close>

definition claim_order_where :: "(order_status \<Rightarrow> bool) \<Rightarrow> uuid \<Rightarrow> instant \<Rightarrow> uuid \<Rightarrow> 'z number_db_scheme \<Rightarrow>
    api_error + (uuid option \<times> 'z number_db_scheme)" where
  "claim_order_where allowed token now order_id db =
     map_err via_anyhow (res_bind (update_orders
       (\<lambda>r. no_id r = order_id \<and> allowed (no_status r) \<and> claim_free now (no_claim r))
       (\<lambda>r. r\<lparr>no_claim := Some (token, now + lease_seconds)\<rparr>) db)
     (\<lambda>(n, db'). Inr (if n = 0 then None else Some token, db')))"

definition try_claim_order :: "uuid \<Rightarrow> instant \<Rightarrow> uuid \<Rightarrow> 'z number_db_scheme \<Rightarrow>
    api_error + (uuid option \<times> 'z number_db_scheme)" where
  "try_claim_order = claim_order_where (\<lambda>st. st = OReserved \<or> st = OAwaiting)"

definition try_claim_held_order :: "uuid \<Rightarrow> instant \<Rightarrow> uuid \<Rightarrow> 'z number_db_scheme \<Rightarrow>
    api_error + (uuid option \<times> 'z number_db_scheme)" where
  "try_claim_held_order = claim_order_where (\<lambda>st. st = OReserved \<or> st = OAwaiting \<or> st = OReview)"

definition release_order :: "instant \<Rightarrow> uuid \<Rightarrow> uuid \<Rightarrow> int \<Rightarrow> string option \<Rightarrow> 'z number_db_scheme \<Rightarrow>
    api_error + (unit \<times> 'z number_db_scheme)" where
  "release_order now order_id token delay_seconds error db =
     map_err from_sqlx (res_bind (update_orders
       (\<lambda>r. no_id r = order_id \<and> claimed_by token (no_claim r))
       (\<lambda>r. r\<lparr>no_last_checked := Some now,
          no_attempts := (if error = None then 0 else no_attempts r + 1),
          no_last_error := error,
          no_next_at := Some (min (case no_expires_at r of None \<Rightarrow> now + minutes 15 | Some t \<Rightarrow> t)
            (now + seconds delay_seconds)),
          no_claim := None\<rparr>) db)
     (\<lambda>(_, db'). Inr ((), db')))"

definition mark_review_required :: "(uuid \<Rightarrow> string) \<Rightarrow> env \<Rightarrow> uuid \<Rightarrow> uuid \<Rightarrow> string \<Rightarrow> 'z number_db_scheme \<Rightarrow>
    api_error + (unit \<times> 'z number_db_scheme)" where
  "mark_review_required show_uuid env order_id token reason db =
     res_bind (map_err from_sqlx (update_orders
       (\<lambda>r. no_id r = order_id \<and> (no_status r = OReserved \<or> no_status r = OAwaiting) \<and>
          (case no_claim r of None \<Rightarrow> False | Some (t, until) \<Rightarrow> t = token \<and> sql_now env < until))
       (\<lambda>r. r\<lparr>no_status := OReview, no_review_at := Some (sql_now env), no_review_reason := Some reason,
          no_next_at := Some (sql_now env + seconds 5), no_claim := None\<rparr>) db))
     (\<lambda>(n, db1).
       if n \<noteq> 1 then Inl claim_lost
       else Inr ((), raise_alert show_uuid (new_id env 3) (sql_now env) order_id db1))"

section \<open>Slots\<close>

definition claim_slot :: "uuid \<Rightarrow> instant \<Rightarrow> 'z number_db_scheme \<Rightarrow> nat option \<times> 'z number_db_scheme" where
  "claim_slot token now db =
     (case sort_key sl_slot (filter (\<lambda>s. claim_free now (sl_claim s)) (slots db)) of
        [] \<Rightarrow> (None, db)
      | s # _ \<Rightarrow> (Some (sl_slot s), db\<lparr>slots := update_where (\<lambda>x. sl_slot x = sl_slot s)
          (\<lambda>x. x\<lparr>sl_claim := Some (token, now + lease_seconds)\<rparr>) (slots db)\<rparr>))"

definition release_slot :: "nat \<Rightarrow> uuid \<Rightarrow> 'z number_db_scheme \<Rightarrow> 'z number_db_scheme" where
  "release_slot slot token db =
     db\<lparr>slots := update_where (\<lambda>x. sl_slot x = slot \<and> claimed_by token (sl_claim x))
       (\<lambda>x. x\<lparr>sl_claim := None\<rparr>) (slots db)\<rparr>"

section \<open>Alerts\<close>

text \<open>The claim of \<open>deliver_alert\<close>: the due alert that waits longest.\<close>

definition claim_alert :: "uuid \<Rightarrow> instant \<Rightarrow> 'z number_db_scheme \<Rightarrow> alert_row option \<times> 'z number_db_scheme" where
  "claim_alert token now db =
     (case sort_key al_next_at (filter (\<lambda>a. \<not> al_delivered a \<and> al_next_at a \<le> now \<and> claim_free now (al_claim a)) (alerts db)) of
        [] \<Rightarrow> (None, db)
      | a # _ \<Rightarrow> (Some a, db\<lparr>alerts := update_where (\<lambda>x. al_id x = al_id a)
          (\<lambda>x. x\<lparr>al_claim := Some (token, now + lease_seconds)\<rparr>) (alerts db)\<rparr>))"

definition schedule_alert_retry :: "instant \<Rightarrow> uuid \<Rightarrow> uuid \<Rightarrow> string \<Rightarrow> 'z number_db_scheme \<Rightarrow> 'z number_db_scheme" where
  "schedule_alert_retry now alert_id token category db =
     db\<lparr>alerts := update_where (\<lambda>x. al_id x = alert_id \<and> claimed_by token (al_claim x))
       (\<lambda>x. x\<lparr>al_attempts := al_attempts x + 1, al_last_error := Some category,
          al_next_at := now + seconds (min 900 (15 * 2 ^ nat (min (al_attempts x) 6))),
          al_claim := None\<rparr>) (alerts db)\<rparr>"

text \<open>
  \<open>deliver_alert\<close>: \<open>destination\<close> is the configured address, \<open>sent\<close> the notifier's answer; the
  first instant is the claim's, the second that of the write that ends the attempt.
\<close>

definition deliver_alert :: "uuid \<Rightarrow> instant \<Rightarrow> instant \<Rightarrow> string option \<Rightarrow> (alert_row \<Rightarrow> bool) \<Rightarrow>
    'z number_db_scheme \<Rightarrow> 'z number_db_scheme" where
  "deliver_alert token now now' destination sent db =
     (case claim_alert token now db of
        (None, db1) \<Rightarrow> db1
      | (Some a, db1) \<Rightarrow>
          (case destination of
             None \<Rightarrow> schedule_alert_retry now' (al_id a) token ''not_configured'' db1
           | Some _ \<Rightarrow>
               if sent a
               then db1\<lparr>alerts := update_where (\<lambda>x. al_id x = al_id a \<and> claimed_by token (al_claim x))
                      (\<lambda>x. x\<lparr>al_delivered := True, al_delivered_at := Some now', al_claim := None\<rparr>) (alerts db1)\<rparr>
               else schedule_alert_retry now' (al_id a) token ''delivery_failed'' db1))"

section \<open>The leases of the three tables\<close>

definition order_lease :: "'z number_db_scheme \<Rightarrow> uuid \<Rightarrow> claim" where
  "order_lease db i = (case find_order i db of None \<Rightarrow> None | Some r \<Rightarrow> no_claim r)"

definition acquire_order :: "uuid \<Rightarrow> instant \<Rightarrow> uuid \<Rightarrow> 'z number_db_scheme \<Rightarrow> 'z number_db_scheme option" where
  "acquire_order token now i db =
     (case try_claim_order token now i db of Inr (Some _, db') \<Rightarrow> Some db' | _ \<Rightarrow> None)"

definition acquire_held_order :: "uuid \<Rightarrow> instant \<Rightarrow> uuid \<Rightarrow> 'z number_db_scheme \<Rightarrow> 'z number_db_scheme option" where
  "acquire_held_order token now i db =
     (case try_claim_held_order token now i db of Inr (Some _, db') \<Rightarrow> Some db' | _ \<Rightarrow> None)"

definition slot_lease :: "'z number_db_scheme \<Rightarrow> nat \<Rightarrow> claim" where
  "slot_lease db k = (case fetch_optional (\<lambda>s. sl_slot s = k) (slots db) of None \<Rightarrow> None | Some s \<Rightarrow> sl_claim s)"

definition acquire_slot :: "uuid \<Rightarrow> instant \<Rightarrow> nat \<Rightarrow> 'z number_db_scheme \<Rightarrow> 'z number_db_scheme option" where
  "acquire_slot token now k db =
     (case claim_slot token now db of (Some k', db') \<Rightarrow> if k' = k \<and> distinct (map sl_slot (slots db)) then Some db' else None
      | _ \<Rightarrow> None)"

lemma claim_order_where_Some:
  assumes "claim_order_where allowed token now i db = Inr (Some t, db')"
  obtains r where "find_order i db = Some r" "allowed (no_status r)" "claim_free now (no_claim r)"
    "db' = db\<lparr>orders := update_where (\<lambda>r. no_id r = i \<and> allowed (no_status r) \<and> claim_free now (no_claim r))
       (\<lambda>r. r\<lparr>no_claim := Some (token, now + lease_seconds)\<rparr>) (orders db)\<rparr>"
    "orders_ok (orders db')" "t = token"
proof -
  let ?p = "\<lambda>r. no_id r = i \<and> allowed (no_status r) \<and> claim_free now (no_claim r)"
  let ?f = "\<lambda>r. r\<lparr>no_claim := Some (token, now + lease_seconds)\<rparr>"
  have u: "orders_ok (update_where ?p ?f (orders db))" "db' = db\<lparr>orders := update_where ?p ?f (orders db)\<rparr>"
    "rows_affected ?p (orders db) \<noteq> 0" "t = token"
    using assms by (auto simp: claim_order_where_def res_bind_Inr_iff update_orders_Inr_iff split: if_splits)
  then obtain r where r: "r \<in> set (orders db)" "?p r"
    by (auto simp: rows_affected_def filter_empty_conv)
  have "distinct (map no_id (orders db))"
    using u(1) by (simp add: orders_ok_def orders_unique_def map_update_where)
  then have "find_order i db = Some r"
    unfolding find_order_def using r by (intro fetch_optional_unique) (auto simp: distinct_map inj_on_def)
  with r(2) u show ?thesis by (intro that) auto
qed

lemma claim_order_lease:
  assumes "claim_order_where allowed token now i db = Inr (Some t, db')"
  shows "claim_free now (order_lease db i)" "order_lease db' i = Some (token, now + lease_seconds)"
    "k \<noteq> i \<Longrightarrow> order_lease db' k = order_lease db k"
proof -
  obtain r where r: "find_order i db = Some r" "allowed (no_status r)" "claim_free now (no_claim r)"
    and db': "db' = db\<lparr>orders := update_where (\<lambda>r. no_id r = i \<and> allowed (no_status r) \<and> claim_free now (no_claim r))
       (\<lambda>r. r\<lparr>no_claim := Some (token, now + lease_seconds)\<rparr>) (orders db)\<rparr>"
    by (rule claim_order_where_Some [OF assms])
  have after: "find_order k db' = map_option (\<lambda>r. if no_id r = i \<and> allowed (no_status r) \<and> claim_free now (no_claim r)
      then r\<lparr>no_claim := Some (token, now + lease_seconds)\<rparr> else r) (find_order k db)" for k
    unfolding find_order_def db' by (simp add: fetch_update_where)
  have "no_id r = i" using find_order_SomeD [OF r(1)] by simp
  then show "claim_free now (order_lease db i)" "order_lease db' i = Some (token, now + lease_seconds)"
    using r by (simp_all add: order_lease_def after)
  assume "k \<noteq> i"
  then show "order_lease db' k = order_lease db k"
    by (cases "find_order k db") (auto simp: order_lease_def after dest: find_order_SomeD)
qed

interpretation order_claims: lease_store acquire_order order_lease
  by unfold_locales
    (auto simp: acquire_order_def try_claim_order_def claim_order_lease split: sum.splits option.splits)

interpretation held_order_claims: lease_store acquire_held_order order_lease
  by unfold_locales
    (auto simp: acquire_held_order_def try_claim_held_order_def claim_order_lease split: sum.splits option.splits)

lemma claim_slot_lease:
  assumes "acquire_slot token now k db = Some db'"
  shows "claim_free now (slot_lease db k)" "slot_lease db' k = Some (token, now + lease_seconds)"
    "k' \<noteq> k \<Longrightarrow> slot_lease db' k' = slot_lease db k'"
proof -
  obtain s rest where s: "sort_key sl_slot (filter (\<lambda>s. claim_free now (sl_claim s)) (slots db)) = s # rest" "sl_slot s = k"
    and d: "distinct (map sl_slot (slots db))"
    and db': "db' = db\<lparr>slots := update_where (\<lambda>x. sl_slot x = k)
          (\<lambda>x. x\<lparr>sl_claim := Some (token, now + lease_seconds)\<rparr>) (slots db)\<rparr>"
    using assms by (auto simp: acquire_slot_def claim_slot_def split: list.splits if_splits)
  have "s \<in> set (filter (\<lambda>s. claim_free now (sl_claim s)) (slots db))"
    using s(1) by (metis list.set_intros(1) set_sort)
  then have "fetch_optional (\<lambda>s. sl_slot s = k) (slots db) = Some s" "claim_free now (sl_claim s)"
    using s(2) d by (auto intro!: fetch_optional_unique simp: distinct_map inj_on_def)
  moreover have "fetch_optional (\<lambda>s. sl_slot s = n) (slots db') =
      map_option (\<lambda>x. if sl_slot x = k then x\<lparr>sl_claim := Some (token, now + lease_seconds)\<rparr> else x)
        (fetch_optional (\<lambda>s. sl_slot s = n) (slots db))" for n
    unfolding db' by (simp add: fetch_update_where)
  ultimately show "claim_free now (slot_lease db k)" "slot_lease db' k = Some (token, now + lease_seconds)"
    using s(2) by (simp_all add: slot_lease_def)
  assume "k' \<noteq> k"
  then show "slot_lease db' k' = slot_lease db k'"
    by (cases "fetch_optional (\<lambda>s. sl_slot s = k') (slots db)")
      (auto simp: slot_lease_def db' fetch_update_where dest: fetch_optional_SomeD)
qed

interpretation slot_claims: lease_store acquire_slot slot_lease
  by unfold_locales (auto dest: claim_slot_lease)

section \<open>Claims and the money\<close>

lemma claim_money:
  "claim_order_where allowed token now i db = Inr (x, db') \<Longrightarrow> orders_money shu base db \<Longrightarrow> orders_money shu base db'"
  unfolding claim_order_where_def
  by (auto simp: res_bind_Inr_iff quiet_def elim!: quiet_money [rotated 2])

lemma release_order_money:
  "release_order now i token d e db = Inr (x, db') \<Longrightarrow> orders_money shu base db \<Longrightarrow> orders_money shu base db'"
  unfolding release_order_def
  by (auto simp: res_bind_Inr_iff quiet_def elim!: quiet_money [rotated 2])

lemma side_tables_money [simp]:
  "orders_money shu base (db\<lparr>slots := ss\<rparr>) = orders_money shu base db"
  "orders_money shu base (db\<lparr>alerts := as\<rparr>) = orders_money shu base db"
  "orders_money shu base (raise_alert sh i now o' db) = orders_money shu base db"
  by (simp_all add: orders_money_def settled_keys_def reserve_keys_def ended_keys_def)

lemma mark_review_money:
  assumes "mark_review_required sh env i token reason db = Inr (x, db')" "orders_money shu base db"
  shows "orders_money shu base db'"
proof -
  obtain n db1 p f where u: "update_orders p f db = Inr (n, db1)" and q: "\<And>r. p r \<Longrightarrow> quiet f r"
    and db': "db' = raise_alert sh (new_id env 3) (sql_now env) i db1"
    using assms(1) by (force simp: mark_review_required_def res_bind_Inr_iff quiet_def split: if_splits)
  have "orders_money shu base db1" by (rule quiet_money [OF assms(2) _ u]) (rule q)
  then show ?thesis by (simp add: db')
qed

lemma slots_money: "orders_money shu base (snd (claim_slot token now db)) = orders_money shu base db"
  "orders_money shu base (release_slot k token db) = orders_money shu base db"
  by (auto simp: claim_slot_def release_slot_def split: list.split)

lemma alerts_money: "orders_money shu base (deliver_alert token now now' dest sent db) = orders_money shu base db"
  by (auto simp: deliver_alert_def claim_alert_def schedule_alert_retry_def split: list.split option.split)

end
