(* ===== verification/Order_Reconciler.thy ===== *)
theory Order_Reconciler
  imports Order_Claims
begin

text \<open>
  The reconciler of \<open>crates/api/src/number_reconciler.rs\<close> and the handlers of
  \<open>crates/api/src/number_routes.rs\<close> that work on an existing order. Each is a sequence of
  transactions with supplier calls between them; a handler returns its error, if any, together
  with the tables its committed transactions left. The supplier's answers, the catalogue's names
  and the ids each transaction draws are parameters.
\<close>

section \<open>Sequences of transactions\<close>

text \<open>A transaction commits its tables with a value, or leaves the tables with an error.\<close>

definition commit :: "'e + ('a \<times> 's) \<Rightarrow> 's \<Rightarrow> ('e + 'a) \<times> 's" where
  "commit r db = (case r of Inl e \<Rightarrow> (Inl e, db) | Inr (x, db') \<Rightarrow> (Inr x, db'))"

definition and_then :: "('e + 'a) \<times> 's \<Rightarrow> ('a \<Rightarrow> 's \<Rightarrow> ('e + 'b) \<times> 's) \<Rightarrow> ('e + 'b) \<times> 's" where
  "and_then r f = (case r of (Inl e, db) \<Rightarrow> (Inl e, db) | (Inr x, db) \<Rightarrow> f x db)"

text \<open>What holds after each part holds after the whole, whether it failed or not.\<close>

lemma commit_keeps: "(\<And>x db'. r = Inr (x, db') \<Longrightarrow> P db') \<Longrightarrow> P db \<Longrightarrow> P (snd (commit r db))"
  by (auto simp: commit_def split: sum.split)

lemma and_then_keeps: "P (snd r) \<Longrightarrow> (\<And>x db. P db \<Longrightarrow> P (snd (f x db))) \<Longrightarrow> P (snd (and_then r f))"
  by (auto simp: and_then_def split: prod.split sum.split)

section \<open>The sweep\<close>

record supplier =
  sp_live :: bool
  sp_primary_live :: bool
  sp_check :: "string \<Rightarrow> string \<Rightarrow> api_error + activation_check"
  sp_cancel :: "string \<Rightarrow> string \<Rightarrow> api_error + unit"
  sp_recover :: "string \<Rightarrow> string \<Rightarrow> activation option"
  sp_buy :: "string \<Rightarrow> string \<Rightarrow> purchase_error + activation"
  sp_buy_source :: "string \<Rightarrow> string \<Rightarrow> string \<Rightarrow> string \<Rightarrow> purchase_error + activation"

record claimed_order =
  co_id :: uuid
  co_token :: uuid
  co_status :: order_status
  co_provider_order :: "string option"
  co_started :: "instant option"
  co_expires_at :: "instant option"
  co_provider :: string

definition due :: "instant \<Rightarrow> order_row \<Rightarrow> bool" where
  "due now r \<longleftrightarrow> no_payload_complete r \<and>
     (no_status r = OReserved \<or> no_status r = OAwaiting \<or>
      no_status r = ODelivered \<and> no_activation_open r \<or>
      no_status r = OReview \<and> no_provider_order r = None \<and>
        no_review_reason r = Some ''purchase_outcome_unknown'') \<and>
     (case no_next_at r of None \<Rightarrow> True | Some t \<Rightarrow> t \<le> now) \<and>
     claim_free now (no_claim r)"

text \<open>\<open>ORDER BY reconcile_next_at\<close> puts the nulls last.\<close>

definition by_next_at :: "order_row list \<Rightarrow> order_row list" where
  "by_next_at rows = sort_key (\<lambda>r. case no_next_at r of None \<Rightarrow> (1::nat) | Some _ \<Rightarrow> 0)
     (sort_key (\<lambda>r. case no_next_at r of None \<Rightarrow> 0 | Some t \<Rightarrow> t) rows)"

definition claimed_of :: "uuid \<Rightarrow> order_row \<Rightarrow> claimed_order" where
  "claimed_of token r = \<lparr>co_id = no_id r, co_token = token, co_status = no_status r,
     co_provider_order = no_provider_order r, co_started = no_purchase_started r,
     co_expires_at = no_expires_at r, co_provider = no_provider r\<rparr>"

text \<open>The claiming statement: up to fifty due orders, each under a token of its own.\<close>

definition sweep_claim :: "instant \<Rightarrow> (uuid \<Rightarrow> uuid) \<Rightarrow> 'z number_db_scheme \<Rightarrow>
    api_error + (claimed_order list \<times> 'z number_db_scheme)" where
  "sweep_claim now token_for db =
     (let picked = take 50 (by_next_at (filter (due now) (orders db))) in
      map_err via_anyhow (res_bind (update_orders (\<lambda>r. no_id r \<in> no_id ` set picked)
          (\<lambda>r. r\<lparr>no_claim := Some (token_for (no_id r), now + lease_seconds)\<rparr>) db)
        (\<lambda>(_, db'). Inr (map (\<lambda>r. claimed_of (token_for (no_id r)) r) picked, db'))))"

text \<open>
  \<open>process\<close> on one claimed order. \<open>envs n\<close> is the surroundings of the handler's n-th transaction,
  \<open>sku\<close> the supplier country and product slug of the order, from the catalogue.
\<close>

definition recover_unknown_purchase :: "(uuid \<Rightarrow> string) \<Rightarrow> digest \<Rightarrow> supplier \<Rightarrow>
    (order_row \<Rightarrow> (string \<times> string) option) \<Rightarrow> (nat \<Rightarrow> env) \<Rightarrow> uuid \<Rightarrow> uuid \<Rightarrow>
    'z number_db_scheme \<Rightarrow> (api_error + unit) \<times> 'z number_db_scheme" where
  "recover_unknown_purchase show_uuid msg_digest numbers sku envs order_id token db =
     (case find_order order_id db of
        None \<Rightarrow> (Inr (), db)
      | Some row \<Rightarrow>
     (case sku row of
        None \<Rightarrow> (Inr (), db)
      | Some (country, product) \<Rightarrow>
     (let give_up = (\<lambda>db.
            if minutes 20 < app_now (envs 2) - no_created_at row
            then and_then (commit (apply_claimed msg_digest (envs 2) order_id token
                   (Refund RFailed ''purchase_unconfirmed'') db) db) (\<lambda>_ db. (Inr (), db))
            else commit (release_order (sql_now (envs 2)) order_id token 15
                   (Some ''purchase_outcome_unknown'') db) db)
      in
      case sp_recover numbers country product of
        None \<Rightarrow> give_up db
      | Some a \<Rightarrow>
          if list_ex (\<lambda>r. no_provider_order r = Some (av_provider_order_id a) \<and> no_id r \<noteq> order_id) (orders db)
          then give_up db
          else
            and_then (commit (map_err from_sqlx (update_orders
              (\<lambda>r. no_id r = order_id \<and> no_status r = OReview \<and> claimed_by token (no_claim r))
              (\<lambda>r. r\<lparr>no_status := OAwaiting, no_provider_order := Some (av_provider_order_id a),
                 no_phone := Some (av_phone a), no_provider_cost := av_cost a,
                 no_cost_currency := av_cost_currency a,
                 no_expires_at := Some (case av_expires_at a of
                    None \<Rightarrow> sql_now (envs 0) + minutes 15 | Some t \<Rightarrow> t),
                 no_activation_open := True, no_next_at := Some (sql_now (envs 0)),
                 no_claim := None\<rparr>) db)) db) (\<lambda>n db.
            if n = 1
            then (case sp_check numbers (no_provider row) (av_provider_order_id a) of
                    Inl _ \<Rightarrow> (Inr (), db)
                  | Inr check \<Rightarrow> and_then (commit (apply_check show_uuid msg_digest (envs 1) order_id None
                      check db) db) (\<lambda>_ db. (Inr (), db)))
            else give_up db))))"

definition retry_delay :: "int \<Rightarrow> int" where
  "retry_delay attempts = min (15 * 2 ^ nat (min (max attempts 0) 3)) 120"

definition process :: "(uuid \<Rightarrow> string) \<Rightarrow> digest \<Rightarrow> supplier \<Rightarrow>
    (order_row \<Rightarrow> (string \<times> string) option) \<Rightarrow> (nat \<Rightarrow> env) \<Rightarrow> claimed_order \<Rightarrow>
    'z number_db_scheme \<Rightarrow> (api_error + unit) \<times> 'z number_db_scheme" where
  "process show_uuid msg_digest numbers sku envs c db =
     (let i = co_id c; token = co_token c in
      if co_status c = OReserved then
        (if co_started c = None
         then and_then (commit (apply_claimed msg_digest (envs 0) i token
                (Refund RFailed ''purchase_not_started'') db) db) (\<lambda>_ db. (Inr (), db))
         else if co_provider_order c = None
         then commit (mark_review_required show_uuid (envs 0) i token ''purchase_outcome_unknown'' db) db
         else (Inr (), db))
      else if co_status c = OReview then recover_unknown_purchase show_uuid msg_digest numbers sku envs i token db
      else case co_provider_order c of
        None \<Rightarrow> (Inl (Internal (IMsg ''awaiting order has no provider id'')), db)
      | Some provider_id \<Rightarrow>
          (let expired = (case co_expires_at c of None \<Rightarrow> False | Some t \<Rightarrow> t \<le> app_now (envs 0)) in
           case claim_slot token (sql_now (envs 0)) db of
             (None, db) \<Rightarrow> commit (release_order (sql_now (envs 1)) i token 1 None db) db
           | (Some slot, db) \<Rightarrow>
               (let checked = sp_check numbers (co_provider c) provider_id;
                    db = release_slot slot token db
                in case checked of
                     Inr check \<Rightarrow>
                       and_then (commit (apply_check show_uuid msg_digest (envs 2) i (Some token) check db) db)
                         (\<lambda>_ db. (Inr (), db))
                   | Inl _ \<Rightarrow>
                       if co_status c = ODelivered \<and> expired
                       then and_then (commit (apply_check show_uuid msg_digest (envs 2) i (Some token)
                              check_closed db) db) (\<lambda>_ db. (Inr (), db))
                       else (case find_order i db of
                           None \<Rightarrow> (Inl NotFound, db)
                         | Some r \<Rightarrow> commit (release_order (sql_now (envs 2)) i token
                             (retry_delay (no_attempts r)) (Some ''provider_unavailable'') db) db))))"

text \<open>What \<open>process\<close> tells the supplier: it hands the number back when nothing can come of it.\<close>

definition process_cancels :: "supplier \<Rightarrow> env \<Rightarrow> claimed_order \<Rightarrow> bool" where
  "process_cancels numbers env c =
     (case co_provider_order c of
        None \<Rightarrow> False
      | Some provider_id \<Rightarrow>
          (case sp_check numbers (co_provider c) provider_id of
             Inl _ \<Rightarrow> False
           | Inr check \<Rightarrow> ck_messages check = [] \<and>
               (ck_lifecycle check = Closed \<or>
                (case co_expires_at c of None \<Rightarrow> False | Some t \<Rightarrow> t \<le> app_now env))))"

text \<open>A sweep: the claims, then each order's task; an error of one task stops no other.\<close>

definition sweep :: "(uuid \<Rightarrow> string) \<Rightarrow> digest \<Rightarrow> supplier \<Rightarrow> (order_row \<Rightarrow> (string \<times> string) option) \<Rightarrow>
    (uuid \<Rightarrow> uuid) \<Rightarrow> instant \<Rightarrow> (uuid \<Rightarrow> nat \<Rightarrow> env) \<Rightarrow> 'z number_db_scheme \<Rightarrow>
    (api_error + unit) \<times> 'z number_db_scheme" where
  "sweep show_uuid msg_digest numbers sku token_for now envs db =
     and_then (commit (sweep_claim now token_for db) db) (\<lambda>rows db.
       (Inr (), fold (\<lambda>c db. snd (process show_uuid msg_digest numbers sku (envs (co_id c)) c db)) rows db))"

section \<open>Handlers on an existing order\<close>

definition release_claim :: "uuid \<Rightarrow> uuid \<Rightarrow> 'z number_db_scheme \<Rightarrow> api_error + (nat \<times> 'z number_db_scheme)" where
  "release_claim order_id token db =
     map_err from_sqlx (update_orders (\<lambda>r. no_id r = order_id \<and> claimed_by token (no_claim r))
       (\<lambda>r. r\<lparr>no_claim := None\<rparr>) db)"

definition pull_inbox_from_provider :: "(uuid \<Rightarrow> string) \<Rightarrow> digest \<Rightarrow> supplier \<Rightarrow> env \<Rightarrow> uuid \<Rightarrow> uuid \<Rightarrow>
    'z number_db_scheme \<Rightarrow> 'z number_db_scheme" where
  "pull_inbox_from_provider show_uuid msg_digest numbers env user order_id db =
     (if \<not> sp_live numbers then db
      else case find_order order_id db of
        None \<Rightarrow> db
      | Some row \<Rightarrow>
          if no_user row \<noteq> user then db
          else case no_provider_order row of
            None \<Rightarrow> db
          | Some provider_order_id \<Rightarrow>
              if no_status row = OReserved \<or> no_status row = OAwaiting
              then (case sp_check numbers (no_provider row) provider_order_id of
                      Inl _ \<Rightarrow> db
                    | Inr check \<Rightarrow> snd (commit (apply_check show_uuid msg_digest env order_id None check db) db))
              else db)"

definition locally_cancellable :: "order_row \<Rightarrow> 'z number_db_scheme \<Rightarrow> bool" where
  "locally_cancellable row db \<longleftrightarrow>
     (no_status row = OReserved \<or> no_status row = OAwaiting) \<and>
     (case no_sms_code row of None \<Rightarrow> True | Some s \<Rightarrow> trim s = []) \<and> inbox (no_id row) db = []"

definition received_already :: api_error where
  "received_already = Conflict ''That number already received a message, so it can't be cancelled.''"

text \<open>The message of a refused release, with its dash as UTF-8.\<close>

definition release_refused :: string where
  "release_refused = ''That number can't be released just yet '' @ [CHR 0xE2, CHR 0x80, CHR 0x94] @
     '' try again in a moment.''"

text \<open>
  \<open>cancel_order\<close>; every \<open>load_order\<close> it ends with only reads. \<open>token\<close> is the claim's new UUID.
\<close>

definition cancel_order :: "(uuid \<Rightarrow> string) \<Rightarrow> digest \<Rightarrow> supplier \<Rightarrow> (nat \<Rightarrow> env) \<Rightarrow> uuid \<Rightarrow> uuid \<Rightarrow> uuid \<Rightarrow>
    'z number_db_scheme \<Rightarrow> (api_error + unit) \<times> 'z number_db_scheme" where
  "cancel_order show_uuid msg_digest numbers envs token user order_id db =
     (case find_order order_id db of
        None \<Rightarrow> (Inl NotFound, db)
      | Some row \<Rightarrow>
      if no_user row \<noteq> user then (Inl NotFound, db)
      else if no_status row = OReview then (Inr (), db)
      else if \<not> locally_cancellable row db then
        (Inl received_already,
         if no_status row = OReserved \<or> no_status row = OAwaiting
         then (case no_provider_order row of
                 None \<Rightarrow> db
               | Some p \<Rightarrow> (case sp_check numbers (no_provider row) p of
                   Inl _ \<Rightarrow> db
                 | Inr check \<Rightarrow> snd (commit (apply_check show_uuid msg_digest (envs 0) order_id None check db) db)))
         else db)
      else
        and_then (commit (try_claim_order token (sql_now (envs 0)) order_id db) db) (\<lambda>claimed db.
        case claimed of
          None \<Rightarrow> (Inl (Conflict ''That number is already being updated. Try again in a moment.''), db)
        | Some claim \<Rightarrow>
          (let refund = (\<lambda>db. and_then (commit (apply_claimed msg_digest (envs 1) order_id claim
                 (Refund RCancelled ''cancelled'') db) db) (\<lambda>_ db. (Inr (), db)));
               let_go = (\<lambda>message db. and_then (commit (release_claim order_id claim db) db)
                 (\<lambda>_ db. (Inl (ServiceUnavailable message), db)))
           in case no_provider_order row of
                None \<Rightarrow> refund db
              | Some p \<Rightarrow>
                  (case sp_check numbers (no_provider row) p of
                     Inl _ \<Rightarrow> let_go ''We couldn't check that number just now.'' db
                   | Inr check \<Rightarrow>
                       if ck_messages check \<noteq> []
                       then and_then (commit (apply_check show_uuid msg_digest (envs 1) order_id (Some claim) check db) db)
                              (\<lambda>_ db. (Inl received_already, db))
                       else if ck_lifecycle check = Closed
                       then and_then (commit (apply_check show_uuid msg_digest (envs 1) order_id (Some claim) check db) db)
                              (\<lambda>_ db. (Inr (), db))
                       else if sp_live numbers \<and> isl (sp_cancel numbers (no_provider row) p)
                       then let_go release_refused db
                       else refund db))))"

end
