(* ===== verification/Number_Sources.thy ===== *)
theory Number_Sources
  imports Order_Store
begin

text \<open>
  Where a number is bought: the suppliers switched on (\<open>crates/api/src/number_sell.rs\<close>), the ranking of
  an offer's sources (\<open>crates/api/src/number_aggregator.rs\<close>) and the answers that let the order loop
  go on to the next source (\<open>crates/api/src/number_provider.rs\<close>).
\<close>

section \<open>Suppliers switched on\<close>

definition known_providers :: "string list" where
  "known_providers = [''fivesim'', ''smspool'', ''smsactivate'', ''daisysms'', ''smshub'', ''tigersms'']"

text \<open>\<open>SellSettings\<close>: a map from provider to flag, in the provider order of the query.\<close>

type_synonym sell_settings = "(string \<times> bool) list"

text \<open>Collecting pairs into a map: a later pair of the same provider wins.\<close>

definition from_pairs :: "(string \<times> bool) list \<Rightarrow> sell_settings" where
  "from_pairs ps = fold (\<lambda>(k, v) m. AList.update k v m) ps []"

definition is_enabled :: "sell_settings \<Rightarrow> string \<Rightarrow> bool" where
  "is_enabled s p = (case map_of s p of None \<Rightarrow> False | Some on \<Rightarrow> on)"

definition fivesim_enabled :: "sell_settings \<Rightarrow> bool" where
  "fivesim_enabled s = is_enabled s ''fivesim''"

definition smspool_enabled :: "sell_settings \<Rightarrow> bool" where
  "smspool_enabled s = is_enabled s ''smspool''"

definition any_enabled :: "sell_settings \<Rightarrow> bool" where
  "any_enabled s = list_ex snd s"

definition source_providers :: "sell_settings \<Rightarrow> bool \<Rightarrow> string list" where
  "source_providers s include_stub =
     filter (is_enabled s) known_providers @ (if include_stub then [''stub''] else [])"

definition allows_live_fivesim_catalog :: "sell_settings \<Rightarrow> bool \<Rightarrow> bool" where
  "allows_live_fivesim_catalog s live_primary \<longleftrightarrow> \<not> live_primary \<or> fivesim_enabled s"

definition sell_seed :: sell_settings where
  "sell_seed = from_pairs (map (\<lambda>name. (name, name = ''fivesim'')) known_providers)"

text \<open>The table and its upsert; \<open>load\<close> repairs a table without a live supplier.\<close>

definition upsert_flag :: "string \<times> bool \<Rightarrow> (string \<times> bool) list \<Rightarrow> (string \<times> bool) list" where
  "upsert_flag kv rows = AList.update (fst kv) (snd kv) rows"

definition sell_load :: "(string \<times> bool) list \<Rightarrow> sell_settings \<times> (string \<times> bool) list" where
  "sell_load rows =
     (let settings = from_pairs rows in
      if rows \<noteq> [] \<and> any_enabled settings then (settings, rows)
      else (sell_seed, fold upsert_flag (map (\<lambda>name. (name, name = ''fivesim'')) known_providers) rows))"

definition sell_store :: "sell_settings \<Rightarrow> (string \<times> bool) list \<Rightarrow> (string \<times> bool) list" where
  "sell_store wanted rows = fold upsert_flag wanted rows"

section \<open>Ranking\<close>

definition prior_weight :: int where
  "prior_weight = 5"

definition window_days :: int where
  "window_days = 30"

definition clamp01 :: "decimal \<Rightarrow> decimal" where
  "clamp01 x = (if x < 0 then 0 else if 1 < x then 1 else x)"

definition score :: "decimal \<Rightarrow> int \<Rightarrow> int \<Rightarrow> decimal" where
  "score published_rate_percent attempts delivered =
     (let w = of_int prior_weight; prior = clamp01 (published_rate_percent / 100) in
      (of_int (max delivered 0) + w * prior) / (of_int (max attempts 0) + w))"

text \<open>\<open>SCORE_SQL\<close>, over the counts of a source's recent orders.\<close>

definition score_sql :: "decimal \<Rightarrow> decimal \<Rightarrow> int \<Rightarrow> int \<Rightarrow> decimal" where
  "score_sql w published attempts delivered =
     (of_int delivered + w * (published / 100)) / (of_int attempts + w)"

record offer_source =
  os_offer :: uuid
  os_provider :: string
  os_country :: string
  os_product :: string
  os_operator :: string
  os_cost :: decimal
  os_currency :: string
  os_stock :: int
  os_rate :: decimal

definition source_orders :: "instant \<Rightarrow> offer_source \<Rightarrow> order_row list \<Rightarrow> order_row list" where
  "source_orders now s rows = filter (\<lambda>r. no_provider r = os_provider s \<and>
     no_source r = Some (os_country s, os_product s, os_operator s) \<and> no_phone r \<noteq> None \<and>
     now - days window_days < no_created_at r) rows"

definition source_attempts :: "instant \<Rightarrow> offer_source \<Rightarrow> order_row list \<Rightarrow> int" where
  "source_attempts now s rows = int (length (source_orders now s rows))"

definition source_delivered :: "instant \<Rightarrow> offer_source \<Rightarrow> order_row list \<Rightarrow> int" where
  "source_delivered now s rows = int (length (filter (\<lambda>r. no_received_at r \<noteq> None) (source_orders now s rows)))"

definition source_score :: "instant \<Rightarrow> order_row list \<Rightarrow> offer_source \<Rightarrow> decimal" where
  "source_score now rows s =
     score_sql (of_int prior_weight) (os_rate s) (source_attempts now s rows) (source_delivered now s rows)"

text \<open>
  \<open>ranked_sources_sql\<close>: the eligible sources, best score first, then the cheaper, then the better
  stocked. \<open>floor\<close> is the product's minimum supplier cost in dollars.
\<close>

definition eligible_source :: "uuid \<Rightarrow> string list \<Rightarrow> decimal \<Rightarrow> offer_source \<Rightarrow> bool" where
  "eligible_source offer providers floor_usd s \<longleftrightarrow> os_offer s = offer \<and> 0 < os_stock s \<and> 0 < os_rate s \<and>
     os_provider s \<in> set providers \<and>
     (floor_usd = 0 \<or> os_currency s = ''USD'' \<and> floor_usd \<le> os_cost s)"

definition ranked_sources :: "instant \<Rightarrow> uuid \<Rightarrow> string list \<Rightarrow> decimal \<Rightarrow> order_row list \<Rightarrow> offer_source list \<Rightarrow>
    offer_source list" where
  "ranked_sources now offer providers floor_usd rows srcs =
     sort_key (\<lambda>s. - source_score now rows s) (sort_key os_cost (sort_key (\<lambda>s. - os_stock s)
       (filter (eligible_source offer providers floor_usd) srcs)))"

section \<open>Going on to the next source\<close>

definition copy_buy_restored :: string where
  "copy_buy_restored = ''We couldn't get that number. Your money is back in your balance.''"

definition copy_source_unavailable :: string where
  "copy_source_unavailable = ''That option isn't available right now. Try another country.''"

definition copy_out_of_stock :: string where
  "copy_out_of_stock = ''That number is out of stock right now. Try another country.''"

definition is_out_of_stock :: "purchase_error \<Rightarrow> bool" where
  "is_out_of_stock e =
     (case e of Rejected (ServiceUnavailable m) \<Rightarrow> contains ''out of stock'' m | _ \<Rightarrow> False)"

definition try_next_source :: "(internal_error \<Rightarrow> string) \<Rightarrow> api_error \<Rightarrow> bool" where
  "try_next_source show_internal err =
     (let msg = api_display show_internal err in
      contains ''out of stock'' msg \<or> contains ''isn't available right now'' msg)"

section \<open>Facts\<close>

lemma map_of_from_pairs: "map_of (from_pairs ps) = map_of (rev ps)"
proof -
  have "map_of (fold (\<lambda>(k, v) m. AList.update k v m) ps m) = map_of m ++ map_of (rev ps)" for m
    by (induction ps arbitrary: m) (auto simp: update_conv fun_eq_iff map_add_def split: option.split)
  then show ?thesis by (simp add: from_pairs_def)
qed

lemma from_pairs_map: "map_of (from_pairs (map (\<lambda>n. (n, f n)) ns)) k = (if k \<in> set ns then Some (f k) else None)"
  unfolding map_of_from_pairs rev_map by (simp add: map_of_map_restrict restrict_map_def)

lemma is_enabled_seed: "is_enabled sell_seed p \<longleftrightarrow> p = ''fivesim''"
  unfolding is_enabled_def sell_seed_def from_pairs_map by (auto simp: known_providers_def)

lemma any_enabled_map_of: "is_enabled s p \<Longrightarrow> any_enabled s"
proof -
  assume "is_enabled s p"
  then have "(p, True) \<in> set s" by (auto simp: is_enabled_def split: option.splits dest!: map_of_SomeD)
  then show ?thesis by (force simp: any_enabled_def list_ex_iff)
qed

lemma source_delivered_le: "0 \<le> source_delivered now s rows \<and> source_delivered now s rows \<le> source_attempts now s rows"
  by (simp add: source_delivered_def source_attempts_def)

lemma score_sql_is_score:
  assumes "0 \<le> rate" "rate \<le> 100" "0 \<le> delivered" "0 \<le> attempts"
  shows "score_sql (of_int prior_weight) rate attempts delivered = score rate attempts delivered"
  using assms by (simp add: score_sql_def score_def clamp01_def Let_def)

lemma score_bounds:
  assumes "0 \<le> delivered" "delivered \<le> attempts"
  shows "0 \<le> score rate attempts delivered \<and> score rate attempts delivered \<le> 1"
proof -
  have c: "0 \<le> clamp01 (rate / 100)" "clamp01 (rate / 100) \<le> 1" by (simp_all add: clamp01_def)
  have "of_int delivered \<le> (of_int attempts :: rat)" using assms by simp
  then show ?thesis
    using assms c by (simp add: score_def Let_def prior_weight_def divide_le_eq)
qed

text \<open>More deliveries in as many attempts never rank lower.\<close>

lemma score_mono: "d \<le> d' \<Longrightarrow> 0 \<le> a \<Longrightarrow> score rate a d \<le> score rate a d'"
  by (simp add: score_def Let_def prior_weight_def divide_right_mono)

lemma ranked_sources_set:
  "set (ranked_sources now offer providers floor_usd rows srcs) =
   {s \<in> set srcs. eligible_source offer providers floor_usd s}"
  by (auto simp: ranked_sources_def)

lemma ranked_sources_sorted:
  "sorted (map (\<lambda>s. - source_score now rows s) (ranked_sources now offer providers floor_usd rows srcs))"
  by (simp add: ranked_sources_def)

end
