(* ===== verification/Order_Create.thy ===== *)
theory Order_Create
  imports Order_Reconciler Number_Sources
begin

text \<open>
  Buying a number, \<open>create_order\<close> of \<open>crates/api/src/number_routes.rs\<close>: the reservation in one
  transaction (replay lookup, price, balance, journal, row), the claim of the purchase, the
  purchase from the catalogue's supplier or from an offer's ranked sources, and the assignment of
  the number.
\<close>

section \<open>Catalogue\<close>

record product_row =
  pd_id :: uuid
  pd_slug :: string
  pd_provider_product :: string
  pd_active :: bool
  pd_floor_usd :: decimal
  pd_name :: string
  pd_sort :: int

record country_row =
  cn_id :: uuid
  cn_code :: string
  cn_provider_country :: string
  cn_active :: bool
  cn_name :: string
  cn_dial :: string
  cn_sort :: int

record price_row =
  pr_product :: uuid
  pr_country :: uuid
  pr_price :: decimal
  pr_active :: bool
  pr_cost :: "decimal option"
  pr_currency :: "string option"
  pr_operator :: "string option"
  pr_stock :: int
  pr_last_in_stock :: "instant option"
  pr_synced :: "instant option"

record offer_row =
  of_id :: uuid
  of_product :: uuid
  of_country :: uuid
  of_price :: decimal
  of_quantity :: int
  of_active :: bool
  of_rate :: decimal
  of_fetched_at :: instant

record shop_db = number_db +
  products :: "product_row list"
  countries :: "country_row list"
  prices :: "price_row list"
  offers :: "offer_row list"
  sources :: "offer_source list"
  sell_flags :: "(string \<times> bool) list"

text \<open>Functions of the crates the handler calls, and the text forms of the request.\<close>

record crates =
  cr_parse_uuid :: "string \<Rightarrow> uuid option"
  cr_parse_decimal :: "string \<Rightarrow> decimal option"
  cr_show_decimal :: "decimal \<Rightarrow> string"
  cr_show_uuid :: "uuid \<Rightarrow> string"
  cr_simple_uuid :: "uuid \<Rightarrow> string"
  cr_to_lowercase :: "string \<Rightarrow> string"
  cr_to_uppercase :: "string \<Rightarrow> string"
  cr_show_internal :: "internal_error \<Rightarrow> string"
  cr_digest :: digest

record order_body =
  cb_offer :: "uuid option"
  cb_product_slug :: string
  cb_country_code :: string
  cb_expected :: "string option"

record shop_config =
  sc_funding_live :: bool
  sc_min_price_fraction :: decimal

section \<open>What is sold\<close>

text \<open>
  The choice of both paths: ids, price, supplier names and, for an offer, its sources. The repair
  \<open>sell_load\<close> makes to a table without a live supplier is read here and not written again.
\<close>

record sku =
  sk_product :: uuid
  sk_country :: uuid
  sk_price :: decimal
  sk_provider_product :: string
  sk_provider_country :: string
  sk_provider :: string
  sk_offer :: "uuid option"
  sk_sources :: "offer_source list"

definition no_longer_available :: api_error where
  "no_longer_available = Conflict ''That option is no longer available. Refresh and pick again.''"

definition not_on_sale :: api_error where
  "not_on_sale = ServiceUnavailable ''Numbers aren't on sale yet. Nothing has been charged.''"

text \<open>\<open>max(o.price_ngn)\<close> over the offers of the pair that some source can fill.\<close>

definition top_price :: "uuid \<Rightarrow> uuid \<Rightarrow> 'z shop_db_scheme \<Rightarrow> decimal option" where
  "top_price product country db =
     (case map of_price (filter (\<lambda>f. of_product f = product \<and> of_country f = country \<and> of_active f \<and>
          list_ex (\<lambda>s. os_offer s = of_id f \<and> 0 < os_stock s) (sources db)) (offers db)) of
        [] \<Rightarrow> None
      | p # ps \<Rightarrow> Some (fold max ps p))"

definition pick_offer :: "crates \<Rightarrow> shop_config \<Rightarrow> instant \<Rightarrow> uuid \<Rightarrow> decimal option \<Rightarrow> 'z shop_db_scheme \<Rightarrow>
    api_error + sku" where
  "pick_offer cr cfg now offer_id expected_price db =
     (case expected_price of
        None \<Rightarrow> Inl (BadRequest ''Send the price you were shown.'')
      | Some expected \<Rightarrow>
     (case fetch_optional (\<lambda>f. of_id f = offer_id) (offers db) of
        None \<Rightarrow> Inl NotFound
      | Some f \<Rightarrow>
          if \<not> of_active f \<or> of_quantity f \<le> 0 then Inl no_longer_available
          else if expected < of_price f then Inl (PriceMoved (cr_show_decimal cr (of_price f)))
          else if (case top_price (of_product f) (of_country f) db of
                     None \<Rightarrow> False | Some best \<Rightarrow> of_price f < best * sc_min_price_fraction cfg)
          then Inl no_longer_available
          else
            (let floor_usd = (case fetch_optional (\<lambda>p. pd_id p = of_product f) (products db) of
                   None \<Rightarrow> 0 | Some p \<Rightarrow> pd_floor_usd p);
                 srcs = ranked_sources now offer_id
                   (source_providers (fst (sell_load (sell_flags db))) (\<not> sc_funding_live cfg))
                   floor_usd (orders db) (sources db)
             in case srcs of
                  [] \<Rightarrow> Inl no_longer_available
                | s # _ \<Rightarrow> Inr \<lparr>sk_product = of_product f, sk_country = of_country f, sk_price = of_price f,
                    sk_provider_product = os_product s, sk_provider_country = os_country s,
                    sk_provider = os_provider s, sk_offer = Some offer_id, sk_sources = srcs\<rparr>)))"

definition pick_catalogue :: "crates \<Rightarrow> supplier \<Rightarrow> order_body \<Rightarrow> decimal option \<Rightarrow> 'z shop_db_scheme \<Rightarrow>
    api_error + sku" where
  "pick_catalogue cr numbers body expected_price db =
     res_bind (ok_or (BadRequest ''We don't sell numbers for that app.'')
       (fetch_optional (\<lambda>p. pd_slug p = cr_to_lowercase cr (trim (cb_product_slug body)) \<and> pd_active p) (products db)))
       (\<lambda>p.
     res_bind (ok_or (BadRequest ''We don't sell numbers in that country.'')
       (fetch_optional (\<lambda>c. cn_code c = cr_to_uppercase cr (trim (cb_country_code body)) \<and> cn_active c) (countries db)))
       (\<lambda>c.
     res_bind (ok_or (BadRequest ''That app isn't available in that country yet.'')
       (fetch_optional (\<lambda>r. pr_product r = pd_id p \<and> pr_country r = cn_id c \<and> pr_active r) (prices db)))
       (\<lambda>r.
     if (case expected_price of None \<Rightarrow> False | Some expected \<Rightarrow> expected < pr_price r)
     then Inl (PriceMoved (cr_show_decimal cr (pr_price r)))
     else if \<not> allows_live_fivesim_catalog (fst (sell_load (sell_flags db))) (sp_primary_live numbers)
     then Inl no_longer_available
     else Inr \<lparr>sk_product = pd_id p, sk_country = cn_id c, sk_price = pr_price r,
       sk_provider_product = pd_provider_product p, sk_provider_country = cn_provider_country c,
       sk_provider = (if sp_primary_live numbers then ''5sim'' else ''stub''),
       sk_offer = None, sk_sources = []\<rparr>)))"

text \<open>With live funding the stub never sells.\<close>

definition drop_stub :: "shop_config \<Rightarrow> sku \<Rightarrow> api_error + sku" where
  "drop_stub cfg k =
     (if sc_funding_live cfg
      then (let srcs = filter (\<lambda>s. os_provider s \<noteq> ''stub'') (sk_sources k) in
            if sk_offer k \<noteq> None \<and> srcs = [] then Inl not_on_sale
            else Inr (k\<lparr>sk_sources := srcs\<rparr>))
      else Inr k)"

definition pick_sku :: "crates \<Rightarrow> shop_config \<Rightarrow> supplier \<Rightarrow> instant \<Rightarrow> order_body \<Rightarrow> decimal option \<Rightarrow>
    'z shop_db_scheme \<Rightarrow> api_error + sku" where
  "pick_sku cr cfg numbers now body expected_price db =
     res_bind (case cb_offer body of
         Some offer_id \<Rightarrow> pick_offer cr cfg now offer_id expected_price db
       | None \<Rightarrow> pick_catalogue cr numbers body expected_price db) (drop_stub cfg)"

section \<open>The reservation\<close>

text \<open>Whether a stored order under the key is the same purchase.\<close>

definition same_purchase :: "crates \<Rightarrow> order_body \<Rightarrow> decimal option \<Rightarrow> order_row \<Rightarrow> 'z shop_db_scheme \<Rightarrow> bool" where
  "same_purchase cr body expected_price r db \<longleftrightarrow>
     (case cb_offer body of
        Some offer_id \<Rightarrow> no_offer r = Some offer_id
      | None \<Rightarrow>
          map_option pd_slug (fetch_optional (\<lambda>p. pd_id p = no_product r) (products db)) =
            Some (cr_to_lowercase cr (trim (cb_product_slug body))) \<and>
          map_option cn_code (fetch_optional (\<lambda>c. cn_id c = no_country r) (countries db)) =
            Some (cr_to_uppercase cr (trim (cb_country_code body)))) \<and>
     (\<not> no_idem_complete r \<or> no_expected_price r = expected_price)"

definition new_reference :: "crates \<Rightarrow> uuid \<Rightarrow> string" where
  "new_reference cr u = ''NVNO-'' @ to_ascii_uppercase (take 10 (cr_simple_uuid cr u))"

definition reserve_journal :: "uuid \<Rightarrow> uuid \<Rightarrow> string \<Rightarrow> string \<Rightarrow> decimal \<Rightarrow> order_body \<Rightarrow> ledger_error + journal" where
  "reserve_journal user_account pending reference key price body =
     build (builder_metadata (JObj [(''product'', JStr (cb_product_slug body)), (''country'', JStr (cb_country_code body))])
       (builder_entry pending NumberPayablePending Ngn (- price)
         (builder_entry user_account UserNgn Ngn price
           (builder_new NumberReserve reference key))))"

definition new_order :: "env \<Rightarrow> uuid \<Rightarrow> sku \<Rightarrow> string \<Rightarrow> uuid \<Rightarrow> uuid \<Rightarrow> decimal option \<Rightarrow> order_row" where
  "new_order env user k reference journal_id key expected_price =
     \<lparr>no_id = new_id env 4, no_user = user, no_product = sk_product k, no_country = sk_country k,
      no_price = sk_price k, no_provider = sk_provider k, no_provider_order = None,
      no_provider_cost = None, no_cost_currency = None, no_phone = None, no_sms_code = None,
      no_sms_text = None, no_received_at = None, no_status = OReserved, no_expires_at = None,
      no_reserved = journal_id, no_settled = None, no_refunded = None, no_failure_reason = None,
      no_reference = reference, no_created_at = sql_now env, no_idempotency = key,
      no_expected_price = expected_price, no_idem_complete = True, no_purchase_started = None,
      no_next_at = Some (sql_now env + seconds 5), no_last_checked = None, no_attempts = 0,
      no_last_error = None, no_claim = None, no_review_at = None, no_review_reason = None,
      no_payload_complete = True, no_activation_open = False, no_offer = sk_offer k, no_source = None\<rparr>"

datatype reservation = Replayed uuid | Reserved uuid sku

definition reserve_order :: "crates \<Rightarrow> shop_config \<Rightarrow> supplier \<Rightarrow> env \<Rightarrow> uuid \<Rightarrow> uuid \<Rightarrow> order_body \<Rightarrow>
    decimal option \<Rightarrow> 'z shop_db_scheme \<Rightarrow> api_error + (reservation \<times> 'z shop_db_scheme)" where
  "reserve_order cr cfg numbers env user key body expected_price db =
     res_bind (map_err via_anyhow (lock_user_ngn_account (new_id env 0) user db)) (\<lambda>(user_account, db1).
     case fetch_optional (\<lambda>r. no_user r = user \<and> no_idempotency r = key) (orders db1) of
       Some r \<Rightarrow>
         (if \<not> same_purchase cr body expected_price r db1
          then Inl (Conflict ''That Idempotency-Key belongs to a different number purchase.'')
          else Inr (Replayed (no_id r), db1))
     | None \<Rightarrow>
     res_bind (pick_sku cr cfg numbers (sql_now env) body expected_price db1) (\<lambda>k.
     if user_facing_balance UserNgn (raw_balance db1 user_account) < sk_price k then Inl InsufficientBalance
     else
       res_bind (map_err via_anyhow (platform_account (new_id env 1) NumberPayablePending db1)) (\<lambda>(pending, db2).
       let reference = new_reference cr (new_id env 3) in
       res_bind (map_err ledger_internal (reserve_journal user_account pending reference
         (reservation_key (cr_show_uuid cr) user key) (sk_price k) body)) (\<lambda>j.
       res_bind (map_err ledger_internal (post (new_id env 2) j db2)) (\<lambda>(outcome, db3).
       res_bind (map_err via_anyhow (put_orders
         (orders db3 @ [new_order env user k reference (outcome_journal_id outcome) key expected_price]) db3)) (\<lambda>db4.
       Inr (Reserved (new_id env 4) k, db4)))))))"

section \<open>The purchase\<close>

definition claim_purchase :: "instant \<Rightarrow> uuid \<Rightarrow> uuid \<Rightarrow> 'z number_db_scheme \<Rightarrow> api_error + (nat \<times> 'z number_db_scheme)" where
  "claim_purchase now token order_id db =
     map_err from_sqlx (update_orders
       (\<lambda>r. no_id r = order_id \<and> no_status r = OReserved \<and> no_purchase_started r = None \<and> claim_free now (no_claim r))
       (\<lambda>r. r\<lparr>no_purchase_started := Some now, no_claim := Some (token, now + lease_seconds)\<rparr>) db)"

definition pin_source :: "uuid \<Rightarrow> offer_source \<Rightarrow> 'z number_db_scheme \<Rightarrow> api_error + (nat \<times> 'z number_db_scheme)" where
  "pin_source order_id s db =
     map_err from_sqlx (update_orders (\<lambda>r. no_id r = order_id)
       (\<lambda>r. r\<lparr>no_provider := os_provider s, no_source := Some (os_country s, os_product s, os_operator s)\<rparr>) db)"

definition dry_source :: "uuid option \<Rightarrow> offer_source \<Rightarrow> 'z shop_db_scheme \<Rightarrow> 'z shop_db_scheme" where
  "dry_source offer s db =
     db\<lparr>sources := update_where (\<lambda>x. Some (os_offer x) = offer \<and> os_provider x = os_provider s \<and>
         os_country x = os_country s \<and> os_product x = os_product s \<and> os_operator x = os_operator s)
       (\<lambda>x. x\<lparr>os_stock := 0\<rparr>) (sources db)\<rparr>"

datatype bought = Bought activation string | InReview

definition give_back :: "crates \<Rightarrow> env \<Rightarrow> uuid \<Rightarrow> uuid \<Rightarrow> api_error \<Rightarrow> 'z number_db_scheme \<Rightarrow>
    (api_error + bought) \<times> 'z number_db_scheme" where
  "give_back cr env order_id token err db =
     and_then (commit (apply_claimed (cr_digest cr) env order_id token (Refund RFailed ''supplier_rejected'') db) db)
       (\<lambda>_ db. (Inl err, db))"

definition hold_for_review :: "crates \<Rightarrow> env \<Rightarrow> uuid \<Rightarrow> uuid \<Rightarrow> 'z number_db_scheme \<Rightarrow>
    (api_error + bought) \<times> 'z number_db_scheme" where
  "hold_for_review cr env order_id token db =
     and_then (commit (mark_review_required (cr_show_uuid cr) env order_id token ''purchase_outcome_unknown'' db) db)
       (\<lambda>_ db. (Inr InReview, db))"

text \<open>The loop over an offer's sources.\<close>

fun buy_from_sources :: "crates \<Rightarrow> supplier \<Rightarrow> env \<Rightarrow> uuid \<Rightarrow> uuid \<Rightarrow> uuid option \<Rightarrow> offer_source list \<Rightarrow>
    api_error option \<Rightarrow> 'z shop_db_scheme \<Rightarrow> (api_error + bought) \<times> 'z shop_db_scheme" where
  "buy_from_sources cr numbers env order_id token offer [] last_reject db =
     give_back cr env order_id token
       (case last_reject of None \<Rightarrow> no_longer_available | Some err \<Rightarrow> err) db"
| "buy_from_sources cr numbers env order_id token offer (s # srcs) last_reject db =
     (case sp_buy_source numbers (os_provider s) (os_country s) (os_product s) (os_operator s) of
        Inr a \<Rightarrow> and_then (commit (pin_source order_id s db) db) (\<lambda>_ db. (Inr (Bought a (os_provider s)), db))
      | Inl (Rejected err) \<Rightarrow>
          (let db1 = (if contains ''out of stock'' (api_display (cr_show_internal cr) err)
                      then dry_source offer s db else db)
           in if try_next_source (cr_show_internal cr) err
              then buy_from_sources cr numbers env order_id token offer srcs (Some err) db1
              else give_back cr env order_id token err db1)
      | Inl Ambiguous \<Rightarrow> hold_for_review cr env order_id token db)"

definition purchase :: "crates \<Rightarrow> supplier \<Rightarrow> env \<Rightarrow> uuid \<Rightarrow> uuid \<Rightarrow> sku \<Rightarrow> 'z shop_db_scheme \<Rightarrow>
    (api_error + bought) \<times> 'z shop_db_scheme" where
  "purchase cr numbers env order_id token k db =
     (if sk_offer k \<noteq> None then buy_from_sources cr numbers env order_id token (sk_offer k) (sk_sources k) None db
      else case sp_buy numbers (sk_provider_country k) (sk_provider_product k) of
        Inr a \<Rightarrow> (Inr (Bought a (sk_provider k)), db)
      | Inl (Rejected err) \<Rightarrow> give_back cr env order_id token err db
      | Inl Ambiguous \<Rightarrow> hold_for_review cr env order_id token db)"

definition assign_number :: "instant \<Rightarrow> uuid \<Rightarrow> uuid \<Rightarrow> activation \<Rightarrow> 'z number_db_scheme \<Rightarrow>
    api_error + (nat \<times> 'z number_db_scheme)" where
  "assign_number now order_id token a db =
     map_err from_sqlx (update_orders
       (\<lambda>r. no_id r = order_id \<and> no_status r = OReserved \<and>
          (case no_claim r of None \<Rightarrow> False | Some (t, until) \<Rightarrow> t = token \<and> now < until))
       (\<lambda>r. r\<lparr>no_status := OAwaiting, no_provider_order := Some (av_provider_order_id a),
          no_phone := Some (av_phone a), no_provider_cost := av_cost a,
          no_cost_currency := av_cost_currency a,
          no_expires_at := Some (case av_expires_at a of None \<Rightarrow> now + minutes 15 | Some t \<Rightarrow> t),
          no_activation_open := True, no_next_at := Some (now + seconds 10), no_claim := None\<rparr>) db)"

section \<open>The handler\<close>

text \<open>
  \<open>create_order\<close>: the answer is the order to load. \<open>token\<close> is the purchase claim's new UUID; a
  number that was bought but could not be assigned is handed back to the supplier.
\<close>

definition create_order :: "crates \<Rightarrow> shop_config \<Rightarrow> supplier \<Rightarrow> (nat \<Rightarrow> env) \<Rightarrow> uuid \<Rightarrow> uuid \<Rightarrow> string option \<Rightarrow>
    order_body \<Rightarrow> 'z shop_db_scheme \<Rightarrow> (api_error + uuid) \<times> 'z shop_db_scheme" where
  "create_order cr cfg numbers envs token user header body db =
     (case header of
        None \<Rightarrow> (Inl (BadRequest ''Idempotency-Key header is required''), db)
      | Some text \<Rightarrow>
     (case cr_parse_uuid cr text of
        None \<Rightarrow> (Inl (BadRequest ''Idempotency-Key must be a UUID''), db)
      | Some key \<Rightarrow>
     (case (case cb_expected body of
              None \<Rightarrow> Some None
            | Some v \<Rightarrow> map_option Some (cr_parse_decimal cr (trim v))) of
        None \<Rightarrow> (Inl (BadRequest ''That expected price isn't a number.''), db)
      | Some expected_price \<Rightarrow>
          if sc_funding_live cfg \<and> \<not> sp_primary_live numbers \<and> cb_offer body = None then (Inl not_on_sale, db)
          else if \<not> sp_live numbers \<and> sc_funding_live cfg then (Inl not_on_sale, db)
          else
            and_then (commit (reserve_order cr cfg numbers (envs 0) user key body expected_price db) db) (\<lambda>res db.
            case res of
              Replayed order_id \<Rightarrow> (Inr order_id, db)
            | Reserved order_id k \<Rightarrow>
            and_then (commit (claim_purchase (sql_now (envs 1)) token order_id db) db) (\<lambda>n db.
            if n \<noteq> 1 then (Inr order_id, db)
            else
              and_then (purchase cr numbers (envs 2) order_id token k db) (\<lambda>b db.
              case b of
                InReview \<Rightarrow> (Inr order_id, db)
              | Bought a provider \<Rightarrow>
                  and_then (commit (assign_number (sql_now (envs 3)) order_id token a db) db)
                    (\<lambda>n db. (Inr order_id, db))))))))"

end
