(* ===== verification/Order_Runs.thy ===== *)
theory Order_Runs
  imports Order_Create
begin

text \<open>
  Every handler that works on number orders keeps the money right, alone and in any interleaving of
  the transactions they are made of.
\<close>

section \<open>Transactions\<close>

lemma money_quiet_step:
  assumes "map_err e (update_orders p f db) = Inr (n, db')" "orders_money shu base db" "\<And>r. p r \<Longrightarrow> quiet f r"
  shows "orders_money shu base db'"
  using assms by (auto elim!: quiet_money [rotated 2])

lemma sweep_claim_money:
  assumes "sweep_claim now tf db = Inr (rows, db')" "orders_money shu base db"
  shows "orders_money shu base db'"
  using assms by (auto simp: sweep_claim_def Let_def res_bind_Inr_iff quiet_def elim!: quiet_money [rotated 2])

lemma release_claim_money:
  "release_claim i token db = Inr (n, db') \<Longrightarrow> orders_money shu base db \<Longrightarrow> orders_money shu base db'"
  unfolding release_claim_def by (erule money_quiet_step) (auto simp: quiet_def)

lemma claim_purchase_money:
  "claim_purchase now token i db = Inr (n, db') \<Longrightarrow> orders_money shu base db \<Longrightarrow> orders_money shu base db'"
  unfolding claim_purchase_def by (erule money_quiet_step) (auto simp: quiet_def)

lemma pin_source_money:
  "pin_source i s db = Inr (n, db') \<Longrightarrow> orders_money shu base db \<Longrightarrow> orders_money shu base db'"
  unfolding pin_source_def by (erule money_quiet_step) (auto simp: quiet_def)

lemma assign_number_money:
  "assign_number now i token a db = Inr (n, db') \<Longrightarrow> orders_money shu base db \<Longrightarrow> orders_money shu base db'"
  unfolding assign_number_def by (erule money_quiet_step) (auto simp: quiet_def)

lemma apply_claimed_money:
  "apply_claimed dg env i token tr db = Inr (out, db') \<Longrightarrow> orders_money shu base db \<Longrightarrow> orders_money shu base db'"
  unfolding apply_claimed_def by (rule apply_inner_money)

lemma try_claim_money:
  "try_claim_order token now i db = Inr (x, db') \<Longrightarrow> orders_money shu base db \<Longrightarrow> orders_money shu base db'"
  unfolding try_claim_order_def by (rule claim_money)

lemma orders_money_cong:
  assumes "accounts db' = accounts db" "journals db' = journals db" "entries db' = entries db"
    "orders db' = orders db"
  shows "orders_money shu base db' = orders_money shu base db"
proof -
  have "kind_balance db' k u a = kind_balance db k u a" "journal_residual db' i a = journal_residual db i a"
    for k u i a
    by (simp_all add: kind_balance_def raw_balance_def find_account_def journal_residual_def assms
        split: option.split)
  then show ?thesis
    by (simp add: orders_money_def settled_keys_def reserve_keys_def ended_keys_def key_posted_def wf_ledger_def assms)
qed

lemma dry_source_money [simp]: "orders_money shu base (dry_source f s db) = orders_money shu base db"
  by (rule orders_money_cong) (simp_all add: dry_source_def)

section \<open>The reservation\<close>

lemma reserve_journal_Inr:
  assumes "reserve_journal acct pending reference key price body = Inr j"
  shows "j_entries j = [\<lparr>e_account_id = acct, e_account_kind = UserNgn, e_asset = Ngn, e_amount = price\<rparr>,
      \<lparr>e_account_id = pending, e_account_kind = NumberPayablePending, e_asset = Ngn, e_amount = - price\<rparr>]"
    and "j_idempotency_key j = key" and "valid_journal j"
  using assms by (auto simp: reserve_journal_def journal_defs build_ok_iff)

text \<open>What a new reservation does, in full.\<close>

lemma reserve_order_cases:
  assumes "reserve_order cr cfg numbers env user key body ep db = Inr (res, db')"
  obtains (replay) acct r where "res = Replayed (no_id r)" "r \<in> set (orders db)" "no_user r = user"
      "no_idempotency r = key" "account_step UserNgn (Some user) Ngn acct db db'" "orders db' = orders db"
    | (new) acct db1 k pending db2 j posted db3 reference where "res = Reserved (new_id env 4) k"
      "account_step UserNgn (Some user) Ngn acct db db1"
      "\<forall>r \<in> set (orders db). \<not> (no_user r = user \<and> no_idempotency r = key)"
      "pick_sku cr cfg numbers (sql_now env) body ep db1 = Inr k"
      "sk_price k \<le> user_facing_balance UserNgn (raw_balance db1 acct)"
      "account_step NumberPayablePending None Ngn pending db1 db2"
      "reserve_journal acct pending reference (reservation_key (cr_show_uuid cr) user key) (sk_price k) body = Inr j"
      "post (new_id env 2) j db2 = Inr (posted, db3)"
      "orders_ok (orders db3 @ [new_order env user k reference (outcome_journal_id posted) key ep])"
      "db' = db3\<lparr>orders := orders db3 @ [new_order env user k reference (outcome_journal_id posted) key ep]\<rparr>"
proof -
  obtain acct db1 where s1: "lock_user_ngn_account (new_id env 0) user db = Inr (acct, db1)"
    using assms by (auto simp: reserve_order_def res_bind_Inr_iff)
  have o1: "orders db1 = orders db" using more_orders account_step_frame(6) [OF lock_user_step [OF s1]] by blast
  show ?thesis
  proof (cases "fetch_optional (\<lambda>r. no_user r = user \<and> no_idempotency r = key) (orders db1)")
    case (Some r)
    then have "res = Replayed (no_id r)" "db' = db1"
      using assms s1 by (auto simp: reserve_order_def split: if_splits)
    then show ?thesis using fetch_optional_SomeD [OF Some] lock_user_step [OF s1] o1 by (intro replay) auto
  next
    case None
    with assms s1 obtain k pending db2 j posted db3 where
        "pick_sku cr cfg numbers (sql_now env) body ep db1 = Inr k"
        "\<not> user_facing_balance UserNgn (raw_balance db1 acct) < sk_price k"
        "platform_account (new_id env 1) NumberPayablePending db1 = Inr (pending, db2)"
        "reserve_journal acct pending (new_reference cr (new_id env 3)) (reservation_key (cr_show_uuid cr) user key) (sk_price k) body = Inr j"
        "post (new_id env 2) j db2 = Inr (posted, db3)"
        "orders_ok (orders db3 @ [new_order env user k (new_reference cr (new_id env 3)) (outcome_journal_id posted) key ep])"
        "db' = db3\<lparr>orders := orders db3 @ [new_order env user k (new_reference cr (new_id env 3)) (outcome_journal_id posted) key ep]\<rparr>"
        "res = Reserved (new_id env 4) k"
      by (auto simp: reserve_order_def res_bind_Inr_iff put_orders_Inr_iff Let_def split: if_splits)
    note new1 = this
    show ?thesis
      by (rule new [OF new1(8) lock_user_step [OF s1] _ new1(1) _ platform_step [OF new1(3)] new1(4-7)])
        (use None new1(2) in \<open>auto simp: fetch_optional_None_iff o1\<close>)
  qed
qed

lemma account_step_orders: "account_step k u a x db db' \<Longrightarrow> orders db' = orders db"
  using more_orders account_step_frame(6) by blast

lemma account_step_money:
  assumes s: "account_step k u a x db db'" and inv: "orders_money shu base db"
  shows "orders_money shu base db'"
proof -
  have o': "orders db' = orders db" using account_step_orders [OF s] .
  have bal: "kind_balance db' k u a = kind_balance db k u a" for k u a
    using account_step_kind_balance [OF s money_wf [OF inv]] .
  show ?thesis
    using inv account_step_wf [OF s money_wf [OF inv]]
    unfolding orders_money_def settled_keys_def reserve_keys_def ended_keys_def by (simp add: o' bal account_step_frame(4) [OF s])
qed

lemma new_order_fields [simp]:
  "no_status (new_order env u k ref j key ep) = OReserved" "no_user (new_order env u k ref j key ep) = u"
  "no_idempotency (new_order env u k ref j key ep) = key" "no_price (new_order env u k ref j key ep) = sk_price k"
  "no_id (new_order env u k ref j key ep) = new_id env 4" "no_reference (new_order env u k ref j key ep) = ref"
  by (simp_all add: new_order_def)

lemma new_order_prices [simp]:
  "held_price (new_order env u k ref j key ep) = sk_price k" "earned_price (new_order env u k ref j key ep) = 0"
  "paid_price v (new_order env u k ref j key ep) = (if v = u then sk_price k else 0)"
  by (simp_all add: held_price_def earned_price_def paid_price_def)

lemma locked_balance:
  assumes "account_step k u a x db db'" "wf_ledger db"
  shows "raw_balance db' x = kind_balance db k u a"
  using account_step_found [OF assms] account_step_kind_balance [OF assms, of k u a] by (simp add: kind_balance_def)

text \<open>The four balances after a new reservation.\<close>

lemma reserve_new_ledger:
  assumes inv: "orders_money shu base db"
    and s1: "account_step UserNgn (Some user) Ngn acct db db1"
    and new: "\<forall>r \<in> set (orders db). \<not> (no_user r = user \<and> no_idempotency r = key)"
    and s2: "account_step NumberPayablePending None Ngn pending db1 db2"
    and j: "reserve_journal acct pending reference (reservation_key shu user key) price body = Inr j"
    and p: "post i j db2 = Inr (posted, db3)"
  shows "wf_ledger db3" "orders db3 = orders db"
    and "key_posted db3 s \<longleftrightarrow> key_posted db s \<or> s = reservation_key shu user key"
    and "kind_balance db3 k u b = kind_balance db k u b +
      ((if k = UserNgn \<and> u = Some user \<and> b = Ngn then price else 0) +
       (if k = NumberPayablePending \<and> u = None \<and> b = Ngn then - price else 0))"
proof -
  note jf = reserve_journal_Inr [OF j]
  have fresh: "\<not> key_posted db (j_idempotency_key j)"
    using inv new unfolding jf(2) orders_money_def reserve_keys_def by metis
  note pt = pair_transaction [OF money_wf [OF inv] s1 s2 jf(3) disjI1 [OF jf(1)] fresh p]
  show "wf_ledger db3" using pt(1) .
  show "orders db3 = orders db" using more_orders [OF pt(4)] by simp
  show "key_posted db3 s \<longleftrightarrow> key_posted db s \<or> s = reservation_key shu user key" using pt(3) by (simp add: jf(2))
  show "kind_balance db3 k u b = kind_balance db k u b +
      ((if k = UserNgn \<and> u = Some user \<and> b = Ngn then price else 0) +
       (if k = NumberPayablePending \<and> u = None \<and> b = Ngn then - price else 0))" using pt(2) .
qed

lemma reserve_order_money:
  assumes res: "reserve_order cr cfg numbers env user key body ep db = Inr (res, db')"
    and inv: "orders_money (cr_show_uuid cr) base db"
  shows "orders_money (cr_show_uuid cr) base db'"
  using res
proof (cases rule: reserve_order_cases)
  case (replay acct r)
  then show ?thesis using account_step_money inv by blast
next
  case (new acct db1 k pending db2 j posted db3 reference)
  let ?row = "new_order env user k reference (outcome_journal_id posted) key ep"
  note led = reserve_new_ledger [OF inv new(2,3,6,7,8)]
  have o': "orders db' = orders db @ [?row]" using new(10) led(2) by simp
  have bal: "kind_balance db' kd u b = kind_balance db3 kd u b" "wf_ledger db' = wf_ledger db3"
    "key_posted db' s = key_posted db3 s" for kd u b s by (simp_all add: new(10))
  have ends: "reservation_key (cr_show_uuid cr) user key \<noteq> s @ '':settle''"
    "reservation_key (cr_show_uuid cr) user key \<noteq> s @ '':refund''" for s
    using reservation_key_ends inv by (simp_all add: orders_money_def)
  have "settled_keys db'"
    unfolding settled_keys_def bal led(3) o'
  proof (intro conjI allI impI)
    fix s assume "key_posted db (s @ '':settle'') \<or> s @ '':settle'' = reservation_key (cr_show_uuid cr) user key"
    then have "key_posted db (s @ '':settle'')" using ends(1) [of s] by auto
    then show "\<exists>r \<in> set (orders db @ [?row]). no_reference r = s \<and> no_status r = ODelivered"
      using inv by (auto simp: orders_money_def settled_keys_def)
  next
    fix s assume "key_posted db (s @ '':refund'') \<or> s @ '':refund'' = reservation_key (cr_show_uuid cr) user key"
    then have "key_posted db (s @ '':refund'')" using ends(2) [of s] by auto
    then show "\<exists>r \<in> set (orders db @ [?row]). no_reference r = s \<and> refunded_status (no_status r)"
      using inv by (auto simp: orders_money_def settled_keys_def)
  qed
  moreover have "reserve_keys (cr_show_uuid cr) db'"
    unfolding reserve_keys_def bal led(3) o'
  proof (intro allI impI)
    fix u l assume "key_posted db (reservation_key (cr_show_uuid cr) u l) \<or>
      reservation_key (cr_show_uuid cr) u l = reservation_key (cr_show_uuid cr) user key"
    then consider "key_posted db (reservation_key (cr_show_uuid cr) u l)" | "u = user" "l = key"
      using reservation_key_inj inv by (auto simp: orders_money_def)
    then show "\<exists>r \<in> set (orders db @ [?row]). no_user r = u \<and> no_idempotency r = l"
    proof cases
      case 1
      then show ?thesis using inv by (auto simp: orders_money_def reserve_keys_def)
    qed simp
  qed
  moreover have "bs_opening base v + sum_list (map (paid_price v) (orders db')) \<le> max 0 (bs_opening base v)" for v
  proof (cases "v = user")
    case True
    have "raw_balance db1 acct = bs_opening base user + sum_list (map (paid_price user) (orders db))"
      using locked_balance [OF new(2) money_wf [OF inv]] inv by (simp add: orders_money_def)
    then show ?thesis using new(5) True by (simp add: o' user_facing_balance_def is_liability_def)
  next
    case False
    then show ?thesis using inv by (simp add: o' orders_money_def)
  qed
  moreover have "orders_ok (orders db')" using new(9,10) by simp
  moreover have "\<forall>s \<in> bs_keys base. key_posted db' s" using inv by (simp add: bal led(3) orders_money_def)
  moreover have "ended_keys db'"
    using inv unfolding ended_keys_def bal led(3) o' by (auto simp: orders_money_def ended_keys_def)
  ultimately show ?thesis
    using inv led(1) unfolding orders_money_def by (auto simp: bal led(4) o')
qed

section \<open>Handlers\<close>

lemma and_then_money:
  "orders_money shu base (snd r) \<Longrightarrow>
   (\<And>x db. orders_money shu base db \<Longrightarrow> orders_money shu base (snd (f x db))) \<Longrightarrow>
   orders_money shu base (snd (and_then r f))"
  by (rule and_then_keeps)

lemma commit_money:
  assumes "orders_money shu base db"
  shows "orders_money shu base (snd (commit (apply_check sh dg env i ct check db) db))"
    and "orders_money shu base (snd (commit (apply_claimed dg env i token tr db) db))"
    and "orders_money shu base (snd (commit (release_order now i token d e db) db))"
    and "orders_money shu base (snd (commit (mark_review_required sh env i token reason db) db))"
    and "orders_money shu base (snd (commit (release_claim i token db) db))"
    and "orders_money shu base (snd (commit (claim_purchase now token i db) db))"
    and "orders_money shu base (snd (commit (pin_source i s db) db))"
    and "orders_money shu base (snd (commit (assign_number now i token a db) db))"
    and "orders_money shu base (snd (commit (try_claim_order token now i db) db))"
    and "orders_money shu base (snd (commit (sweep_claim now tf db) db))"
  by (rule commit_keeps [where P = "orders_money shu base", OF _ assms];
      erule apply_check_money [OF _ assms] apply_claimed_money [OF _ assms] release_order_money [OF _ assms]
        mark_review_money [OF _ assms] release_claim_money [OF _ assms] claim_purchase_money [OF _ assms]
        pin_source_money [OF _ assms] assign_number_money [OF _ assms] try_claim_money [OF _ assms]
        sweep_claim_money [OF _ assms])+

lemma give_back_money:
  "orders_money shu base db \<Longrightarrow> orders_money shu base (snd (give_back cr env i token err db))"
  unfolding give_back_def by (rule and_then_money) (simp_all add: commit_money)

lemma hold_for_review_money:
  "orders_money shu base db \<Longrightarrow> orders_money shu base (snd (hold_for_review cr env i token db))"
  unfolding hold_for_review_def by (rule and_then_money) (simp_all add: commit_money)

lemma buy_from_sources_money:
  "orders_money shu base db \<Longrightarrow>
   orders_money shu base (snd (buy_from_sources cr numbers env i token offer srcs lr db))"
proof (induction srcs arbitrary: lr db)
  case Nil
  then show ?case by (simp add: give_back_money)
next
  case (Cons s srcs)
  show ?case
  proof (cases "sp_buy_source numbers (os_provider s) (os_country s) (os_product s) (os_operator s)")
    case (Inl e)
    then show ?thesis using Cons by (cases e) (simp_all add: Let_def give_back_money hold_for_review_money)
  next
    case (Inr a)
    have "orders_money shu base (snd (and_then (commit (pin_source i s db) db) (\<lambda>_ db. (Inr (Bought a (os_provider s)), db))))"
      by (rule and_then_money) (simp_all add: commit_money Cons.prems)
    then show ?thesis using Inr by simp
  qed
qed

lemma purchase_money:
  "orders_money shu base db \<Longrightarrow> orders_money shu base (snd (purchase cr numbers env i token k db))"
  unfolding purchase_def
  by (auto simp: buy_from_sources_money give_back_money hold_for_review_money split: sum.split purchase_error.split)

lemma create_order_money:
  assumes inv: "orders_money (cr_show_uuid cr) base db"
  shows "orders_money (cr_show_uuid cr) base (snd (create_order cr cfg numbers envs token user header body db))"
proof -
  have res: "orders_money (cr_show_uuid cr) base
      (snd (commit (reserve_order cr cfg numbers (envs 0) user key body ep db) db))" for key ep
    by (rule commit_keeps) (use inv reserve_order_money in blast)+
  have fin: "orders_money shu base (snd (case b of InReview \<Rightarrow> (Inr i, db)
      | Bought a provider \<Rightarrow> and_then (commit (assign_number now i token a db) db) (\<lambda>n db. (Inr i, db))))"
    if "orders_money shu base db" for shu b i now and db :: "'a shop_db_scheme"
    using that by (cases b) (auto intro!: and_then_money commit_money)
  have buy: "orders_money shu base (snd (case r of Replayed i \<Rightarrow> (Inr i, db)
      | Reserved i k \<Rightarrow> and_then (commit (claim_purchase now token i db) db) (\<lambda>n db.
          if n \<noteq> 1 then (Inr i, db)
          else and_then (purchase cr numbers env i token k db) (\<lambda>b db.
            case b of InReview \<Rightarrow> (Inr i, db)
            | Bought a provider \<Rightarrow> and_then (commit (assign_number now' i token a db) db) (\<lambda>n db. (Inr i, db))))))"
    if "orders_money shu base db" for shu r now env now' and db :: "'a shop_db_scheme"
    using that by (cases r) (auto intro!: and_then_money commit_money(6) purchase_money fin)
  show ?thesis
    unfolding create_order_def
    by (simp split: option.split add: inv) (intro conjI allI impI and_then_money res buy)
qed

lemma if_keeps:
  "orders_money shu base (snd x) \<Longrightarrow> orders_money shu base (snd y) \<Longrightarrow>
   orders_money shu base (snd (if b then x else y))"
  by simp

lemma give_up_money:
  assumes "orders_money shu base db"
  shows "orders_money shu base (snd (if b then and_then (commit (apply_claimed dg env i token tr db) db) (\<lambda>_ db. (Inr (), db))
            else commit (release_order now i token d e db) db))"
  using assms by (auto intro!: and_then_money commit_money)

lemma recover_money:
  assumes inv: "orders_money shu base db"
  shows "orders_money shu base (snd (recover_unknown_purchase sh dg numbers sku envs i token db))"
proof -
  have upd: "orders_money shu base (snd (and_then (commit (map_err from_sqlx (update_orders p f db)) db) g))"
    if "\<And>r. p r \<Longrightarrow> quiet f r" "\<And>n db. orders_money shu base db \<Longrightarrow> orders_money shu base (snd (g n db))" for p f g
  proof (rule and_then_money)
    show "orders_money shu base (snd (commit (map_err from_sqlx (update_orders p f db)) db))"
      by (rule commit_keeps) (use inv that(1) money_quiet_step in blast)+
  qed (rule that(2))
  have chk: "orders_money shu base (snd (case x of Inl _ \<Rightarrow> (Inr (), db)
      | Inr check \<Rightarrow> and_then (commit (apply_check sh dg env i None check db) db) (\<lambda>_ db. (Inr (), db))))"
    if "orders_money shu base db" for x env and db :: "'a number_db_scheme"
    using that by (cases x) (auto intro!: and_then_money commit_money)
  have both: "orders_money shu base (snd (if n = (1::nat) then (case x of Inl _ \<Rightarrow> (Inr (), db)
      | Inr check \<Rightarrow> and_then (commit (apply_check sh dg env i None check db) db) (\<lambda>_ db. (Inr (), db)))
      else if b then and_then (commit (apply_claimed dg env' i token tr db) db) (\<lambda>_ db. (Inr (), db))
            else commit (release_order now i token d e db) db))"
    if "orders_money shu base db" for n x env b env' tr now d e and db :: "'a number_db_scheme"
    by (cases "n = 1") (simp_all only: if_True if_False simp_thms chk [OF that] give_up_money [OF that])
  show ?thesis
  proof (cases "find_order i db")
    case (Some row)
    note row = this
    show ?thesis
    proof (cases "sku row")
      case (Some names)
      obtain country product where names: "names = (country, product)" by force
      note eqs = recover_unknown_purchase_def Let_def row Some names option.case prod.case
      show ?thesis
      proof (cases "sp_recover numbers country product")
        case None
        show ?thesis unfolding eqs None by (rule give_up_money [OF inv])
      next
        case (Some a)
        show ?thesis unfolding eqs Some
          by (rule if_keeps [OF give_up_money [OF inv] upd [OF _ both]]) (simp_all add: quiet_def)
      qed
    qed (simp add: recover_unknown_purchase_def row inv)
  qed (simp add: recover_unknown_purchase_def inv)
qed

lemma process_money:
  assumes inv: "orders_money shu base db"
  shows "orders_money shu base (snd (process sh dg numbers sku envs c db))"
proof -
  have fin: "orders_money shu base (snd (and_then (commit (apply_check sh dg env i ct check db) db) (\<lambda>_ db. (Inr (), db))))"
    if "orders_money shu base db" for env i ct check and db :: "'a number_db_scheme"
    using that by (auto intro!: and_then_money commit_money)
  have fin': "orders_money shu base (snd (and_then (commit (apply_claimed dg env i ct tr db) db) (\<lambda>_ db. (Inr (), db))))"
    if "orders_money shu base db" for env i ct tr and db :: "'a number_db_scheme"
    using that by (auto intro!: and_then_money commit_money)
  obtain x db1 where cs: "claim_slot (co_token c) (sql_now (envs 0)) db = (x, db1)" by force
  then have inv1: "orders_money shu base db1"
    using slots_money(1) [where token = "co_token c" and now = "sql_now (envs 0)" and db = db] inv by (metis snd_conv)
  have answer: "orders_money shu base (snd (case a of
        Inr check \<Rightarrow> and_then (commit (apply_check sh dg env i ct check db) db) (\<lambda>_ db. (Inr (), db))
      | Inl _ \<Rightarrow> if b then and_then (commit (apply_check sh dg env i ct check_closed db) db) (\<lambda>_ db. (Inr (), db))
          else (case find_order i db of None \<Rightarrow> (Inl NotFound, db)
            | Some r \<Rightarrow> commit (release_order now i token (retry_delay (no_attempts r)) e db) db)))"
    if "orders_money shu base db" for a env i ct b now token e and db :: "'a number_db_scheme"
    using that fin by (simp split: sum.split option.split add: commit_money)
  show ?thesis
    unfolding process_def Let_def
    by (simp add: cs fin' inv inv1 commit_money recover_money answer slots_money split: option.split)
qed

lemma sweep_money:
  assumes inv: "orders_money shu base db"
  shows "orders_money shu base (snd (sweep sh dg numbers sku tf now envs db))"
proof -
  have f: "orders_money shu base (fold (\<lambda>c db. snd (process sh dg numbers sku (envs (co_id c)) c db)) rows db)"
    if "orders_money shu base db" for rows and db :: "'a number_db_scheme"
    using that by (induction rows arbitrary: db) (auto simp: process_money)
  show ?thesis
    unfolding sweep_def by (rule and_then_money) (simp_all add: inv f commit_money)
qed

lemma pull_inbox_money:
  assumes inv: "orders_money shu base db"
  shows "orders_money shu base (pull_inbox_from_provider sh dg numbers env user i db)"
  unfolding pull_inbox_from_provider_def
  by (simp split: option.split sum.split add: inv commit_money)

lemma cancel_order_money:
  assumes inv: "orders_money shu base db"
  shows "orders_money shu base (snd (cancel_order sh dg numbers envs token user i db))"
proof -
  have let_go: "orders_money shu base (snd (and_then (commit (release_claim i claim db) db) (\<lambda>_ db. (y, db))))"
    and refund: "orders_money shu base (snd (and_then (commit (apply_claimed dg env i claim tr db) db) (\<lambda>_ db. (y, db))))"
    and check: "orders_money shu base (snd (and_then (commit (apply_check sh dg env i ct ck db) db) (\<lambda>_ db. (y, db))))"
    if "orders_money shu base db" for claim env tr ct ck and y :: "api_error + unit" and db :: "'a number_db_scheme"
    using that by (auto intro!: and_then_money commit_money)
  have claimed: "orders_money shu base (snd (and_then (commit (try_claim_order token now i db) db) f))"
    if "\<And>x db. orders_money shu base db \<Longrightarrow> orders_money shu base (snd (f x db))"
    for now and f :: "uuid option \<Rightarrow> 'a number_db_scheme \<Rightarrow> (api_error + unit) \<times> 'a number_db_scheme"
    using that inv by (auto intro!: and_then_money commit_money)
  show ?thesis
    unfolding cancel_order_def Let_def
    by (simp split: option.split sum.split add: inv commit_money)
      (intro conjI allI impI claimed; simp split: option.split sum.split add: let_go refund check)
qed

end
