(* ===== verification/Order_Properties.thy ===== *)
theory Order_Properties
  imports Order_Runs
begin

text \<open>
  What a number order guarantees: over every run of the handlers and of the single transactions they
  interleave, and for each transition on its own.
\<close>

section \<open>Runs\<close>

inductive order_step :: "(uuid \<Rightarrow> string) \<Rightarrow> shop_db \<Rightarrow> shop_db \<Rightarrow> bool"
  for show_uuid :: "uuid \<Rightarrow> string" where
  create: "cr_show_uuid cr = show_uuid \<Longrightarrow>
    order_step show_uuid db (snd (create_order cr cfg numbers envs token user header body db))"
| reserve: "cr_show_uuid cr = show_uuid \<Longrightarrow>
    order_step show_uuid db (snd (commit (reserve_order cr cfg numbers env user key body ep db) db))"
| start_purchase: "order_step show_uuid db (snd (commit (claim_purchase now token i db) db))"
| purchase: "order_step show_uuid db (snd (purchase cr numbers env i token k db))"
| assign: "order_step show_uuid db (snd (commit (assign_number now i token a db) db))"
| cancel: "order_step show_uuid db (snd (cancel_order show_uuid dg numbers envs token user i db))"
| pull: "order_step show_uuid db (pull_inbox_from_provider show_uuid dg numbers env user i db)"
| check: "order_step show_uuid db (snd (commit (apply_check show_uuid dg env i ct ck db) db))"
| transition: "order_step show_uuid db (snd (commit (apply_inner dg env i tr ct ms db) db))"
| claim: "order_step show_uuid db (snd (commit (try_claim_order token now i db) db))"
| claim_held: "order_step show_uuid db (snd (commit (try_claim_held_order token now i db) db))"
| review: "order_step show_uuid db (snd (commit (mark_review_required show_uuid env i token reason db) db))"
| release: "order_step show_uuid db (snd (commit (release_order now i token d e db) db))"
| drop_claim: "order_step show_uuid db (snd (commit (release_claim i token db) db))"
| take_slot: "order_step show_uuid db (snd (claim_slot token now db))"
| give_slot: "order_step show_uuid db (release_slot k token db)"
| sweep_claims: "order_step show_uuid db (snd (commit (sweep_claim now tf db) db))"
| process: "order_step show_uuid db (snd (process show_uuid dg numbers sku envs c db))"
| sweep: "order_step show_uuid db (snd (sweep show_uuid dg numbers sku tf now envs' db))"
| alert: "order_step show_uuid db (deliver_alert token now now' destination sent db)"
| catalogue: "order_step show_uuid db (db\<lparr>products := ps, countries := cs, prices := qs, offers := fs,
    sources := ss, sell_flags := gs\<rparr>)"

inductive_cases order_stepE: "order_step show_uuid db db'"

inductive order_reach :: "(uuid \<Rightarrow> string) \<Rightarrow> shop_db \<Rightarrow> shop_db \<Rightarrow> bool"
  for show_uuid :: "uuid \<Rightarrow> string" and start :: shop_db where
  refl: "order_reach show_uuid start start"
| step: "order_reach show_uuid start db \<Longrightarrow> order_step show_uuid db db' \<Longrightarrow> order_reach show_uuid start db'"

lemma order_step_money: "order_step sh db db' \<Longrightarrow> orders_money sh base db \<Longrightarrow> orders_money sh base db'"
proof (induction rule: order_step.induct)
  case (create cr db cfg numbers envs token user header body)
  then show ?case using create_order_money by blast
next
  case (reserve cr db cfg numbers env user key body ep)
  then show ?case
    by (intro commit_keeps [where P = "orders_money sh base"]) (auto dest: reserve_order_money)
next
  case (transition db dg env i tr ct ms)
  then show ?case
    by (intro commit_keeps [where P = "orders_money sh base"]) (auto dest: apply_inner_money)
next
  case (claim_held db token now i)
  then show ?case
    by (intro commit_keeps [where P = "orders_money sh base"])
      (auto dest: claim_money simp: try_claim_held_order_def)
next
  case (catalogue db ps cs qs fs ss gs)
  then show ?case by (subst orders_money_cong [of _ db]) simp_all
qed (simp_all add: commit_money purchase_money cancel_order_money pull_inbox_money slots_money alerts_money
    process_money sweep_money)

text \<open>A shop before its first order: any ledger, with no order and no key of one.\<close>

definition fresh_shop :: "(uuid \<Rightarrow> string) \<Rightarrow> shop_db \<Rightarrow> bool" where
  "fresh_shop show_uuid db \<longleftrightarrow> uuid_text show_uuid \<and> wf_ledger db \<and> orders db = [] \<and>
     kind_balance db NumberPayablePending None Ngn = 0 \<and> kind_balance db NumberRevenue None Ngn = 0 \<and>
     settled_keys db \<and> reserve_keys show_uuid db"

definition basis_of :: "shop_db \<Rightarrow> basis" where
  "basis_of db = \<lparr>bs_opening = (\<lambda>u. kind_balance db UserNgn (Some u) Ngn), bs_keys = {s. key_posted db s}\<rparr>"

lemma fresh_shop_money: "fresh_shop sh db \<Longrightarrow> orders_money sh (basis_of db) db"
  by (simp add: fresh_shop_def orders_money_def orders_ok_def orders_unique_def basis_of_def ended_keys_def)

lemma reach_money:
  assumes "order_reach sh start db" "fresh_shop sh start"
  shows "orders_money sh (basis_of start) db"
  using assms by (induction rule: order_reach.induct) (auto intro: fresh_shop_money order_step_money)

section \<open>Properties of runs\<close>

definition spendable :: "'z ledger_scheme \<Rightarrow> uuid \<Rightarrow> decimal" where
  "spendable db u = user_facing_balance UserNgn (kind_balance db UserNgn (Some u) Ngn)"

lemma spendable_raw: "spendable db u = - kind_balance db UserNgn (Some u) Ngn"
  by (simp add: spendable_def user_facing_balance_def is_liability_def)

text \<open>
  C1. Whatever handlers run in whatever interleaving, the ledger holds pending exactly the prices of
  the open orders, has earned exactly those of the delivered ones, and has taken from each user
  exactly the prices of their orders that were not refunded.
\<close>

theorem order_money_conserved:
  assumes "order_reach show_uuid start db" "fresh_shop show_uuid start"
  shows "user_facing_balance NumberPayablePending (kind_balance db NumberPayablePending None Ngn) =
      sum_list (map no_price (filter (\<lambda>r. money_open (no_status r)) (orders db))) \<and>
    - kind_balance db NumberRevenue None Ngn =
      sum_list (map no_price (filter (\<lambda>r. no_status r = ODelivered) (orders db))) \<and>
    spendable db user = spendable start user -
      sum_list (map no_price (filter (\<lambda>r. no_user r = user \<and> \<not> refunded_status (no_status r)) (orders db)))"
proof -
  have f: "sum_list (map no_price (filter p rs)) = sum_list (map (\<lambda>r. if p r then no_price r else 0) rs)"
    for p and rs :: "order_row list"
    by (induction rs) auto
  have h: "held_price = (\<lambda>r. if money_open (no_status r) then no_price r else 0)"
    "earned_price = (\<lambda>r. if no_status r = ODelivered then no_price r else 0)"
    "paid_price user = (\<lambda>r. if no_user r = user \<and> \<not> refunded_status (no_status r) then no_price r else 0)"
    by (simp_all add: fun_eq_iff held_price_def earned_price_def paid_price_def)
  have "orders_money show_uuid (basis_of start) db"
    using reach_money [OF assms] .
  then show ?thesis
    by (simp add: orders_money_def basis_of_def spendable_raw f h user_facing_balance_def is_liability_def)
qed

text \<open>
  C5. No run of the order handlers takes a user below zero: who starts with a balance that is not
  negative keeps one, however many purchases are placed.
\<close>

theorem orders_never_overdraw:
  assumes "order_reach show_uuid start db" "fresh_shop show_uuid start" "0 \<le> spendable start user"
  shows "0 \<le> spendable db user"
proof -
  let ?opening = "kind_balance start UserNgn (Some user) Ngn"
  have inv: "orders_money show_uuid (basis_of start) db"
    using reach_money [OF assms(1,2)] .
  have "?opening + sum_list (map (paid_price user) (orders db)) \<le> max 0 ?opening"
    "kind_balance db UserNgn (Some user) Ngn = ?opening + sum_list (map (paid_price user) (orders db))"
    using inv by (simp_all add: orders_money_def basis_of_def)
  then show ?thesis using assms(3) by (simp add: spendable_raw)
qed

text \<open>
  C4. In every reachable state an order is settled or refunded, never both: a settlement journal was
  posted under its reference only if it is delivered, a refund journal only if it was refunded.
\<close>

theorem order_ends_once:
  assumes "order_reach show_uuid start db" "fresh_shop show_uuid start" "r \<in> set (orders db)"
  shows "(key_posted db (no_reference r @ '':settle'') \<longrightarrow> no_status r = ODelivered) \<and>
    (key_posted db (no_reference r @ '':refund'') \<longrightarrow> refunded_status (no_status r)) \<and>
    \<not> (key_posted db (no_reference r @ '':settle'') \<and> key_posted db (no_reference r @ '':refund'')) \<and>
    financial_ok r"
proof -
  have inv: "orders_money show_uuid (basis_of start) db"
    using reach_money [OF assms(1,2)] .
  have one: "r' = r" if "r' \<in> set (orders db)" "no_reference r' = no_reference r" for r'
    using same_reference [OF money_ok [OF inv] that(1) assms(3) that(2)] .
  have keys: "settled_keys db" using inv by (simp add: orders_money_def)
  have "no_status r = ODelivered" if "key_posted db (no_reference r @ '':settle'')"
    using keys that one unfolding settled_keys_def by metis
  moreover have "refunded_status (no_status r)" if "key_posted db (no_reference r @ '':refund'')"
    using keys that one unfolding settled_keys_def by metis
  moreover have "financial_ok r"
    using orders_ok_row [OF money_ok [OF inv] assms(3)] by (simp add: order_row_ok_def)
  ultimately show ?thesis using status_classes(4) by auto
qed

text \<open>
  The end of an order is final: once delivered or refunded it stays so in every later state, under
  any handlers, reconciler sweeps and operator decisions.
\<close>

theorem order_end_final:
  assumes "order_reach show_uuid start db" "fresh_shop show_uuid start" "r \<in> set (orders db)"
    "\<not> money_open (no_status r)" "order_reach show_uuid db db'"
  shows "\<exists>r' \<in> set (orders db'). no_reference r' = no_reference r \<and>
    (no_status r = ODelivered \<longrightarrow> no_status r' = ODelivered) \<and>
    (refunded_status (no_status r) \<longrightarrow> refunded_status (no_status r'))"
proof -
  define later where "later = (basis_of start)\<lparr>bs_keys := {s. key_posted db s}\<rparr>"
  have inv: "orders_money show_uuid (basis_of start) db" using reach_money [OF assms(1,2)] .
  then have "orders_money show_uuid later db" by (simp add: orders_money_def later_def)
  with assms(5) have inv': "orders_money show_uuid later db'"
    by (induction rule: order_reach.induct) (auto intro: order_step_money)
  have kept: "key_posted db' s" if "key_posted db s" for s
    using inv' that by (simp add: orders_money_def later_def)
  have ended: "ended_keys db" "settled_keys db'" using inv inv' by (simp_all add: orders_money_def)
  consider "no_status r = ODelivered" | "refunded_status (no_status r)"
    using assms(4) status_classes(1) by auto
  then show ?thesis
  proof cases
    case 1
    then have "key_posted db' (no_reference r @ '':settle'')"
      using ended(1) assms(3) kept by (auto simp: ended_keys_def)
    then obtain r' where "r' \<in> set (orders db')" "no_reference r' = no_reference r" "no_status r' = ODelivered"
      using ended(2) unfolding settled_keys_def by metis
    with 1 show ?thesis by auto
  next
    case 2
    then have "key_posted db' (no_reference r @ '':refund'')"
      using ended(1) assms(3) kept by (auto simp: ended_keys_def)
    then obtain r' where "r' \<in> set (orders db')" "no_reference r' = no_reference r" "refunded_status (no_status r')"
      using ended(2) unfolding settled_keys_def by metis
    with 2 show ?thesis using status_classes(4) by auto
  qed
qed

section \<open>Properties of single steps\<close>

lemma kind_balance_more:
  assumes "kind_balance db' UserNgn (Some u) Ngn = kind_balance db UserNgn (Some u) Ngn + x"
  shows "spendable db' u = spendable db u - x"
  using assms by (simp add: spendable_raw)

text \<open>
  C10. A new reservation charges exactly the price it was made at, only from a balance that covers it,
  and appends one open order of that price under the caller's key.
\<close>

theorem reservation_charges_price:
  assumes "orders_money (cr_show_uuid cr) base db"
    and "reserve_order cr cfg numbers env user key body ep db = Inr (Reserved i k, db')"
  shows "sk_price k \<le> spendable db user \<and> 0 < sk_price k \<and>
    spendable db' u = spendable db u - (if u = user then sk_price k else 0) \<and>
    (\<exists>r. orders db' = orders db @ [r] \<and> no_id r = i \<and> no_user r = user \<and> no_idempotency r = key \<and>
       no_price r = sk_price k \<and> no_status r = OReserved \<and> no_claim r = None)"
  using assms(2)
proof (cases rule: reserve_order_cases)
  case (new acct db1 k' pending db2 j posted db3 reference)
  note inv = assms(1)
  have k: "k' = k" "i = new_id env 4" using new(1) by simp_all
  note led = reserve_new_ledger [OF inv new(2,3,6,7,8)]
  have le: "sk_price k \<le> spendable db user"
    using new(5) locked_balance [OF new(2) money_wf [OF inv]]
    by (simp add: k spendable_raw user_facing_balance_def is_liability_def)
  have row: "order_row_ok (new_order env user k' reference (outcome_journal_id posted) key ep)"
    using new(9) by (simp add: orders_ok_def)
  have "spendable db' u = spendable db u - (if u = user then sk_price k else 0)"
    by (simp add: spendable_raw new(10) led(4) k)
  moreover have "0 < sk_price k" using row by (simp add: order_row_ok_def k)
  ultimately show ?thesis
    using le led(2) new(10) by (auto simp: k new_order_def)
qed simp

text \<open>
  Placing a purchase again under the same user and Idempotency-Key never reserves a second time: it
  answers with the first order, or refuses, and no user's balance and no order changes.
\<close>

theorem reservation_replay:
  assumes "orders_money (cr_show_uuid cr) base db" "r \<in> set (orders db)" "no_user r = user" "no_idempotency r = key"
    and "reserve_order cr cfg numbers env user key body ep db = Inr (res, db')"
  shows "res = Replayed (no_id r) \<and> orders db' = orders db \<and> spendable db' u = spendable db u"
  using assms(5)
proof (cases rule: reserve_order_cases)
  case (replay acct r')
  have "distinct (map (\<lambda>r. (no_user r, no_idempotency r)) (orders db))"
    using money_ok [OF assms(1)] by (simp add: orders_ok_def orders_unique_def)
  then have "r' = r"
    using replay(2-4) assms(2-4) by (auto simp: distinct_map dest: inj_onD)
  then show ?thesis
    using replay account_step_kind_balance [OF replay(5) money_wf [OF assms(1)]] by (simp add: spendable_raw)
next
  case new
  then show ?thesis using assms(2-4) by blast
qed

text \<open>The row of the order after a transition that was applied.\<close>

lemma applied_effect:
  assumes inv: "orders_money shu base db"
    and res: "apply_inner dg env i tr ct ms db = Inr (Applied, db')" and r: "find_order i db = Some r"
  shows "\<exists>r'. find_order i db' = Some r' \<and> no_price r' = no_price r \<and>
      no_status r' = (case tr of Deliver _ _ \<Rightarrow> ODelivered | Refund s _ \<Rightarrow> refund_status_of s)"
    and "kind_balance db' UserNgn (Some u) Ngn = kind_balance db UserNgn (Some u) Ngn -
      (case tr of Deliver _ _ \<Rightarrow> 0 | Refund _ _ \<Rightarrow> if u = no_user r then no_price r else 0)"
    and "kind_balance db' NumberRevenue None Ngn = kind_balance db NumberRevenue None Ngn -
      (case tr of Deliver _ _ \<Rightarrow> no_price r | Refund _ _ \<Rightarrow> 0)"
proof -
  have inv': "orders_money shu base db'" using apply_inner_money [OF res inv] .
  from res r obtain db0 j st reason code body db2 posted db3 n f where a:
      "money_open (no_status r)" "record_messages dg env r (with_messages ms check_open) db = Inr db0"
      "transition_journal env r tr db0 = Inr (j, st, reason, code, body, db2)"
      "post (new_id env 2) j db2 = Inr (posted, db3)"
      "update_orders (\<lambda>x. no_id x = no_id r \<and> money_open (no_status x)) f db3 = Inr (n, db')"
      "\<And>x. no_id (f x) = no_id x \<and> no_user (f x) = no_user x \<and> no_price (f x) = no_price x \<and>
        no_reference (f x) = no_reference x \<and> no_idempotency (f x) = no_idempotency x \<and> no_status (f x) = st"
    by (auto elim: apply_inner_Applied)
  have mem: "r \<in> set (orders db)" "no_id r = i" using find_order_SomeD [OF r] by auto
  have st: "st = (case tr of Deliver _ _ \<Rightarrow> ODelivered | Refund s _ \<Rightarrow> refund_status_of s)"
    using transition_status [OF a(3)] .
  have o3: "orders db3 = orders db"
  proof (rule transition_journal_cases [OF a(3)], goal_cases)
    case (1 k1 u1 p1 x1 k2 u2 p2 x2 key db1)
    then have "ledger.more db3 = ledger.more db0"
      using post_effect(5) [OF a(4)] account_step_frame(6) by metis
    then show ?case using more_orders record_messages_frame [OF a(2)] by fastforce
  qed
  have od: "orders db' = update_where (\<lambda>x. no_id x = no_id r \<and> money_open (no_status x)) f (orders db)"
    using a(5) by (auto simp: update_orders_Inr_iff o3)
  have "f r \<in> set (orders db')" using mem(1) a(1) by (force simp: od set_update_where)
  then have "find_order (no_id (f r)) db' = Some (f r)" by (rule find_order_mem [OF money_ok [OF inv']])
  then show "\<exists>r'. find_order i db' = Some r' \<and> no_price r' = no_price r \<and>
      no_status r' = (case tr of Deliver _ _ \<Rightarrow> ODelivered | Refund s _ \<Rightarrow> refund_status_of s)"
    using a(6) [of r] mem(2) st by auto
  have sums: "sum_list (map g (orders db')) = sum_list (map g (orders db)) - g r + g (f r)" for g :: "order_row \<Rightarrow> rat"
    unfolding od by (rule price_sums_update [OF money_ok [OF inv] mem(1)]) (use a(1) in auto)
  have fr: "earned_price r = 0" "earned_price (f r) = (if st = ODelivered then no_price r else 0)"
    "paid_price v r = (if v = no_user r then no_price r else 0)"
    "paid_price v (f r) = (if v = no_user r \<and> \<not> refunded_status st then no_price r else 0)" for v
    using a(6) [of r] a(1) status_classes(2,3) by (auto simp: earned_price_def paid_price_def)
  have bal: "kind_balance d UserNgn (Some u) Ngn = bs_opening base u + sum_list (map (paid_price u) (orders d))"
    "kind_balance d NumberRevenue None Ngn = - sum_list (map earned_price (orders d))"
    if "orders_money shu base d" for d using that by (simp_all add: orders_money_def)
  show "kind_balance db' UserNgn (Some u) Ngn = kind_balance db UserNgn (Some u) Ngn -
      (case tr of Deliver _ _ \<Rightarrow> 0 | Refund _ _ \<Rightarrow> if u = no_user r then no_price r else 0)"
    using st by (cases tr) (simp_all add: bal inv inv' sums fr)
  show "kind_balance db' NumberRevenue None Ngn = kind_balance db NumberRevenue None Ngn -
      (case tr of Deliver _ _ \<Rightarrow> no_price r | Refund _ _ \<Rightarrow> 0)"
    using st by (cases tr) (simp_all add: bal inv inv' sums fr)
qed

text \<open>
  A refund that was applied gives the order's user exactly its price back, nobody else anything, and
  earns nothing; a delivery earns exactly the price and costs no user anything more.
\<close>

theorem transition_pays:
  assumes "orders_money shu base db" "apply_inner dg env i tr ct ms db = Inr (Applied, db')"
    "find_order i db = Some r"
  shows "spendable db' u = spendable db u +
      (case tr of Deliver _ _ \<Rightarrow> 0 | Refund _ _ \<Rightarrow> if u = no_user r then no_price r else 0) \<and>
    - kind_balance db' NumberRevenue None Ngn = - kind_balance db NumberRevenue None Ngn +
      (case tr of Deliver _ _ \<Rightarrow> no_price r | Refund _ _ \<Rightarrow> 0) \<and>
    (\<exists>r'. find_order i db' = Some r' \<and>
       no_status r' = (case tr of Deliver _ _ \<Rightarrow> ODelivered | Refund s _ \<Rightarrow> refund_status_of s))"
  using applied_effect [OF assms] by (cases tr) (auto simp: spendable_raw)

section \<open>Refunds go through\<close>

text \<open>What Rust trims as white space includes the spaces the database trims.\<close>

lemma strip_leading_spaces:
  "list_all (\<lambda>c. c = CHR '' '') s \<Longrightarrow> [CHR '' ''] \<in> set ws \<Longrightarrow> strip_leading ws s = []"
proof (induction ws s rule: strip_leading.induct)
  case (1 ws s)
  show ?case
  proof (cases "List.find (\<lambda>w. w \<noteq> [] \<and> prefix w s) ws")
    case None
    then have "\<not> prefix [CHR '' ''] s" using 1(3) by (auto simp: find_None_iff)
    then have "s = []" using 1(2) by (cases s) auto
    with None show ?thesis by (subst strip_leading.simps) simp
  next
    case (Some w)
    have "list_all (\<lambda>c. c = CHR '' '') (drop (length w) s)"
      using 1(2) by (auto simp: list_all_iff dest: in_set_dropD)
    with Some 1 show ?thesis by (subst strip_leading.simps) simp
  qed
qed

lemma trim_nonempty_not_blank:
  assumes "trim s \<noteq> []"
  shows "\<not> blank s"
proof
  assume "blank s"
  moreover have "[CHR '' ''] \<in> set ws_encodings" by code_simp
  ultimately have "trim_start s = []"
    unfolding trim_start_def blank_def by (rule strip_leading_spaces)
  moreover have "strip_leading (map rev ws_encodings) [] = []"
    using strip_leading_suffix [of "map rev ws_encodings" "[]"] by simp
  ultimately have "trim s = []" by (simp only: trim_def trim_end_def rev.simps)
  with assms show False ..
qed

lemma update_one:
  assumes "distinct (map no_id rows)" "r \<in> set rows" "p r" "\<And>x. p x \<Longrightarrow> no_id x = no_id r"
  obtains xs ys where "rows = xs @ r # ys" "update_where p f rows = xs @ f r # ys"
proof -
  obtain xs ys where rows: "rows = xs @ r # ys" using assms(2) by (meson split_list)
  have "no_id r \<notin> no_id ` set xs" "no_id r \<notin> no_id ` set ys" using assms(1) by (simp_all add: rows)
  then have "no_id x \<noteq> no_id r" if "x \<in> set xs \<union> set ys" for x using that by (metis UnE imageI)
  then have "update_where p f xs = xs" "update_where p f ys = ys"
    using assms(4) by (auto intro!: update_where_id)
  then have "update_where p f rows = xs @ f r # ys"
    using assms(3) by (simp add: rows update_where_def)
  with rows show ?thesis by (rule that)
qed

lemma platform_account_succeeds:
  assumes "\<not> has_account i db" "\<not> is_user_scoped k"
  obtains x db' where "platform_account i k db = Inr (x, db')"
    "accounts db' = accounts db \<or> accounts db' = accounts db @ [\<lparr>la_id = i, la_kind = k, la_user_id = None, la_asset = Ngn\<rparr>]"
proof (cases "find_account k None Ngn db")
  case None
  show ?thesis
    by (rule that [of i "add_account i k None Ngn db"])
      (simp_all add: platform_account_def None assms scope_ok_def add_account_def)
qed (rule that [of _ db]; simp add: platform_account_def)

lemma lock_user_succeeds:
  assumes "\<not> has_account i db"
  obtains x db' where "lock_user_ngn_account i u db = Inr (x, db')"
    "accounts db' = accounts db \<or> accounts db' = accounts db @ [\<lparr>la_id = i, la_kind = UserNgn, la_user_id = Some u, la_asset = Ngn\<rparr>]"
proof (cases "find_account UserNgn (Some u) Ngn db")
  case None
  show ?thesis
    by (rule that [of i "add_account i UserNgn (Some u) Ngn db"])
      (simp_all add: lock_user_ngn_account_def None assms add_account_def)
qed (rule that [of _ db]; simp add: lock_user_ngn_account_def)

definition refund_ids_fresh :: "env \<Rightarrow> 'z number_db_scheme \<Rightarrow> bool" where
  "refund_ids_fresh env db \<longleftrightarrow> \<not> has_account (new_id env 0) db \<and> \<not> has_account (new_id env 1) db \<and>
     new_id env 0 \<noteq> new_id env 1 \<and> new_id env 2 \<notin> jr_id ` set (journals db) \<and>
     Some (new_id env 2) \<notin> no_refunded ` set (orders db)"

lemma refund_succeeds:
  assumes inv: "orders_money shu base db" and r: "find_order i db = Some r" and op: "money_open (no_status r)"
    and cl: "claim_current env r ct" and reason: "trim reason \<noteq> []" and ids: "refund_ids_fresh env db"
  shows "\<exists>db'. apply_inner dg env i (Refund st reason) ct [] db = Inr (Applied, db')"
proof -
  have mem: "r \<in> set (orders db)" "no_id r = i" using find_order_SomeD [OF r] by auto
  have ok: "order_row_ok r" using orders_ok_row [OF money_ok [OF inv] mem(1)] .
  have nz: "no_price r \<noteq> 0" using ok by (simp add: order_row_ok_def)
  obtain acct db1 where s1: "lock_user_ngn_account (new_id env 0) (no_user r) db = Inr (acct, db1)"
    and a1: "accounts db1 = accounts db \<or> accounts db1 = accounts db @
      [\<lparr>la_id = new_id env 0, la_kind = UserNgn, la_user_id = Some (no_user r), la_asset = Ngn\<rparr>]"
    using lock_user_succeeds ids by (metis refund_ids_fresh_def)
  have "\<not> has_account (new_id env 1) db1" using a1 ids by (auto simp: refund_ids_fresh_def has_account_def)
  then obtain pending db2 where s2: "platform_account (new_id env 1) NumberPayablePending db1 = Inr (pending, db2)"
    by (rule platform_account_succeeds [where k = NumberPayablePending]) (auto simp: is_user_scoped_def)
  note st1 = lock_user_step [OF s1] and st2 = platform_step [OF s2]
  obtain j where j: "refund_journal pending acct (no_reference r) (no_price r) reason = Inr j"
    using journals_build(2) [OF nz] by blast
  note jf = refund_journal_Inr [OF j]
  have "has_account acct db2" "has_account pending db2"
    using account_step_has [OF st1] account_step_has [OF st2] account_step_frame(7) [OF st2]
    by (auto simp: has_account_def)
  moreover have "\<not> key_posted db2 (j_idempotency_key j)"
    using open_keys_fresh(2) [OF inv conjunct1 [OF find_order_current [OF r]] op]
      account_step_frame(4) [OF st1] account_step_frame(4) [OF st2] by (simp add: jf(2))
  moreover have "journals db2 = journals db"
    using account_step_frame(1) [OF st1] account_step_frame(1) [OF st2] by simp
  ultimately obtain db3 where p: "post (new_id env 2) j db2 = Inr (Posted (new_id env 2), db3)"
    using post_fresh_iff [of db2 j "new_id env 2"] ids jf(1) nz by (auto simp: refund_ids_fresh_def)
  have o3: "orders db3 = orders db"
    using more_orders post_effect(5) [OF p] account_step_frame(6) [OF st1] account_step_frame(6) [OF st2] by metis
  define f :: "order_row \<Rightarrow> order_row" where "f = (\<lambda>x. x\<lparr>no_status := refund_status_of st, no_failure_reason := Some reason,
     no_refunded := Some (new_id env 2), no_activation_open := False, no_next_at := None, no_claim := None\<rparr>)"
  define q :: "order_row \<Rightarrow> bool" where "q = (\<lambda>x. no_id x = i \<and> money_open (no_status x))"
  have dist: "distinct (map no_id (orders db))"
    using money_ok [OF inv] by (simp add: orders_ok_def orders_unique_def)
  obtain xs ys where rows: "orders db = xs @ r # ys" and upd: "update_where q f (orders db) = xs @ f r # ys"
    by (rule update_one [OF dist mem(1), of q f]) (use mem(2) op in \<open>auto simp: q_def\<close>)
  have none: "no_settled r = None" "no_refunded r = None"
    using financial_money_open [of r] ok op by (auto simp: order_row_ok_def)
  have "order_row_ok (f r)"
    using ok none trim_nonempty_not_blank [OF reason]
    by (cases st) (simp_all add: f_def order_row_ok_def financial_ok_def)
  moreover have "orders_unique (xs @ f r # ys)"
    using money_ok [OF inv] none ids unfolding rows
    by (auto simp: orders_ok_def orders_unique_def f_def refund_ids_fresh_def rows)
  ultimately have "orders_ok (update_where q f (orders db))"
    using money_ok [OF inv, unfolded rows] unfolding upd by (simp add: orders_ok_def)
  moreover have "rows_affected q (orders db) = 1"
    using rows_affected_key [OF dist, of i r "\<lambda>x. money_open (no_status x)"] r op by (simp add: q_def find_order_def)
  ultimately have u: "update_orders q f db3 = Inr (1, db3\<lparr>orders := update_where q f (orders db)\<rparr>)"
    by (simp add: update_orders_Inr_iff o3)
  have g: "(\<lambda>x. x\<lparr>no_status := refund_status_of st, no_failure_reason := Some reason,
      no_sms_code := no_sms_code x, no_sms_text := no_sms_text x, no_received_at := no_received_at x,
      no_settled := no_settled x, no_refunded := Some (new_id env 2), no_activation_open := False,
      no_next_at := None, no_claim := None\<rparr>) = f"
    by (simp add: f_def fun_eq_iff)
  show ?thesis
    using r op cl reason s1 s2 j p u g
    by (simp add: apply_inner_def record_messages_def with_messages_def check_open_def transition_journal_def
        q_def)
qed

text \<open>
  C9. An open order can always be refunded by whoever holds its claim: with new ids and a reason the
  transaction commits, it is never refused for the state of the ledger or the tables' constraints.
\<close>

theorem refund_goes_through:
  assumes "orders_money shu base db" "find_order i db = Some r" "money_open (no_status r)"
    and "claim_current env r ct" "trim reason \<noteq> []" "refund_ids_fresh env db"
  shows "\<exists>db'. apply_inner dg env i (Refund st reason) ct [] db = Inr (Applied, db')"
  by (rule refund_succeeds [OF assms])

section \<open>What a check decides\<close>

lemma find_order_update:
  assumes "update_orders p f db = Inr (n, db')" "\<And>r. no_id (f r) = no_id r"
  shows "find_order i db' = map_option (\<lambda>r. if p r then f r else r) (find_order i db)"
    and "messages db' = messages db"
  using assms by (auto simp: update_orders_Inr_iff find_order_def fetch_update_where)

lemma find_order_frame: "orders db' = orders db \<Longrightarrow> find_order i db' = find_order i db"
  by (simp add: find_order_def)

lemma pair_frame:
  assumes "account_step k u a x db db1" "account_step k' u' a' x' db1 db2" "post i j db2 = Inr (out, db3)"
  shows "orders db3 = orders db" "messages db3 = messages db"
proof -
  have "ledger.more db3 = ledger.more db"
    using post_effect(5) [OF assms(3)] account_step_frame(6) [OF assms(1)] account_step_frame(6) [OF assms(2)] by simp
  then show "orders db3 = orders db" "messages db3 = messages db" using more_orders by blast+
qed

lemma settle_open_row:
  assumes "settle_open env row code body so db = Inr (out, db')" "money_open (no_status row)"
    "find_order (no_id row) db = Some r" "money_open (no_status r)"
  shows "messages db' = messages db \<and> (\<exists>r'. find_order (no_id row) db' = Some r' \<and> no_status r' = ODelivered)"
proof -
  obtain pending db1 revenue db2 j posted db3 n f where
      s1: "platform_account (new_id env 0) NumberPayablePending db = Inr (pending, db1)"
    and s2: "platform_account (new_id env 1) NumberRevenue db1 = Inr (revenue, db2)"
    and p: "post (new_id env 2) j db2 = Inr (posted, db3)"
    and u: "update_orders (\<lambda>r. no_id r = no_id row \<and> money_open (no_status r)) f db3 = Inr (n, db')"
    and f: "\<And>r. no_id (f r) = no_id r" "\<And>r. no_status (f r) = ODelivered"
    using assms(1,2) status_classes(3) [of "no_status row"] by (auto simp: settle_open_def res_bind_Inr_iff)
  note fr = pair_frame [OF platform_step [OF s1] platform_step [OF s2] p]
  show ?thesis
    using find_order_update [OF u f(1)] assms(3,4) find_order_SomeD [OF assms(3)] find_order_frame [OF fr(1)] fr(2) f(2)
    by simp
qed

lemma refund_open_row:
  assumes "refund_open env row st reason db = Inr (out, db')"
    "find_order (no_id row) db = Some r" "money_open (no_status r)"
  shows "messages db' = messages db \<and> (\<exists>r'. find_order (no_id row) db' = Some r' \<and> no_status r' = refund_status_of st)"
proof -
  obtain acct db1 pending db2 j posted db3 n f where
      s1: "lock_user_ngn_account (new_id env 0) (no_user row) db = Inr (acct, db1)"
    and s2: "platform_account (new_id env 1) NumberPayablePending db1 = Inr (pending, db2)"
    and p: "post (new_id env 2) j db2 = Inr (posted, db3)"
    and u: "update_orders (\<lambda>r. no_id r = no_id row \<and> money_open (no_status r)) f db3 = Inr (n, db')"
    and f: "\<And>r. no_id (f r) = no_id r" "\<And>r. no_status (f r) = refund_status_of st"
    using assms(1) by (auto simp: refund_open_def res_bind_Inr_iff split: if_splits)
  note fr = pair_frame [OF lock_user_step [OF s1] platform_step [OF s2] p]
  show ?thesis
    using find_order_update [OF u f(1)] assms(2,3) find_order_SomeD [OF assms(2)] find_order_frame [OF fr(1)] fr(2) f(2)
    by simp
qed

lemma review_open_row:
  assumes "review_open sh env row reason db = Inr (out, db')"
    "find_order (no_id row) db = Some r" "money_open (no_status r)"
  shows "messages db' = messages db \<and> (\<exists>r'. find_order (no_id row) db' = Some r' \<and> no_status r' = OReview)"
proof -
  obtain n db1 where u: "update_orders (\<lambda>r. no_id r = no_id row \<and> money_open (no_status r))
       (\<lambda>r. r\<lparr>no_status := OReview, no_review_at := Some (sql_now env), no_review_reason := Some reason,
          no_activation_open := False, no_next_at := None, no_claim := None\<rparr>) db = Inr (n, db1)"
    and db': "db' = raise_alert sh (new_id env 3) (sql_now env) (no_id row) db1"
    using assms(1) by (auto simp: review_open_def res_bind_Inr_iff)
  have "find_order (no_id row) db' = find_order (no_id row) db1" by (simp add: db' find_order_def)
  then show ?thesis
    using find_order_update [OF u] assms(2,3) find_order_SomeD [OF assms(2)] by (simp add: db')
qed

lemma schedule_open_row:
  assumes "schedule_open env i c b db = Inr db'" "find_order i db = Some r"
  shows "messages db' = messages db \<and> (\<exists>r'. find_order i db' = Some r' \<and> no_status r' = no_status r)"
proof -
  obtain n f where u: "update_orders (\<lambda>r. no_id r = i) f db = Inr (n, db')"
    and f: "\<And>r. no_id (f r) = no_id r" "\<And>r. no_status (f r) = no_status r"
    using assms(1) by (auto simp: schedule_open_def res_bind_Inr_iff)
  show ?thesis using find_order_update [OF u f(1)] assms(2) f(2) by simp
qed

definition has_code :: "uuid \<Rightarrow> 'z number_db_scheme \<Rightarrow> bool" where
  "has_code i db \<longleftrightarrow> (\<exists>m \<in> set (inbox i db). case nm_code m of None \<Rightarrow> False | Some c \<Rightarrow> \<not> blank c)"

lemma qualifying_iff: "qualifying i db \<noteq> None \<longleftrightarrow> has_code i db"
proof -
  let ?q = "\<lambda>r. case nm_code r of None \<Rightarrow> False | Some c \<Rightarrow> \<not> blank c"
  let ?l = "sort_key nm_received_at (sort_key nm_id (filter ?q (inbox i db)))"
  have s: "set ?l = {m \<in> set (inbox i db). ?q m}" by simp
  show ?thesis
  proof (cases ?l)
    case Nil
    then have "{m \<in> set (inbox i db). ?q m} = {}" using s by simp
    then show ?thesis using Nil by (auto simp: qualifying_def has_code_def)
  next
    case (Cons m ms)
    then have m: "m \<in> set (inbox i db)" "?q m" using s by (metis (mono_tags, lifting) list.set_intros(1) mem_Collect_eq)+
    then have "has_code i db" by (auto simp: has_code_def)
    then show ?thesis using Cons m(2) by (auto simp: qualifying_def split: option.splits)
  qed
qed

text \<open>The later of two expiries; none is the earliest.\<close>

definition later_expiry :: "instant option \<Rightarrow> instant option \<Rightarrow> instant option" where
  "later_expiry a b = (case (a, b) of (None, x) \<Rightarrow> x | (x, None) \<Rightarrow> x | (Some s, Some t) \<Rightarrow> Some (max s t))"

lemma advance_expiry_row:
  assumes "advance_expiry env row check db = Inr (e, db')" "find_order (no_id row) db = Some row"
  shows "e = later_expiry (no_expires_at row) (ck_expires_at check) \<and>
    (\<exists>r. find_order (no_id row) db' = Some r \<and> no_status r = no_status row)"
proof (cases "db' = db")
  case True
  then show ?thesis
    using assms by (auto simp: advance_expiry_def later_expiry_def res_bind_Inr_iff max_def split: option.splits if_splits)
next
  case False
  then obtain newer n where e: "ck_expires_at check = Some newer" "e = Some newer"
      "case no_expires_at row of None \<Rightarrow> True | Some t \<Rightarrow> t < newer"
    and u: "update_orders (\<lambda>r. no_id r = no_id row) (\<lambda>r. r\<lparr>no_expires_at := Some newer\<rparr>) db = Inr (n, db')"
    using assms(1) by (auto simp: advance_expiry_def res_bind_Inr_iff split: option.splits if_splits)
  show ?thesis
    using find_order_update(1) [OF u, of "no_id row"] assms(2) e
    by (auto simp: later_expiry_def split: option.splits)
qed


section \<open>Claims\<close>

text \<open>
  Two workers never hold one order: after a worker claimed it, every other attempt is refused until
  the minute is over, whatever claims on other orders are made in between.
\<close>

theorem order_claim_exclusive:
  assumes "acquire_order token now i db = Some db'" "\<forall>(t, n, k) \<in> set tries. n \<le> now + lease_seconds"
    and "n' \<le> now + lease_seconds"
  shows "acquire_order t' n' i (fold (\<lambda>(t, n, k) s. case acquire_order t n k s of None \<Rightarrow> s | Some s' \<Rightarrow> s') tries db') = None"
proof -
  have "order_lease (order_claims.try_all tries db') i = Some (token, now + lease_seconds)"
    by (rule order_claims.exclusive [OF assms(1,2)])
  then show ?thesis
    using order_claims.refused_while_held [OF _ assms(3)] by (simp add: order_claims.try_all_def)
qed

text \<open>
  A claimed order whose lease lapsed can be claimed again while it is open: a worker that died keeps
  nobody out for longer than the minute.
\<close>

theorem lapsed_claim_is_free:
  assumes "orders_ok (orders db)" "find_order i db = Some r" "no_status r = OReserved \<or> no_status r = OAwaiting"
    and "no_claim r = Some (t, until)" "until < now"
  shows "\<exists>db'. acquire_order token now i db = Some db' \<and> order_lease db' i = Some (token, now + lease_seconds)"
proof -
  let ?p = "\<lambda>r. no_id r = i \<and> (no_status r = OReserved \<or> no_status r = OAwaiting) \<and> claim_free now (no_claim r)"
  let ?f = "\<lambda>r. r\<lparr>no_claim := Some (token, now + lease_seconds)\<rparr>"
  have mem: "r \<in> set (orders db)" "no_id r = i" using find_order_SomeD [OF assms(2)] by auto
  have free: "claim_free now (no_claim r)" using assms(4,5) by (simp add: claim_free_def)
  have "orders_ok (update_where ?p ?f (orders db))"
  proof -
    have "list_all order_row_ok (update_where ?p ?f (orders db))"
      using assms(1) by (auto simp: orders_ok_def list_all_iff set_update_where order_row_ok_def financial_ok_def)
    moreover have "orders_unique (update_where ?p ?f (orders db)) = orders_unique (orders db)"
      by (simp add: orders_unique_def map_update_where)
    ultimately show ?thesis using assms(1) by (simp add: orders_ok_def)
  qed
  moreover have "rows_affected ?p (orders db) = 1"
    using rows_affected_key [of no_id "orders db" i r
        "\<lambda>r. (no_status r = OReserved \<or> no_status r = OAwaiting) \<and> claim_free now (no_claim r)"]
      assms free by (simp add: orders_ok_def orders_unique_def find_order_def)
  ultimately have "acquire_order token now i db \<noteq> None"
    by (simp add: acquire_order_def try_claim_order_def claim_order_where_def update_orders_def put_orders_def
        orders_ok_def)
  then obtain db' where "acquire_order token now i db = Some db'" by auto
  then show ?thesis using order_claims.acquire_lease by blast
qed

section \<open>Sources\<close>

text \<open>Sorting by a second key first, then stably by the first.\<close>

lemma sorted_wrt_lex:
  fixes f :: "'r \<Rightarrow> 'k :: linorder"
  assumes "sorted (map f xs)" "\<And>k. sorted_wrt R (filter (\<lambda>y. f y = k) xs)"
  shows "sorted_wrt (\<lambda>x y. f x < f y \<or> f x = f y \<and> R x y) xs"
  using assms
proof (induction xs)
  case (Cons x xs)
  have "f x < f y \<or> f x = f y \<and> R x y" if "y \<in> set xs" for y
    using Cons.prems(1) Cons.prems(2) [of "f x"] that by (auto simp: less_le)
  moreover have "sorted_wrt R (filter (\<lambda>y. f y = k) xs)" for k
    using Cons.prems(2) [of k] by (auto split: if_splits)
  ultimately show ?case using Cons by simp
qed simp

lemma sorted_wrt_filter: "sorted_wrt R xs \<Longrightarrow> sorted_wrt R (filter p xs)"
  by (induction xs) auto

lemma sort_key_lex:
  fixes f :: "'r \<Rightarrow> 'k :: linorder"
  assumes "sorted_wrt R xs"
  shows "sorted_wrt (\<lambda>x y. f x < f y \<or> f x = f y \<and> R x y) (sort_key f xs)"
  by (rule sorted_wrt_lex) (simp_all add: sort_key_stable sorted_wrt_filter assms)

text \<open>
  An order tries exactly the sources that can fill it, the one that delivered best first by the
  published score; among equals the cheaper, and among those the better stocked.
\<close>

theorem sources_best_first:
  "set (ranked_sources now offer providers floor_usd rows srcs) =
     {s \<in> set srcs. os_offer s = offer \<and> 0 < os_stock s \<and> 0 < os_rate s \<and> os_provider s \<in> set providers \<and>
       (floor_usd = 0 \<or> os_currency s = ''USD'' \<and> floor_usd \<le> os_cost s)} \<and>
   sorted_wrt (\<lambda>s t. source_score now rows t < source_score now rows s \<or>
       source_score now rows s = source_score now rows t \<and>
         (os_cost s < os_cost t \<or> os_cost s = os_cost t \<and> os_stock t \<le> os_stock s))
     (ranked_sources now offer providers floor_usd rows srcs)"
proof
  show "set (ranked_sources now offer providers floor_usd rows srcs) =
     {s \<in> set srcs. os_offer s = offer \<and> 0 < os_stock s \<and> 0 < os_rate s \<and> os_provider s \<in> set providers \<and>
       (floor_usd = 0 \<or> os_currency s = ''USD'' \<and> floor_usd \<le> os_cost s)}"
    by (simp add: ranked_sources_set eligible_source_def)
  have "sorted_wrt (\<lambda>s t. - os_stock s \<le> - os_stock t)
      (sort_key (\<lambda>s. - os_stock s) (filter (eligible_source offer providers floor_usd) srcs))"
    using sorted_sort_key [of "\<lambda>s. - os_stock s" "filter (eligible_source offer providers floor_usd) srcs"]
    by (simp add: sorted_wrt_map)
  from sort_key_lex [OF sort_key_lex [OF this, of os_cost], of "\<lambda>s. - source_score now rows s"]
  show "sorted_wrt (\<lambda>s t. source_score now rows t < source_score now rows s \<or>
       source_score now rows s = source_score now rows t \<and>
         (os_cost s < os_cost t \<or> os_cost s = os_cost t \<and> os_stock t \<le> os_stock s))
     (ranked_sources now offer providers floor_usd rows srcs)"
    by (simp add: ranked_sources_def)
qed

text \<open>
  The score the database ranks by is the score of the specification for every rate the table
  admits, lies between zero and one, and is the published rate while nothing was observed.
\<close>

theorem score_agrees:
  assumes "0 < rate" "rate \<le> 100" "0 \<le> delivered" "delivered \<le> attempts"
  shows "score_sql (of_int prior_weight) rate attempts delivered = score rate attempts delivered \<and>
    0 \<le> score rate attempts delivered \<and> score rate attempts delivered \<le> 1 \<and>
    score rate 0 0 = rate / 100"
  using score_sql_is_score [of rate delivered attempts] score_bounds [of delivered attempts rate] assms
  by (simp add: score_def clamp01_def Let_def prior_weight_def)

end
