(* ===== verification/Order_Witnesses.thy ===== *)
theory Order_Witnesses
  imports Order_Properties Ledger_Runs
begin

text \<open>
  A concrete shop, on which the properties of the number orders are applied: one funded user, one
  product, one country, and a supplier that sells at once.
\<close>

section \<open>The shop\<close>

definition demo_uuid :: "uuid \<Rightarrow> string" where
  "demo_uuid u = show_nat (unat u)"

lemma digit_uuid_char:
  assumes "is_ascii_digit c"
  shows "uuid_char c"
proof -
  have "list_all (\<lambda>n. uuid_char (char_of (n :: nat))) [48, 49, 50, 51, 52, 53, 54, 55, 56, 57]" by code_simp
  moreover have "of_char c \<in> set [48, 49, 50, 51, 52, 53, 54, 55, 56, 57 :: nat]"
    using assms by (simp add: is_ascii_digit_def) presburger
  ultimately have "uuid_char (char_of (of_char c :: nat))" unfolding list_all_iff by blast
  then show ?thesis by simp
qed

lemma demo_uuid_text: "uuid_text demo_uuid"
proof -
  have "inj demo_uuid" by (auto simp: inj_def demo_uuid_def show_nat_inj word_unat_eq_iff)
  moreover have "uuid_char c" if "c \<in> set (show_nat n)" for n c
    using show_nat_digits [of n] that digit_uuid_char by (auto simp: list_all_iff)
  ultimately show ?thesis by (auto simp: uuid_text_def demo_uuid_def)
qed

definition demo_shop :: shop_db where
  "demo_shop = \<lparr>accounts = accounts demo_ledger, journals = journals demo_ledger, entries = entries demo_ledger,
     orders = [], messages = [], alerts = [], slots = [\<lparr>sl_slot = 1, sl_claim = None\<rparr>],
     products = [\<lparr>pd_id = 20, pd_slug = ''whatsapp'', pd_provider_product = ''whatsapp'', pd_active = True, pd_floor_usd = 0, pd_name = ''WhatsApp'', pd_sort = 10\<rparr>],
     countries = [\<lparr>cn_id = 21, cn_code = ''NG'', cn_provider_country = ''nigeria'', cn_active = True,
       cn_name = ''Nigeria'', cn_dial = ''+234'', cn_sort = 10\<rparr>],
     prices = [\<lparr>pr_product = 20, pr_country = 21, pr_price = 300, pr_active = True, pr_cost = None, pr_currency = None,
       pr_operator = None, pr_stock = 0, pr_last_in_stock = None, pr_synced = None\<rparr>],
     offers = [], sources = [], sell_flags = [(''fivesim'', True)]\<rparr>"

definition demo_crates :: crates where
  "demo_crates = \<lparr>cr_parse_uuid = (\<lambda>_. Some 9), cr_parse_decimal = (\<lambda>_. None), cr_show_decimal = (\<lambda>_. ''''),
     cr_show_uuid = demo_uuid, cr_simple_uuid = demo_uuid, cr_to_lowercase = to_ascii_lowercase,
     cr_to_uppercase = to_ascii_uppercase, cr_show_internal = (\<lambda>_. ''''), cr_digest = (\<lambda>_ m. sms_body m)\<rparr>"

definition demo_supplier :: supplier where
  "demo_supplier = \<lparr>sp_live = False, sp_primary_live = False, sp_check = (\<lambda>_ _. Inr check_open),
     sp_cancel = (\<lambda>_ _. Inr ()), sp_recover = (\<lambda>_ _. None),
     sp_buy = (\<lambda>_ _. Inr \<lparr>av_provider_order_id = ''p1'', av_phone = ''+234'', av_cost = None,
        av_cost_currency = None, av_expires_at = None\<rparr>),
     sp_buy_source = (\<lambda>_ _ _ _. Inl Ambiguous)\<rparr>"

definition demo_envs :: "nat \<Rightarrow> env" where
  "demo_envs n = \<lparr>app_now = 1000, sql_now = 1000, new_id = (\<lambda>m. word_of_nat (100 + 10 * n + m))\<rparr>"

definition demo_body :: order_body where
  "demo_body = \<lparr>cb_offer = None, cb_product_slug = ''WhatsApp'', cb_country_code = ''ng'', cb_expected = None\<rparr>"

definition demo_config :: shop_config where
  "demo_config = \<lparr>sc_funding_live = False, sc_min_price_fraction = 0\<rparr>"

definition demo_reserved :: shop_db where
  "demo_reserved = snd (commit (reserve_order demo_crates demo_config demo_supplier (demo_envs 0) 7 9 demo_body None demo_shop) demo_shop)"

definition demo_bought :: shop_db where
  "demo_bought = snd (create_order demo_crates demo_config demo_supplier demo_envs 77 7 (Some ''x'') demo_body demo_shop)"

definition demo_refunded :: shop_db where
  "demo_refunded = snd (commit (apply_inner (\<lambda>_ m. sms_body m) (demo_envs 5) 104 (Refund RCancelled ''cancelled'') None [] demo_bought) demo_bought)"

lemma demo_bought_rows:
  "map (\<lambda>r. (no_id r, no_user r, no_status r, no_price r, no_idempotency r)) (orders demo_bought) =
   [(104, 7, OAwaiting, 300, 9)]"
  by code_simp

lemma demo_shop_fresh: "fresh_shop demo_uuid demo_shop"
proof -
  have "kind_balance demo_shop k u a = kind_balance demo_ledger k u a" for k u a
    by (simp add: kind_balance_def find_account_def raw_balance_def demo_shop_def split: option.split)
  moreover have "kind_balance demo_ledger NumberPayablePending None Ngn = 0"
    "kind_balance demo_ledger NumberRevenue None Ngn = 0" by code_simp+
  moreover have "wf_ledger demo_shop"
    using ledger_reach_wf [OF demo_ledger_reach]
    by (simp add: wf_ledger_def demo_shop_def journal_residual_def)
  moreover have "map jr_key (journals demo_ledger) = [''k'']" by code_simp
  then have keys: "key_posted demo_shop s \<longleftrightarrow> s = ''k''" for s
    by (auto simp: key_posted_def demo_shop_def simp flip: set_map)
  have "s @ '':settle'' \<noteq> ''k''" "s @ '':refund'' \<noteq> ''k''" for s by (cases s; simp)+
  then have "settled_keys demo_shop" by (simp add: settled_keys_def keys)
  moreover have "reserve_keys demo_uuid demo_shop" by (simp add: reserve_keys_def keys reservation_key_def)
  moreover have "orders demo_shop = []" by (simp add: demo_shop_def)
  ultimately show ?thesis using demo_uuid_text by (simp add: fresh_shop_def)
qed

lemma demo_shop_balance: "spendable demo_shop 7 = 500"
  by code_simp

lemma demo_bought_reach: "order_reach demo_uuid demo_shop demo_bought"
proof -
  have "cr_show_uuid demo_crates = demo_uuid" by (simp add: demo_crates_def)
  then show ?thesis
    unfolding demo_bought_def by (rule order_reach.step [OF order_reach.refl order_step.create])
qed

lemma demo_bought_order:
  obtains r where "orders demo_bought = [r]" "no_id r = 104" "no_user r = 7" "no_status r = OAwaiting"
    "find_order 104 demo_bought = Some r" "r \<in> set (orders demo_bought)" "no_price r = 300" "no_idempotency r = 9"
proof -
  obtain r where "orders demo_bought = [r]" using demo_bought_rows by auto
  with demo_bought_rows show ?thesis by (intro that [of r]) (auto simp: find_order_def)
qed

lemma demo_bought_money: "orders_money demo_uuid (basis_of demo_shop) demo_bought"
  by (rule reach_money [OF demo_bought_reach demo_shop_fresh])

lemma demo_refund_fresh: "refund_ids_fresh (demo_envs 5) demo_bought"
  by code_simp

section \<open>Witnesses\<close>

text \<open>The refund of the bought number, from its own transaction.\<close>

lemma demo_refund:
  obtains db' where "apply_inner (\<lambda>_ m. sms_body m) (demo_envs 5) 104 (Refund RCancelled ''cancelled'') None [] demo_bought = Inr (Applied, db')"
  and "order_reach demo_uuid demo_shop db'"
proof -
  obtain r where r: "find_order 104 demo_bought = Some r" "no_status r = OAwaiting" by (rule demo_bought_order)
  have "trim ''cancelled'' \<noteq> []" by code_simp
  then obtain db' where a: "apply_inner (\<lambda>_ m. sms_body m) (demo_envs 5) 104 (Refund RCancelled ''cancelled'') None [] demo_bought = Inr (Applied, db')"
    using refund_succeeds [OF demo_bought_money r(1) _ _ _ demo_refund_fresh, where ct = None and
        reason = "''cancelled''" and st = RCancelled and dg = "\<lambda>_ m. sms_body m"] r(2)
    by (auto simp: claim_current_def)
  have "db' = snd (commit (apply_inner (\<lambda>_ m. sms_body m) (demo_envs 5) 104 (Refund RCancelled ''cancelled'') None [] demo_bought) demo_bought)"
    by (simp add: a commit_def)
  then have "order_step demo_uuid demo_bought db'" by (metis order_step.transition)
  then show ?thesis using that [OF a] order_reach.step [OF demo_bought_reach] by blast
qed

theorem order_money_conserved_witness: "spendable demo_bought 7 = spendable demo_shop 7 - 300"
  by (rule demo_bought_order)
    (use order_money_conserved [OF demo_bought_reach demo_shop_fresh, of 7] in simp)

theorem orders_never_overdraw_witness: "0 \<le> spendable demo_bought 7"
  using orders_never_overdraw [OF demo_bought_reach demo_shop_fresh, of 7] demo_shop_balance by simp

theorem order_ends_once_witness: "list_all financial_ok (orders demo_bought) \<and> orders demo_bought \<noteq> []"
  by (rule demo_bought_order)
    (use order_ends_once [OF demo_bought_reach demo_shop_fresh] in simp)

theorem order_end_final_witness:
  "\<exists>db r. order_reach demo_uuid demo_shop db \<and> r \<in> set (orders db) \<and> no_status r = OCancelled \<and>
     (\<exists>r' \<in> set (orders db). no_reference r' = no_reference r \<and> refunded_status (no_status r'))"
proof (rule demo_refund)
  fix db' assume a: "apply_inner (\<lambda>_ m. sms_body m) (demo_envs 5) 104 (Refund RCancelled ''cancelled'') None [] demo_bought = Inr (Applied, db')"
    and reach: "order_reach demo_uuid demo_shop db'"
  obtain r where "find_order 104 demo_bought = Some r" by (rule demo_bought_order)
  then obtain r' where "find_order 104 db' = Some r'" "no_status r' = OCancelled"
    using applied_effect(1) [OF demo_bought_money a] by auto
  then have r': "r' \<in> set (orders db')" "no_status r' = OCancelled" by (auto dest: find_order_SomeD)
  show ?thesis
    using order_end_final [OF reach demo_shop_fresh r'(1) _ order_reach.refl] r' reach by auto
qed

theorem reservation_charges_price_witness:
  "\<exists>i k db'. reserve_order demo_crates demo_config demo_supplier (demo_envs 0) 7 9 demo_body None demo_shop = Inr (Reserved i k, db') \<and>
     sk_price k = 300 \<and> spendable db' 7 = spendable demo_shop 7 - 300"
proof -
  have "case reserve_order demo_crates demo_config demo_supplier (demo_envs 0) 7 9 demo_body None demo_shop of
      Inr (Reserved i k, db') \<Rightarrow> sk_price k = 300 | _ \<Rightarrow> False" by code_simp
  then obtain i k db' where r: "reserve_order demo_crates demo_config demo_supplier (demo_envs 0) 7 9 demo_body None demo_shop = Inr (Reserved i k, db')"
    and "sk_price k = 300"
    by (auto split: sum.splits reservation.splits)
  moreover have "orders_money (cr_show_uuid demo_crates) (basis_of demo_shop) demo_shop"
    using fresh_shop_money [OF demo_shop_fresh] by (simp add: demo_crates_def)
  ultimately show ?thesis using reservation_charges_price [OF _ r, of "basis_of demo_shop" 7] by auto
qed

theorem reservation_replay_witness:
  "\<exists>res db'. reserve_order demo_crates demo_config demo_supplier (demo_envs 8) 7 9 demo_body None demo_bought = Inr (res, db') \<and>
     res = Replayed 104 \<and> spendable db' 7 = spendable demo_bought 7"
proof (rule demo_bought_order)
  fix r assume r: "r \<in> set (orders demo_bought)" "no_user r = 7" "no_idempotency r = 9" "no_id r = 104"
  have "case reserve_order demo_crates demo_config demo_supplier (demo_envs 8) 7 9 demo_body None demo_bought of
      Inr _ \<Rightarrow> True | _ \<Rightarrow> False" by code_simp
  then obtain res db' where q: "reserve_order demo_crates demo_config demo_supplier (demo_envs 8) 7 9 demo_body None demo_bought = Inr (res, db')"
    by (auto split: sum.splits)
  have "orders_money (cr_show_uuid demo_crates) (basis_of demo_shop) demo_bought"
    using demo_bought_money by (simp add: demo_crates_def)
  then show ?thesis using reservation_replay [OF _ r(1-3) q, of "basis_of demo_shop" 7] q r(4) by auto
qed

theorem transition_pays_witness:
  "\<exists>db'. apply_inner (\<lambda>_ m. sms_body m) (demo_envs 5) 104 (Refund RCancelled ''cancelled'') None [] demo_bought = Inr (Applied, db') \<and>
     spendable db' 7 = spendable demo_bought 7 + 300"
proof (rule demo_refund)
  fix db' assume a: "apply_inner (\<lambda>_ m. sms_body m) (demo_envs 5) 104 (Refund RCancelled ''cancelled'') None [] demo_bought = Inr (Applied, db')"
  obtain r where "find_order 104 demo_bought = Some r" "no_user r = 7" "no_price r = 300" by (rule demo_bought_order)
  then show ?thesis using transition_pays [OF demo_bought_money a, of r 7] a by auto
qed

theorem refund_goes_through_witness:
  "\<exists>db'. apply_inner (\<lambda>_ m. sms_body m) (demo_envs 5) 104 (Refund RFailed ''failed'') None [] demo_bought = Inr (Applied, db')"
proof (rule demo_bought_order)
  fix r assume r: "find_order 104 demo_bought = Some r" "no_status r = OAwaiting"
  have "trim ''failed'' \<noteq> []" by code_simp
  then show ?thesis
    using refund_goes_through [OF demo_bought_money r(1) _ _ _ demo_refund_fresh, of None] r(2)
    by (simp add: claim_current_def)
qed


theorem order_claim_exclusive_witness:
  "\<exists>db'. acquire_order 50 1000 104 demo_bought = Some db' \<and> acquire_order 51 2000 104 db' = None"
proof -
  have "acquire_order 50 1000 104 demo_bought \<noteq> None" by code_simp
  then obtain db' where a: "acquire_order 50 1000 104 demo_bought = Some db'" by auto
  have "acquire_order 51 2000 104 db' = None"
    using order_claim_exclusive [OF a, of "[]" 2000 51] by (simp add: lease_seconds_def seconds_def)
  with a show ?thesis by blast
qed

theorem lapsed_claim_is_free_witness:
  "\<exists>(db :: shop_db) db'. order_lease db 104 = Some (50, 1000 + lease_seconds) \<and> acquire_order 51 (1001 + lease_seconds) 104 db = Some db'"
proof (rule demo_bought_order)
  fix r assume r: "orders demo_bought = [r]" "no_id r = 104" "no_status r = OAwaiting"
  define r1 where "r1 = r\<lparr>no_claim := Some (50, 1000 + lease_seconds)\<rparr>"
  define db where "db = demo_bought\<lparr>orders := [r1]\<rparr>"
  have "orders_ok [r]" using money_ok [OF demo_bought_money] r(1) by simp
  then have ok: "orders_ok (orders db)"
    by (simp add: db_def r1_def orders_ok_def orders_unique_def order_row_ok_def financial_ok_def split: order_status.splits)
  have f: "find_order 104 db = Some r1" by (simp add: db_def r1_def find_order_def r(2))
  have "\<exists>db'. acquire_order 51 (1001 + lease_seconds) 104 db = Some db' \<and>
      order_lease db' 104 = Some (51, 1001 + lease_seconds + lease_seconds)"
    by (rule lapsed_claim_is_free [OF ok f, where t = 50 and until = "1000 + lease_seconds"]) (simp_all add: r1_def r(3) lease_seconds_def seconds_def)
  then obtain db' where "acquire_order 51 (1001 + lease_seconds) 104 db = Some db'" by blast
  moreover have "order_lease db 104 = Some (50, 1000 + lease_seconds)" by (simp add: order_lease_def f r1_def)
  ultimately show ?thesis by blast
qed

theorem score_agrees_witness: "score_sql (of_int prior_weight) 80 10 4 = score 80 10 4 \<and> score 80 0 0 = 4 / 5"
  using score_agrees [of 80 4 10] by simp

end
