(* ===== verification/Auth_Identifiers.thy ===== *)
theory Auth_Identifiers
  imports Rust_Text
begin

text \<open>
  The sign-in field and what a proven identity means: \<open>crates/auth/src/identifier.rs\<close> and
  \<open>crates/auth/src/identity.rs\<close>. A function that slices a string can panic; its result is then
  \<open>None\<close>.
\<close>

section \<open>Types\<close>

datatype provider = ByPhone | ByEmail | ByGoogle

fun provider_as_str :: "provider \<Rightarrow> string" where
  "provider_as_str ByPhone = ''phone''"
| "provider_as_str ByEmail = ''email''"
| "provider_as_str ByGoogle = ''google''"

datatype channel = Sms | Mail

datatype sign_in = Phone string | Email string

fun id_provider :: "sign_in \<Rightarrow> provider" where
  "id_provider (Phone _) = ByPhone"
| "id_provider (Email _) = ByEmail"

fun id_subject :: "sign_in \<Rightarrow> string" where
  "id_subject (Phone v) = v"
| "id_subject (Email v) = v"

fun id_channel :: "sign_in \<Rightarrow> channel" where
  "id_channel (Phone _) = Sms"
| "id_channel (Email _) = Mail"

datatype identifier_error = EmptyIdentifier | InvalidEmail | InvalidPhone

fun identifier_error_text :: "identifier_error \<Rightarrow> string" where
  "identifier_error_text EmptyIdentifier = ''enter your phone number or email''"
| "identifier_error_text InvalidEmail = ''enter a valid email address''"
| "identifier_error_text InvalidPhone = ''enter a valid Nigerian phone number''"

section \<open>Parsing\<close>

definition normalize_ng_phone :: "string \<Rightarrow> string option" where
  "normalize_ng_phone input =
     (let digits = filter is_ascii_digit input;
          national =
            (if length digits = 11 \<and> prefix ''0'' digits then Some (drop 1 digits)
             else if length digits = 13 \<and> prefix ''234'' digits then Some (drop 3 digits)
             else if length digits = 10 then Some digits
             else None)
      in case national of
           None \<Rightarrow> None
         | Some n \<Rightarrow>
             if take 1 n \<in> {''7'', ''8'', ''9''} then Some (''+234'' @ n) else None)"

definition normalize_email :: "string \<Rightarrow> string option" where
  "normalize_email input =
     (let value = to_ascii_lowercase (trim input)
      in case split_once (CHR ''@'') value of
           None \<Rightarrow> None
         | Some (loc, domain) \<Rightarrow>
             if loc = [] \<or> domain = [] then None
             else if CHR ''@'' \<in> set domain \<or> CHR ''.'' \<notin> set domain \<or> length (split_whitespace value) \<noteq> 1
             then None
             else if [] \<in> set (split_on (CHR ''.'') domain) then None
             else Some value)"

definition parse_identifier :: "string \<Rightarrow> identifier_error + sign_in" where
  "parse_identifier input =
     (let trimmed = trim input
      in if trimmed = [] then Inl EmptyIdentifier
         else if CHR ''@'' \<in> set trimmed
         then (case normalize_email trimmed of None \<Rightarrow> Inl InvalidEmail | Some v \<Rightarrow> Inr (Email v))
         else (case normalize_ng_phone trimmed of None \<Rightarrow> Inl InvalidPhone | Some v \<Rightarrow> Inr (Phone v)))"

section \<open>Masking\<close>

definition bullet :: string where
  "bullet = [CHR 0xE2, CHR 0x80, CHR 0xA2]"

definition masked :: "sign_in \<Rightarrow> string option" where
  "masked i =
     (case i of
        Phone p \<Rightarrow>
          (if length p = 14
           then do_slices (str_slice p 0 4) (str_slice p 4 7) (str_slice p 10 (length p))
             (\<lambda>a b c. a @ '' '' @ b @ '' '' @ bullet @ bullet @ bullet @ '' '' @ c)
           else Some p)
      | Email e \<Rightarrow>
          (case split_once (CHR ''@'') e of
             None \<Rightarrow> Some e
           | Some (loc, domain) \<Rightarrow>
               if 2 < length loc
               then map_option (\<lambda>a. a @ concat (replicate (length loc - 2) bullet) @ ''@'' @ domain)
                 (str_slice loc 0 2)
               else Some e))"

section \<open>Identity claims\<close>

record identity_claim =
  cl_provider :: provider
  cl_subject :: string
  cl_email :: "string option"
  cl_phone :: "string option"

fun from_verified_otp :: "sign_in \<Rightarrow> identity_claim" where
  "from_verified_otp (Phone p) =
     \<lparr>cl_provider = ByPhone, cl_subject = id_subject (Phone p), cl_email = None, cl_phone = Some p\<rparr>"
| "from_verified_otp (Email e) =
     \<lparr>cl_provider = ByEmail, cl_subject = id_subject (Email e), cl_email = Some e, cl_phone = None\<rparr>"

record existing_matches =
  by_subject :: "uuid option"
  by_verified_email :: "uuid option"
  by_verified_phone :: "uuid option"

datatype resolution = Existing uuid | LinkTo uuid | CreateNew | IdentityConflict uuid uuid

text \<open>\<open>Option::and\<close>.\<close>

definition option_and :: "'a option \<Rightarrow> 'b option \<Rightarrow> 'b option" where
  "option_and a b = (case a of None \<Rightarrow> None | Some _ \<Rightarrow> b)"

definition resolve :: "identity_claim \<Rightarrow> existing_matches \<Rightarrow> resolution" where
  "resolve claim found =
     (case by_subject found of
        Some user \<Rightarrow> Existing user
      | None \<Rightarrow>
          (case (option_and (cl_email claim) (by_verified_email found),
                 option_and (cl_phone claim) (by_verified_phone found)) of
             (Some a, Some b) \<Rightarrow> if a \<noteq> b then IdentityConflict a b else LinkTo a
           | (Some a, None) \<Rightarrow> LinkTo a
           | (None, Some b) \<Rightarrow> LinkTo b
           | (None, None) \<Rightarrow> CreateNew))"

section \<open>Facts\<close>

lemma lower_keeps_ws:
  assumes "w \<in> set ws_encodings"
  shows "list_all (\<lambda>c. \<forall>d. to_ascii_lower_char d = c \<longleftrightarrow> d = c) w"
proof -
  have small: "\<forall>d. to_ascii_lower_char d = c \<longleftrightarrow> d = c" if "(of_char c :: nat) < 65 \<or> 122 < (of_char c :: nat)" for c
    using that by (auto simp: to_ascii_lower_char_def)
  have "list_all (\<lambda>c. (of_char c :: nat) < 65 \<or> 122 < (of_char c :: nat)) w"
    using assms by (auto simp: ws_encodings_def)
  then show ?thesis using small by (simp add: list_all_iff)
qed

lemma prefix_lower_ws:
  assumes "w \<in> set ws_encodings"
  shows "prefix w (to_ascii_lowercase s) \<longleftrightarrow> prefix w s"
proof -
  have "prefix v (to_ascii_lowercase s) \<longleftrightarrow> prefix v s"
    if "list_all (\<lambda>c. \<forall>d. to_ascii_lower_char d = c \<longleftrightarrow> d = c) v" for v
    using that
  proof (induction v arbitrary: s)
    case Nil
    then show ?case by simp
  next
    case (Cons c v)
    then show ?case by (cases s) (auto simp: to_ascii_lowercase_def eq_commute [of c])
  qed
  then show ?thesis using lower_keeps_ws [OF assms] by blast
qed

lemma prefix_lower_ws_rev:
  assumes "w \<in> set (map rev ws_encodings)"
  shows "prefix w (to_ascii_lowercase s) \<longleftrightarrow> prefix w s"
proof -
  obtain v where v: "v \<in> set ws_encodings" "w = rev v" using assms by auto
  have "list_all (\<lambda>c. \<forall>d. to_ascii_lower_char d = c \<longleftrightarrow> d = c) w"
    using lower_keeps_ws [OF v(1)] v(2) by (simp add: list_all_iff)
  moreover have "prefix u (to_ascii_lowercase s) \<longleftrightarrow> prefix u s"
    if "list_all (\<lambda>c. \<forall>d. to_ascii_lower_char d = c \<longleftrightarrow> d = c) u" for u
    using that
  proof (induction u arbitrary: s)
    case Nil
    then show ?case by simp
  next
    case (Cons c u)
    then show ?case by (cases s) (auto simp: to_ascii_lowercase_def eq_commute [of c])
  qed
  ultimately show ?thesis by blast
qed

lemma trim_lowercase: "trim (to_ascii_lowercase s) = to_ascii_lowercase (trim s)"
proof -
  have r: "rev (to_ascii_lowercase t) = to_ascii_lowercase (rev t)" for t
    by (simp add: to_ascii_lowercase_def rev_map)
  have "strip_leading ws_encodings (to_ascii_lowercase s) = to_ascii_lowercase (strip_leading ws_encodings s)"
    unfolding to_ascii_lowercase_def
    by (rule strip_leading_map) (rule prefix_lower_ws [unfolded to_ascii_lowercase_def])
  moreover have "strip_leading (map rev ws_encodings) (to_ascii_lowercase t) =
      to_ascii_lowercase (strip_leading (map rev ws_encodings) t)" for t
    unfolding to_ascii_lowercase_def
    by (rule strip_leading_map) (rule prefix_lower_ws_rev [unfolded to_ascii_lowercase_def])
  ultimately show ?thesis
    by (simp add: trim_def trim_start_def trim_end_def r)
qed

lemma filter_digits_trim: "filter is_ascii_digit (trim s) = filter is_ascii_digit s"
proof -
  have w: "filter is_ascii_digit w = []" if "w \<in> set ws_encodings" for w
    using that by (auto simp: ws_encodings_def is_ascii_digit_def)
  have "filter is_ascii_digit (strip_leading ws_encodings s) = filter is_ascii_digit s"
    by (rule filter_strip_leading) (rule w)
  moreover have "filter is_ascii_digit (strip_leading (map rev ws_encodings) t) = filter is_ascii_digit t" for t
    by (rule filter_strip_leading) (use w in \<open>auto simp: rev_filter [symmetric]\<close>)
  ultimately show ?thesis
    unfolding trim_def trim_start_def trim_end_def by (metis rev_filter rev_rev_ident)
qed

lemma normalize_email_value:
  "normalize_email s = Some v \<Longrightarrow> v = to_ascii_lowercase (trim s)"
  by (auto simp: normalize_email_def Let_def split: option.splits if_splits)

lemma normalize_email_cong:
  "to_ascii_lowercase (trim s) = to_ascii_lowercase (trim t) \<Longrightarrow> normalize_email s = normalize_email t"
  by (simp add: normalize_email_def)

lemma normalize_email_idem:
  assumes "normalize_email s = Some v"
  shows "normalize_email v = Some v" "trim v = v" "to_ascii_lowercase v = v"
proof -
  have v: "v = to_ascii_lowercase (trim s)" by (rule normalize_email_value [OF assms])
  then show "trim v = v" "to_ascii_lowercase v = v" by (simp_all add: trim_lowercase)
  then have "normalize_email v = normalize_email s" by (intro normalize_email_cong) (simp add: v)
  then show "normalize_email v = Some v" using assms by simp
qed

text \<open>The shape of an accepted address.\<close>

lemma normalize_email_shape:
  assumes "normalize_email s = Some v"
  obtains loc domain where "v = loc @ ''@'' @ domain" "loc \<noteq> []" "CHR ''@'' \<notin> set loc" "CHR ''@'' \<notin> set domain"
    "CHR ''.'' \<in> set domain" "[] \<notin> set (split_on (CHR ''.'') domain)" "length (split_whitespace v) = 1"
proof -
  obtain loc domain where sp: "split_once (CHR ''@'') (to_ascii_lowercase (trim s)) = Some (loc, domain)"
    and "loc \<noteq> [] \<and> CHR ''@'' \<notin> set domain \<and> CHR ''.'' \<in> set domain \<and>
      length (split_whitespace (to_ascii_lowercase (trim s))) = 1 \<and> [] \<notin> set (split_on (CHR ''.'') domain)"
    using assms by (auto simp: normalize_email_def Let_def split: option.splits if_splits)
  moreover have "v = to_ascii_lowercase (trim s)" by (rule normalize_email_value [OF assms])
  ultimately show ?thesis by (intro that [of loc domain]) (auto simp: split_once_Some_iff)
qed

lemma ng_phone_shape:
  assumes "normalize_ng_phone s = Some p"
  obtains c n where "p = ''+234'' @ c # n" "c \<in> {CHR ''7'', CHR ''8'', CHR ''9''}" "length n = 9"
    "list_all is_ascii_digit n"
proof -
  define ds where "ds = filter is_ascii_digit s"
  have ds: "set (drop k ds) \<subseteq> Collect is_ascii_digit" for k
    using set_drop_subset [of k ds] by (auto simp: ds_def)
  have "\<exists>k. length (drop k ds) = 10 \<and> take 1 (drop k ds) \<in> {''7'', ''8'', ''9''} \<and> p = ''+234'' @ drop k ds"
    using assms unfolding normalize_ng_phone_def ds_def [symmetric] Let_def
    by (cases "length ds = 11"; cases "length ds = 13") (auto intro: exI [of _ 0] exI [of _ 1] exI [of _ 3] split: if_splits)
  then obtain k where k: "length (drop k ds) = 10" "take 1 (drop k ds) \<in> {''7'', ''8'', ''9''}"
    "p = ''+234'' @ drop k ds" by blast
  define m where "m = drop k ds"
  have m: "length m = 10" "take 1 m \<in> {''7'', ''8'', ''9''}" "p = ''+234'' @ m" "set m \<subseteq> Collect is_ascii_digit"
    using k ds [of k] by (simp_all add: m_def)
  then obtain c n where "m = c # n" by (cases m) auto
  with m show ?thesis by (intro that [of c n]) (auto simp: list_all_iff)
qed

lemma ng_phone_digits:
  assumes "filter is_ascii_digit s \<in> {CHR ''0'' # n, ''234'' @ n, n}" "length n = 10"
    "take 1 n \<in> {''7'', ''8'', ''9''}"
  shows "normalize_ng_phone s = Some (''+234'' @ n)"
  using assms by (auto simp: normalize_ng_phone_def)

lemma digit_consts: "is_ascii_digit CHR ''2''" "is_ascii_digit CHR ''3''" "is_ascii_digit CHR ''4''"
  "is_ascii_digit CHR ''7''" "is_ascii_digit CHR ''8''" "is_ascii_digit CHR ''9''" "is_ascii_digit CHR ''0''"
  "\<not> is_ascii_digit CHR ''+''" "\<not> is_ascii_digit CHR ''@''"
  by (simp_all add: is_ascii_digit_def)

lemma ng_phone_idem:
  assumes "normalize_ng_phone s = Some p"
  shows "normalize_ng_phone p = Some p" "trim p = p" "CHR ''@'' \<notin> set p"
proof -
  obtain c n where n: "p = ''+234'' @ c # n" "c \<in> {CHR ''7'', CHR ''8'', CHR ''9''}" "length n = 9"
    "list_all is_ascii_digit n" by (rule ng_phone_shape [OF assms])
  have c: "is_ascii_digit c" using n(2) digit_consts by auto
  have f: "filter is_ascii_digit n = n" using n(4) by (simp add: list_all_iff filter_id_conv)
  show "normalize_ng_phone p = Some p"
    using ng_phone_digits [of p "c # n"] n c f by (auto simp: digit_consts)
  show "CHR ''@'' \<notin> set p" using n c digit_not_special by (auto simp: list_all_iff)
  have "visible (hd p)" using n(1) by (simp add: visible_def)
  moreover have "visible (last p)"
  proof -
    have "last n \<in> set n" "last p = last n" using n(1,3) by (cases n rule: rev_cases; simp)+
    then show ?thesis using n(4) digit_visible by (simp add: list_all_iff)
  qed
  ultimately show "trim p = p" using n(1) by (intro trim_same) simp_all
qed

lemma parse_identifier_cases:
  assumes "parse_identifier s = Inr i"
  obtains v where "i = Email v" "normalize_email (trim s) = Some v"
  | p where "i = Phone p" "normalize_ng_phone (trim s) = Some p"
  using assms by (auto simp: parse_identifier_def Let_def split: if_splits option.splits)


lemma parse_identifier_normal:
  assumes "parse_identifier s = Inr i"
  shows "parse_identifier (id_subject i) = Inr i"
  using assms
proof (cases rule: parse_identifier_cases)
  case (1 v)
  then have "v \<noteq> []" "CHR ''@'' \<in> set v" by (auto elim: normalize_email_shape)
  then show ?thesis using 1 normalize_email_idem [OF 1(2)] by (simp add: parse_identifier_def Let_def)
next
  case (2 p)
  then have "p \<noteq> []" by (auto elim: ng_phone_shape)
  then show ?thesis using 2 ng_phone_idem [OF 2(2)] by (simp add: parse_identifier_def Let_def)
qed

text \<open>
  Whatever form a sign-in address is typed in, the form stored is a normal form: parsing it again
  gives the same identity, so a person is never split by re-parsing what was stored.
\<close>

theorem identifier_roundtrip:
  assumes "parse_identifier s = Inr i"
  shows "parse_identifier (id_subject i) = Inr i"
  by (rule parse_identifier_normal [OF assms])

theorem identifier_roundtrip_witness:
  "parse_identifier '' A@x.NG '' = Inr (Email ''a@x.ng'') \<and>
   parse_identifier ''a@x.ng'' = Inr (Email ''a@x.ng'')"
proof -
  have "parse_identifier '' A@x.NG '' = Inr (Email ''a@x.ng'')" by code_simp
  with identifier_roundtrip [OF this] show ?thesis by simp
qed

text \<open>
  Every spelling of a Nigerian mobile number is one identity: with or without the trunk zero or
  the country code, and with any separators between the digits.
\<close>

lemma phone_spellings_agree:
  assumes "filter is_ascii_digit s \<in> {CHR ''0'' # n, ''234'' @ n, n}" "CHR ''@'' \<notin> set s"
    and "length n = 10" "hd n \<in> {CHR ''7'', CHR ''8'', CHR ''9''}"
  shows "parse_identifier s = Inr (Phone (''+234'' @ n))"
proof -
  have "n \<noteq> []" using assms(3) by auto
  then have "take 1 n = [hd n]" by (cases n) auto
  with assms(4) have hd: "take 1 n \<in> {''7'', ''8'', ''9''}" by auto
  have "filter is_ascii_digit s \<noteq> []" using assms(1) \<open>n \<noteq> []\<close> by auto
  then have "trim s \<noteq> []" by (metis filter.simps(1) filter_digits_trim)
  moreover have "CHR ''@'' \<notin> set (trim s)" using assms(2) set_trim by blast
  moreover have "normalize_ng_phone (trim s) = Some (''+234'' @ n)"
    by (rule ng_phone_digits [OF _ assms(3) hd]) (simp only: filter_digits_trim assms(1))
  ultimately show ?thesis by (simp add: parse_identifier_def)
qed

text \<open>
  An accepted address has the shape its channel needs: a phone is \<open>+234\<close> and ten digits and goes
  out by SMS, an e-mail has exactly one @, a dot in its domain and no empty label, no capital letter
  and no surrounding white space, and goes out by e-mail.
\<close>

theorem identifier_shape:
  assumes "parse_identifier s = Inr i"
  shows "(case i of
      Phone p \<Rightarrow> id_channel i = Sms \<and> length p = 14 \<and> prefix ''+234'' p \<and> list_all is_ascii_digit (drop 1 p)
    | Email e \<Rightarrow> id_channel i = Mail \<and> length (filter (\<lambda>c. c = CHR ''@'') e) = 1 \<and>
        to_ascii_lowercase e = e \<and> trim e = e \<and>
        (\<exists>loc domain. e = loc @ ''@'' @ domain \<and> loc \<noteq> [] \<and> CHR ''.'' \<in> set domain \<and>
          [] \<notin> set (split_on (CHR ''.'') domain)))"
  using assms
proof (cases rule: parse_identifier_cases)
  case (1 v)
  obtain loc domain where v: "v = loc @ ''@'' @ domain" "loc \<noteq> []" "CHR ''@'' \<notin> set loc" "CHR ''@'' \<notin> set domain"
    "CHR ''.'' \<in> set domain" "[] \<notin> set (split_on (CHR ''.'') domain)"
    by (rule normalize_email_shape [OF 1(2)])
  have "filter (\<lambda>c. c = CHR ''@'') loc = []" "filter (\<lambda>c. c = CHR ''@'') domain = []"
    using v(3,4) by (auto simp: filter_empty_conv)
  then show ?thesis using v 1(1) normalize_email_idem [OF 1(2)] by auto
next
  case (2 p)
  obtain c n where "p = ''+234'' @ c # n" "c \<in> {CHR ''7'', CHR ''8'', CHR ''9''}" "length n = 9" "list_all is_ascii_digit n"
    by (rule ng_phone_shape [OF 2(2)])
  then show ?thesis using 2(1) by (auto simp: digit_consts)
qed

theorem identifier_shape_witness:
  "parse_identifier ''ADA@x.ng'' = Inr (Email ''ada@x.ng'') \<and> length (filter (\<lambda>c. c = CHR ''@'') ''ada@x.ng'') = 1"
proof -
  have p: "parse_identifier ''ADA@x.ng'' = Inr (Email ''ada@x.ng'')" by code_simp
  show ?thesis using p identifier_shape [OF p] by simp
qed

text \<open>
  Masking an accepted phone or ASCII e-mail never panics, and it leaves at most seven digits of a
  number and two bytes of a mailbox name readable.
\<close>

lemma masked_ascii:
  assumes "parse_identifier s = Inr i" "is_ascii (id_subject i)"
  shows "masked i = Some (case i of
      Phone p \<Rightarrow> ''+234 '' @ take 3 (drop 4 p) @ '' '' @ bullet @ bullet @ bullet @ '' '' @ drop 10 p
    | Email e \<Rightarrow>
        (let loc = takeWhile (\<lambda>c. c \<noteq> CHR ''@'') e in
         take 2 loc @ concat (replicate (length loc - 2) bullet) @ drop (length loc) e))"
  using assms(1)
proof (cases rule: parse_identifier_cases)
  case (1 v)
  obtain loc domain where v: "v = loc @ ''@'' @ domain" "loc \<noteq> []" "CHR ''@'' \<notin> set loc"
    by (rule normalize_email_shape [OF 1(2)])
  have sp: "split_once (CHR ''@'') v = Some (loc, domain)" using v by (simp add: split_once_Some_iff)
  have "is_ascii loc" using assms(2) 1(1) v(1) by (simp add: is_ascii_def)
  moreover have "\<And>x. x \<in> set loc \<Longrightarrow> x \<noteq> CHR ''@''" using v(3) by blast
  then have "takeWhile (\<lambda>c. c \<noteq> CHR ''@'') v = loc" by (simp add: v(1) takeWhile_append2)
  ultimately show ?thesis
    using 1(1) sp v(1) by (auto simp: masked_def ascii_slice Let_def)
next
  case (2 p)
  obtain c n where p: "p = ''+234'' @ c # n" "length n = 9" by (rule ng_phone_shape [OF 2(2)])
  then have "str_slice p 0 4 = Some ''+234''" "str_slice p 4 7 = Some (take 3 (drop 4 p))"
    "str_slice p 10 (length p) = Some (drop 10 p)"
    using assms(2) 2(1) by (simp_all add: ascii_slice)
  then show ?thesis using 2(1) p by (simp add: masked_def do_slices_def)
qed

text \<open>
  Masking panics on an address the parser accepts: the cut after two bytes of the mailbox name
  can fall inside a character (\<open>a\<close>, then an accented e, before the @).
\<close>

theorem masking_can_panic:
  "parse_identifier ([CHR ''a'', CHR 0xC3, CHR 0xA9] @ ''@x.ng'') =
     Inr (Email ([CHR ''a'', CHR 0xC3, CHR 0xA9] @ ''@x.ng'')) \<and>
   masked (Email ([CHR ''a'', CHR 0xC3, CHR 0xA9] @ ''@x.ng'')) = None"
  by code_simp

section \<open>Linking\<close>

text \<open>
  The claims a sign-in builds attest at most one channel, so a conflict of two users cannot arise
  from one of them.
\<close>

lemma resolve_single_channel:
  assumes "cl_email claim = None \<or> cl_phone claim = None"
  shows "resolve claim found \<noteq> IdentityConflict a b"
  using assms by (auto simp: resolve_def option_and_def split: option.splits)

lemma resolve_LinkTo_iff:
  assumes "cl_email claim = None \<or> cl_phone claim = None"
  shows "resolve claim found = LinkTo u \<longleftrightarrow> by_subject found = None \<and>
    (cl_email claim \<noteq> None \<and> by_verified_email found = Some u \<or>
     cl_phone claim \<noteq> None \<and> by_verified_phone found = Some u)"
  using assms by (auto simp: resolve_def option_and_def split: option.splits)

end
