(* ===== verification/Auth_Checks.thy ===== *)
theory Auth_Checks
  imports Auth_Identifiers
begin

text \<open>
  The checks of the auth crate: one-time codes (\<open>crates/auth/src/otp.rs\<close>), transaction PINs
  (\<open>crates/auth/src/pin.rs\<close>) and KYC tiers (\<open>crates/auth/src/tier.rs\<close>). The Argon2 hashing of the
  \<open>argon2\<close> crate is a parameter: \<open>ar_hash\<close> hashes under a fresh salt, \<open>ar_check\<close> compares a
  stored hash with a secret; both may fail with a message.
\<close>

record argon =
  ar_hash :: "string \<Rightarrow> string + string"
  ar_check :: "string \<Rightarrow> string \<Rightarrow> string + bool"

section \<open>One-time codes\<close>

definition otp_ttl_minutes :: int where "otp_ttl_minutes = 10"
definition max_attempts :: int where "max_attempts = 5"
definition resend_cooldown_seconds :: int where "resend_cooldown_seconds = 60"

record otp_challenge =
  oc_destination :: string
  oc_channel :: channel
  oc_code_hash :: string
  oc_expires_at :: instant
  oc_attempts :: int
  oc_consumed_at :: "instant option"
  oc_last_sent_at :: instant

datatype otp_error = OeExpired | OeAlreadyUsed | OeTooManyAttempts | OeIncorrect int | OeHash string

fun otp_error_text :: "otp_error \<Rightarrow> string" where
  "otp_error_text OeExpired = ''code has expired, request a new one''"
| "otp_error_text OeAlreadyUsed = ''this code has already been used''"
| "otp_error_text OeTooManyAttempts = ''too many incorrect attempts, request a new code''"
| "otp_error_text (OeIncorrect n) = ''incorrect code, '' @ show_int n @ '' attempt(s) remaining''"
| "otp_error_text (OeHash e) = ''hashing failed: '' @ e"

text \<open>\<open>generate_code\<close> from the number drawn below a million.\<close>

definition format_code :: "nat \<Rightarrow> string" where
  "format_code n = replicate (6 - length (show_nat n)) (CHR ''0'') @ show_nat n"

definition hash_code :: "argon \<Rightarrow> string \<Rightarrow> otp_error + string" where
  "hash_code ar code = map_err OeHash (ar_hash ar code)"

definition otp_new :: "argon \<Rightarrow> sign_in \<Rightarrow> string \<Rightarrow> instant \<Rightarrow> otp_error + otp_challenge" where
  "otp_new ar i code now =
     res_bind (hash_code ar code) (\<lambda>h. Inr \<lparr>oc_destination = id_subject i, oc_channel = id_channel i,
       oc_code_hash = h, oc_expires_at = now + minutes otp_ttl_minutes, oc_attempts = 0,
       oc_consumed_at = None, oc_last_sent_at = now\<rparr>)"

definition otp_verify :: "argon \<Rightarrow> string \<Rightarrow> instant \<Rightarrow> otp_challenge \<Rightarrow> (otp_error + unit) \<times> otp_challenge" where
  "otp_verify ar submitted now c =
     (if oc_consumed_at c \<noteq> None then (Inl OeAlreadyUsed, c)
      else if oc_expires_at c < now then (Inl OeExpired, c)
      else if max_attempts \<le> oc_attempts c then (Inl OeTooManyAttempts, c)
      else
        (let c' = c\<lparr>oc_attempts := oc_attempts c + 1\<rparr> in
         case ar_check ar (oc_code_hash c') submitted of
           Inl e \<Rightarrow> (Inl (OeHash e), c')
         | Inr True \<Rightarrow> (Inr (), c'\<lparr>oc_consumed_at := Some now\<rparr>)
         | Inr False \<Rightarrow> (Inl (OeIncorrect (max (max_attempts - oc_attempts c') 0)), c')))"

definition can_resend :: "instant \<Rightarrow> otp_challenge \<Rightarrow> bool" where
  "can_resend now c \<longleftrightarrow> oc_last_sent_at c + seconds resend_cooldown_seconds \<le> now"

section \<open>PINs\<close>

definition pin_length :: nat where "pin_length = 6"
definition max_pin_attempts :: int where "max_pin_attempts = 5"

datatype pin_error = PinWrongFormat | PinTooCommon | PinHash string

fun pin_error_text :: "pin_error \<Rightarrow> string" where
  "pin_error_text PinWrongFormat = ''PIN must be exactly 6 digits''"
| "pin_error_text PinTooCommon = ''that PIN is too easy to guess, please choose another''"
| "pin_error_text (PinHash e) = ''hashing failed: '' @ e"

text \<open>\<open>windows(2).all\<close>.\<close>

fun windows2_all :: "('a \<Rightarrow> 'a \<Rightarrow> bool) \<Rightarrow> 'a list \<Rightarrow> bool" where
  "windows2_all p (x # y # zs) \<longleftrightarrow> p x y \<and> windows2_all p (y # zs)"
| "windows2_all p _ \<longleftrightarrow> True"

definition validate_pin_strength :: "string \<Rightarrow> pin_error + unit" where
  "validate_pin_strength pin =
     (if length pin \<noteq> pin_length \<or> \<not> list_all is_ascii_digit pin then Inl PinWrongFormat
      else
        (let digits = map digit_val pin in
         if list_all (\<lambda>d. d = digits ! 0) digits then Inl PinTooCommon
         else if windows2_all (\<lambda>a b. b = a + 1) digits \<or> windows2_all (\<lambda>a b. a = b + 1) digits
         then Inl PinTooCommon
         else if take 2 digits = take 2 (drop 2 digits) \<and> take 2 (drop 2 digits) = drop 4 digits
         then Inl PinTooCommon
         else if take 3 digits = drop 3 digits then Inl PinTooCommon
         else if take 2 pin \<in> {''19'', ''20''} \<and> list_all is_ascii_digit (drop 2 pin) \<and>
             (case parse_unsigned (2 ^ 32) (take 4 pin) of
                None \<Rightarrow> False
              | Some year \<Rightarrow> 1940 \<le> year \<and> year \<le> 2030 \<and> drop 4 pin = ''00'')
         then Inl PinTooCommon
         else Inr ()))"

definition hash_pin :: "argon \<Rightarrow> string \<Rightarrow> pin_error + string" where
  "hash_pin ar pin = res_bind (validate_pin_strength pin) (\<lambda>_. map_err PinHash (ar_hash ar pin))"

definition verify_pin :: "argon \<Rightarrow> string \<Rightarrow> string \<Rightarrow> pin_error + bool" where
  "verify_pin ar pin stored_hash = map_err PinHash (ar_check ar stored_hash pin)"

section \<open>KYC tiers\<close>

datatype kyc_tier = Tier0 | Tier1 | Tier2 | Tier3

definition tier_of_i16 :: "int \<Rightarrow> kyc_tier option" where
  "tier_of_i16 v =
     (if v = 0 then Some Tier0 else if v = 1 then Some Tier1 else if v = 2 then Some Tier2
      else if v = 3 then Some Tier3 else None)"

fun tier_as_i16 :: "kyc_tier \<Rightarrow> int" where
  "tier_as_i16 Tier0 = 0"
| "tier_as_i16 Tier1 = 1"
| "tier_as_i16 Tier2 = 2"
| "tier_as_i16 Tier3 = 3"

fun daily_payout_cap :: "kyc_tier \<Rightarrow> decimal option" where
  "daily_payout_cap Tier0 = None"
| "daily_payout_cap Tier1 = Some 50000"
| "daily_payout_cap Tier2 = Some 500000"
| "daily_payout_cap Tier3 = Some 5000000"

definition can_withdraw :: "kyc_tier \<Rightarrow> bool" where
  "can_withdraw t \<longleftrightarrow> daily_payout_cap t \<noteq> None"

definition can_deposit :: "kyc_tier \<Rightarrow> bool" where
  "can_deposit t \<longleftrightarrow> True"

definition can_sell :: "kyc_tier \<Rightarrow> bool" where
  "can_sell t \<longleftrightarrow> True"

fun next_step :: "kyc_tier \<Rightarrow> string option" where
  "next_step Tier0 = Some ''Verify your BVN to withdraw to your bank account''"
| "next_step Tier1 = Some ''Add your NIN and take a selfie to raise your limit''"
| "next_step Tier2 = Some ''Upload proof of address to raise your limit''"
| "next_step Tier3 = None"

datatype payout_check = PayoutAllowed | PayoutKycRequired string | ExceedsDailyCap decimal decimal decimal

definition check_payout :: "kyc_tier \<Rightarrow> decimal \<Rightarrow> decimal \<Rightarrow> payout_check" where
  "check_payout tier amount used_today =
     (case daily_payout_cap tier of
        None \<Rightarrow> PayoutKycRequired (case next_step tier of None \<Rightarrow> ''Verify your identity'' | Some s \<Rightarrow> s)
      | Some cap \<Rightarrow>
          (let remaining = cap - used_today in
           if remaining < amount then ExceedsDailyCap cap used_today (max remaining 0)
           else PayoutAllowed))"

text \<open>\<open>derive(PartialOrd, Ord)\<close>: the order of declaration.\<close>

instantiation kyc_tier :: linorder
begin

definition less_eq_kyc_tier :: "kyc_tier \<Rightarrow> kyc_tier \<Rightarrow> bool" where
  "less_eq_kyc_tier s t \<longleftrightarrow> tier_as_i16 s \<le> tier_as_i16 t"

definition less_kyc_tier :: "kyc_tier \<Rightarrow> kyc_tier \<Rightarrow> bool" where
  "less_kyc_tier s t \<longleftrightarrow> tier_as_i16 s < tier_as_i16 t"

instance
proof
  fix s t u :: kyc_tier
  show "s < t \<longleftrightarrow> s \<le> t \<and> \<not> t \<le> s" "s \<le> s" "s \<le> t \<or> t \<le> s"
    by (auto simp: less_eq_kyc_tier_def less_kyc_tier_def)
  show "s \<le> t \<Longrightarrow> t \<le> u \<Longrightarrow> s \<le> u" by (simp add: less_eq_kyc_tier_def)
  show "s \<le> t \<Longrightarrow> t \<le> s \<Longrightarrow> s = t" by (cases s; cases t) (simp_all add: less_eq_kyc_tier_def)
qed

end

section \<open>Codes: guesses are counted\<close>

lemma otp_verify_ids [simp]:
  "oc_code_hash (snd (otp_verify ar s now c)) = oc_code_hash c"
  "oc_expires_at (snd (otp_verify ar s now c)) = oc_expires_at c"
  "oc_destination (snd (otp_verify ar s now c)) = oc_destination c"
  by (auto simp: otp_verify_def Let_def split: sum.splits bool.splits)

text \<open>A result for which the stored hash was looked at.\<close>

definition guessed :: "otp_error + unit \<Rightarrow> bool" where
  "guessed r \<longleftrightarrow> (case r of Inr _ \<Rightarrow> True | Inl (OeIncorrect _) \<Rightarrow> True | Inl (OeHash _) \<Rightarrow> True | Inl _ \<Rightarrow> False)"

fun otp_run :: "argon \<Rightarrow> (string \<times> instant) list \<Rightarrow> otp_challenge \<Rightarrow> (otp_error + unit) list" where
  "otp_run ar [] c = []"
| "otp_run ar ((s, now) # tries) c =
     (case otp_verify ar s now c of (r, c') \<Rightarrow> r # otp_run ar tries c')"

lemma otp_verify_step:
  assumes "otp_verify ar s now c = (r, c')"
  shows "if guessed r then oc_consumed_at c = None \<and> oc_attempts c < max_attempts \<and> oc_attempts c' = oc_attempts c + 1 \<and>
      (r = Inr () \<longleftrightarrow> oc_consumed_at c' \<noteq> None)
    else c' = c"
  using assms by (auto simp: otp_verify_def guessed_def Let_def split: if_splits sum.splits bool.splits)

lemma otp_run_consumed:
  "oc_consumed_at c \<noteq> None \<Longrightarrow> filter guessed (otp_run ar tries c) = []"
proof (induction tries arbitrary: c)
  case Nil
  then show ?case by simp
next
  case (Cons x tries)
  obtain s now where x: "x = (s, now)" by (cases x)
  have "otp_verify ar s now c = (Inl OeAlreadyUsed, c)" using Cons.prems by (simp add: otp_verify_def)
  then show ?case using Cons by (simp add: x guessed_def)
qed

lemma otp_run_budget:
  "length (filter guessed (otp_run ar tries c)) \<le> nat (max_attempts - oc_attempts c)"
proof (induction tries arbitrary: c)
  case Nil
  then show ?case by simp
next
  case (Cons x tries)
  obtain s now where x: "x = (s, now)" by (cases x)
  obtain r c' where v: "otp_verify ar s now c = (r, c')" by (cases "otp_verify ar s now c")
  show ?case
  proof (cases "guessed r")
    case True
    then have "oc_attempts c < max_attempts" "oc_attempts c' = oc_attempts c + 1"
      using otp_verify_step [OF v] by simp_all
    then show ?thesis using Cons [of c'] True by (simp add: x v)
  next
    case False
    then have "c' = c" using otp_verify_step [OF v] by simp
    then show ?thesis using Cons [of c] False by (simp add: x v)
  qed
qed

lemma otp_run_once:
  "length (filter (\<lambda>r. r = Inr ()) (otp_run ar tries c)) \<le> 1"
proof (induction tries arbitrary: c)
  case Nil
  then show ?case by simp
next
  case (Cons x tries)
  obtain s now where x: "x = (s, now)" by (cases x)
  obtain r c' where v: "otp_verify ar s now c = (r, c')" by (cases "otp_verify ar s now c")
  show ?case
  proof (cases "r = Inr ()")
    case True
    then have "oc_consumed_at c' \<noteq> None" using otp_verify_step [OF v] by (simp add: guessed_def)
    then have "filter guessed (otp_run ar tries c') = []" by (rule otp_run_consumed)
    then have "filter (\<lambda>r. r = Inr ()) (otp_run ar tries c') = []"
      by (auto simp: filter_empty_conv guessed_def)
    then show ?thesis using True by (simp add: x v)
  next
    case False
    then show ?thesis using Cons [of c'] by (simp add: x v)
  qed
qed


text \<open>
  C13. However many codes are tried against a challenge, at whatever times, the stored hash is
  consulted at most five times, and at most one try succeeds.
\<close>

theorem otp_guesses_bounded:
  assumes "0 \<le> oc_attempts c"
  shows "length (filter guessed (otp_run ar tries c)) \<le> 5 \<and>
    length (filter (\<lambda>r. r = Inr ()) (otp_run ar tries c)) \<le> 1"
proof -
  have "nat (max_attempts - oc_attempts c) \<le> 5" using assms by (simp add: max_attempts_def)
  with otp_run_budget [of ar tries c] otp_run_once [of ar tries c] show ?thesis by linarith
qed

definition demo_argon :: argon where
  "demo_argon = \<lparr>ar_hash = (\<lambda>s. Inr (''$'' @ s)), ar_check = (\<lambda>h s. Inr (h = ''$'' @ s))\<rparr>"

definition demo_challenge :: otp_challenge where
  "demo_challenge = \<lparr>oc_destination = ''a@x.ng'', oc_channel = Mail, oc_code_hash = ''$123456'',
     oc_expires_at = minutes 10, oc_attempts = 0, oc_consumed_at = None, oc_last_sent_at = 0\<rparr>"

theorem otp_guesses_bounded_witness:
  "length (filter guessed (otp_run demo_argon (replicate 7 (''000000'', 1)) demo_challenge)) = 5 \<and>
   length (filter (\<lambda>r. r = Inr ()) (otp_run demo_argon (replicate 7 (''000000'', 1)) demo_challenge)) \<le> 1"
proof -
  have "0 \<le> oc_attempts demo_challenge" by (simp add: demo_challenge_def)
  note b = otp_guesses_bounded [OF this, of demo_argon "replicate 7 (''000000'', 1)"]
  have "length (filter guessed (otp_run demo_argon (replicate 7 (''000000'', 1)) demo_challenge)) = 5"
    by code_simp
  with b show ?thesis by blast
qed

lemma otp_wrong_tries:
  assumes "\<And>s now. (s, now) \<in> set tries \<Longrightarrow> ar_check ar (oc_code_hash c) s = Inr False \<and> now \<le> oc_expires_at c"
    and "oc_consumed_at c = None" "oc_attempts c + int (length tries) \<le> max_attempts"
  shows "fold (\<lambda>(s, now) c. snd (otp_verify ar s now c)) tries c = c\<lparr>oc_attempts := oc_attempts c + int (length tries)\<rparr>"
  using assms
proof (induction tries arbitrary: c)
  case Nil
  then show ?case by simp
next
  case (Cons x tries)
  obtain s now where x: "x = (s, now)" by (cases x)
  have "ar_check ar (oc_code_hash c) s = Inr False \<and> now \<le> oc_expires_at c" using Cons.prems(1) [of s now] x by simp
  then have step: "snd (otp_verify ar s now c) = c\<lparr>oc_attempts := oc_attempts c + 1\<rparr>"
    using Cons.prems(2,3) by (simp add: otp_verify_def)
  show ?case
  proof -
    let ?c = "c\<lparr>oc_attempts := oc_attempts c + 1\<rparr>"
    have "fold (\<lambda>(s, now) c. snd (otp_verify ar s now c)) tries ?c = ?c\<lparr>oc_attempts := oc_attempts ?c + int (length tries)\<rparr>"
    proof (rule Cons.IH)
      show "ar_check ar (oc_code_hash ?c) s = Inr False \<and> now \<le> oc_expires_at ?c" if "(s, now) \<in> set tries" for s now
        using Cons.prems(1) [of s now] that by simp
    qed (use Cons.prems(2,3) in simp_all)
    then show ?thesis using x step by (simp add: add.assoc)
  qed
qed

text \<open>
  A code that was sent works: after up to four wrong guesses, and until its ten minutes are over,
  submitting it succeeds, provided a hash is recognised for the code it was made from and for no
  other of the guesses.
\<close>

lemma otp_code_works:
  assumes "otp_new ar i code sent = Inr c" "\<And>h. ar_hash ar code = Inr h \<Longrightarrow> ar_check ar h code = Inr True"
    and "length tries \<le> 4" "\<And>s t. (s, t) \<in> set tries \<Longrightarrow> ar_check ar (oc_code_hash c) s = Inr False \<and> t \<le> now"
    and "now \<le> sent + minutes 10"
  shows "fst (otp_verify ar code now (fold (\<lambda>(s, t) c. snd (otp_verify ar s t c)) tries c)) = Inr ()"
proof -
  obtain h where h: "ar_hash ar code = Inr h" and c: "oc_code_hash c = h" "oc_attempts c = 0"
    "oc_consumed_at c = None" "oc_expires_at c = sent + minutes 10"
    using assms(1) by (auto simp: otp_new_def hash_code_def res_bind_Inr_iff otp_ttl_minutes_def)
  have "fold (\<lambda>(s, t) c. snd (otp_verify ar s t c)) tries c = c\<lparr>oc_attempts := oc_attempts c + int (length tries)\<rparr>"
  proof (rule otp_wrong_tries)
    show "ar_check ar (oc_code_hash c) s = Inr False \<and> t \<le> oc_expires_at c" if "(s, t) \<in> set tries" for s t
      using assms(4) [OF that] assms(5) c(4) by simp
  qed (use c assms(3) in \<open>simp_all add: max_attempts_def\<close>)
  then show ?thesis
    using c h assms(2,3,5) by (simp add: otp_verify_def max_attempts_def)
qed

lemma length_show_nat: "n < 10 ^ k \<Longrightarrow> 0 < k \<Longrightarrow> length (show_nat n) \<le> k"
proof (induction k arbitrary: n)
  case 0
  then show ?case by simp
next
  case (Suc k)
  show ?case
  proof (cases "n < 10")
    case True
    then show ?thesis by (subst show_nat.simps) simp
  next
    case False
    then have "0 < k" using Suc.prems by (cases k) auto
    moreover have "n div 10 < 10 ^ k" using Suc.prems by (simp add: less_mult_imp_div_less mult.commute)
    ultimately have "length (show_nat (n div 10)) \<le> k" using Suc.IH by blast
    then show ?thesis using False by (subst show_nat.simps) simp
  qed
qed

lemma digits_val_zeros: "digits_val (replicate k (CHR ''0'') @ s) = digits_val s"
proof (induction k)
  case 0
  then show ?case by simp
next
  case (Suc k)
  have "digits_val (CHR ''0'' # t) = digits_val t" for t
    by (simp add: digits_val_def digit_val_def)
  with Suc show ?case by simp
qed

text \<open>
  A code drawn below a million is written with exactly six digits and stands for the number
  drawn, so different draws are different codes.
\<close>

lemma format_code_six_digits:
  assumes "n < 1000000"
  shows "length (format_code n) = 6 \<and> list_all is_ascii_digit (format_code n) \<and> digits_val (format_code n) = n"
proof -
  have "length (show_nat n) \<le> 6" using assms by (intro length_show_nat) simp_all
  moreover have "list_all is_ascii_digit (replicate k (CHR ''0''))" for k
    by (simp add: list_all_iff is_ascii_digit_def)
  ultimately show ?thesis
    using show_nat_digits [of n] by (simp add: format_code_def digits_val_zeros)
qed


section \<open>PINs: the strength rule in arithmetic\<close>

lemma windows2_all_6:
  "windows2_all p [a, b, c, d, e, f] \<longleftrightarrow> p a b \<and> p b c \<and> p c d \<and> p d e \<and> p e f"
  by simp

lemma digits_val_6: "digits_val [a, b, c, d, e, f] =
    100000 * digit_val a + 10000 * digit_val b + 1000 * digit_val c + 100 * digit_val d + 10 * digit_val e + digit_val f"
  by (simp add: digits_val_def)

lemma digits_val_4: "digits_val [a, b, c, d] =
    1000 * digit_val a + 100 * digit_val b + 10 * digit_val c + digit_val d"
  by (simp add: digits_val_def)

lemma digit_val_less: "is_ascii_digit c \<Longrightarrow> digit_val c < 10"
  unfolding is_ascii_digit_def digit_val_def by linarith

lemma digit_val_eq: "is_ascii_digit c \<Longrightarrow> is_ascii_digit d \<Longrightarrow> digit_val c = digit_val d \<longleftrightarrow> c = d"
proof
  assume "is_ascii_digit c" "is_ascii_digit d" "digit_val c = digit_val d"
  then have "(of_char c :: nat) = of_char d" unfolding is_ascii_digit_def digit_val_def by linarith
  then show "c = d" by simp
qed simp

lemma two_digits:
  fixes P Q R :: nat
  assumes "100 * Q + R = 101 * P" "P < 100" "R < 100"
  shows "Q = P \<and> R = P"
proof -
  have "\<not> Q < P" using assms by linarith
  moreover have "\<not> P < Q" using assms by linarith
  ultimately show ?thesis using assms(1) by simp
qed

lemma repeats_iff_dvd:
  fixes a b c d e f :: nat
  assumes "a < 10" "b < 10" "c < 10" "d < 10" "e < 10" "f < 10"
  shows "1001 dvd 100000 * a + 10000 * b + 1000 * c + 100 * d + 10 * e + f \<longleftrightarrow> a = d \<and> b = e \<and> c = f"
    and "10101 dvd 100000 * a + 10000 * b + 1000 * c + 100 * d + 10 * e + f \<longleftrightarrow> a = c \<and> b = d \<and> c = e \<and> d = f"
proof -
  let ?n = "100000 * a + 10000 * b + 1000 * c + 100 * d + 10 * e + f"
  show "1001 dvd ?n \<longleftrightarrow> a = d \<and> b = e \<and> c = f"
  proof
    assume "1001 dvd ?n"
    then obtain k where k: "?n = 1001 * k" by (auto simp: dvd_def)
    have kx: "k = 100 * a + 10 * b + c" using k assms by linarith
    then have "100 * d + 10 * e + f = 100 * a + 10 * b + c" using k by linarith
    moreover from this have "a = d" using assms by linarith
    moreover from calculation have "b = e" using assms by linarith
    ultimately show "a = d \<and> b = e \<and> c = f" by linarith
  next
    assume "a = d \<and> b = e \<and> c = f"
    then have "?n = 1001 * (100 * d + 10 * e + f)" by simp
    then show "1001 dvd ?n" by (metis dvd_triv_left)
  qed
  show "10101 dvd ?n \<longleftrightarrow> a = c \<and> b = d \<and> c = e \<and> d = f"
  proof
    assume "10101 dvd ?n"
    then obtain k where k: "?n = 10101 * k" by (auto simp: dvd_def)
    have kp: "k = 10 * a + b" using k assms by linarith
    have "100 * (10 * c + d) + (10 * e + f) = 101 * (10 * a + b)" using k kp by simp
    then have q: "10 * c + d = 10 * a + b \<and> 10 * e + f = 10 * a + b"
      using assms by (intro two_digits) simp_all
    then have "a = c" using assms by linarith
    moreover have "a = e" using q assms by linarith
    ultimately show "a = c \<and> b = d \<and> c = e \<and> d = f" using q by simp
  next
    assume "a = c \<and> b = d \<and> c = e \<and> d = f"
    then have "?n = 10101 * (10 * e + f)" by simp
    then show "10101 dvd ?n" by (metis dvd_triv_left)
  qed
qed


lemma digits_unique:
  fixes a b c d e f a' b' c' d' e' f' :: nat
  assumes "100000 * a + 10000 * b + 1000 * c + 100 * d + 10 * e + f =
      100000 * a' + 10000 * b' + 1000 * c' + 100 * d' + 10 * e' + f'"
    and "b < 10" "c < 10" "d < 10" "e < 10" "f < 10" "b' < 10" "c' < 10" "d' < 10" "e' < 10" "f' < 10"
  shows "a = a' \<and> b = b' \<and> c = c' \<and> d = d' \<and> e = e' \<and> f = f'"
proof -
  have "a = a'" using assms by linarith
  moreover from this have "b = b'" using assms by linarith
  moreover from calculation have "c = c'" using assms by linarith
  moreover from calculation have "d = d'" using assms by linarith
  moreover from calculation have "e = e'" using assms by linarith
  ultimately show ?thesis using assms(1) by simp
qed

lemma ascending_iff:
  fixes a b c d e f :: nat
  assumes "a < 10" "b < 10" "c < 10" "d < 10" "e < 10" "f < 10"
  shows "b = a + 1 \<and> c = b + 1 \<and> d = c + 1 \<and> e = d + 1 \<and> f = e + 1 \<longleftrightarrow>
    100000 * a + 10000 * b + 1000 * c + 100 * d + 10 * e + f \<in> {12345, 123456, 234567, 345678, 456789}"
proof
  assume run: "b = a + 1 \<and> c = b + 1 \<and> d = c + 1 \<and> e = d + 1 \<and> f = e + 1"
  then have "a < 5" using assms(6) by simp
  then consider "a = 0" | "a = 1" | "a = 2" | "a = 3" | "a = 4" by linarith
  then show "100000 * a + 10000 * b + 1000 * c + 100 * d + 10 * e + f \<in> {12345, 123456, 234567, 345678, 456789}"
    using run by cases simp_all
next
  assume "100000 * a + 10000 * b + 1000 * c + 100 * d + 10 * e + f \<in> {12345, 123456, 234567, 345678, 456789}"
  then consider "100000 * a + 10000 * b + 1000 * c + 100 * d + 10 * e + f = 12345" | "100000 * a + 10000 * b + 1000 * c + 100 * d + 10 * e + f = 123456" | "100000 * a + 10000 * b + 1000 * c + 100 * d + 10 * e + f = 234567" | "100000 * a + 10000 * b + 1000 * c + 100 * d + 10 * e + f = 345678" | "100000 * a + 10000 * b + 1000 * c + 100 * d + 10 * e + f = 456789" by blast
  then show "b = a + 1 \<and> c = b + 1 \<and> d = c + 1 \<and> e = d + 1 \<and> f = e + 1"
  proof cases
    case 1 then show ?thesis using digits_unique [of a b c d e f 0 1 2 3 4 5] assms by simp
  next
    case 2 then show ?thesis using digits_unique [of a b c d e f 1 2 3 4 5 6] assms by simp
  next
    case 3 then show ?thesis using digits_unique [of a b c d e f 2 3 4 5 6 7] assms by simp
  next
    case 4 then show ?thesis using digits_unique [of a b c d e f 3 4 5 6 7 8] assms by simp
  next
    case 5 then show ?thesis using digits_unique [of a b c d e f 4 5 6 7 8 9] assms by simp
  qed
qed

lemma descending_iff:
  fixes a b c d e f :: nat
  assumes "a < 10" "b < 10" "c < 10" "d < 10" "e < 10" "f < 10"
  shows "a = b + 1 \<and> b = c + 1 \<and> c = d + 1 \<and> d = e + 1 \<and> e = f + 1 \<longleftrightarrow>
    100000 * a + 10000 * b + 1000 * c + 100 * d + 10 * e + f \<in> {543210, 654321, 765432, 876543, 987654}"
proof
  assume run: "a = b + 1 \<and> b = c + 1 \<and> c = d + 1 \<and> d = e + 1 \<and> e = f + 1"
  then have "f < 5" using assms(1) by simp
  then consider "f = 0" | "f = 1" | "f = 2" | "f = 3" | "f = 4" by linarith
  then show "100000 * a + 10000 * b + 1000 * c + 100 * d + 10 * e + f \<in> {543210, 654321, 765432, 876543, 987654}"
    using run by cases simp_all
next
  assume "100000 * a + 10000 * b + 1000 * c + 100 * d + 10 * e + f \<in> {543210, 654321, 765432, 876543, 987654}"
  then consider "100000 * a + 10000 * b + 1000 * c + 100 * d + 10 * e + f = 543210" | "100000 * a + 10000 * b + 1000 * c + 100 * d + 10 * e + f = 654321" | "100000 * a + 10000 * b + 1000 * c + 100 * d + 10 * e + f = 765432" | "100000 * a + 10000 * b + 1000 * c + 100 * d + 10 * e + f = 876543" | "100000 * a + 10000 * b + 1000 * c + 100 * d + 10 * e + f = 987654" by blast
  then show "a = b + 1 \<and> b = c + 1 \<and> c = d + 1 \<and> d = e + 1 \<and> e = f + 1"
  proof cases
    case 1 then show ?thesis using digits_unique [of a b c d e f 5 4 3 2 1 0] assms by simp
  next
    case 2 then show ?thesis using digits_unique [of a b c d e f 6 5 4 3 2 1] assms by simp
  next
    case 3 then show ?thesis using digits_unique [of a b c d e f 7 6 5 4 3 2] assms by simp
  next
    case 4 then show ?thesis using digits_unique [of a b c d e f 8 7 6 5 4 3] assms by simp
  next
    case 5 then show ?thesis using digits_unique [of a b c d e f 9 8 7 6 5 4] assms by simp
  qed
qed

lemma parse_digits:
  assumes "s \<noteq> []" "list_all is_ascii_digit s" "digits_val s < bound"
  shows "parse_unsigned bound s = Some (digits_val s)"
  using assms digit_not_special by (cases s) (auto simp: parse_unsigned_def Let_def)

definition year_shaped :: "string \<Rightarrow> bool" where
  "year_shaped pin \<longleftrightarrow> take 2 pin \<in> {''19'', ''20''} \<and> list_all is_ascii_digit (drop 2 pin) \<and>
     (case parse_unsigned (2 ^ 32) (take 4 pin) of
        None \<Rightarrow> False
      | Some year \<Rightarrow> 1940 \<le> year \<and> year \<le> 2030 \<and> drop 4 pin = ''00'')"

lemma year_shaped_iff:
  assumes "list_all is_ascii_digit [a, b, c, d, e, f]"
  shows "year_shaped [a, b, c, d, e, f] \<longleftrightarrow>
    digits_val [a, b, c, d, e, f] mod 100 = 0 \<and> digits_val [a, b, c, d, e, f] div 100 \<in> {1940..2030}"
proof -
  let ?y = "1000 * digit_val a + 100 * digit_val b + 10 * digit_val c + digit_val d"
  have dig: "digit_val a < 10" "digit_val b < 10" "digit_val c < 10" "digit_val d < 10" "digit_val e < 10" "digit_val f < 10"
    using assms digit_val_less by simp_all
  have n: "digits_val [a, b, c, d, e, f] = 100 * ?y + (10 * digit_val e + digit_val f)" by (simp add: digits_val_6)
  have ef: "10 * digit_val e + digit_val f < 100" using dig by simp
  have split100: "(100 * y + r) mod 100 = r \<and> (100 * y + r) div 100 = y" if "r < 100" for y r :: nat
    using that by simp
  have dm: "digits_val [a, b, c, d, e, f] mod 100 = 10 * digit_val e + digit_val f"
    "digits_val [a, b, c, d, e, f] div 100 = ?y"
    unfolding n using split100 [OF ef] by blast+
  have v: "parse_unsigned (2 ^ 32) [a, b, c, d] = Some ?y"
    using assms parse_digits [of "[a, b, c, d]" "2 ^ 32"] dig by (simp add: digits_val_4)
  have zero: "digit_val z = k \<longleftrightarrow> z = digit_char k" if "is_ascii_digit z" "k < 10" for z k
    using that digit_val_eq [of z "digit_char k"] by simp
  have ch: "digit_char 0 = CHR ''0''" "digit_char 1 = CHR ''1''" "digit_char 2 = CHR ''2''" "digit_char 9 = CHR ''9''"
    by code_simp+
  have "1940 \<le> ?y \<and> ?y \<le> 2030 \<Longrightarrow> digit_val a = 1 \<and> digit_val b = 9 \<or> digit_val a = 2 \<and> digit_val b = 0"
  proof -
    assume y: "1940 \<le> ?y \<and> ?y \<le> 2030"
    have "\<not> digit_val a < 1" "\<not> 2 < digit_val a" using y dig by linarith+
    then consider "digit_val a = 1" | "digit_val a = 2" by linarith
    then show ?thesis
    proof cases
      case 1
      then have "\<not> digit_val b < 9" using y dig by linarith
      then show ?thesis using 1 dig(2) by simp
    next
      case 2
      then have "digit_val b < 1" using y dig by linarith
      then show ?thesis using 2 by simp
    qed
  qed
  moreover have "10 * digit_val e + digit_val f = 0 \<longleftrightarrow> e = CHR ''0'' \<and> f = CHR ''0''"
    using assms zero [of e 0] zero [of f 0] ch by simp
  ultimately show ?thesis
    unfolding dm year_shaped_def using v assms zero [of a 1] zero [of b 9] zero [of a 2] zero [of b 0] ch
    by (auto simp: atLeastAtMost_iff)
qed

text \<open>
  The strength rule read as arithmetic: a PIN is accepted exactly when it is six digits whose
  number is no repeated triple (a multiple of 1001), no repeated pair (a multiple of 10101), none of
  the ten runs, and no hundred of a year from 1940 to 2030.
\<close>

theorem pin_strength_arithmetic:
  "validate_pin_strength pin = Inr () \<longleftrightarrow>
    length pin = 6 \<and> list_all is_ascii_digit pin \<and>
    \<not> 1001 dvd digits_val pin \<and> \<not> 10101 dvd digits_val pin \<and>
    digits_val pin \<notin> {12345, 123456, 234567, 345678, 456789} \<and>
    digits_val pin \<notin> {543210, 654321, 765432, 876543, 987654} \<and>
    \<not> (digits_val pin mod 100 = 0 \<and> digits_val pin div 100 \<in> {1940..2030})"
proof (cases "length pin = 6 \<and> list_all is_ascii_digit pin")
  case False
  then show ?thesis by (auto simp: validate_pin_strength_def pin_length_def)
next
  case True
  then obtain a b c d e f where pin: "pin = [a, b, c, d, e, f]"
    by (auto simp: length_Suc_conv eval_nat_numeral)
  have dig: "digit_val a < 10" "digit_val b < 10" "digit_val c < 10" "digit_val d < 10" "digit_val e < 10" "digit_val f < 10"
    using True pin digit_val_less by simp_all
  have "validate_pin_strength pin = Inr () \<longleftrightarrow>
      \<not> (digit_val a = digit_val d \<and> digit_val b = digit_val e \<and> digit_val c = digit_val f) \<and>
      \<not> (digit_val a = digit_val c \<and> digit_val b = digit_val d \<and> digit_val c = digit_val e \<and> digit_val d = digit_val f) \<and>
      \<not> (digit_val b = digit_val a + 1 \<and> digit_val c = digit_val b + 1 \<and> digit_val d = digit_val c + 1 \<and>
         digit_val e = digit_val d + 1 \<and> digit_val f = digit_val e + 1) \<and>
      \<not> (digit_val a = digit_val b + 1 \<and> digit_val b = digit_val c + 1 \<and> digit_val c = digit_val d + 1 \<and>
         digit_val d = digit_val e + 1 \<and> digit_val e = digit_val f + 1) \<and> \<not> year_shaped pin"
    using True unfolding validate_pin_strength_def year_shaped_def [symmetric] Let_def pin_length_def pin
    by auto
  then have "validate_pin_strength pin = Inr () \<longleftrightarrow>
      \<not> 1001 dvd digits_val pin \<and> \<not> 10101 dvd digits_val pin \<and>
      digits_val pin \<notin> {12345, 123456, 234567, 345678, 456789} \<and>
      digits_val pin \<notin> {543210, 654321, 765432, 876543, 987654} \<and> \<not> year_shaped pin"
    unfolding repeats_iff_dvd(1) [OF dig, symmetric] repeats_iff_dvd(2) [OF dig, symmetric]
      ascending_iff [OF dig] descending_iff [OF dig] pin digits_val_6 .
  moreover have "year_shaped pin \<longleftrightarrow> digits_val pin mod 100 = 0 \<and> digits_val pin div 100 \<in> {1940..2030}"
    unfolding pin by (rule year_shaped_iff) (use True pin in simp)
  ultimately show ?thesis using True by (simp only: simp_thms)
qed


section \<open>Tiers\<close>

lemma check_payout_allowed_iff:
  "check_payout t a u = PayoutAllowed \<longleftrightarrow> (\<exists>cap. daily_payout_cap t = Some cap \<and> u + a \<le> cap)"
  by (auto simp: check_payout_def Let_def split: option.splits)

lemma cap_mono: "s \<le> t \<Longrightarrow> daily_payout_cap s = Some c \<Longrightarrow> \<exists>d. daily_payout_cap t = Some d \<and> c \<le> d"
  by (cases s; cases t) (auto simp: less_eq_kyc_tier_def)

lemma tier_roundtrip [simp]: "tier_of_i16 (tier_as_i16 t) = Some t"
  by (cases t) (simp_all add: tier_of_i16_def)

text \<open>
  A payout is allowed exactly up to the tier's cap for the day; raising the tier never refuses
  what was allowed; and the remainder named in a refusal is not negative and could itself be paid
  out when it is positive.
\<close>

theorem payout_cap_exact:
  "(check_payout t amount used = PayoutAllowed \<longleftrightarrow> (\<exists>cap. daily_payout_cap t = Some cap \<and> used + amount \<le> cap)) \<and>
   (check_payout s amount used = PayoutAllowed \<and> s \<le> t \<longrightarrow> check_payout t amount used = PayoutAllowed) \<and>
   (check_payout t amount used = ExceedsDailyCap cap u r \<longrightarrow>
      0 \<le> r \<and> (0 < r \<longrightarrow> check_payout t r used = PayoutAllowed))"
proof (intro conjI impI)
  show "check_payout t amount used = PayoutAllowed \<longleftrightarrow> (\<exists>cap. daily_payout_cap t = Some cap \<and> used + amount \<le> cap)"
    by (rule check_payout_allowed_iff)
next
  assume a: "check_payout s amount used = PayoutAllowed \<and> s \<le> t"
  then obtain c where c: "daily_payout_cap s = Some c" "used + amount \<le> c" by (auto simp: check_payout_allowed_iff)
  obtain d where "daily_payout_cap t = Some d" "c \<le> d" using cap_mono [OF _ c(1)] a by blast
  with c show "check_payout t amount used = PayoutAllowed" by (auto simp: check_payout_allowed_iff)
next
  assume e: "check_payout t amount used = ExceedsDailyCap cap u r"
  then have x: "daily_payout_cap t = Some cap" "r = max (cap - used) 0" "cap - used < amount"
    by (auto simp: check_payout_def Let_def split: option.splits if_splits)
  then show "0 \<le> r" by simp
  show "check_payout t r used = PayoutAllowed" if "0 < r"
    using x that by (auto simp: check_payout_allowed_iff max_def split: if_splits)
qed

theorem payout_cap_exact_witness:
  "check_payout Tier1 20000 30000 = PayoutAllowed \<and> Tier1 \<le> Tier2 \<and> check_payout Tier2 20000 30000 = PayoutAllowed \<and>
   check_payout Tier1 20001 30000 = ExceedsDailyCap 50000 30000 20000 \<and> check_payout Tier1 20000 30000 = PayoutAllowed"
proof -
  have a: "check_payout Tier1 20000 30000 = PayoutAllowed" by (simp add: check_payout_def)
  have t: "Tier1 \<le> Tier2" by (simp add: less_eq_kyc_tier_def)
  have e: "check_payout Tier1 20001 30000 = ExceedsDailyCap 50000 30000 20000"
    by (simp add: check_payout_def Let_def)
  have "check_payout Tier2 20000 30000 = PayoutAllowed" "check_payout Tier1 20000 30000 = PayoutAllowed"
    using payout_cap_exact [of Tier2 20000 30000 Tier1] a t payout_cap_exact [of Tier1 20001 30000 Tier1 50000 30000 20000] e
    by (blast, simp)
  with a t e show ?thesis by blast
qed

end
