(* ===== verification/Auth_Store.thy ===== *)
theory Auth_Store
  imports Auth_Checks Api_Error Ledger_Store Chains
begin

text \<open>
  Accounts and sessions: the tables behind sign-in (migrations 0001, 0002, 0003, 0006, 0007 and 0009),
  the tokens of \<open>crates/auth/src/session.rs\<close>, the Google claims of \<open>crates/auth/src/oidc.rs\<close> and the
  helpers of \<open>crates/api/src/auth_routes.rs\<close>. JWTs, SHA-256 and the address signer are parameters.
\<close>

section \<open>Tables\<close>

record user_row =
  us_id :: uuid
  us_phone :: "string option"
  us_email :: "string option"
  us_index :: int
  us_pin_hash :: "string option"
  us_tier :: int
  us_display_name :: "string option"
  us_avatar_seed :: "string option"
  us_date_of_birth :: "int option"

record identity_row =
  ir_user :: uuid
  ir_provider :: provider
  ir_subject :: string
  ir_email :: "string option"
  ir_phone :: "string option"
  ir_verified_at :: "instant option"

record user_wallet_row =
  uw_user :: uuid
  uw_chain :: chain
  uw_address :: string
  uw_path :: string

record challenge_row =
  ch_id :: uuid
  ch_destination :: string
  ch_channel :: channel
  ch_code_hash :: string
  ch_attempts :: int
  ch_expires_at :: instant
  ch_consumed_at :: "instant option"
  ch_last_sent_at :: instant

record session_row =
  ss_id :: uuid
  ss_user :: uuid
  ss_family :: uuid
  ss_hash :: string
  ss_device :: "string option"
  ss_expires_at :: instant
  ss_rotated_at :: "instant option"
  ss_revoked_at :: "instant option"

record auth_db =
  users :: "user_row list"
  identities :: "identity_row list"
  user_wallets :: "user_wallet_row list"
  challenges :: "challenge_row list"
  sessions :: "session_row list"

section \<open>Parameters\<close>

record access_claims =
  ac_sub :: uuid
  ac_sid :: uuid
  ac_tier :: int
  ac_iss :: string
  ac_iat :: int
  ac_exp :: int

text \<open>
  What a verifier asks of the \<open>jsonwebtoken\<close> crate: issuers, audience, whether \<open>exp\<close> is checked,
  and the tolerance in seconds.
\<close>

record jwt_validation =
  jv_issuers :: "string list"
  jv_audience :: "string option"
  jv_check_exp :: bool
  jv_leeway :: int

record oidc_claims =
  od_sub :: string
  od_iss :: string
  od_aud :: string
  od_exp :: int
  od_email :: "string option"
  od_email_verified :: bool

record derived_address =
  da_chain :: chain
  da_address :: string
  da_path :: string

text \<open>
  \<open>au_code_hasher\<close> and \<open>au_pin_hasher\<close> are Argon2 under the two parameter sets. \<open>au_encode\<close> and
  \<open>au_decode\<close> sign and open an access token under a secret, \<open>au_decode\<close> at the given Unix time;
  \<open>au_decode_id\<close> and \<open>au_kid\<close> read a Google token.
\<close>

record auth_crates =
  au_code_hasher :: argon
  au_pin_hasher :: argon
  au_sha256_hex :: "string \<Rightarrow> string"
  au_encode :: "string \<Rightarrow> access_claims \<Rightarrow> string + string"
  au_decode :: "string \<Rightarrow> string \<Rightarrow> jwt_validation \<Rightarrow> int \<Rightarrow> string + access_claims"
  au_kid :: "string \<Rightarrow> string + string option"
  au_decode_id :: "string \<Rightarrow> string \<Rightarrow> jwt_validation \<Rightarrow> int \<Rightarrow> string + oidc_claims"
  au_to_lowercase :: "string \<Rightarrow> string"
  au_parse_date :: "string \<Rightarrow> int option"

section \<open>Access tokens\<close>

definition access_ttl_minutes :: int where "access_ttl_minutes = 15"
definition refresh_ttl_days :: int where "refresh_ttl_days = 30"
definition token_issuer :: string where "token_issuer = ''naivolt''"

text \<open>\<open>timestamp()\<close>: whole seconds since the epoch.\<close>

definition timestamp :: "instant \<Rightarrow> int" where
  "timestamp t = t div 1000000"

datatype session_error = WeakSecret nat | TokenEncode string | TokenInvalid string

fun session_error_text :: "session_error \<Rightarrow> string" where
  "session_error_text (WeakSecret n) = ''signing secret is '' @ show_nat n @ '' bytes; at least 32 are required''"
| "session_error_text (TokenEncode e) = ''could not sign token: '' @ e"
| "session_error_text (TokenInvalid e) = ''token rejected: '' @ e"

text \<open>\<open>SessionKeys\<close> is the secret it was built from.\<close>

definition keys_from_secret :: "string \<Rightarrow> session_error + string" where
  "keys_from_secret secret = (if length secret < 32 then Inl (WeakSecret (length secret)) else Inr secret)"

definition issue_access :: "auth_crates \<Rightarrow> string \<Rightarrow> uuid \<Rightarrow> uuid \<Rightarrow> int \<Rightarrow> instant \<Rightarrow> session_error + string" where
  "issue_access au keys user_id session_id tier now =
     map_err TokenEncode (au_encode au keys
       \<lparr>ac_sub = user_id, ac_sid = session_id, ac_tier = tier, ac_iss = token_issuer,
        ac_iat = timestamp now, ac_exp = timestamp (now + minutes access_ttl_minutes)\<rparr>)"

definition access_validation :: jwt_validation where
  "access_validation = \<lparr>jv_issuers = [token_issuer], jv_audience = None, jv_check_exp = True, jv_leeway = 30\<rparr>"

definition verify_access :: "auth_crates \<Rightarrow> string \<Rightarrow> string \<Rightarrow> instant \<Rightarrow> session_error + access_claims" where
  "verify_access au keys token now =
     map_err TokenInvalid (au_decode au keys token access_validation (timestamp now))"

section \<open>Refresh tokens\<close>

record refresh_token =
  rt_secret :: string
  rt_hash :: string
  rt_family :: uuid
  rt_expires_at :: instant

definition hash_refresh :: "auth_crates \<Rightarrow> string \<Rightarrow> string" where
  "hash_refresh au secret = au_sha256_hex au secret"

text \<open>\<open>secret\<close> is the hexadecimal of the 32 random bytes, \<open>fresh\<close> the UUID a new family gets.\<close>

definition issue_refresh :: "auth_crates \<Rightarrow> string \<Rightarrow> uuid \<Rightarrow> uuid option \<Rightarrow> instant \<Rightarrow> refresh_token" where
  "issue_refresh au secret fresh family_id now =
     \<lparr>rt_secret = secret, rt_hash = hash_refresh au secret,
      rt_family = (case family_id of None \<Rightarrow> fresh | Some f \<Rightarrow> f),
      rt_expires_at = now + days refresh_ttl_days\<rparr>"

datatype refresh_outcome = Rotate uuid uuid | ReuseDetected uuid | RefreshRejected

definition evaluate_refresh :: "session_row \<Rightarrow> instant \<Rightarrow> refresh_outcome" where
  "evaluate_refresh s now =
     (if ss_rotated_at s \<noteq> None then ReuseDetected (ss_family s)
      else if ss_revoked_at s \<noteq> None \<or> ss_expires_at s \<le> now then RefreshRejected
      else Rotate (ss_user s) (ss_family s))"

section \<open>Google\<close>

definition google_issuers :: "string list" where
  "google_issuers = [''https://accounts.google.com'', ''accounts.google.com'']"

fun expected_issuers :: "provider \<Rightarrow> string list" where
  "expected_issuers ByGoogle = google_issuers"
| "expected_issuers ByPhone = []"
| "expected_issuers ByEmail = []"

datatype oidc_error = OidcMalformed string | MissingKeyId | OidcInvalid string | MissingSubject

record oidc_config =
  og_provider :: provider
  og_audience :: string

definition key_id :: "auth_crates \<Rightarrow> string \<Rightarrow> oidc_error + string" where
  "key_id au token =
     res_bind (map_err OidcMalformed (au_kid au token)) (\<lambda>kid. ok_or MissingKeyId kid)"

definition claims_to_identity :: "oidc_claims \<Rightarrow> oidc_config \<Rightarrow> oidc_error + identity_claim" where
  "claims_to_identity c cfg =
     (if od_sub c = [] then Inl MissingSubject
      else Inr \<lparr>cl_provider = og_provider cfg, cl_subject = od_sub c,
        cl_email = (if od_email_verified c then Option.bind (od_email c) normalize_email else None),
        cl_phone = None\<rparr>)"

definition verify_id_token :: "auth_crates \<Rightarrow> string \<Rightarrow> string \<Rightarrow> oidc_config \<Rightarrow> instant \<Rightarrow> oidc_error + identity_claim" where
  "verify_id_token au token key cfg now =
     res_bind (map_err OidcInvalid (au_decode_id au key token
       \<lparr>jv_issuers = expected_issuers (og_provider cfg), jv_audience = Some (og_audience cfg),
        jv_check_exp = True, jv_leeway = 60\<rparr> (timestamp now)))
     (\<lambda>c. claims_to_identity c cfg)"

section \<open>Conversions to API errors\<close>

definition of_identifier_error :: "identifier_error \<Rightarrow> api_error" where
  "of_identifier_error e = BadRequest (identifier_error_text e)"

fun of_otp_error :: "otp_error \<Rightarrow> api_error" where
  "of_otp_error OeExpired = OtpExpired"
| "of_otp_error OeAlreadyUsed = OtpExpired"
| "of_otp_error OeTooManyAttempts = OtpExpired"
| "of_otp_error (OeIncorrect n) = OtpInvalid n"
| "of_otp_error (OeHash e) = Internal (IMsg e)"

section \<open>Helpers of the sign-in handlers\<close>

fun channel_str :: "channel \<Rightarrow> string" where
  "channel_str Sms = ''sms''"
| "channel_str Mail = ''email''"

definition lookup_matches :: "identity_claim \<Rightarrow> auth_db \<Rightarrow> existing_matches" where
  "lookup_matches claim db =
     \<lparr>by_subject = map_option ir_user (fetch_optional
        (\<lambda>r. ir_provider r = cl_provider claim \<and> ir_subject r = cl_subject claim) (identities db)),
      by_verified_email = (case cl_email claim of
         None \<Rightarrow> None
       | Some e \<Rightarrow> map_option ir_user (fetch_optional
           (\<lambda>r. ir_email r = Some e \<and> ir_verified_at r \<noteq> None) (identities db))),
      by_verified_phone = (case cl_phone claim of
         None \<Rightarrow> None
       | Some p \<Rightarrow> map_option ir_user (fetch_optional
           (\<lambda>r. ir_phone r = Some p \<and> ir_verified_at r \<noteq> None) (identities db)))\<rparr>"

text \<open>\<open>ON CONFLICT (provider, subject) DO NOTHING\<close>, and the foreign key to the user.\<close>

definition attach_identity :: "instant \<Rightarrow> uuid \<Rightarrow> identity_claim \<Rightarrow> auth_db \<Rightarrow> db_error + auth_db" where
  "attach_identity now user_id claim db =
     (if (cl_provider claim, cl_subject claim) \<in> (\<lambda>r. (ir_provider r, ir_subject r)) ` set (identities db) then Inr db
      else if user_id \<notin> us_id ` set (users db) then Inl ForeignKeyViolation
      else Inr (db\<lparr>identities := identities db @
        [\<lparr>ir_user = user_id, ir_provider = cl_provider claim, ir_subject = cl_subject claim,
          ir_email = cl_email claim, ir_phone = cl_phone claim, ir_verified_at = Some now\<rparr>]\<rparr>))"

text \<open>
  \<open>users\<close>: a contact method is required, phone and e-mail are unique, and the address index, which
  the identity column hands out, is below 2^31.
\<close>

definition users_ok :: "user_row list \<Rightarrow> bool" where
  "users_ok rows \<longleftrightarrow> distinct (map us_id rows) \<and> distinct (map us_index rows) \<and>
     distinct (filter (\<lambda>x. x \<noteq> None) (map us_phone rows)) \<and>
     distinct (filter (\<lambda>x. x \<noteq> None) (map us_email rows))"

definition user_row_ok :: "user_row \<Rightarrow> bool" where
  "user_row_ok r \<longleftrightarrow> (us_phone r \<noteq> None \<or> us_email r \<noteq> None) \<and> us_index r < 2 ^ 31"

definition put_users :: "user_row list \<Rightarrow> auth_db \<Rightarrow> db_error + auth_db" where
  "put_users rows db =
     (if \<not> list_all user_row_ok rows then Inl CheckViolation
      else if \<not> users_ok rows then Inl UniqueViolation
      else Inr (db\<lparr>users := rows\<rparr>))"

fun insert_wallets :: "uuid \<Rightarrow> derived_address list \<Rightarrow> auth_db \<Rightarrow> db_error + auth_db" where
  "insert_wallets user_id [] db = Inr db"
| "insert_wallets user_id (d # ds) db =
     (if (user_id, da_chain d) \<in> (\<lambda>w. (uw_user w, uw_chain w)) ` set (user_wallets db) \<or>
         (da_chain d, da_address d) \<in> (\<lambda>w. (uw_chain w, uw_address w)) ` set (user_wallets db)
      then Inl UniqueViolation
      else insert_wallets user_id ds (db\<lparr>user_wallets := user_wallets db @
        [\<lparr>uw_user = user_id, uw_chain = da_chain d, uw_address = da_address d, uw_path = da_path d\<rparr>]\<rparr>))"

text \<open>
  \<open>index\<close> is the next value of the identity column; \<open>derive\<close> asks the signer for the addresses of
  an index.
\<close>

definition create_user :: "(nat \<Rightarrow> internal_error + derived_address list) \<Rightarrow> env \<Rightarrow> int \<Rightarrow> identity_claim \<Rightarrow> auth_db \<Rightarrow>
    api_error + (uuid \<times> auth_db)" where
  "create_user derive env index claim db =
     (let user_id = new_id env 0;
          row = \<lparr>us_id = user_id, us_phone = cl_phone claim, us_email = cl_email claim, us_index = index,
            us_pin_hash = None, us_tier = 0, us_display_name = None, us_avatar_seed = None,
            us_date_of_birth = None\<rparr>
      in res_bind (map_err from_sqlx (put_users (users db @ [row]) db)) (\<lambda>db1.
         res_bind (map_err from_sqlx (attach_identity (sql_now env) user_id claim db1)) (\<lambda>db2.
         if index < 0 \<or> 2 ^ 32 \<le> index
         then Inl (Internal (IMsg (''address index '' @ show_int index @ '' out of range'')))
         else
           res_bind (map_err Internal (derive (nat index))) (\<lambda>addresses.
           res_bind (map_err from_sqlx (insert_wallets user_id addresses db2)) (\<lambda>db3.
           Inr (user_id, db3))))))"

record user_response =
  ur_id :: uuid
  ur_email :: "string option"
  ur_phone :: "string option"
  ur_tier :: int
  ur_has_pin :: bool

definition load_user :: "uuid \<Rightarrow> auth_db \<Rightarrow> db_error + user_response" where
  "load_user user_id db =
     (case fetch_optional (\<lambda>r. us_id r = user_id) (users db) of
        None \<Rightarrow> Inl RowNotFound
      | Some r \<Rightarrow> Inr \<lparr>ur_id = us_id r, ur_email = us_email r, ur_phone = us_phone r,
          ur_tier = us_tier r, ur_has_pin = (us_pin_hash r \<noteq> None)\<rparr>)"

definition insert_session :: "session_row \<Rightarrow> auth_db \<Rightarrow> db_error + auth_db" where
  "insert_session s db =
     (if ss_hash s \<in> ss_hash ` set (sessions db) \<or> ss_id s \<in> ss_id ` set (sessions db) then Inl UniqueViolation
      else if ss_user s \<notin> us_id ` set (users db) then Inl ForeignKeyViolation
      else Inr (db\<lparr>sessions := sessions db @ [s]\<rparr>))"

definition start_session :: "auth_crates \<Rightarrow> string \<Rightarrow> env \<Rightarrow> string \<Rightarrow> uuid \<Rightarrow> int \<Rightarrow> string option \<Rightarrow> instant \<Rightarrow> auth_db \<Rightarrow>
    api_error + ((string \<times> string) \<times> auth_db)" where
  "start_session au keys env secret user_id tier device now db =
     (let refresh = issue_refresh au secret (new_id env 1) None now in
      res_bind (map_err from_sqlx (insert_session
        \<lparr>ss_id = new_id env 2, ss_user = user_id, ss_family = rt_family refresh, ss_hash = rt_hash refresh,
         ss_device = device, ss_expires_at = rt_expires_at refresh, ss_rotated_at = None, ss_revoked_at = None\<rparr> db))
      (\<lambda>db1.
      res_bind (map_err (\<lambda>e. Internal (IMsg (session_error_text e))) (issue_access au keys user_id (rt_family refresh) tier now))
      (\<lambda>access. Inr ((access, rt_secret refresh), db1))))"

end
