(* ===== verification/Auth_Routes.thy ===== *)
theory Auth_Routes
  imports Auth_Store
begin

text \<open>
  The handlers of \<open>crates/api/src/auth_routes.rs\<close>, with the session cookie
  (\<open>crates/api/src/session_cookie.rs\<close>), the bearer check (\<open>crates/api/src/middleware.rs\<close>) and the two
  writes of \<open>crates/api/src/user_routes.rs\<close>. A handler returns its answer and the tables; an error
  inside its transaction leaves them as they were. Where masking can panic the answer is an option,
  \<open>None\<close> being the panic, which drops the transaction too.
\<close>

section \<open>Requesting a code\<close>

record otp_response =
  op_channel :: string
  op_retry_after :: int
  op_sent_to :: string

text \<open>Constraints of \<open>otp_challenges\<close>: one live row per destination, and the channel fits it.\<close>

definition insert_challenge :: "challenge_row \<Rightarrow> auth_db \<Rightarrow> db_error + auth_db" where
  "insert_challenge c db =
     (if \<not> (case ch_channel c of
           Mail \<Rightarrow> CHR ''@'' \<in> set (ch_destination c)
         | Sms \<Rightarrow> prefix ''+'' (ch_destination c) \<and> CHR ''@'' \<notin> set (ch_destination c)) then Inl CheckViolation
      else if ch_id c \<in> ch_id ` set (challenges db) \<or>
          list_ex (\<lambda>r. ch_destination r = ch_destination c \<and> ch_consumed_at r = None) (challenges db)
      then Inl UniqueViolation
      else Inr (db\<lparr>challenges := challenges db @ [c]\<rparr>))"

text \<open>The latest send to a destination: \<open>ORDER BY last_sent_at DESC LIMIT 1\<close>.\<close>

definition last_send :: "string \<Rightarrow> auth_db \<Rightarrow> instant option" where
  "last_send destination db =
     (case map ch_last_sent_at (filter (\<lambda>r. ch_destination r = destination) (challenges db)) of
        [] \<Rightarrow> None
      | t # ts \<Rightarrow> Some (fold max ts t))"

text \<open>\<open>num_seconds()\<close>: whole seconds, cut towards zero.\<close>

definition num_seconds :: "int \<Rightarrow> int" where
  "num_seconds d = (if d < 0 then - (- d div 1000000) else d div 1000000)"

text \<open>
  \<open>dev\<close> is the fixed development code, \<open>drawn\<close> the number drawn for a fresh one, \<open>send\<close> the
  notifier.
\<close>

definition request_otp :: "auth_crates \<Rightarrow> env \<Rightarrow> (string \<Rightarrow> channel \<Rightarrow> string \<Rightarrow> internal_error + unit) \<Rightarrow>
    string option \<Rightarrow> nat \<Rightarrow> string \<Rightarrow> auth_db \<Rightarrow> (api_error + otp_response) option \<times> auth_db" where
  "request_otp au env send dev drawn input db =
     (case parse_identifier input of
        Inl e \<Rightarrow> (Some (Inl (of_identifier_error e)), db)
      | Inr i \<Rightarrow>
          (let now = app_now env;
               throttled = (case last_send (id_subject i) db of
                  None \<Rightarrow> None
                | Some sent \<Rightarrow>
                    (let elapsed = num_seconds (now - sent) in
                     if elapsed < resend_cooldown_seconds then Some (resend_cooldown_seconds - elapsed) else None));
               code = (case dev of Some fixed \<Rightarrow> fixed | None \<Rightarrow> format_code drawn)
           in case throttled of
                Some wait \<Rightarrow> (Some (Inl (OtpThrottled wait)), db)
              | None \<Rightarrow>
                  (case otp_new (au_code_hasher au) i code now of
                     Inl e \<Rightarrow> (Some (Inl (Internal (IMsg (otp_error_text e)))), db)
                   | Inr c \<Rightarrow>
                  (case insert_challenge
                      \<lparr>ch_id = new_id env 0, ch_destination = oc_destination c, ch_channel = oc_channel c,
                       ch_code_hash = oc_code_hash c, ch_attempts = 0, ch_expires_at = oc_expires_at c,
                       ch_consumed_at = None, ch_last_sent_at = oc_last_sent_at c\<rparr>
                      (db\<lparr>challenges := filter (\<lambda>r. \<not> (ch_destination r = id_subject i \<and> ch_consumed_at r = None))
                         (challenges db)\<rparr>) of
                     Inl e \<Rightarrow> (Some (Inl (from_sqlx e)), db)
                   | Inr db1 \<Rightarrow>
                  (case send (oc_destination c) (oc_channel c) code of
                     Inl e \<Rightarrow> (Some (Inl (Internal e)), db)
                   | Inr () \<Rightarrow>
                       (map_option (\<lambda>m. Inr \<lparr>op_channel = channel_str (oc_channel c),
                          op_retry_after = resend_cooldown_seconds, op_sent_to = m\<rparr>) (masked i), db1))))))"

section \<open>Signing in\<close>

record session_response =
  sr_token :: string
  sr_refresh :: string
  sr_is_new :: bool
  sr_user :: user_response

text \<open>The parameters of a sign-in: the signer, the next address index, the keys and the refresh secret.\<close>

record sign_in_env =
  si_derive :: "nat \<Rightarrow> internal_error + derived_address list"
  si_index :: int
  si_keys :: string
  si_secret :: string

definition finish_sign_in :: "auth_crates \<Rightarrow> sign_in_env \<Rightarrow> env \<Rightarrow> string option \<Rightarrow> instant \<Rightarrow> uuid \<Rightarrow> bool \<Rightarrow> auth_db \<Rightarrow>
    api_error + (session_response \<times> auth_db)" where
  "finish_sign_in au si env device now user_id is_new db =
     res_bind (map_err from_sqlx (load_user user_id db)) (\<lambda>user.
     res_bind (start_session au (si_keys si) env (si_secret si) user_id (ur_tier user) device now db) (\<lambda>((token, refresh), db1).
     Inr (\<lparr>sr_token = token, sr_refresh = refresh, sr_is_new = is_new, sr_user = user\<rparr>, db1)))"

text \<open>
  What both sign-ins do with a proven claim. \<open>label\<close> is the masked identifier a new account is
  logged under and \<open>conflict_label\<close> the one of a conflict; either may be a panic.
\<close>

definition sign_in_claim :: "auth_crates \<Rightarrow> sign_in_env \<Rightarrow> env \<Rightarrow> identity_claim \<Rightarrow> string option \<Rightarrow> string option \<Rightarrow>
    string option \<Rightarrow> instant \<Rightarrow> auth_db \<Rightarrow> (api_error + (session_response \<times> auth_db)) option" where
  "sign_in_claim au si env claim label conflict_label device now db =
     (case resolve claim (lookup_matches claim db) of
        Existing user_id \<Rightarrow> Some (finish_sign_in au si env device now user_id False db)
      | LinkTo user_id \<Rightarrow>
          Some (res_bind (map_err from_sqlx (attach_identity (sql_now env) user_id claim db))
            (\<lambda>db1. finish_sign_in au si env device now user_id False db1))
      | CreateNew \<Rightarrow>
          (case label of
             None \<Rightarrow> None
           | Some _ \<Rightarrow> Some (res_bind (create_user (si_derive si) env (si_index si) claim db)
               (\<lambda>(user_id, db1). finish_sign_in au si env device now user_id True db1)))
      | IdentityConflict _ _ \<Rightarrow>
          (case conflict_label of
             None \<Rightarrow> None
           | Some _ \<Rightarrow> Some (Inl (BadRequest ''We can't sign you in automatically. Please contact support.''))))"

text \<open>
  \<open>verify_otp\<close>. The attempt is counted and kept when the code is wrong; an error or a panic after a
  right code drops the whole transaction.
\<close>

definition challenge_of_row :: "sign_in \<Rightarrow> instant \<Rightarrow> challenge_row \<Rightarrow> otp_challenge" where
  "challenge_of_row i now r = \<lparr>oc_destination = id_subject i, oc_channel = id_channel i,
     oc_code_hash = ch_code_hash r, oc_expires_at = ch_expires_at r, oc_attempts = ch_attempts r,
     oc_consumed_at = ch_consumed_at r, oc_last_sent_at = now\<rparr>"

definition save_attempt :: "uuid \<Rightarrow> otp_challenge \<Rightarrow> auth_db \<Rightarrow> auth_db" where
  "save_attempt i c db = db\<lparr>challenges := update_where (\<lambda>r. ch_id r = i)
     (\<lambda>r. r\<lparr>ch_attempts := oc_attempts c, ch_consumed_at := oc_consumed_at c\<rparr>) (challenges db)\<rparr>"

definition verify_otp :: "auth_crates \<Rightarrow> sign_in_env \<Rightarrow> env \<Rightarrow> string \<Rightarrow> string \<Rightarrow> string option \<Rightarrow> auth_db \<Rightarrow>
    (api_error + session_response) option \<times> auth_db" where
  "verify_otp au si env input code device db =
     (case parse_identifier input of
        Inl e \<Rightarrow> (Some (Inl (of_identifier_error e)), db)
      | Inr i \<Rightarrow>
     (case fetch_optional (\<lambda>r. ch_destination r = id_subject i \<and> ch_consumed_at r = None) (challenges db) of
        None \<Rightarrow> (Some (Inl OtpExpired), db)
      | Some row \<Rightarrow>
          (let now = app_now env;
               (result, c) = otp_verify (au_code_hasher au) code now (challenge_of_row i now row);
               db1 = save_attempt (ch_id row) c db
           in case result of
                Inl e \<Rightarrow> (Some (Inl (of_otp_error e)), db1)
              | Inr () \<Rightarrow>
                  (case sign_in_claim au si env (from_verified_otp i) (masked i) (masked i) device now db1 of
                     None \<Rightarrow> (None, db)
                   | Some (Inl e) \<Rightarrow> (Some (Inl e), db)
                   | Some (Inr (resp, db2)) \<Rightarrow> (Some (Inr resp), db2)))))"

text \<open>\<open>google_sign_in\<close>. \<open>key_of\<close> is the cache of Google's keys.\<close>

record google_config =
  gc_client_id :: "string option"
  gc_allowed :: "string list"
  gc_key_of :: "string \<Rightarrow> api_error + string"

definition google_permitted :: "string list \<Rightarrow> identity_claim \<Rightarrow> bool" where
  "google_permitted allowed claim \<longleftrightarrow> allowed = [] \<or>
     (case cl_email claim of None \<Rightarrow> False | Some e \<Rightarrow> to_ascii_lowercase e \<in> set allowed)"

definition google_label :: "identity_claim \<Rightarrow> string option" where
  "google_label claim = (case cl_email claim of
     Some e \<Rightarrow> masked (Email e) | None \<Rightarrow> Some (''google:'' @ cl_subject claim))"

definition google_sign_in :: "auth_crates \<Rightarrow> sign_in_env \<Rightarrow> google_config \<Rightarrow> env \<Rightarrow> string \<Rightarrow> string option \<Rightarrow> auth_db \<Rightarrow>
    (api_error + session_response) option \<times> auth_db" where
  "google_sign_in au si cfg env credential device db =
     (case gc_client_id cfg of
        None \<Rightarrow> (Some (Inl (ServiceUnavailable ''Google sign-in isn't set up yet.'')), db)
      | Some audience \<Rightarrow>
     (case key_id au credential of
        Inl _ \<Rightarrow> (Some (Inl Unauthorized), db)
      | Inr kid \<Rightarrow>
     (case gc_key_of cfg kid of
        Inl e \<Rightarrow> (Some (Inl e), db)
      | Inr key \<Rightarrow>
     (case verify_id_token au credential key \<lparr>og_provider = ByGoogle, og_audience = audience\<rparr> (app_now env) of
        Inl _ \<Rightarrow> (Some (Inl Unauthorized), db)
      | Inr claim \<Rightarrow>
          if \<not> google_permitted (gc_allowed cfg) claim
          then (Some (Inl (BadRequest ''Naivolt isn't open yet. This account isn't on the early access list.'')), db)
          else
            (case sign_in_claim au si env claim (google_label claim) (Some (cl_subject claim)) device (app_now env) db of
               None \<Rightarrow> (None, db)
             | Some (Inl e) \<Rightarrow> (Some (Inl e), db)
             | Some (Inr (resp, db1)) \<Rightarrow> (Some (Inr resp), db1))))))"

section \<open>The session cookie\<close>

definition cookie_name :: string where "cookie_name = ''naivolt_refresh''"
definition max_age_seconds :: int where "max_age_seconds = 7 * 24 * 60 * 60"

definition cookie_secure :: "string \<Rightarrow> bool" where
  "cookie_secure url \<longleftrightarrow> prefix ''https://'' url"

definition cookie_value :: "string \<Rightarrow> int \<Rightarrow> bool \<Rightarrow> string" where
  "cookie_value secret max_age secure =
     cookie_name @ ''='' @ secret @ ''; Max-Age='' @ show_int max_age @ ''; Path=/api/v1/auth; HttpOnly; SameSite=Lax'' @
     (if secure then ''; Secure'' else [])"

definition set_refresh :: "string \<Rightarrow> bool \<Rightarrow> string" where
  "set_refresh secret secure = cookie_value secret max_age_seconds secure"

definition clear_refresh :: "bool \<Rightarrow> string" where
  "clear_refresh secure = cookie_value [] 0 secure"

fun cookie_in_parts :: "string list \<Rightarrow> string option" where
  "cookie_in_parts [] = None"
| "cookie_in_parts (part # parts) =
     (case split_once (CHR ''='') (trim part) of
        None \<Rightarrow> cookie_in_parts parts
      | Some (name, v) \<Rightarrow>
          if name = cookie_name then (if trim v = [] then None else Some (trim v))
          else cookie_in_parts parts)"

definition cookie_from_header :: "string option \<Rightarrow> string option" where
  "cookie_from_header header =
     (case header of None \<Rightarrow> None | Some h \<Rightarrow> cookie_in_parts (split_on (CHR '';'') h))"

text \<open>\<open>header\<close> is the \<open>Cookie\<close> header when it is text.\<close>

definition presented_refresh :: "string option \<Rightarrow> string option \<Rightarrow> string option" where
  "presented_refresh header body =
     (case map_option trim body of
        Some secret \<Rightarrow> if secret \<noteq> [] then Some secret else cookie_from_header header
      | None \<Rightarrow> cookie_from_header header)"

section \<open>Refreshing, unlocking, logging out\<close>

definition revoke_family :: "instant \<Rightarrow> uuid \<Rightarrow> auth_db \<Rightarrow> auth_db" where
  "revoke_family now family db = db\<lparr>sessions := update_where
     (\<lambda>s. ss_family s = family \<and> ss_revoked_at s = None) (\<lambda>s. s\<lparr>ss_revoked_at := Some now\<rparr>) (sessions db)\<rparr>"

definition rotate_session :: "auth_crates \<Rightarrow> string \<Rightarrow> env \<Rightarrow> string \<Rightarrow> session_row \<Rightarrow> auth_db \<Rightarrow>
    api_error + ((string \<times> string) \<times> auth_db)" where
  "rotate_session au keys env secret s db =
     (let now = app_now env;
          db1 = db\<lparr>sessions := update_where (\<lambda>r. ss_id r = ss_id s) (\<lambda>r. r\<lparr>ss_rotated_at := Some now\<rparr>) (sessions db)\<rparr>
      in case fetch_optional (\<lambda>r. us_id r = ss_user s) (users db1) of
           None \<Rightarrow> Inl NotFound
         | Some u \<Rightarrow>
             (let next = issue_refresh au secret (new_id env 1) (Some (ss_family s)) now in
              res_bind (map_err from_sqlx (insert_session
                \<lparr>ss_id = new_id env 2, ss_user = ss_user s, ss_family = ss_family s, ss_hash = rt_hash next,
                 ss_device = None, ss_expires_at = rt_expires_at next, ss_rotated_at = None, ss_revoked_at = None\<rparr> db1))
              (\<lambda>db2.
              res_bind (map_err (\<lambda>e. Internal (IMsg (session_error_text e)))
                (issue_access au keys (ss_user s) (ss_family s) (us_tier u) now))
              (\<lambda>access. Inr ((access, rt_secret next), db2)))))"

definition refresh :: "auth_crates \<Rightarrow> string \<Rightarrow> env \<Rightarrow> string \<Rightarrow> string option \<Rightarrow> string option \<Rightarrow> auth_db \<Rightarrow>
    (api_error + (string \<times> string)) \<times> auth_db" where
  "refresh au keys env secret header body db =
     (case presented_refresh header body of
        None \<Rightarrow> (Inl Unauthorized, db)
      | Some presented \<Rightarrow>
     (case fetch_optional (\<lambda>s. ss_hash s = hash_refresh au presented) (sessions db) of
        None \<Rightarrow> (Inl Unauthorized, db)
      | Some s \<Rightarrow>
          (case evaluate_refresh s (app_now env) of
             ReuseDetected family \<Rightarrow> (Inl Unauthorized, revoke_family (app_now env) family db)
           | RefreshRejected \<Rightarrow> (Inl Unauthorized, db)
           | Rotate _ _ \<Rightarrow>
               (case rotate_session au keys env secret s db of
                  Inl e \<Rightarrow> (Inl e, db)
                | Inr (pair, db1) \<Rightarrow> (Inr pair, db1)))))"

definition unlock :: "auth_crates \<Rightarrow> string \<Rightarrow> env \<Rightarrow> string \<Rightarrow> string option \<Rightarrow> string \<Rightarrow> string \<Rightarrow> auth_db \<Rightarrow>
    (api_error + (string \<times> string)) \<times> auth_db" where
  "unlock au keys env secret header token pin db =
     (case fetch_optional (\<lambda>s. ss_hash s = hash_refresh au token \<and> ss_revoked_at s = None \<and>
          ss_user s \<in> us_id ` set (users db)) (sessions db) of
        None \<Rightarrow> (Inl Unauthorized, db)
      | Some s \<Rightarrow>
     (case Option.bind (fetch_optional (\<lambda>u. us_id u = ss_user s) (users db)) us_pin_hash of
        None \<Rightarrow> (Inl Unauthorized, db)
      | Some pin_hash \<Rightarrow>
     (case verify_pin (au_pin_hasher au) pin pin_hash of
        Inl e \<Rightarrow> (Inl (Internal (IMsg (pin_error_text e))), db)
      | Inr False \<Rightarrow> (Inl (PinInvalid 0), db)
      | Inr True \<Rightarrow> refresh au keys env secret header (Some token) db)))"

definition logout :: "auth_crates \<Rightarrow> instant \<Rightarrow> string option \<Rightarrow> string option \<Rightarrow> auth_db \<Rightarrow> auth_db" where
  "logout au now header body db =
     (case presented_refresh header body of
        None \<Rightarrow> db
      | Some secret \<Rightarrow>
     (case fetch_optional (\<lambda>s. ss_hash s = hash_refresh au secret) (sessions db) of
        None \<Rightarrow> db
      | Some s \<Rightarrow> revoke_family now (ss_family s) db))"

section \<open>The bearer token\<close>

record current_user =
  cu_id :: uuid
  cu_tier_at_issue :: int
  cu_session_family :: uuid

definition strip_prefix :: "string \<Rightarrow> string \<Rightarrow> string option" where
  "strip_prefix p s = (if prefix p s then Some (drop (length p) s) else None)"

definition current_user :: "auth_crates \<Rightarrow> string \<Rightarrow> instant \<Rightarrow> string option \<Rightarrow> api_error + current_user" where
  "current_user au keys now authorization =
     res_bind (ok_or Unauthorized authorization) (\<lambda>header.
     res_bind (ok_or Unauthorized (case strip_prefix ''Bearer '' header of
        Some t \<Rightarrow> Some t | None \<Rightarrow> strip_prefix ''bearer '' header)) (\<lambda>token.
     res_bind (map_err (\<lambda>_. Unauthorized) (verify_access au keys (trim token) now)) (\<lambda>c.
     Inr \<lparr>cu_id = ac_sub c, cu_tier_at_issue = ac_tier c, cu_session_family = ac_sid c\<rparr>)))"

section \<open>The profile\<close>

definition set_pin :: "auth_crates \<Rightarrow> uuid \<Rightarrow> string \<Rightarrow> auth_db \<Rightarrow> (api_error + unit) \<times> auth_db" where
  "set_pin au user pin db =
     (case hash_pin (au_pin_hasher au) pin of
        Inl e \<Rightarrow> (Inl (BadRequest (pin_error_text e)), db)
      | Inr h \<Rightarrow> (Inr (), db\<lparr>users := update_where (\<lambda>u. us_id u = user) (\<lambda>u. u\<lparr>us_pin_hash := Some h\<rparr>) (users db)\<rparr>))"

record update_me_body =
  um_display_name :: "string option"
  um_avatar_seed :: "string option"
  um_email :: "string option"
  um_date_of_birth :: "string option"

text \<open>\<open>chars().count()\<close>.\<close>

definition char_count :: "string \<Rightarrow> nat" where
  "char_count s = length (filter (\<lambda>c. \<not> continuation c) s)"

definition name_check :: "string \<Rightarrow> api_error + unit" where
  "name_check name =
     (if trim name = [] then Inl (BadRequest ''Enter a name.'')
      else if 60 < char_count (trim name) then Inl (BadRequest ''That name is too long.'')
      else Inr ())"

definition email_check :: "string \<Rightarrow> api_error + unit" where
  "email_check email =
     (let t = trim email in
      if 3 \<le> length t \<and> length (filter (\<lambda>c. c = CHR ''@'') t) = 1 \<and> \<not> prefix ''@'' t \<and> \<not> suffix ''@'' t \<and>
         CHR '' '' \<notin> set t
      then Inr () else Inl (BadRequest ''That email doesn't look right.''))"

text \<open>\<open>num_days() / 365\<close>, cut towards zero.\<close>

definition age_in_years :: "int \<Rightarrow> int \<Rightarrow> int" where
  "age_in_years today born = (if today < born then - ((born - today) div 365) else (today - born) div 365)"

definition birth_check :: "auth_crates \<Rightarrow> int \<Rightarrow> string \<Rightarrow> api_error + int" where
  "birth_check au today raw =
     res_bind (ok_or (BadRequest ''Enter your date of birth as YYYY-MM-DD.'') (au_parse_date au (trim raw))) (\<lambda>born.
     if age_in_years today born < 18 then Inl (BadRequest ''You must be 18 or older.'')
     else if 120 < age_in_years today born then Inl (BadRequest ''Check that date of birth.'')
     else Inr born)"

definition check_opt :: "('a \<Rightarrow> 'e + 'b) \<Rightarrow> 'a option \<Rightarrow> 'e + 'b option" where
  "check_opt f x = (case x of None \<Rightarrow> Inr None | Some a \<Rightarrow> res_bind (f a) (\<lambda>b. Inr (Some b)))"

definition coalesce :: "'a option \<Rightarrow> 'a option \<Rightarrow> 'a option" where
  "coalesce x y = (case x of None \<Rightarrow> y | Some a \<Rightarrow> Some a)"

text \<open>The update half of \<open>update_me\<close>; its answer is that of \<open>me\<close>, a read.\<close>

definition update_me :: "auth_crates \<Rightarrow> int \<Rightarrow> uuid \<Rightarrow> update_me_body \<Rightarrow> auth_db \<Rightarrow> (api_error + unit) \<times> auth_db" where
  "update_me au today user body db =
     (case res_bind (check_opt name_check (um_display_name body)) (\<lambda>_.
           res_bind (check_opt email_check (um_email body)) (\<lambda>_.
           check_opt (birth_check au today) (um_date_of_birth body))) of
        Inl e \<Rightarrow> (Inl e, db)
      | Inr dob \<Rightarrow>
          (case put_users (update_where (\<lambda>u. us_id u = user)
              (\<lambda>u. u\<lparr>us_display_name := coalesce (map_option trim (um_display_name body)) (us_display_name u),
                 us_avatar_seed := coalesce (map_option trim (um_avatar_seed body)) (us_avatar_seed u),
                 us_email := coalesce (map_option (\<lambda>e. au_to_lowercase au (trim e)) (um_email body)) (us_email u),
                 us_date_of_birth := coalesce dob (us_date_of_birth u)\<rparr>) (users db)) db of
             Inl UniqueViolation \<Rightarrow> (Inl (BadRequest ''That email is already on another account.''), db)
           | Inl e \<Rightarrow> (Inl (Internal (IDb e)), db)
           | Inr db1 \<Rightarrow> (Inr (), db1)))"

end
