(* ===== verification/Auth_Runs.thy ===== *)
theory Auth_Runs
  imports Auth_Routes
begin

text \<open>
  What sign-in guarantees over every run of its handlers: one live refresh token per login, the death
  of a family whose token was replayed, identities that never change hands, and the pace of codes.
\<close>

section \<open>Runs\<close>

definition fresh_family :: "env \<Rightarrow> auth_db \<Rightarrow> bool" where
  "fresh_family env db \<longleftrightarrow> new_id env 1 \<notin> ss_family ` set (sessions db)"

text \<open>
  The steps: every handler, and the grant of a tier by the KYC routes. A new login's family is a
  UUID not seen before.
\<close>

inductive auth_step :: "auth_crates \<Rightarrow> auth_db \<Rightarrow> auth_db \<Rightarrow> bool" for au :: auth_crates where
  request: "auth_step au db (snd (request_otp au env send dev n input db))"
| verify: "fresh_family env db \<Longrightarrow> auth_step au db (snd (verify_otp au si env input code device db))"
| google: "fresh_family env db \<Longrightarrow> auth_step au db (snd (google_sign_in au si cfg env credential device db))"
| refresh: "auth_step au db (snd (refresh au keys env secret header body db))"
| unlock: "auth_step au db (snd (unlock au keys env secret header token pin db))"
| logout: "auth_step au db (logout au now header body db)"
| pin: "auth_step au db (snd (set_pin au user pin db))"
| profile: "auth_step au db (snd (update_me au today user body db))"
| tier: "auth_step au db (db\<lparr>users := update_where p (\<lambda>u. u\<lparr>us_tier := t\<rparr>) (users db)\<rparr>)"

inductive auth_reach :: "auth_crates \<Rightarrow> auth_db \<Rightarrow> auth_db \<Rightarrow> bool" for au :: auth_crates and start :: auth_db where
  refl: "auth_reach au start start"
| step: "auth_reach au start db \<Longrightarrow> auth_step au db db' \<Longrightarrow> auth_reach au start db'"

definition empty_auth :: auth_db where
  "empty_auth = \<lparr>users = [], identities = [], user_wallets = [], challenges = [], sessions = []\<rparr>"

section \<open>How each handler writes the tables\<close>

lemma put_users_Inr: "put_users rows db = Inr db' \<longleftrightarrow> list_all user_row_ok rows \<and> users_ok rows \<and> db' = db\<lparr>users := rows\<rparr>"
  by (auto simp: put_users_def)

lemma attach_identity_Inr:
  "attach_identity now u claim db = Inr db' \<longleftrightarrow>
    (if (cl_provider claim, cl_subject claim) \<in> (\<lambda>r. (ir_provider r, ir_subject r)) ` set (identities db) then db' = db
     else u \<in> us_id ` set (users db) \<and> db' = db\<lparr>identities := identities db @
        [\<lparr>ir_user = u, ir_provider = cl_provider claim, ir_subject = cl_subject claim,
          ir_email = cl_email claim, ir_phone = cl_phone claim, ir_verified_at = Some now\<rparr>]\<rparr>)"
  by (auto simp: attach_identity_def)

lemma insert_wallets_Inr:
  assumes "insert_wallets u ds db = Inr db'"
  shows "db' = db\<lparr>user_wallets := user_wallets db @
    map (\<lambda>d. \<lparr>uw_user = u, uw_chain = da_chain d, uw_address = da_address d, uw_path = da_path d\<rparr>) ds\<rparr>"
  using assms
proof (induction ds arbitrary: db)
  case Nil
  then show ?case by simp
next
  case (Cons d ds)
  then show ?case
    using Cons.IH [of "db\<lparr>user_wallets := user_wallets db @
      [\<lparr>uw_user = u, uw_chain = da_chain d, uw_address = da_address d, uw_path = da_path d\<rparr>]\<rparr>"]
    by (simp split: if_splits)
qed

lemma insert_session_Inr:
  "insert_session s db = Inr db' \<longleftrightarrow> ss_hash s \<notin> ss_hash ` set (sessions db) \<and> ss_id s \<notin> ss_id ` set (sessions db) \<and>
    ss_user s \<in> us_id ` set (users db) \<and> db' = db\<lparr>sessions := sessions db @ [s]\<rparr>"
  by (auto simp: insert_session_def)

text \<open>A sign-in adds one session, of its new family, and at most one identity, of its claim.\<close>

definition login_row :: "env \<Rightarrow> uuid \<Rightarrow> session_row \<Rightarrow> bool" where
  "login_row env user s \<longleftrightarrow> ss_id s = new_id env 2 \<and> ss_user s = user \<and> ss_family s = new_id env 1 \<and>
     ss_rotated_at s = None \<and> ss_revoked_at s = None"

lemma finish_sign_in_Inr:
  assumes "finish_sign_in au si env device now user is_new db = Inr (resp, db')"
  obtains s where "login_row env user s" "ss_id s \<notin> ss_id ` set (sessions db)" "db' = db\<lparr>sessions := sessions db @ [s]\<rparr>"
    "ss_hash s = hash_refresh au (sr_refresh resp)" "ss_expires_at s = now + days 30"
    "sr_is_new resp = is_new" "ur_id (sr_user resp) = user" "user \<in> us_id ` set (users db)"
proof -
  obtain u where u: "load_user user db = Inr u"
    using assms by (auto simp: finish_sign_in_def res_bind_Inr_iff)
  let ?s = "\<lparr>ss_id = new_id env 2, ss_user = user, ss_family = new_id env 1, ss_hash = hash_refresh au (si_secret si),
    ss_device = device, ss_expires_at = now + days 30, ss_rotated_at = None, ss_revoked_at = None\<rparr>"
  have "insert_session ?s db = Inr db'" "sr_refresh resp = si_secret si" "sr_is_new resp = is_new" "sr_user resp = u"
    using assms u
    by (auto simp: finish_sign_in_def start_session_def res_bind_Inr_iff issue_refresh_def Let_def refresh_ttl_days_def)
  moreover have "ur_id u = user"
    using u by (auto simp: load_user_def dest: fetch_optional_SomeD split: option.splits)
  ultimately show ?thesis by (intro that [of ?s]) (auto simp: login_row_def insert_session_Inr)
qed

lemma create_user_Inr:
  assumes "create_user derive env index claim db = Inr (user, db')"
  obtains row ds where "user = new_id env 0" "user \<notin> us_id ` set (users db)"
    "us_id row = user" "us_phone row = cl_phone claim" "us_email row = cl_email claim" "us_tier row = 0"
    "us_pin_hash row = None" "us_index row = index"
    "users db' = users db @ [row]" "users_ok (users db')" "sessions db' = sessions db" "challenges db' = challenges db"
    "attach_identity (sql_now env) user claim (db\<lparr>users := users db @ [row]\<rparr>) = Inr (db\<lparr>users := users db @ [row], identities := identities db'\<rparr>)"
    "derive (nat index) = Inr ds" "0 \<le> index" "index < 2 ^ 31"
    "user_wallets db' = user_wallets db @
      map (\<lambda>d. \<lparr>uw_user = user, uw_chain = da_chain d, uw_address = da_address d, uw_path = da_path d\<rparr>) ds"
proof -
  define row where "row = \<lparr>us_id = new_id env 0, us_phone = cl_phone claim, us_email = cl_email claim, us_index = index,
    us_pin_hash = None, us_tier = 0, us_display_name = None, us_avatar_seed = None, us_date_of_birth = None\<rparr>"
  obtain db1 db2 ds where d1: "put_users (users db @ [row]) db = Inr db1"
    and d2: "attach_identity (sql_now env) (new_id env 0) claim db1 = Inr db2"
    and ds: "derive (nat index) = Inr ds" "0 \<le> index"
    and d3: "insert_wallets (new_id env 0) ds db2 = Inr db'" and u: "user = new_id env 0"
    using assms by (auto simp: create_user_def Let_def row_def res_bind_Inr_iff split: if_splits)
  have r: "db1 = db\<lparr>users := users db @ [row]\<rparr>" "users_ok (users db @ [row])" "index < 2 ^ 31"
    using d1 by (auto simp: put_users_Inr row_def user_row_ok_def)
  have w: "db' = db2\<lparr>user_wallets := user_wallets db2 @
      map (\<lambda>d. \<lparr>uw_user = new_id env 0, uw_chain = da_chain d, uw_address = da_address d, uw_path = da_path d\<rparr>) ds\<rparr>"
    by (rule insert_wallets_Inr [OF d3])
  have f: "users db2 = users db1" "sessions db2 = sessions db1" "challenges db2 = challenges db1"
    "user_wallets db2 = user_wallets db1" "db2 = db1\<lparr>identities := identities db2\<rparr>"
    using d2 by (auto simp: attach_identity_Inr split: if_splits)
  show ?thesis
  proof (rule that [of row ds])
    show "user \<notin> us_id ` set (users db)" using r(2) u by (simp add: users_ok_def row_def)
    show "attach_identity (sql_now env) user claim (db\<lparr>users := users db @ [row]\<rparr>) =
        Inr (db\<lparr>users := users db @ [row], identities := identities db'\<rparr>)"
      using d2 f(5) r(1) u w by simp
  qed (use u r w f ds row_def in simp_all)
qed


section \<open>The refresh-token machine\<close>

text \<open>
  What happens to the session table, as moves of an abstract machine: a login starts a family, a
  rotation retires the live token of a family for a new one, a revocation ends a family.
\<close>

definition live :: "session_row \<Rightarrow> bool" where
  "live s \<longleftrightarrow> ss_rotated_at s = None \<and> ss_revoked_at s = None"

inductive session_move :: "session_row list \<Rightarrow> session_row list \<Rightarrow> bool" where
  same: "session_move ss ss"
| login: "live s \<Longrightarrow> ss_id s \<notin> ss_id ` set ss \<Longrightarrow> ss_family s \<notin> ss_family ` set ss \<Longrightarrow> session_move ss (ss @ [s])"
| rotate: "s \<in> set ss \<Longrightarrow> live s \<Longrightarrow> live n \<Longrightarrow> ss_id n \<notin> ss_id ` set ss \<Longrightarrow> ss_family n = ss_family s \<Longrightarrow> ss_user n = ss_user s \<Longrightarrow>
    session_move ss (update_where (\<lambda>r. ss_id r = ss_id s) (\<lambda>r. r\<lparr>ss_rotated_at := Some now\<rparr>) ss @ [n])"
| revoke: "session_move ss (update_where (\<lambda>s. ss_family s = f \<and> ss_revoked_at s = None)
    (\<lambda>s. s\<lparr>ss_revoked_at := Some now\<rparr>) ss)"

inductive_cases session_moveE: "session_move ss ss'"

definition sessions_ok :: "session_row list \<Rightarrow> bool" where
  "sessions_ok ss \<longleftrightarrow> distinct (map ss_id ss) \<and>
     (\<forall>s \<in> set ss. \<forall>t \<in> set ss. ss_family s = ss_family t \<longrightarrow>
        ss_user s = ss_user t \<and> (live s \<and> live t \<longrightarrow> s = t))"

definition dead_family :: "uuid \<Rightarrow> session_row list \<Rightarrow> bool" where
  "dead_family f ss \<longleftrightarrow> f \<in> ss_family ` set ss \<and> (\<forall>s \<in> set ss. ss_family s = f \<longrightarrow> \<not> live s)"

lemma sessions_okD:
  "sessions_ok ss \<Longrightarrow> s \<in> set ss \<Longrightarrow> t \<in> set ss \<Longrightarrow> ss_family s = ss_family t \<Longrightarrow> ss_user s = ss_user t"
  "sessions_ok ss \<Longrightarrow> s \<in> set ss \<Longrightarrow> t \<in> set ss \<Longrightarrow> ss_family s = ss_family t \<Longrightarrow> live s \<Longrightarrow> live t \<Longrightarrow> s = t"
  unfolding sessions_ok_def by blast+

text \<open>Rewriting rows in place, and adding one.\<close>

lemma sessions_ok_map:
  assumes "sessions_ok ss"
    and g: "\<And>r. ss_id (g r) = ss_id r" "\<And>r. ss_family (g r) = ss_family r" "\<And>r. ss_user (g r) = ss_user r"
      "\<And>r. live (g r) \<Longrightarrow> live r"
  shows "sessions_ok (map g ss)"
proof -
  have "map ss_id (map g ss) = map ss_id ss" by (simp add: g(1) comp_def)
  moreover have "ss_user (g r) = ss_user (g t)" if "r \<in> set ss" "t \<in> set ss" "ss_family (g r) = ss_family (g t)" for r t
    using sessions_okD(1) [OF assms(1) that(1,2)] that(3) by (simp add: g(1-3))
  moreover have "g r = g t" if "r \<in> set ss" "t \<in> set ss" "ss_family (g r) = ss_family (g t)" "live (g r)" "live (g t)" for r t
    using sessions_okD(2) [OF assms(1) that(1,2)] that(3) g(4) [OF that(4)] g(4) [OF that(5)] by (simp add: g(1-3))
  ultimately show ?thesis
    using assms(1) unfolding sessions_ok_def by (simp only: set_map ball_simps) blast
qed

lemma sessions_ok_snoc:
  assumes "sessions_ok ss" "ss_id n \<notin> ss_id ` set ss"
    and "\<And>r. r \<in> set ss \<Longrightarrow> ss_family r = ss_family n \<Longrightarrow> ss_user r = ss_user n \<and> \<not> live r"
  shows "sessions_ok (ss @ [n])"
proof -
  have all: "ss_user x = ss_user y \<and> (live x \<and> live y \<longrightarrow> x = y)"
    if "x \<in> set ss \<or> x = n" "y \<in> set ss \<or> y = n" "ss_family x = ss_family y" for x y
  proof -
    note xy = that
    consider "x \<in> set ss" "y \<in> set ss" | "x \<in> set ss" "y = n" | "x = n" "y \<in> set ss" | "x = n" "y = n"
      using xy(1,2) by blast
    then show ?thesis
    proof cases
      case 1
      then show ?thesis using sessions_okD [OF assms(1) 1 xy(3)] by blast
    next
      case 2
      then show ?thesis using assms(3) [OF 2(1)] xy(3) by simp
    next
      case 3
      then show ?thesis using assms(3) [OF 3(2)] xy(3) by simp
    qed simp
  qed
  have "\<forall>x \<in> set (ss @ [n]). \<forall>y \<in> set (ss @ [n]). ss_family x = ss_family y \<longrightarrow>
      ss_user x = ss_user y \<and> (live x \<and> live y \<longrightarrow> x = y)"
    by (intro ballI impI) (rule all, auto)
  moreover have "distinct (map ss_id ss)" using assms(1) unfolding sessions_ok_def by (rule conjunct1)
  then have "distinct (map ss_id (ss @ [n]))" using assms(2) by simp
  ultimately show ?thesis unfolding sessions_ok_def by blast
qed

lemma session_move_ok: "session_move ss ss' \<Longrightarrow> sessions_ok ss \<Longrightarrow> sessions_ok ss'"
proof (induction rule: session_move.induct)
  case (same ss)
  then show ?case .
next
  case (login s ss)
  then have "ss_family r \<noteq> ss_family s" if "r \<in> set ss" for r using that by (metis image_eqI)
  with login show ?case by (intro sessions_ok_snoc) simp_all
next
  case (rotate s ss n now)
  let ?f = "\<lambda>r. if ss_id r = ss_id s then r\<lparr>ss_rotated_at := Some now\<rparr> else r"
  have eq: "update_where (\<lambda>r. ss_id r = ss_id s) (\<lambda>r. r\<lparr>ss_rotated_at := Some now\<rparr>) ss = map ?f ss"
    by (simp add: update_where_def)
  have ok: "sessions_ok (map ?f ss)"
    by (rule sessions_ok_map [OF rotate.prems]) (simp_all add: live_def split: if_splits)
  have *: "ss_user r = ss_user n \<and> \<not> live (?f r)" if "r \<in> set ss" "ss_family r = ss_family n" for r
  proof -
    have fam: "ss_family r = ss_family s" using that(2) rotate.hyps by simp
    have "ss_user r = ss_user s" by (rule sessions_okD(1) [OF rotate.prems that(1) rotate.hyps(1) fam])
    moreover have "live r \<Longrightarrow> r = s" by (rule sessions_okD(2) [OF rotate.prems that(1) rotate.hyps(1) fam]) (simp_all add: rotate.hyps)
    ultimately show ?thesis using rotate.hyps by (auto simp: live_def)
  qed
  have "ss_user q = ss_user n \<and> \<not> live q" if "q \<in> set (map ?f ss)" "ss_family q = ss_family n" for q
  proof -
    have "q \<in> ?f ` set ss" using that(1) by simp
    then obtain r where r: "q = ?f r" "r \<in> set ss" by (rule imageE)
    have "ss_family r = ss_family n" "ss_user q = ss_user r" using that(2) r(1) by (simp_all split: if_splits)
    then show ?thesis using * [OF r(2)] r(1) by simp
  qed
  moreover have "ss_id n \<notin> ss_id ` set (map ?f ss)"
  proof -
    have "ss_id ` set (map ?f ss) = (\<lambda>r. ss_id (?f r)) ` set ss" by (simp only: set_map image_image)
    also have "\<dots> = ss_id ` set ss" by (rule image_cong) simp_all
    finally have "ss_id ` set (map ?f ss) = ss_id ` set ss" .
    then show ?thesis using rotate.hyps(4) by simp
  qed
  ultimately show ?case unfolding eq by (intro sessions_ok_snoc [OF ok])
next
  case (revoke ss g now)
  then show ?case
    unfolding update_where_def by (intro sessions_ok_map) (simp_all add: live_def split: if_splits)
qed

lemma dead_family_map:
  assumes "dead_family f ss"
    and g: "\<And>r. ss_family (g r) = ss_family r" "\<And>r. live (g r) \<Longrightarrow> live r"
  shows "dead_family f (map g ss)"
  using assms(1) g(2) by (fastforce simp: dead_family_def g(1) image_image)

lemma dead_family_snoc: "dead_family f ss \<Longrightarrow> ss_family n \<noteq> f \<Longrightarrow> dead_family f (ss @ [n])"
  by (auto simp: dead_family_def)

lemma session_move_dead: "session_move ss ss' \<Longrightarrow> dead_family f ss \<Longrightarrow> dead_family f ss'"
proof (induction rule: session_move.induct)
  case (login s ss)
  then show ?case by (intro dead_family_snoc) (auto simp: dead_family_def)
next
  case (rotate s ss n now)
  then have "ss_family n \<noteq> f" by (auto simp: dead_family_def)
  with rotate.prems show ?case
    unfolding update_where_def by (intro dead_family_snoc dead_family_map) (simp_all add: live_def split: if_splits)
next
  case (revoke ss g now)
  then show ?case
    unfolding update_where_def by (intro dead_family_map) (simp_all add: live_def split: if_splits)
qed

section \<open>What each handler does to the session table\<close>

lemma insert_challenge_Inr: "insert_challenge c db = Inr db' \<Longrightarrow> db' = db\<lparr>challenges := challenges db @ [c]\<rparr>"
  by (simp add: insert_challenge_def split: if_splits)

lemma otp_new_Inr: "otp_new h i code now = Inr c \<Longrightarrow> oc_destination c = id_subject i \<and> oc_last_sent_at c = now"
  by (auto simp: otp_new_def res_bind_Inr_iff)

text \<open>A request either changes nothing and reports an error, or sends: then the cooldown had passed.\<close>

definition cooled :: "string \<Rightarrow> instant \<Rightarrow> auth_db \<Rightarrow> bool" where
  "cooled d now db \<longleftrightarrow> (\<forall>t. last_send d db = Some t \<longrightarrow> resend_cooldown_seconds \<le> num_seconds (now - t))"

lemma request_otp_cases:
  assumes "request_otp au env send dev n input db = (res, db')"
  shows "db' = db \<and> (\<exists>e. res = Some (Inl e)) \<or>
    (\<exists>i c. parse_identifier input = Inr i \<and> cooled (id_subject i) (app_now env) db \<and>
       ch_destination c = id_subject i \<and> ch_last_sent_at c = app_now env \<and> ch_consumed_at c = None \<and>
       db' = db\<lparr>challenges := filter (\<lambda>r. \<not> (ch_destination r = id_subject i \<and> ch_consumed_at r = None)) (challenges db) @ [c]\<rparr> \<and>
       (\<forall>e. res \<noteq> Some (Inl e)))"
proof (cases "parse_identifier input")
  case (Inl e)
  then show ?thesis using assms by (auto simp: request_otp_def)
next
  case i: (Inr i)
  define code where "code = (case dev of Some fixed \<Rightarrow> fixed | None \<Rightarrow> format_code n)"
  define wait where "wait = (case last_send (id_subject i) db of None \<Rightarrow> None
    | Some sent \<Rightarrow> if num_seconds (app_now env - sent) < resend_cooldown_seconds
        then Some (resend_cooldown_seconds - num_seconds (app_now env - sent)) else None)"
  let ?row = "\<lambda>c. \<lparr>ch_id = new_id env 0, ch_destination = oc_destination c, ch_channel = oc_channel c,
     ch_code_hash = oc_code_hash c, ch_attempts = 0, ch_expires_at = oc_expires_at c,
     ch_consumed_at = None, ch_last_sent_at = oc_last_sent_at c\<rparr>"
  let ?kept = "db\<lparr>challenges := filter (\<lambda>r. \<not> (ch_destination r = id_subject i \<and> ch_consumed_at r = None)) (challenges db)\<rparr>"
  have "request_otp au env send dev n input db = (case wait of Some wait \<Rightarrow> (Some (Inl (OtpThrottled wait)), db)
    | None \<Rightarrow> (case otp_new (au_code_hasher au) i code (app_now env) of
        Inl e \<Rightarrow> (Some (Inl (Internal (IMsg (otp_error_text e)))), db)
      | Inr c \<Rightarrow> (case insert_challenge (?row c) ?kept of
        Inl e \<Rightarrow> (Some (Inl (from_sqlx e)), db)
      | Inr db1 \<Rightarrow> (case send (oc_destination c) (oc_channel c) code of
        Inl e \<Rightarrow> (Some (Inl (Internal e)), db)
      | Inr () \<Rightarrow> (map_option (\<lambda>m. Inr \<lparr>op_channel = channel_str (oc_channel c),
             op_retry_after = resend_cooldown_seconds, op_sent_to = m\<rparr>) (masked i), db1)))))"
    unfolding request_otp_def i Let_def wait_def code_def by (simp only: sum.case)
  note eq = this [unfolded assms]
  show ?thesis
  proof (cases wait)
    case (Some w)
    then show ?thesis using eq by simp
  next
    case None
    then have cool: "cooled (id_subject i) (app_now env) db"
      by (auto simp: wait_def cooled_def split: option.splits if_splits)
    show ?thesis
    proof (cases "otp_new (au_code_hasher au) i code (app_now env)")
      case (Inl e)
      then show ?thesis using eq None by simp
    next
      case (Inr c)
      show ?thesis
      proof (cases "insert_challenge (?row c) ?kept")
        case (Inl e)
        then show ?thesis using eq None Inr by simp
      next
        case ins: (Inr db1)
        show ?thesis
        proof (cases "send (oc_destination c) (oc_channel c) code")
          case (Inl e)
          then show ?thesis using eq None Inr ins by simp
        next
          case sent: (Inr u)
          have p: "db' = db1 \<and> res = map_option (\<lambda>m. Inr \<lparr>op_channel = channel_str (oc_channel c),
             op_retry_after = resend_cooldown_seconds, op_sent_to = m\<rparr>) (masked i)"
            using eq unfolding None option.case Inr sum.case ins sent by (cases u) (simp only: prod.inject old.unit.case)
          then have "\<forall>e. res \<noteq> Some (Inl e)" by auto
          moreover have "db' = ?kept\<lparr>challenges := challenges ?kept @ [?row c]\<rparr>"
            using p insert_challenge_Inr [OF ins] by (rule conjunct1 [THEN trans])
          ultimately show ?thesis
            using i cool otp_new_Inr [OF Inr] by (intro disjI2 exI [of _ i] exI [of _ "?row c"]) simp
        qed
      qed
    qed
  qed
qed

lemma request_otp_keeps:
  "sessions (snd (request_otp au env send dev n input db)) = sessions db \<and>
   users (snd (request_otp au env send dev n input db)) = users db \<and>
   identities (snd (request_otp au env send dev n input db)) = identities db"
  using request_otp_cases [of au env send dev n input db "fst (request_otp au env send dev n input db)"
      "snd (request_otp au env send dev n input db)"]
  by auto

lemma put_users_keeps:
  "put_users rows db = Inr db' \<Longrightarrow> sessions db' = sessions db \<and> identities db' = identities db \<and> challenges db' = challenges db"
  by (auto simp: put_users_Inr)

lemma update_me_keeps:
  "sessions (snd (update_me au today user body db)) = sessions db \<and>
   identities (snd (update_me au today user body db)) = identities db \<and>
   challenges (snd (update_me au today user body db)) = challenges db"
  by (auto simp: update_me_def split: sum.split db_error.split dest!: put_users_keeps)

lemma set_pin_keeps:
  "sessions (snd (set_pin au user pin db)) = sessions db \<and> identities (snd (set_pin au user pin db)) = identities db \<and>
   challenges (snd (set_pin au user pin db)) = challenges db"
  by (auto simp: set_pin_def split: sum.splits)

lemma save_attempt_keeps [simp]:
  "sessions (save_attempt i c db) = sessions db" "users (save_attempt i c db) = users db"
  "identities (save_attempt i c db) = identities db"
  by (simp_all add: save_attempt_def)

text \<open>
  The user a proven claim signs in: one who already has the identity, or the same verified e-mail or
  phone.
\<close>

definition owns :: "identity_claim \<Rightarrow> uuid \<Rightarrow> auth_db \<Rightarrow> bool" where
  "owns claim user db \<longleftrightarrow> (\<exists>r \<in> set (identities db). ir_user r = user \<and>
     (ir_provider r = cl_provider claim \<and> ir_subject r = cl_subject claim \<or>
      ir_verified_at r \<noteq> None \<and> (cl_email claim \<noteq> None \<and> ir_email r = cl_email claim \<or>
        cl_phone claim \<noteq> None \<and> ir_phone r = cl_phone claim)))"

lemma resolve_owns:
  assumes "resolve claim (lookup_matches claim db) = Existing u \<or> resolve claim (lookup_matches claim db) = LinkTo u"
  shows "owns claim u db"
proof -
  consider "by_subject (lookup_matches claim db) = Some u" | "cl_email claim \<noteq> None" "by_verified_email (lookup_matches claim db) = Some u"
    | "cl_phone claim \<noteq> None" "by_verified_phone (lookup_matches claim db) = Some u"
    using assms by (auto simp: resolve_def option_and_def split: option.splits if_splits)
  then show ?thesis
  proof cases
    case 1
    then show ?thesis by (auto simp: lookup_matches_def owns_def dest!: fetch_optional_SomeD)
  next
    case 2
    then show ?thesis by (fastforce simp: lookup_matches_def owns_def dest!: fetch_optional_SomeD)
  next
    case 3
    then show ?thesis by (fastforce simp: lookup_matches_def owns_def dest!: fetch_optional_SomeD)
  qed
qed

lemma resolve_CreateNew:
  "resolve claim (lookup_matches claim db) = CreateNew \<longleftrightarrow> (\<forall>u. \<not> owns claim u db)"
proof
  assume r: "resolve claim (lookup_matches claim db) = CreateNew"
  have "by_subject (lookup_matches claim db) = None" "cl_email claim = None \<or> by_verified_email (lookup_matches claim db) = None"
    "cl_phone claim = None \<or> by_verified_phone (lookup_matches claim db) = None"
    using r by (auto simp: resolve_def option_and_def split: option.splits if_splits)
  then show "\<forall>u. \<not> owns claim u db"
    by (auto simp: lookup_matches_def owns_def fetch_optional_None_iff split: option.splits)
next
  assume n: "\<forall>u. \<not> owns claim u db"
  show "resolve claim (lookup_matches claim db) = CreateNew"
  proof (cases "resolve claim (lookup_matches claim db)")
    case (IdentityConflict a b)
    then have "cl_email claim \<noteq> None" "by_verified_email (lookup_matches claim db) = Some a"
      by (auto simp: resolve_def option_and_def split: option.splits if_splits)
    then have "owns claim a db" by (fastforce simp: lookup_matches_def owns_def dest!: fetch_optional_SomeD)
    with n show ?thesis by blast
  qed (use n resolve_owns in auto)
qed

text \<open>A sign-in that succeeds: the account it is for, and what it writes.\<close>

lemma sign_in_claim_Inr:
  assumes "sign_in_claim au si env claim label conflict device now db = Some (Inr (resp, db'))"
  obtains s where "login_row env (ur_id (sr_user resp)) s" "ss_id s \<notin> ss_id ` set (sessions db)"
    "ss_hash s = hash_refresh au (sr_refresh resp)" "ss_expires_at s = now + days 30"
    "sessions db' = sessions db @ [s]" "challenges db' = challenges db"
    "ur_id (sr_user resp) \<in> us_id ` set (users db')"
    "if sr_is_new resp then (\<forall>u. \<not> owns claim u db) \<and> (\<exists>row db0. create_user (si_derive si) env (si_index si) claim db = Inr (ur_id (sr_user resp), db0) \<and>
        users db' = users db @ [row] \<and> us_id row = ur_id (sr_user resp) \<and> us_phone row = cl_phone claim \<and> us_email row = cl_email claim \<and>
        users db' = users db0 \<and> identities db' = identities db0 \<and> user_wallets db' = user_wallets db0)
     else owns claim (ur_id (sr_user resp)) db \<and> users db' = users db \<and> user_wallets db' = user_wallets db \<and>
       attach_identity (sql_now env) (ur_id (sr_user resp)) claim db = Inr (db\<lparr>identities := identities db'\<rparr>)"
proof (cases "resolve claim (lookup_matches claim db)")
  case (Existing u)
  have f: "finish_sign_in au si env device now u False db = Inr (resp, db')" using assms Existing by (simp add: sign_in_claim_def)
  have r: "\<exists>r \<in> set (identities db). (ir_provider r, ir_subject r) = (cl_provider claim, cl_subject claim)"
    using Existing by (auto simp: resolve_def lookup_matches_def option_and_def dest!: fetch_optional_SomeD split: option.splits if_splits)
  then have "(cl_provider claim, cl_subject claim) \<in> (\<lambda>r. (ir_provider r, ir_subject r)) ` set (identities db)"
    by (metis (no_types, lifting) image_iff)
  then have a: "attach_identity (sql_now env) u claim db = Inr db" by (simp add: attach_identity_Inr)
  obtain s where s: "login_row env u s" "ss_id s \<notin> ss_id ` set (sessions db)" "db' = db\<lparr>sessions := sessions db @ [s]\<rparr>"
    "ss_hash s = hash_refresh au (sr_refresh resp)" "ss_expires_at s = now + days 30"
    "sr_is_new resp = False" "ur_id (sr_user resp) = u" "u \<in> us_id ` set (users db)"
    by (rule finish_sign_in_Inr [OF f])
  show ?thesis by (rule that [of s]) (use s a resolve_owns [of claim db u] Existing in simp_all)
next
  case (LinkTo u)
  obtain db1 where a: "attach_identity (sql_now env) u claim db = Inr db1"
    and f: "finish_sign_in au si env device now u False db1 = Inr (resp, db')"
    using assms LinkTo by (auto simp: sign_in_claim_def res_bind_Inr_iff)
  have k: "users db1 = users db" "sessions db1 = sessions db" "challenges db1 = challenges db" "user_wallets db1 = user_wallets db"
    "db1 = db\<lparr>identities := identities db1\<rparr>"
    using a by (auto simp: attach_identity_Inr split: if_splits)
  obtain s where s: "login_row env u s" "ss_id s \<notin> ss_id ` set (sessions db1)" "db' = db1\<lparr>sessions := sessions db1 @ [s]\<rparr>"
    "ss_hash s = hash_refresh au (sr_refresh resp)" "ss_expires_at s = now + days 30"
    "sr_is_new resp = False" "ur_id (sr_user resp) = u" "u \<in> us_id ` set (users db1)"
    by (rule finish_sign_in_Inr [OF f])
  have i: "identities db' = identities db1" using s(3) by simp
  show ?thesis
    by (rule that [of s]) (use s(1,2,4-8) s(3) k(1-4) a resolve_owns [of claim db u] LinkTo i k(5) in simp_all)
next
  case CreateNew
  obtain u db1 where c: "create_user (si_derive si) env (si_index si) claim db = Inr (u, db1)"
    and f: "finish_sign_in au si env device now u True db1 = Inr (resp, db')"
    using assms CreateNew by (auto simp: sign_in_claim_def res_bind_Inr_iff split: option.splits)
  obtain row ds where r: "us_id row = u" "us_phone row = cl_phone claim" "us_email row = cl_email claim"
    "users db1 = users db @ [row]" "sessions db1 = sessions db" "challenges db1 = challenges db"
    by (rule create_user_Inr [OF c])
  obtain s where s: "login_row env u s" "ss_id s \<notin> ss_id ` set (sessions db1)" "db' = db1\<lparr>sessions := sessions db1 @ [s]\<rparr>"
    "ss_hash s = hash_refresh au (sr_refresh resp)" "ss_expires_at s = now + days 30"
    "sr_is_new resp = True" "ur_id (sr_user resp) = u" "u \<in> us_id ` set (users db1)"
    by (rule finish_sign_in_Inr [OF f])
  have n: "\<forall>u. \<not> owns claim u db" using CreateNew by (simp add: resolve_CreateNew)
  show ?thesis by (rule that [of s]) (use s r c n in auto)
next
  case (IdentityConflict a b)
  then show ?thesis using assms by (auto simp: sign_in_claim_def split: option.splits)
qed

end
