(* ===== verification/Auth_Properties.thy ===== *)
theory Auth_Properties
  imports Auth_Runs
begin

text \<open>
  Sign-in as an abstract machine, and what follows for every run: the refresh-token families, the
  accounts and the codes.
\<close>

section \<open>The handlers refine the refresh-token machine\<close>

lemma rotate_session_Inr:
  assumes "rotate_session au keys env secret s db = Inr (pair, db')"
  obtains n u where "live n" "ss_id n = new_id env 2" "ss_family n = ss_family s" "ss_user n = ss_user s"
    "ss_hash n = hash_refresh au secret" "ss_expires_at n = app_now env + days 30" "snd pair = secret"
    "ss_id n \<notin> ss_id ` set (sessions db)" "ss_hash n \<notin> ss_hash ` set (sessions db)"
    "fetch_optional (\<lambda>r. us_id r = ss_user s) (users db) = Some u"
    "issue_access au keys (ss_user s) (ss_family s) (us_tier u) (app_now env) = Inr (fst pair)"
    "db' = db\<lparr>sessions := update_where (\<lambda>r. ss_id r = ss_id s) (\<lambda>r. r\<lparr>ss_rotated_at := Some (app_now env)\<rparr>) (sessions db) @ [n]\<rparr>"
proof -
  define n where "n = \<lparr>ss_id = new_id env 2, ss_user = ss_user s, ss_family = ss_family s, ss_hash = hash_refresh au secret,
    ss_device = None, ss_expires_at = app_now env + days 30, ss_rotated_at = None, ss_revoked_at = None\<rparr>"
  define db1 where "db1 = db\<lparr>sessions := update_where (\<lambda>r. ss_id r = ss_id s) (\<lambda>r. r\<lparr>ss_rotated_at := Some (app_now env)\<rparr>) (sessions db)\<rparr>"
  obtain u where u: "fetch_optional (\<lambda>r. us_id r = ss_user s) (users db) = Some u"
    using assms by (auto simp: rotate_session_def Let_def split: option.splits)
  have i: "insert_session n db1 = Inr db'" "snd pair = secret"
    "issue_access au keys (ss_user s) (ss_family s) (us_tier u) (app_now env) = Inr (fst pair)"
    using assms u
    by (auto simp: rotate_session_def Let_def issue_refresh_def refresh_ttl_days_def res_bind_Inr_iff n_def db1_def)
  have keys: "ss_id ` set (sessions db1) = ss_id ` set (sessions db)" "ss_hash ` set (sessions db1) = ss_hash ` set (sessions db)"
    unfolding db1_def by (simp_all add: map_update_where flip: set_map)
  have d: "ss_hash n \<notin> ss_hash ` set (sessions db)" "ss_id n \<notin> ss_id ` set (sessions db)" "db' = db1\<lparr>sessions := sessions db1 @ [n]\<rparr>"
    using i(1) unfolding insert_session_Inr keys by blast+
  show ?thesis
    by (rule that [of n u]) (use d i(2,3) u in \<open>simp_all add: n_def live_def db1_def\<close>)
qed

lemma refresh_cases:
  assumes "refresh au keys env secret header body db = (res, db')"
  shows "db' = db \<and> (\<exists>e. res = Inl e) \<or>
    (\<exists>p s. presented_refresh header body = Some p \<and> fetch_optional (\<lambda>s. ss_hash s = hash_refresh au p) (sessions db) = Some s \<and>
       (ss_rotated_at s \<noteq> None \<and> res = Inl Unauthorized \<and> db' = revoke_family (app_now env) (ss_family s) db \<or>
        live s \<and> app_now env < ss_expires_at s \<and> (\<exists>pair. res = Inr pair \<and> rotate_session au keys env secret s db = Inr (pair, db'))))"
proof (cases "presented_refresh header body")
  case None
  then show ?thesis using assms by (auto simp: refresh_def)
next
  case p: (Some p)
  show ?thesis
  proof (cases "fetch_optional (\<lambda>s. ss_hash s = hash_refresh au p) (sessions db)")
    case None
    then show ?thesis using assms p by (auto simp: refresh_def)
  next
    case s: (Some s)
    show ?thesis
    proof (cases "evaluate_refresh s (app_now env)")
      case (ReuseDetected f)
      then have "ss_rotated_at s \<noteq> None" "f = ss_family s" by (auto simp: evaluate_refresh_def split: if_splits)
      then show ?thesis using assms p s ReuseDetected by (simp add: refresh_def)
    next
      case RefreshRejected
      then show ?thesis using assms p s by (auto simp: refresh_def)
    next
      case (Rotate a b)
      then have l: "live s" "app_now env < ss_expires_at s"
        by (auto simp: evaluate_refresh_def live_def split: if_splits)
      show ?thesis
        using assms p s Rotate l by (cases "rotate_session au keys env secret s db") (auto simp: refresh_def)
    qed
  qed
qed

lemma revoke_family_move: "session_move (sessions db) (sessions (revoke_family now f db))"
  by (simp add: revoke_family_def session_move.revoke)

lemma refresh_move: "session_move (sessions db) (sessions (snd (refresh au keys env secret header body db)))"
proof (cases "refresh au keys env secret header body db")
  case (Pair res db')
  show ?thesis
    using refresh_cases [OF Pair]
  proof (elim disjE exE conjE)
    assume "db' = db"
    then show ?thesis using Pair by (simp add: session_move.same)
  next
    fix p s
    assume "db' = revoke_family (app_now env) (ss_family s) db"
    then show ?thesis using Pair revoke_family_move by simp
  next
    fix p s pair
    assume s: "fetch_optional (\<lambda>s. ss_hash s = hash_refresh au p) (sessions db) = Some s" "live s"
      and r: "rotate_session au keys env secret s db = Inr (pair, db')"
    obtain n where n: "live n" "ss_family n = ss_family s" "ss_user n = ss_user s" "ss_id n \<notin> ss_id ` set (sessions db)"
      "db' = db\<lparr>sessions := update_where (\<lambda>r. ss_id r = ss_id s) (\<lambda>r. r\<lparr>ss_rotated_at := Some (app_now env)\<rparr>) (sessions db) @ [n]\<rparr>"
      by (rule rotate_session_Inr [OF r])
    have "s \<in> set (sessions db)" using s(1) by (auto dest: fetch_optional_SomeD)
    then have "session_move (sessions db) (sessions db')"
      using session_move.rotate [OF _ s(2) n(1,4,2,3)] n(5) by simp
    then show ?thesis using Pair by simp
  qed
qed

lemma unlock_cases:
  "snd (unlock au keys env secret header token pin db) = db \<or>
   unlock au keys env secret header token pin db = refresh au keys env secret header (Some token) db"
  by (auto simp: unlock_def split: option.split sum.split bool.split)

lemma verify_otp_cases:
  assumes "verify_otp au si env input code device db = (res, db')"
  shows "db' = db \<and> (\<forall>x. res \<noteq> Some (Inr x)) \<or>
    (\<exists>i row r c. parse_identifier input = Inr i \<and>
       fetch_optional (\<lambda>r. ch_destination r = id_subject i \<and> ch_consumed_at r = None) (challenges db) = Some row \<and>
       otp_verify (au_code_hasher au) code (app_now env) (challenge_of_row i (app_now env) row) = (r, c) \<and>
       ((\<exists>e. r = Inl e) \<and> db' = save_attempt (ch_id row) c db \<and> (\<forall>x. res \<noteq> Some (Inr x)) \<or>
        r = Inr () \<and> (\<exists>resp. res = Some (Inr resp) \<and>
          sign_in_claim au si env (from_verified_otp i) (masked i) (masked i) device (app_now env)
            (save_attempt (ch_id row) c db) = Some (Inr (resp, db')))))"
proof (cases "parse_identifier input")
  case (Inl e)
  then show ?thesis using assms by (auto simp: verify_otp_def)
next
  case i: (Inr i)
  show ?thesis
  proof (cases "fetch_optional (\<lambda>r. ch_destination r = id_subject i \<and> ch_consumed_at r = None) (challenges db)")
    case None
    then show ?thesis using assms i by (auto simp: verify_otp_def)
  next
    case row: (Some row)
    obtain r c where v: "otp_verify (au_code_hasher au) code (app_now env) (challenge_of_row i (app_now env) row) = (r, c)"
      by fastforce
    note eq = assms [unfolded verify_otp_def i sum.case row option.case Let_def v prod.case]
    show ?thesis
    proof (cases r)
      case (Inl e)
      then have "db' = save_attempt (ch_id row) c db" "res = Some (Inl (of_otp_error e))" using eq by simp_all
      then show ?thesis
        using i row v Inl by (intro disjI2 exI [of _ i] exI [of _ row] exI [of _ r] exI [of _ c]) simp
    next
      case (Inr u)
      have "u = ()" by (cases u)
      note eq = eq [unfolded Inr sum.case this old.unit.case]
      show ?thesis
      proof (cases "sign_in_claim au si env (from_verified_otp i) (masked i) (masked i) device (app_now env)
            (save_attempt (ch_id row) c db)")
        case None
        then have "db' = db \<and> res = None" using eq by simp
        then show ?thesis by simp
      next
        case (Some a)
        show ?thesis
        proof (cases a)
          case (Inl e)
          then have "db' = db \<and> res = Some (Inl e)" using eq Some by simp
          then show ?thesis by simp
        next
          case y: (Inr y)
          obtain resp db1 where y': "y = (resp, db1)" by fastforce
          have "res = Some (Inr resp)" "db' = db1" using eq Some y y' by simp_all
          then show ?thesis
            using i row v Inr Some y y'
            by (intro disjI2 exI [of _ i] exI [of _ row] exI [of _ r] exI [of _ c]) simp
        qed
      qed
    qed
  qed
qed

lemma google_cases:
  assumes "google_sign_in au si cfg env credential device db = (res, db')"
  shows "db' = db \<and> (\<forall>x. res \<noteq> Some (Inr x)) \<or>
    (\<exists>audience kid key claim resp. gc_client_id cfg = Some audience \<and> key_id au credential = Inr kid \<and> gc_key_of cfg kid = Inr key \<and>
       verify_id_token au credential key \<lparr>og_provider = ByGoogle, og_audience = audience\<rparr> (app_now env) = Inr claim \<and>
       google_permitted (gc_allowed cfg) claim \<and> res = Some (Inr resp) \<and>
       sign_in_claim au si env claim (google_label claim) (Some (cl_subject claim)) device (app_now env) db = Some (Inr (resp, db')))"
proof (cases "gc_client_id cfg")
  case None
  then show ?thesis using assms by (auto simp: google_sign_in_def)
next
  case a: (Some audience)
  show ?thesis
  proof (cases "key_id au credential")
    case (Inl e)
    then show ?thesis using assms a by (auto simp: google_sign_in_def)
  next
    case k: (Inr kid)
    show ?thesis
    proof (cases "gc_key_of cfg kid")
      case (Inl e)
      then show ?thesis using assms a k by (auto simp: google_sign_in_def)
    next
      case key: (Inr key)
      show ?thesis
      proof (cases "verify_id_token au credential key \<lparr>og_provider = ByGoogle, og_audience = audience\<rparr> (app_now env)")
        case (Inl e)
        then show ?thesis using assms a k key by (auto simp: google_sign_in_def)
      next
        case c: (Inr claim)
        note eq = assms [unfolded google_sign_in_def a option.case k sum.case key c]
        show ?thesis
        proof (cases "google_permitted (gc_allowed cfg) claim")
          case False
          then show ?thesis using eq by auto
        next
          case True
          show ?thesis
          proof (cases "sign_in_claim au si env claim (google_label claim) (Some (cl_subject claim)) device (app_now env) db")
            case None
            then show ?thesis using eq True by auto
          next
            case (Some x)
            show ?thesis
            proof (cases x)
              case (Inl e)
              then have "db' = db \<and> res = Some (Inl e)" using eq True Some by simp
              then show ?thesis by simp
            next
              case (Inr y)
              obtain resp db1 where y: "y = (resp, db1)" by fastforce
              have "res = Some (Inr resp)" "db' = db1" using eq True Some Inr y by simp_all
              then show ?thesis
                using True a k key c Some Inr y
                by (intro disjI2 exI [of _ audience] exI [of _ kid] exI [of _ key] exI [of _ claim] exI [of _ resp]) simp
            qed
          qed
        qed
      qed
    qed
  qed
qed

lemma sign_in_move:
  assumes "sign_in_claim au si env claim label conflict device now db = Some (Inr (resp, db'))" "fresh_family env db"
  shows "session_move (sessions db) (sessions db')"
proof -
  obtain s where s: "login_row env (ur_id (sr_user resp)) s" "ss_id s \<notin> ss_id ` set (sessions db)" "sessions db' = sessions db @ [s]"
    by (rule sign_in_claim_Inr [OF assms(1)])
  then have "live s" "ss_family s \<notin> ss_family ` set (sessions db)"
    using assms(2) by (simp_all add: login_row_def live_def fresh_family_def)
  with s show ?thesis by (simp add: session_move.login)
qed

lemma auth_step_move: "auth_step au db db' \<Longrightarrow> session_move (sessions db) (sessions db')"
proof (induction rule: auth_step.induct)
  case (request env db send dev n input)
  then show ?case by (simp add: request_otp_keeps session_move.same)
next
  case (verify env db si input code device)
  show ?case
  proof (cases "verify_otp au si env input code device db")
    case (Pair res db')
    from verify_otp_cases [OF Pair] show ?thesis
    proof (elim disjE exE conjE)
      fix i row r c resp
      assume "sign_in_claim au si env (from_verified_otp i) (masked i) (masked i) device (app_now env)
        (save_attempt (ch_id row) c db) = Some (Inr (resp, db'))"
      from sign_in_move [OF this] verify Pair show ?thesis by (simp add: fresh_family_def)
    qed (simp_all add: Pair session_move.same)
  qed
next
  case (google env db si cfg credential device)
  show ?case
  proof (cases "google_sign_in au si cfg env credential device db")
    case (Pair res db')
    from google_cases [OF Pair] show ?thesis
    proof (elim disjE exE conjE)
      fix claim resp
      assume "sign_in_claim au si env claim (google_label claim) (Some (cl_subject claim)) device (app_now env) db = Some (Inr (resp, db'))"
      from sign_in_move [OF this google] Pair show ?thesis by simp
    qed (simp_all add: Pair session_move.same)
  qed
next
  case (refresh db keys env secret header body)
  then show ?case by (rule refresh_move)
next
  case (unlock db keys env secret header token pin)
  then show ?case using unlock_cases [of au keys env secret header token pin db] refresh_move session_move.same by metis
next
  case (logout db now header body)
  then show ?case
    by (auto simp: logout_def session_move.same revoke_family_move split: option.split)
next
  case (pin db user pin)
  then show ?case by (simp add: set_pin_keeps session_move.same)
next
  case (profile db today user body)
  then show ?case by (simp add: update_me_keeps session_move.same)
next
  case (tier db p t)
  then show ?case by (simp add: session_move.same)
qed

section \<open>Refresh tokens over runs\<close>

lemma auth_reach_dead: "auth_reach au db db' \<Longrightarrow> dead_family f (sessions db) \<Longrightarrow> dead_family f (sessions db')"
  by (induction rule: auth_reach.induct) (auto dest: auth_step_move session_move_dead)

lemma auth_reach_sessions: "auth_reach au db db' \<Longrightarrow> sessions_ok (sessions db) \<Longrightarrow> sessions_ok (sessions db')"
  by (induction rule: auth_reach.induct) (auto dest: auth_step_move session_move_ok)

lemma revoke_family_dead:
  assumes "s \<in> set (sessions db)"
  shows "dead_family (ss_family s) (sessions (revoke_family now (ss_family s) db))"
proof -
  let ?g = "\<lambda>r. if ss_family r = ss_family s \<and> ss_revoked_at r = None then r\<lparr>ss_revoked_at := Some now\<rparr> else r"
  have eq: "sessions (revoke_family now (ss_family s) db) = map ?g (sessions db)"
    by (simp add: revoke_family_def update_where_def)
  have fam: "ss_family (?g r) = ss_family r" and dead: "ss_family r = ss_family s \<Longrightarrow> \<not> live (?g r)" for r
    by (simp_all add: live_def)
  have img: "ss_family ` set (map ?g (sessions db)) = ss_family ` set (sessions db)"
    unfolding set_map image_image fam ..
  show ?thesis
    unfolding dead_family_def eq img
  proof (intro conjI ballI impI)
    show "ss_family s \<in> ss_family ` set (sessions db)" using assms by (rule imageI)
    fix r assume r: "r \<in> set (map ?g (sessions db))" "ss_family r = ss_family s"
    then have "r \<in> ?g ` set (sessions db)" by simp
    then obtain q where q: "r = ?g q" by (rule imageE)
    show "\<not> live r" using dead [of q] r(2) fam [of q] unfolding q by simp
  qed
qed

lemma dead_family_refused:
  assumes "dead_family f (sessions db)"
    "fetch_optional (\<lambda>t. ss_hash t = hash_refresh au q) (sessions db) = Some t" "ss_family t = f"
  shows "fst (refresh au keys env secret header (Some q) db) = Inl Unauthorized \<or> presented_refresh header (Some q) \<noteq> Some q"
proof -
  have "t \<in> set (sessions db)" using assms(2) by (auto dest: fetch_optional_SomeD)
  then have "\<not> live t" using assms(1,3) by (simp add: dead_family_def)
  then have "evaluate_refresh t (app_now env) = ReuseDetected f \<or> evaluate_refresh t (app_now env) = RefreshRejected"
    using assms(3) by (auto simp: evaluate_refresh_def live_def)
  then show ?thesis using assms(2) by (auto simp: refresh_def)
qed

lemma presented_body: "trim q = q \<Longrightarrow> q \<noteq> [] \<Longrightarrow> presented_refresh header (Some q) = Some q"
  by (simp add: presented_refresh_def)

text \<open>
  C11. Every handler is a move of the refresh-token machine: the sessions table stays as it is, or a
  login opens a new family with one live token, or the live token of a family is retired for a new
  one of the same user, or a family is revoked.
\<close>

theorem auth_refines_sessions:
  "auth_step au db db' \<Longrightarrow> session_move (sessions db) (sessions db')"
  by (rule auth_step_move)

text \<open>
  C7. In every state reached by the handlers a login has at most one usable refresh token, all its
  tokens are for one user, and presenting a token that was already rotated is refused and ends the
  login for good: in every later state no token of that family is usable, and refreshing with any
  of them is refused.
\<close>

theorem replayed_token_ends_login:
  assumes "auth_reach au empty_auth db"
    and "fetch_optional (\<lambda>s. ss_hash s = hash_refresh au p) (sessions db) = Some s" "ss_rotated_at s \<noteq> None"
    and "trim p = p" "p \<noteq> []" "refresh au keys env secret header (Some p) db = (res, db1)" "auth_reach au db1 db2"
  shows "res = Inl Unauthorized \<and>
    (\<forall>t \<in> set (sessions db). \<forall>u \<in> set (sessions db). ss_family t = ss_family u \<longrightarrow> ss_user t = ss_user u \<and> (live t \<and> live u \<longrightarrow> t = u)) \<and>
    (\<forall>t \<in> set (sessions db2). ss_family t = ss_family s \<longrightarrow> \<not> live t) \<and>
    (\<forall>q t keys' env' secret' header'. trim q = q \<and> q \<noteq> [] \<and> ss_family t = ss_family s \<and>
       fetch_optional (\<lambda>t. ss_hash t = hash_refresh au q) (sessions db2) = Some t \<longrightarrow>
       fst (refresh au keys' env' secret' header' (Some q) db2) = Inl Unauthorized)"
proof -
  have "sessions_ok (sessions empty_auth)" by (simp add: sessions_ok_def empty_auth_def)
  then have ok: "sessions_ok (sessions db)" by (rule auth_reach_sessions [OF assms(1)])
  have r: "res = Inl Unauthorized" "db1 = revoke_family (app_now env) (ss_family s) db"
    using assms(2-6) by (auto simp: refresh_def presented_body evaluate_refresh_def)
  have "s \<in> set (sessions db)" using assms(2) by (auto dest: fetch_optional_SomeD)
  then have dead: "dead_family (ss_family s) (sessions db2)"
    unfolding r(2) using assms(7) auth_reach_dead revoke_family_dead r(2) by metis
  show ?thesis
  proof (intro conjI r(1))
    show "\<forall>t \<in> set (sessions db2). ss_family t = ss_family s \<longrightarrow> \<not> live t" using dead by (simp add: dead_family_def)
    show "\<forall>q t keys' env' secret' header'. trim q = q \<and> q \<noteq> [] \<and> ss_family t = ss_family s \<and>
       fetch_optional (\<lambda>t. ss_hash t = hash_refresh au q) (sessions db2) = Some t \<longrightarrow>
       fst (refresh au keys' env' secret' header' (Some q) db2) = Inl Unauthorized"
      using dead_family_refused [OF dead] presented_body by blast
    show "\<forall>t \<in> set (sessions db). \<forall>u \<in> set (sessions db). ss_family t = ss_family u \<longrightarrow>
        ss_user t = ss_user u \<and> (live t \<and> live u \<longrightarrow> t = u)"
      using ok unfolding sessions_ok_def by blast
  qed
qed

text \<open>
  Refreshing with the usable token of a login rotates it: the answer carries an access token for
  the user and the new secret, the new secret is the login's only usable token for thirty days, and
  the presented one is retired.
\<close>

theorem refresh_rotates:
  assumes "auth_reach au empty_auth db"
    and s: "fetch_optional (\<lambda>s. ss_hash s = hash_refresh au p) (sessions db) = Some s" "live s" "app_now env < ss_expires_at s"
    and p: "trim p = p" "p \<noteq> []"
    and u: "fetch_optional (\<lambda>r. us_id r = ss_user s) (users db) = Some u"
    and n: "new_id env 2 \<notin> ss_id ` set (sessions db)" "hash_refresh au secret \<notin> ss_hash ` set (sessions db)"
    and access: "issue_access au keys (ss_user s) (ss_family s) (us_tier u) (app_now env) = Inr token"
  shows "\<exists>db' t. refresh au keys env secret header (Some p) db = (Inr (token, secret), db') \<and>
    fetch_optional (\<lambda>s. ss_hash s = hash_refresh au secret) (sessions db') = Some t \<and> live t \<and>
    ss_user t = ss_user s \<and> ss_family t = ss_family s \<and> ss_expires_at t = app_now env + days 30 \<and>
    (\<forall>r \<in> set (sessions db'). ss_family r = ss_family s \<and> live r \<longrightarrow> r = t) \<and>
    fetch_optional (\<lambda>s. ss_hash s = hash_refresh au p) (sessions db') = Some (s\<lparr>ss_rotated_at := Some (app_now env)\<rparr>)"
proof -
  define t where "t = \<lparr>ss_id = new_id env 2, ss_user = ss_user s, ss_family = ss_family s, ss_hash = hash_refresh au secret,
    ss_device = None, ss_expires_at = app_now env + days 30, ss_rotated_at = None, ss_revoked_at = None\<rparr>"
  define db1 where "db1 = db\<lparr>sessions := update_where (\<lambda>r. ss_id r = ss_id s) (\<lambda>r. r\<lparr>ss_rotated_at := Some (app_now env)\<rparr>) (sessions db)\<rparr>"
  define db' where "db' = db1\<lparr>sessions := sessions db1 @ [t]\<rparr>"
  have keys: "ss_id ` set (sessions db1) = ss_id ` set (sessions db)" "ss_hash ` set (sessions db1) = ss_hash ` set (sessions db)"
    unfolding db1_def by (simp_all add: map_update_where flip: set_map)
  have "ss_user t \<in> us_id ` set (users db1)" using fetch_optional_SomeD [OF u] by (force simp: t_def db1_def)
  then have ins: "insert_session t db1 = Inr db'"
    unfolding insert_session_Inr keys using n by (simp add: t_def db'_def)
  have rot: "rotate_session au keys env secret s db = Inr ((token, secret), db')"
    using u access ins
    by (simp add: rotate_session_def Let_def issue_refresh_def refresh_ttl_days_def t_def db1_def)
  have "evaluate_refresh s (app_now env) = Rotate (ss_user s) (ss_family s)"
    using s(2,3) by (simp add: evaluate_refresh_def live_def)
  then have res: "refresh au keys env secret header (Some p) db = (Inr (token, secret), db')"
    using s(1) p rot by (simp add: refresh_def presented_body)
  have old: "hash_refresh au secret \<noteq> hash_refresh au p"
    using n(2) fetch_optional_SomeD [OF s(1)] by (metis image_eqI)
  have none: "fetch_optional (\<lambda>s. ss_hash s = hash_refresh au secret) (sessions db1) = None"
    using n(2) keys(2) unfolding fetch_optional_None_iff by (metis image_eqI)
  have live_t: "live t" "ss_hash t = hash_refresh au secret" "ss_family t = ss_family s" "ss_user t = ss_user s"
    "ss_expires_at t = app_now env + days 30"
    by (simp_all add: t_def live_def)
  have "sessions_ok (sessions empty_auth)" by (simp add: sessions_ok_def empty_auth_def)
  moreover have "auth_reach au empty_auth (snd (refresh au keys env secret header (Some p) db))"
    using assms(1) auth_step.refresh by (rule auth_reach.step)
  ultimately have ok: "sessions_ok (sessions db')" using res auth_reach_sessions by fastforce
  have find_t: "fetch_optional (\<lambda>s. ss_hash s = hash_refresh au secret) (sessions db') = Some t"
    by (simp add: db'_def fetch_optional_append none live_t)
  have in_t: "t \<in> set (sessions db')" by (simp add: db'_def)
  have find_s: "fetch_optional (\<lambda>s. ss_hash s = hash_refresh au p) (sessions db1) = Some (s\<lparr>ss_rotated_at := Some (app_now env)\<rparr>)"
    unfolding db1_def using s(1) by (simp add: fetch_update_where)
  show ?thesis
  proof (intro exI [of _ db'] exI [of _ t] conjI res find_t live_t ballI impI)
    show "r = t" if "r \<in> set (sessions db')" "ss_family r = ss_family s \<and> live r" for r
      using sessions_okD(2) [OF ok that(1) in_t] that(2) live_t by simp
    show "fetch_optional (\<lambda>s. ss_hash s = hash_refresh au p) (sessions db') = Some (s\<lparr>ss_rotated_at := Some (app_now env)\<rparr>)"
      by (simp add: db'_def fetch_optional_append find_s)
  qed
qed

end
