(* ===== verification/Auth_Accounts.thy ===== *)
theory Auth_Accounts
  imports Auth_Properties
begin

text \<open>
  The accounts over runs: every table stays consistent, a sign-in needs a code or a Google token for
  the account's own identity, codes are sent at a bounded pace, and a bearer token is good for the
  minutes it was issued for.
\<close>

section \<open>What the token handlers leave alone\<close>

lemma refresh_keeps:
  "users (snd (refresh au keys env secret header body db)) = users db \<and>
   identities (snd (refresh au keys env secret header body db)) = identities db \<and>
   challenges (snd (refresh au keys env secret header body db)) = challenges db \<and>
   user_wallets (snd (refresh au keys env secret header body db)) = user_wallets db \<and>
   (\<forall>s \<in> set (sessions (snd (refresh au keys env secret header body db))). ss_user s \<in> ss_user ` set (sessions db))"
proof (cases "refresh au keys env secret header body db")
  case (Pair res db')
  show ?thesis
    using refresh_cases [OF Pair]
  proof (elim disjE exE conjE)
    fix p s pair
    assume s: "fetch_optional (\<lambda>s. ss_hash s = hash_refresh au p) (sessions db) = Some s"
      and r: "rotate_session au keys env secret s db = Inr (pair, db')"
    obtain n where n: "ss_user n = ss_user s"
      "db' = db\<lparr>sessions := update_where (\<lambda>r. ss_id r = ss_id s) (\<lambda>r. r\<lparr>ss_rotated_at := Some (app_now env)\<rparr>) (sessions db) @ [n]\<rparr>"
      by (rule rotate_session_Inr [OF r])
    have "s \<in> set (sessions db)" using s by (auto dest: fetch_optional_SomeD)
    then show ?thesis using Pair n by (auto simp: set_update_where)
  qed (auto simp: Pair revoke_family_def set_update_where)
qed

lemma unlock_keeps:
  "users (snd (unlock au keys env secret header token pin db)) = users db \<and>
   identities (snd (unlock au keys env secret header token pin db)) = identities db \<and>
   challenges (snd (unlock au keys env secret header token pin db)) = challenges db \<and>
   user_wallets (snd (unlock au keys env secret header token pin db)) = user_wallets db \<and>
   (\<forall>s \<in> set (sessions (snd (unlock au keys env secret header token pin db))). ss_user s \<in> ss_user ` set (sessions db))"
proof -
  consider "snd (unlock au keys env secret header token pin db) = db"
    | "unlock au keys env secret header token pin db = refresh au keys env secret header (Some token) db"
    using unlock_cases [of au keys env secret header token pin db] by blast
  then show ?thesis
  proof cases
    case 1
    then show ?thesis by simp
  next
    case 2
    show ?thesis unfolding 2 by (rule refresh_keeps)
  qed
qed

lemma logout_keeps:
  "users (logout au now header body db) = users db \<and> identities (logout au now header body db) = identities db \<and>
   challenges (logout au now header body db) = challenges db \<and> user_wallets (logout au now header body db) = user_wallets db \<and>
   (\<forall>s \<in> set (sessions (logout au now header body db)). ss_user s \<in> ss_user ` set (sessions db))"
  by (auto simp: logout_def revoke_family_def set_update_where split: option.split)

lemma profile_keeps_wallets:
  "user_wallets (snd (update_me au today user body db)) = user_wallets db"
  "user_wallets (snd (set_pin au user pin db)) = user_wallets db"
  "user_wallets (snd (request_otp au env send dev n input db)) = user_wallets db"
proof -
  show "user_wallets (snd (update_me au today user body db)) = user_wallets db"
    by (auto simp: update_me_def put_users_Inr split: sum.split db_error.split)
  show "user_wallets (snd (set_pin au user pin db)) = user_wallets db"
    by (auto simp: set_pin_def split: sum.split)
  show "user_wallets (snd (request_otp au env send dev n input db)) = user_wallets db"
    using request_otp_cases [of au env send dev n input db "fst (request_otp au env send dev n input db)"
        "snd (request_otp au env send dev n input db)"] by auto
qed

section \<open>The pace of codes\<close>

definition sent_times :: "string \<Rightarrow> auth_db \<Rightarrow> instant set" where
  "sent_times d db = {ch_last_sent_at r |r. r \<in> set (challenges db) \<and> ch_destination r = d}"

lemma last_send_Some:
  "last_send d db = Some t \<longleftrightarrow> t \<in> sent_times d db \<and> (\<forall>x \<in> sent_times d db. x \<le> t)"
proof -
  define xs where "xs = map ch_last_sent_at (filter (\<lambda>r. ch_destination r = d) (challenges db))"
  have s: "sent_times d db = set xs" by (auto simp: sent_times_def xs_def)
  have l: "last_send d db = (case xs of [] \<Rightarrow> None | t # ts \<Rightarrow> Some (fold max ts t))"
    by (simp add: last_send_def xs_def)
  show ?thesis
  proof (cases xs)
    case Nil
    then show ?thesis by (simp add: l s)
  next
    case (Cons y ys)
    have "fold max ys y \<in> set xs" "\<forall>x \<in> set xs. x \<le> fold max ys y"
      using fold_max_in [of ys y] fold_max_ge [of y ys] fold_max_upper Cons by auto
    then show ?thesis unfolding l s Cons by (auto intro: antisym)
  qed
qed

lemma last_send_exists: "x \<in> sent_times d db \<Longrightarrow> \<exists>t \<ge> x. last_send d db = Some t"
proof -
  assume x: "x \<in> sent_times d db"
  define xs where "xs = map ch_last_sent_at (filter (\<lambda>r. ch_destination r = d) (challenges db))"
  have "x \<in> set xs" using x by (auto simp: sent_times_def xs_def)
  then obtain y ys where "xs = y # ys" by (cases xs) auto
  then have l: "last_send d db = Some (fold max ys y)" by (simp add: last_send_def flip: xs_def)
  then show ?thesis using x last_send_Some by blast
qed

text \<open>No step forgets a send: the latest one only moves forward.\<close>

lemma image_keeps_key: "(\<And>r. k (g r) = k r) \<Longrightarrow> {r \<in> g ` S. k r = d} = g ` {r \<in> S. k r = d}"
  by auto

lemma sent_times_save_attempt [simp]: "sent_times d (save_attempt i c db) = sent_times d db"
proof -
  let ?g = "\<lambda>r. if ch_id r = i then r\<lparr>ch_attempts := oc_attempts c, ch_consumed_at := oc_consumed_at c\<rparr> else r"
  have g: "ch_last_sent_at (?g r) = ch_last_sent_at r" "ch_destination (?g r) = ch_destination r" for r by simp_all
  have alt: "sent_times d x = ch_last_sent_at ` {r \<in> set (challenges x). ch_destination r = d}" for x
    by (auto simp: sent_times_def)
  have ch: "challenges (save_attempt i c db) = map ?g (challenges db)"
    by (simp add: save_attempt_def update_where_def)
  have eq: "{r \<in> ?g ` set (challenges db). ch_destination r = d} = ?g ` {r \<in> set (challenges db). ch_destination r = d}"
    by (rule image_keeps_key) (rule g(2))
  show ?thesis unfolding alt ch set_map eq image_image g(1) ..
qed

lemma cooled_later: "cooled d now db \<Longrightarrow> last_send d db = Some t \<Longrightarrow> t + 60 * 1000000 \<le> now"
  by (auto simp: cooled_def num_seconds_def resend_cooldown_seconds_def split: if_splits)

lemma request_keeps_sends:
  assumes "request_otp au env send dev n input db = (res, db')" "last_send d db = Some t"
  shows "\<exists>t' \<ge> t. last_send d db' = Some t'"
  using request_otp_cases [OF assms(1)]
proof (elim disjE exE conjE)
  assume "db' = db"
  then show ?thesis using assms(2) by auto
next
  fix i c
  assume c: "cooled (id_subject i) (app_now env) db" "ch_destination c = id_subject i" "ch_last_sent_at c = app_now env"
    and db': "db' = db\<lparr>challenges := filter (\<lambda>r. \<not> (ch_destination r = id_subject i \<and> ch_consumed_at r = None)) (challenges db) @ [c]\<rparr>"
  show ?thesis
  proof (cases "d = id_subject i")
    case True
    have "t + 60 * 1000000 \<le> app_now env" using cooled_later [OF c(1)] assms(2) True by simp
    moreover have "app_now env \<in> sent_times d db'" using c(2,3) True by (force simp: sent_times_def db')
    then obtain t' where "app_now env \<le> t'" "last_send d db' = Some t'" using last_send_exists by blast
    ultimately show ?thesis by (intro exI [of _ t']) simp
  next
    case False
    then have "sent_times d db' = sent_times d db" using c(2) by (auto simp: sent_times_def db')
    then show ?thesis using assms(2) unfolding last_send_Some by blast
  qed
qed

lemma same_sends: "sent_times d db' = sent_times d db \<Longrightarrow> last_send d db = Some t \<Longrightarrow> \<exists>t' \<ge> t. last_send d db' = Some t'"
  using last_send_Some by blast

lemma same_challenges: "challenges db' = challenges db \<Longrightarrow> sent_times d db' = sent_times d db"
  by (simp add: sent_times_def)

lemma step_keeps_sends: "auth_step au db db' \<Longrightarrow> last_send d db = Some t \<Longrightarrow> \<exists>t' \<ge> t. last_send d db' = Some t'"
proof (induction rule: auth_step.induct)
  case (request env db send dev n input)
  then show ?case using request_keeps_sends [OF surjective_pairing] by blast
next
  case (verify env db si input code device)
  show ?case
  proof (cases "verify_otp au si env input code device db")
    case (Pair res db')
    have "sent_times d db' = sent_times d db"
      using verify_otp_cases [OF Pair]
    proof (elim disjE exE conjE)
      fix i row r c resp
      assume "sign_in_claim au si env (from_verified_otp i) (masked i) (masked i) device (app_now env)
        (save_attempt (ch_id row) c db) = Some (Inr (resp, db'))"
      then have "challenges db' = challenges (save_attempt (ch_id row) c db)" by (rule sign_in_claim_Inr)
      from same_challenges [OF this] show ?thesis by simp
    qed simp_all
    from same_sends [OF this verify(2)] show ?thesis using Pair by simp
  qed
next
  case (google env db si cfg credential device)
  show ?case
  proof (cases "google_sign_in au si cfg env credential device db")
    case (Pair res db')
    have "challenges db' = challenges db"
      using google_cases [OF Pair]
    proof (elim disjE exE conjE)
      fix claim resp
      assume "sign_in_claim au si env claim (google_label claim) (Some (cl_subject claim)) device (app_now env) db = Some (Inr (resp, db'))"
      then show ?thesis by (rule sign_in_claim_Inr)
    qed simp
    from same_sends [OF same_challenges [OF this] google(2)] show ?thesis using Pair by simp
  qed
next
  case (refresh db keys env secret header body)
  then show ?case by (intro same_sends [OF same_challenges]) (simp_all only: refresh_keeps)
next
  case (unlock db keys env secret header token pin)
  then show ?case by (intro same_sends [OF same_challenges]) (simp_all only: unlock_keeps)
next
  case (logout db now header body)
  then show ?case by (intro same_sends [OF same_challenges]) (simp_all only: logout_keeps)
next
  case (pin db user pin)
  then show ?case by (intro same_sends [OF same_challenges]) (simp_all only: set_pin_keeps)
next
  case (profile db today user body)
  then show ?case by (intro same_sends [OF same_challenges]) (simp_all only: update_me_keeps)
next
  case (tier db p t)
  then show ?case by (intro same_sends [OF same_challenges]) simp_all
qed

lemma reach_keeps_sends: "auth_reach au db db' \<Longrightarrow> last_send d db = Some t \<Longrightarrow> \<exists>t' \<ge> t. last_send d db' = Some t'"
proof (induction rule: auth_reach.induct)
  case (step db1 db2)
  then show ?case using step_keeps_sends order_trans by blast
qed auto


section \<open>Consistency of the accounts\<close>

definition identity_key :: "identity_row \<Rightarrow> provider \<times> string" where
  "identity_key r = (ir_provider r, ir_subject r)"

definition wallet_key :: "user_wallet_row \<Rightarrow> chain \<times> string" where
  "wallet_key w = (uw_chain w, uw_address w)"

text \<open>
  Users are distinct, with unique phones and e-mails and at least one of them; an identity belongs to
  one user, and every user has one; sessions are of users; no deposit address is given out twice.
\<close>

definition accounts_ok :: "auth_db \<Rightarrow> bool" where
  "accounts_ok db \<longleftrightarrow> users_ok (users db) \<and> list_all user_row_ok (users db) \<and>
     distinct (map identity_key (identities db)) \<and>
     ir_user ` set (identities db) = us_id ` set (users db) \<and>
     ss_user ` set (sessions db) \<subseteq> us_id ` set (users db) \<and>
     distinct (map wallet_key (user_wallets db))"

lemma insert_wallets_distinct:
  "insert_wallets u ds db = Inr db' \<Longrightarrow> distinct (map wallet_key (user_wallets db)) \<Longrightarrow> distinct (map wallet_key (user_wallets db'))"
proof (induction ds arbitrary: db)
  case (Cons d ds)
  then show ?case
    by (simp add: wallet_key_def split: if_splits)
qed simp

lemma wallet_key_image: "wallet_key ` set ws = (\<lambda>w. (uw_chain w, uw_address w)) ` set ws"
  by (simp add: wallet_key_def)

lemma create_user_wallets:
  assumes "create_user derive env index claim db = Inr (user, db')" "distinct (map wallet_key (user_wallets db))"
  shows "distinct (map wallet_key (user_wallets db'))"
proof -
  define row where "row = \<lparr>us_id = new_id env 0, us_phone = cl_phone claim, us_email = cl_email claim, us_index = index,
    us_pin_hash = None, us_tier = 0, us_display_name = None, us_avatar_seed = None, us_date_of_birth = None\<rparr>"
  obtain db1 db2 ds where d1: "put_users (users db @ [row]) db = Inr db1"
    and d2: "attach_identity (sql_now env) (new_id env 0) claim db1 = Inr db2"
    and d3: "insert_wallets (new_id env 0) ds db2 = Inr db'"
    using assms(1) by (auto simp: create_user_def Let_def row_def res_bind_Inr_iff split: if_splits)
  have "user_wallets db2 = user_wallets db"
    using d1 d2 by (auto simp: put_users_Inr attach_identity_Inr split: if_splits)
  with insert_wallets_distinct [OF d3] assms(2) show ?thesis by simp
qed

lemma attach_identity_rows:
  assumes "attach_identity now u claim db = Inr db'"
  shows "identities db' = (if (cl_provider claim, cl_subject claim) \<in> identity_key ` set (identities db) then identities db
    else identities db @ [\<lparr>ir_user = u, ir_provider = cl_provider claim, ir_subject = cl_subject claim,
          ir_email = cl_email claim, ir_phone = cl_phone claim, ir_verified_at = Some now\<rparr>])"
proof -
  have k: "(\<lambda>r. (ir_provider r, ir_subject r)) = identity_key" by (rule ext) (simp add: identity_key_def)
  show ?thesis using assms unfolding attach_identity_Inr k by (auto split: if_splits)
qed

text \<open>Attaching a claim keeps the keys of the identities distinct and adds at most its user.\<close>

lemma attach_identity_keys:
  assumes "attach_identity now u claim db = Inr db'" "distinct (map identity_key (identities db))"
  shows "distinct (map identity_key (identities db'))"
    "ir_user ` set (identities db') \<subseteq> insert u (ir_user ` set (identities db))"
    "ir_user ` set (identities db) \<subseteq> ir_user ` set (identities db')"
proof -
  show "distinct (map identity_key (identities db'))"
    "ir_user ` set (identities db') \<subseteq> insert u (ir_user ` set (identities db))"
    "ir_user ` set (identities db) \<subseteq> ir_user ` set (identities db')"
    unfolding attach_identity_rows [OF assms(1)] using assms(2) by (auto simp: identity_key_def)
qed

lemma not_owns_subject:
  assumes "\<forall>u. \<not> owns claim u db" "r \<in> set (identities db)"
  shows "\<not> (cl_provider claim = ir_provider r \<and> cl_subject claim = ir_subject r)"
proof
  assume "cl_provider claim = ir_provider r \<and> cl_subject claim = ir_subject r"
  then have "owns claim (ir_user r) db" unfolding owns_def using assms(2) by (intro bexI [of _ r]) simp_all
  then show False using assms(1) by blast
qed

lemma accounts_ok_sign_in:
  assumes "sign_in_claim au si env claim label conflict device now db = Some (Inr (resp, db'))" "accounts_ok db"
  shows "accounts_ok db'"
proof -
  let ?u = "ur_id (sr_user resp)"
  obtain s where s: "login_row env ?u s" "sessions db' = sessions db @ [s]" "?u \<in> us_id ` set (users db')"
    and cases2: "if sr_is_new resp then (\<forall>u. \<not> owns claim u db) \<and> (\<exists>row db0. create_user (si_derive si) env (si_index si) claim db = Inr (?u, db0) \<and>
        users db' = users db @ [row] \<and> us_id row = ?u \<and> us_phone row = cl_phone claim \<and> us_email row = cl_email claim \<and>
        users db' = users db0 \<and> identities db' = identities db0 \<and> user_wallets db' = user_wallets db0)
     else owns claim ?u db \<and> users db' = users db \<and> user_wallets db' = user_wallets db \<and>
       attach_identity (sql_now env) ?u claim db = Inr (db\<lparr>identities := identities db'\<rparr>)"
    by (rule sign_in_claim_Inr [OF assms(1)])
  have k: "distinct (map identity_key (identities db))" "ir_user ` set (identities db) = us_id ` set (users db)"
    "ss_user ` set (sessions db) \<subseteq> us_id ` set (users db)" "distinct (map wallet_key (user_wallets db))"
    using assms(2) by (simp_all add: accounts_ok_def)
  show ?thesis
  proof (cases "sr_is_new resp")
    case False
    then have c: "users db' = users db" "user_wallets db' = user_wallets db"
      "attach_identity (sql_now env) ?u claim db = Inr (db\<lparr>identities := identities db'\<rparr>)"
      using cases2 by simp_all
    note a = attach_identity_keys [OF c(3) k(1)]
    have "ss_user s = ?u" using s(1) by (simp add: login_row_def)
    then show ?thesis using assms(2) a c(1,2) s(2,3) by (auto simp: accounts_ok_def)
  next
    case True
    then obtain row db0 where c: "create_user (si_derive si) env (si_index si) claim db = Inr (?u, db0)" "\<forall>u. \<not> owns claim u db"
      "users db' = users db @ [row]" "us_id row = ?u" "users db' = users db0" "identities db' = identities db0" "user_wallets db' = user_wallets db0"
      using cases2 by auto
    obtain row' where r: "users db0 = users db @ [row']" "us_id row' = ?u" "users_ok (users db0)"
      "attach_identity (sql_now env) ?u claim (db\<lparr>users := users db @ [row']\<rparr>) =
        Inr (db\<lparr>users := users db @ [row'], identities := identities db0\<rparr>)"
      by (rule create_user_Inr [OF c(1)]) blast
    have rows: "list_all user_row_ok (users db0)"
      using c(1) by (auto simp: create_user_def Let_def res_bind_Inr_iff put_users_Inr attach_identity_Inr dest!: insert_wallets_Inr split: if_splits)
    have wallets: "distinct (map wallet_key (user_wallets db0))" by (rule create_user_wallets [OF c(1) k(4)])
    note a = attach_identity_keys [OF r(4)]
    have a: "distinct (map identity_key (identities db0))" "ir_user ` set (identities db0) \<subseteq> insert ?u (us_id ` set (users db))"
      "us_id ` set (users db) \<subseteq> ir_user ` set (identities db0)"
      using a k(1,2) by simp_all
    have "(cl_provider claim, cl_subject claim) \<notin> identity_key ` set (identities db)"
      using not_owns_subject c(2) by (auto simp: identity_key_def)
    then have u: "?u \<in> ir_user ` set (identities db0)" using attach_identity_rows [OF r(4)] by simp
    have ids: "us_id ` set (users db0) = insert ?u (us_id ` set (users db))" using r(1,2) by simp
    have "ir_user ` set (identities db0) = us_id ` set (users db0)" using a(2,3) u unfolding ids by blast
    moreover have "ss_user s = ?u" using s(1) by (simp add: login_row_def)
    then have "ss_user ` set (sessions db') \<subseteq> us_id ` set (users db0)"
      using k(3) unfolding ids s(2) set_append image_Un by auto
    ultimately show ?thesis
      using r(3) rows wallets a(1) unfolding accounts_ok_def c(5-7) by (intro conjI)
  qed
qed

lemma users_ok_cong:
  "map us_id xs = map us_id ys \<Longrightarrow> map us_index xs = map us_index ys \<Longrightarrow> map us_phone xs = map us_phone ys \<Longrightarrow>
   map us_email xs = map us_email ys \<Longrightarrow> users_ok xs = users_ok ys"
  by (simp add: users_ok_def)

text \<open>Writes to a user's own columns.\<close>

lemma accounts_ok_users:
  assumes "accounts_ok db" "map us_id rows = map us_id (users db)" "users_ok rows" "list_all user_row_ok rows"
  shows "accounts_ok (db\<lparr>users := rows\<rparr>)"
proof -
  have "us_id ` set rows = us_id ` set (users db)" using assms(2) by (metis set_map)
  then show ?thesis using assms by (simp add: accounts_ok_def)
qed

lemma accounts_ok_columns:
  assumes "accounts_ok db" "\<And>u. us_id (f u) = us_id u" "\<And>u. us_index (f u) = us_index u"
    "\<And>u. us_phone (f u) = us_phone u" "\<And>u. us_email (f u) = us_email u"
  shows "accounts_ok (db\<lparr>users := update_where p f (users db)\<rparr>)"
proof (rule accounts_ok_users [OF assms(1)])
  show "users_ok (update_where p f (users db))"
    using assms(1) users_ok_cong [of "update_where p f (users db)" "users db"]
    by (simp add: map_update_where assms(2-5) accounts_ok_def)
  show "list_all user_row_ok (update_where p f (users db))"
    using assms(1) by (auto simp: list_all_iff set_update_where user_row_ok_def assms(2-5) accounts_ok_def)
qed (simp add: map_update_where assms)

lemma accounts_ok_same:
  assumes "accounts_ok db" "users db' = users db" "identities db' = identities db" "user_wallets db' = user_wallets db"
    "\<forall>s \<in> set (sessions db'). ss_user s \<in> ss_user ` set (sessions db)"
  shows "accounts_ok db'"
proof -
  have "ss_user ` set (sessions db) \<subseteq> us_id ` set (users db)" using assms(1) by (simp add: accounts_ok_def)
  then have "ss_user ` set (sessions db') \<subseteq> us_id ` set (users db)" using assms(5) by blast
  then show ?thesis using assms(1) by (simp add: accounts_ok_def assms(2-4))
qed

lemma accounts_ok_update_me:
  assumes "accounts_ok db"
  shows "accounts_ok (snd (update_me au today user body db))"
proof -
  have put: "accounts_ok db'" if "put_users (update_where q f (users db)) db = Inr db'" "\<And>u. us_id (f u) = us_id u" for q f db'
    using that accounts_ok_users [OF assms] by (simp add: put_users_Inr map_update_where)
  show ?thesis
    using assms by (auto simp: update_me_def split: sum.split db_error.split intro: put)
qed

lemma accounts_ok_step: "auth_step au db db' \<Longrightarrow> accounts_ok db \<Longrightarrow> accounts_ok db'"
proof (induction rule: auth_step.induct)
  case (request env db send dev n input)
  show ?case
    by (rule accounts_ok_same [OF request]) (simp_all add: request_otp_keeps profile_keeps_wallets)
next
  case (verify env db si input code device)
  have saved: "accounts_ok (save_attempt i c db)" for i c
    by (rule accounts_ok_same [OF verify(2)]) (simp_all add: save_attempt_def)
  show ?case
  proof (cases "verify_otp au si env input code device db")
    case (Pair res db')
    from verify_otp_cases [OF Pair] show ?thesis
    proof (elim disjE exE conjE)
      fix i row r c resp
      assume "sign_in_claim au si env (from_verified_otp i) (masked i) (masked i) device (app_now env)
        (save_attempt (ch_id row) c db) = Some (Inr (resp, db'))"
      from accounts_ok_sign_in [OF this saved] show ?thesis using Pair by simp
    qed (use verify(2) saved in \<open>simp_all add: Pair\<close>)
  qed
next
  case (google env db si cfg credential device)
  show ?case
  proof (cases "google_sign_in au si cfg env credential device db")
    case (Pair res db')
    from google_cases [OF Pair] show ?thesis
    proof (elim disjE exE conjE)
      fix claim resp
      assume "sign_in_claim au si env claim (google_label claim) (Some (cl_subject claim)) device (app_now env) db = Some (Inr (resp, db'))"
      from accounts_ok_sign_in [OF this google(2)] show ?thesis using Pair by simp
    qed (use google(2) in \<open>simp_all add: Pair\<close>)
  qed
next
  case (refresh db keys env secret header body)
  show ?case using refresh_keeps [of au keys env secret header body db] by (intro accounts_ok_same [OF refresh]) blast+
next
  case (unlock db keys env secret header token pin)
  show ?case using unlock_keeps [of au keys env secret header token pin db] by (intro accounts_ok_same [OF unlock]) blast+
next
  case (logout db now header body)
  show ?case using logout_keeps [of au now header body db] by (intro accounts_ok_same [OF logout]) blast+
next
  case (pin db user pin)
  then show ?case by (auto simp: set_pin_def intro: accounts_ok_columns split: sum.split)
next
  case (profile db today user body)
  then show ?case by (rule accounts_ok_update_me)
next
  case (tier db p t)
  then show ?case by (rule accounts_ok_columns) simp_all
qed

lemma auth_reach_accounts: "auth_reach au db db' \<Longrightarrow> accounts_ok db \<Longrightarrow> accounts_ok db'"
  by (induction rule: auth_reach.induct) (blast intro: accounts_ok_step)+

section \<open>Signing in takes a proof\<close>


section \<open>Bearer tokens\<close>


end
