(* ===== verification/Auth_Witnesses.thy ===== *)
theory Auth_Witnesses
  imports Auth_Accounts
begin

text \<open>
  Concrete runs: a code requested and used, a token rotated and replayed, a bearer token read back.
  The stand-ins for the crates store what they are given.
\<close>

definition demo_auth :: auth_crates where
  "demo_auth = \<lparr>au_code_hasher = demo_argon, au_pin_hasher = demo_argon, au_sha256_hex = (\<lambda>s. ''h'' @ s),
     au_encode = (\<lambda>k c. Inr ''jwt''), au_decode = (\<lambda>k t v now. Inl ''bad''), au_kid = (\<lambda>t. Inr None),
     au_decode_id = (\<lambda>t k v now. Inl ''bad''), au_to_lowercase = to_ascii_lowercase, au_parse_date = (\<lambda>s. None)\<rparr>"

text \<open>An environment at second \<open>t\<close>, with identifiers from \<open>k\<close> on.\<close>

definition demo_env :: "int \<Rightarrow> nat \<Rightarrow> env" where
  "demo_env t k = \<lparr>app_now = t * 1000000, sql_now = t * 1000000, new_id = (\<lambda>n. of_nat (k + n))\<rparr>"

definition demo_sign_in :: sign_in_env where
  "demo_sign_in = \<lparr>si_derive = (\<lambda>n. Inr [\<lparr>da_chain = Evm, da_address = ''0xa'', da_path = ''m/0''\<rparr>]),
     si_index = 7, si_keys = ''k'', si_secret = ''s1''\<rparr>"

definition demo_send :: "string \<Rightarrow> channel \<Rightarrow> string \<Rightarrow> internal_error + unit" where
  "demo_send d c code = Inr ()"

definition asked :: auth_db where
  "asked = snd (request_otp demo_auth (demo_env 0 10) demo_send None 42 ''Ada@x.ng'' empty_auth)"

definition signed_in :: auth_db where
  "signed_in = snd (verify_otp demo_auth demo_sign_in (demo_env 30 20) ''ada@x.ng '' ''000042'' None asked)"

definition rotated :: auth_db where
  "rotated = snd (refresh demo_auth ''k'' (demo_env 60 30) ''s2'' None (Some ''s1'') signed_in)"

lemma asked_sends:
  "\<exists>resp. request_otp demo_auth (demo_env 0 10) demo_send None 42 ''Ada@x.ng'' empty_auth = (Some (Inr resp), asked)"
proof -
  have "case request_otp demo_auth (demo_env 0 10) demo_send None 42 ''Ada@x.ng'' empty_auth of
      (Some (Inr _), _) \<Rightarrow> True | _ \<Rightarrow> False"
    by code_simp
  then show ?thesis unfolding asked_def by (auto split: prod.splits option.splits sum.splits)
qed

lemma signed_in_session:
  "\<exists>resp. verify_otp demo_auth demo_sign_in (demo_env 30 20) ''ada@x.ng '' ''000042'' None asked = (Some (Inr resp), signed_in) \<and>
     sr_is_new resp"
proof -
  have "case verify_otp demo_auth demo_sign_in (demo_env 30 20) ''ada@x.ng '' ''000042'' None asked of
      (Some (Inr resp), _) \<Rightarrow> sr_is_new resp | _ \<Rightarrow> False"
    by code_simp
  then show ?thesis unfolding signed_in_def by (auto split: prod.splits option.splits sum.splits)
qed

lemma reach_asked: "auth_reach demo_auth empty_auth asked"
  unfolding asked_def by (rule auth_reach.step [OF auth_reach.refl auth_step.request])

lemma reach_signed_in: "auth_reach demo_auth empty_auth signed_in"
proof -
  have "fresh_family (demo_env 30 20) asked" by code_simp
  then show ?thesis
    unfolding signed_in_def by (rule auth_reach.step [OF reach_asked auth_step.verify])
qed

lemma reach_rotated: "auth_reach demo_auth empty_auth rotated"
  unfolding rotated_def by (rule auth_reach.step [OF reach_signed_in auth_step.refresh])

lemma signed_in_row:
  "map (\<lambda>s. (ss_hash s, ss_id s, ss_family s, ss_rotated_at s, ss_revoked_at s, ss_expires_at s)) (sessions signed_in) =
     [(''hs1'', 22, 21, None, None, 30 * 1000000 + days 30)]"
  by code_simp

lemma rotated_rows:
  "map (\<lambda>s. (ss_hash s, ss_id s, ss_rotated_at s)) (sessions rotated) = [(''hs1'', 22, Some 60000000), (''hs2'', 32, None)]"
  by code_simp

section \<open>The properties at these runs\<close>

theorem auth_refines_sessions_witness:
  "session_move (sessions signed_in) (sessions rotated) \<and> length (sessions rotated) = 2"
proof -
  have "session_move (sessions signed_in) (sessions rotated)"
    unfolding rotated_def by (rule auth_refines_sessions [OF auth_step.refresh])
  moreover have "length (sessions rotated) = 2"
    using arg_cong [OF rotated_rows, of length] by simp
  ultimately show ?thesis by blast
qed

definition replayed :: auth_db where
  "replayed = snd (refresh demo_auth ''k'' (demo_env 90 40) ''s3'' None (Some ''s1'') rotated)"

lemma fetch_by_hash:
  assumes "map_option (\<lambda>s. (ss_hash s, f s)) (fetch_optional (\<lambda>s. ss_hash s = h) rows) = Some (h', x)"
  obtains s where "fetch_optional (\<lambda>s. ss_hash s = h) rows = Some s" "f s = x"
  using assms by auto

theorem replayed_token_ends_login_witness:
  "fst (refresh demo_auth ''k'' (demo_env 90 40) ''s3'' None (Some ''s1'') rotated) = Inl Unauthorized \<and>
   fst (refresh demo_auth ''k'' (demo_env 95 50) ''s4'' None (Some ''s2'') replayed) = Inl Unauthorized"
proof -
  have "map_option (\<lambda>s. (ss_hash s, (ss_family s, ss_rotated_at s)))
      (fetch_optional (\<lambda>s. ss_hash s = hash_refresh demo_auth ''s1'') (sessions rotated)) = Some (''hs1'', (21, Some 60000000))"
    by code_simp
  then obtain s where s: "fetch_optional (\<lambda>s. ss_hash s = hash_refresh demo_auth ''s1'') (sessions rotated) = Some s"
    "(ss_family s, ss_rotated_at s) = (21, Some 60000000)"
    by (rule fetch_by_hash)
  have "map_option (\<lambda>s. (ss_hash s, ss_family s)) (fetch_optional (\<lambda>s. ss_hash s = hash_refresh demo_auth ''s2'') (sessions replayed)) =
      Some (''hs2'', 21)"
    by code_simp
  then obtain t where t: "fetch_optional (\<lambda>s. ss_hash s = hash_refresh demo_auth ''s2'') (sessions replayed) = Some t"
    "ss_family t = 21"
    by (rule fetch_by_hash)
  have r: "ss_rotated_at s \<noteq> None" "ss_family t = ss_family s" using s(2) t(2) by simp_all
  have p: "trim ''s1'' = ''s1''" "''s1'' \<noteq> []" "trim ''s2'' = ''s2''" "''s2'' \<noteq> []" by code_simp+
  have "refresh demo_auth ''k'' (demo_env 90 40) ''s3'' None (Some ''s1'') rotated =
    (fst (refresh demo_auth ''k'' (demo_env 90 40) ''s3'' None (Some ''s1'') rotated), replayed)"
    by (simp add: replayed_def)
  note w = replayed_token_ends_login [OF reach_rotated s(1) r(1) p(1,2) this auth_reach.refl]
  show ?thesis using w p(3,4) t(1) r(2) by blast
qed

theorem refresh_rotates_witness:
  "\<exists>db'. refresh demo_auth ''k'' (demo_env 60 30) ''s2'' None (Some ''s1'') signed_in = (Inr (''jwt'', ''s2''), db')"
proof -
  have "map_option (\<lambda>s. (ss_hash s, (ss_user s, ss_rotated_at s, ss_revoked_at s, ss_expires_at s)))
      (fetch_optional (\<lambda>s. ss_hash s = hash_refresh demo_auth ''s1'') (sessions signed_in)) =
      Some (''hs1'', (20, None, None, 30 * 1000000 + days 30))"
    by code_simp
  then obtain s where s: "fetch_optional (\<lambda>s. ss_hash s = hash_refresh demo_auth ''s1'') (sessions signed_in) = Some s"
    "(ss_user s, ss_rotated_at s, ss_revoked_at s, ss_expires_at s) = (20, None, None, 30 * 1000000 + days 30)"
    by (rule fetch_by_hash)
  have l: "live s" "app_now (demo_env 60 30) < ss_expires_at s"
    using s(2) by (simp_all add: live_def demo_env_def duration_defs)
  have p: "trim ''s1'' = ''s1''" "''s1'' \<noteq> []" by code_simp+
  have "map_option us_id (fetch_optional (\<lambda>r. us_id r = 20) (users signed_in)) = Some 20" by code_simp
  then obtain u where u: "fetch_optional (\<lambda>r. us_id r = ss_user s) (users signed_in) = Some u" using s(2) by auto
  have n: "new_id (demo_env 60 30) 2 \<notin> ss_id ` set (sessions signed_in)"
    "hash_refresh demo_auth ''s2'' \<notin> ss_hash ` set (sessions signed_in)"
    by code_simp+
  have "issue_access demo_auth ''k'' (ss_user s) (ss_family s) (us_tier u) (app_now (demo_env 60 30)) = Inr ''jwt''"
    by (simp add: issue_access_def demo_auth_def map_err_def)
  from refresh_rotates [OF reach_signed_in s(1) l p u n this, of None] show ?thesis by blast
qed



text \<open>A signer with one token, for one set of claims.\<close>

definition demo_claims :: access_claims where
  "demo_claims = \<lparr>ac_sub = 5, ac_sid = 6, ac_tier = 1, ac_iss = token_issuer, ac_iat = 0, ac_exp = 900\<rparr>"

definition demo_jwt :: auth_crates where
  "demo_jwt = demo_auth\<lparr>
     au_encode := (\<lambda>k c. if k = ''key'' \<and> c = demo_claims then Inr ''a.b.c'' else Inl ''unsupported''),
     au_decode := (\<lambda>k t v now. if k = ''key'' \<and> t = ''a.b.c'' \<and> token_issuer \<in> set (jv_issuers v) \<and>
         (jv_check_exp v \<longrightarrow> now \<le> 900 + jv_leeway v)
       then Inr demo_claims else Inl ''invalid'')\<rparr>"


section \<open>An unproven e-mail stands in the way of its owner\<close>

definition squatted :: auth_db where
  "squatted = snd (update_me demo_auth 0 20 \<lparr>um_display_name = None, um_avatar_seed = None,
     um_email = Some ''vic@x.ng'', um_date_of_birth = None\<rparr> signed_in)"

definition vic_asked :: auth_db where
  "vic_asked = snd (request_otp demo_auth (demo_env 200 60) demo_send None 42 ''vic@x.ng'' squatted)"

lemma email_squatting:
  "fst (verify_otp demo_auth (demo_sign_in\<lparr>si_index := 8\<rparr>) (demo_env 210 70) ''vic@x.ng'' ''000042'' None vic_asked) =
     Some (Inl (from_sqlx UniqueViolation))"
proof -
  have "case fst (verify_otp demo_auth (demo_sign_in\<lparr>si_index := 8\<rparr>) (demo_env 210 70) ''vic@x.ng'' ''000042'' None vic_asked) of
      Some (Inl (Internal (IDb UniqueViolation))) \<Rightarrow> True | _ \<Rightarrow> False" by code_simp
  then show ?thesis by (auto split: option.splits sum.splits api_error.splits internal_error.splits db_error.splits)
qed

end
