(* ===== verification/Cash_Store.thy ===== *)
theory Cash_Store
  imports Auth_Store "HOL-Library.Product_Lexorder"
begin

text \<open>
  Naira in and out: the tables \<open>bank_accounts\<close>, \<open>payouts\<close> (migration 0001, the view of 0002) and
  \<open>ngn_deposits\<close> (0010) beside the ledger; the institution list and the account handlers of
  \<open>crates/api/src/bank_routes.rs\<close>; and the name enquiry of \<open>crates/api/src/payout_provider.rs\<close>.
\<close>

section \<open>Tables\<close>

record bank_account_row =
  ba_id :: uuid
  ba_user :: uuid
  ba_code :: string
  ba_number :: string
  ba_name :: string
  ba_verified_at :: "instant option"
  ba_created_at :: instant

datatype payout_status = PoReserved | PoProcessing | PoSettled | PoFailed | PoReversed

record payout_row =
  po_id :: uuid
  po_user :: uuid
  po_account :: uuid
  po_amount :: decimal
  po_fee :: decimal
  po_status :: payout_status
  po_reference :: string
  po_journal :: uuid
  po_created_at :: instant

datatype deposit_state = DsPending | DsSucceeded | DsFailed | DsAbandoned

record ngn_deposit_row =
  nd_id :: uuid
  nd_user :: uuid
  nd_amount :: decimal
  nd_provider :: string
  nd_reference :: string
  nd_status :: deposit_state
  nd_journal :: "uuid option"
  nd_failure :: "string option"
  nd_created_at :: instant

record cash_db = ledger +
  members :: "user_row list"
  bank_accounts :: "bank_account_row list"
  payouts :: "payout_row list"
  ngn_deposits :: "ngn_deposit_row list"

fun payout_status_str :: "payout_status \<Rightarrow> string" where
  "payout_status_str PoReserved = ''reserved''"
| "payout_status_str PoProcessing = ''processing''"
| "payout_status_str PoSettled = ''settled''"
| "payout_status_str PoFailed = ''failed''"
| "payout_status_str PoReversed = ''reversed''"

fun deposit_state_str :: "deposit_state \<Rightarrow> string" where
  "deposit_state_str DsPending = ''pending''"
| "deposit_state_str DsSucceeded = ''succeeded''"
| "deposit_state_str DsFailed = ''failed''"
| "deposit_state_str DsAbandoned = ''abandoned''"

text \<open>
  The crates: \<open>Decimal::from_str\<close> with the scale of what it read, \<open>normalize().to_string()\<close>, UUIDs in
  their two written forms, RFC 3339 times, and Argon2 for PINs.
\<close>

record cash_crates =
  ck_parse_decimal :: "string \<Rightarrow> (decimal \<times> nat) option"
  ck_show_decimal :: "decimal \<Rightarrow> string"
  ck_show_uuid :: "uuid \<Rightarrow> string"
  ck_simple_uuid :: "uuid \<Rightarrow> string"
  ck_rfc3339 :: "instant \<Rightarrow> string"
  ck_pin :: argon

section \<open>Institutions\<close>

record bank =
  bk_code :: string
  bk_name :: string
  bk_kind :: string

definition bank_of :: "string \<Rightarrow> string \<Rightarrow> string \<Rightarrow> bank" where
  "bank_of code name kind = \<lparr>bk_code = code, bk_name = name, bk_kind = kind\<rparr>"

definition bank_list :: "bank list" where
  "bank_list =
    [bank_of ''044'' ''Access Bank'' ''bank'',
     bank_of ''063'' ''Access Bank (Diamond)'' ''bank'',
     bank_of ''035A'' ''ALAT by Wema'' ''fintech'',
     bank_of ''023'' ''Citibank Nigeria'' ''bank'',
     bank_of ''050'' ''Ecobank Nigeria'' ''bank'',
     bank_of ''070'' ''Fidelity Bank'' ''bank'',
     bank_of ''011'' ''First Bank of Nigeria'' ''bank'',
     bank_of ''214'' ''FCMB'' ''bank'',
     bank_of ''058'' ''GTBank'' ''bank'',
     bank_of ''030'' ''Heritage Bank'' ''bank'',
     bank_of ''301'' ''Jaiz Bank'' ''bank'',
     bank_of ''082'' ''Keystone Bank'' ''bank'',
     bank_of ''090267'' ''Kuda Microfinance Bank'' ''fintech'',
     bank_of ''50515'' ''Moniepoint MFB'' ''fintech'',
     bank_of ''999992'' ''OPay'' ''fintech'',
     bank_of ''999991'' ''PalmPay'' ''fintech'',
     bank_of ''526'' ''Parallex Bank'' ''bank'',
     bank_of ''076'' ''Polaris Bank'' ''bank'',
     bank_of ''101'' ''Providus Bank'' ''bank'',
     bank_of ''221'' ''Stanbic IBTC Bank'' ''bank'',
     bank_of ''068'' ''Standard Chartered'' ''bank'',
     bank_of ''232'' ''Sterling Bank'' ''bank'',
     bank_of ''100'' ''SunTrust Bank'' ''bank'',
     bank_of ''032'' ''Union Bank of Nigeria'' ''bank'',
     bank_of ''033'' ''UBA'' ''bank'',
     bank_of ''215'' ''Unity Bank'' ''bank'',
     bank_of ''566'' ''VFD Microfinance Bank'' ''microfinance'',
     bank_of ''035'' ''Wema Bank'' ''bank'',
     bank_of ''057'' ''Zenith Bank'' ''bank'']"

definition bank_name :: "string \<Rightarrow> string" where
  "bank_name code = (case fetch_optional (\<lambda>b. bk_code b = code) bank_list of Some b \<Rightarrow> bk_name b | None \<Rightarrow> code)"

definition normalise_account_number :: "string \<Rightarrow> api_error + string" where
  "normalise_account_number raw =
     (let digits = filter is_ascii_digit raw in
      if length digits \<noteq> 10 then Inl (BadRequest ''Account numbers are 10 digits.'') else Inr digits)"

definition ensure_known_bank :: "string \<Rightarrow> api_error + unit" where
  "ensure_known_bank code =
     (if list_ex (\<lambda>b. bk_code b = code) bank_list then Inr () else Inl (BadRequest (''unknown bank code '' @ code)))"

section \<open>Name enquiry\<close>

text \<open>What came back from Paystack: nothing, something unreadable, or its envelope.\<close>

datatype 'd reply = Unreachable | Unreadable | Envelope bool "string option" "'d option"

datatype payout_provider = PaystackPayouts "string \<Rightarrow> string \<Rightarrow> string reply" | StubPayouts

definition paystack_resolve :: "string reply \<Rightarrow> api_error + string" where
  "paystack_resolve r =
     (case r of
        Unreachable \<Rightarrow> Inl (ServiceUnavailable ''We couldn't reach your bank to check that account. Try again.'')
      | Unreadable \<Rightarrow> Inl (ServiceUnavailable ''We couldn't reach your bank to check that account. Try again.'')
      | Envelope True _ (Some name) \<Rightarrow> Inr name
      | Envelope _ message _ \<Rightarrow>
          Inl (BadRequest (case message of Some m \<Rightarrow> m
            | None \<Rightarrow> ''Couldn't find that account. Check the number and bank.'')))"

definition stub_names :: "string list" where
  "stub_names = [''ADEYEMI DIVINE'', ''CHINEDU OKAFOR'', ''FATIMA ABUBAKAR'', ''OLUWASEUN ADEBAYO'',
     ''NGOZI ELUEMUNOR'', ''IBRAHIM MUSA'', ''BLESSING OGUNDIPE'', ''TUNDE BAKARE'']"

definition stub_resolve :: "string \<Rightarrow> api_error + string" where
  "stub_resolve number =
     (if suffix ''0'' number then Inl (BadRequest ''Couldn't find that account. Check the number and bank.'')
      else Inr (stub_names ! (sum_list (map digit_val (filter is_ascii_digit number)) mod length stub_names)))"

fun resolve_account :: "payout_provider \<Rightarrow> string \<Rightarrow> string \<Rightarrow> api_error + string" where
  "resolve_account (PaystackPayouts http) code number = paystack_resolve (http code number)"
| "resolve_account StubPayouts code number = stub_resolve number"

fun can_transfer :: "payout_provider \<Rightarrow> bool" where
  "can_transfer (PaystackPayouts _) = True"
| "can_transfer StubPayouts = False"

section \<open>Bank accounts\<close>

text \<open>
  \<open>INSERT .. ON CONFLICT (user_id, bank_code, account_number) DO UPDATE\<close>; \<open>verify\<close> is the part of the
  update that differs between saving an account and a one-off payout.
\<close>

definition same_account :: "uuid \<Rightarrow> string \<Rightarrow> string \<Rightarrow> bank_account_row \<Rightarrow> bool" where
  "same_account user code number r \<longleftrightarrow> ba_user r = user \<and> ba_code r = code \<and> ba_number r = number"

definition upsert_account :: "env \<Rightarrow> uuid \<Rightarrow> string \<Rightarrow> string \<Rightarrow> string \<Rightarrow> (instant option \<Rightarrow> instant option) \<Rightarrow>
    'z cash_db_scheme \<Rightarrow> db_error + (bank_account_row \<times> 'z cash_db_scheme)" where
  "upsert_account env user code number name verify db =
     (case fetch_optional (same_account user code number) (bank_accounts db) of
        Some r \<Rightarrow>
          Inr (r\<lparr>ba_name := name, ba_verified_at := verify (ba_verified_at r)\<rparr>,
            db\<lparr>bank_accounts := update_where (same_account user code number)
              (\<lambda>r. r\<lparr>ba_name := name, ba_verified_at := verify (ba_verified_at r)\<rparr>) (bank_accounts db)\<rparr>)
      | None \<Rightarrow>
          if user \<notin> us_id ` set (members db) then Inl ForeignKeyViolation
          else if new_id env 0 \<in> ba_id ` set (bank_accounts db) then Inl UniqueViolation
          else
            (let r = \<lparr>ba_id = new_id env 0, ba_user = user, ba_code = code, ba_number = number, ba_name = name,
                ba_verified_at = Some (sql_now env), ba_created_at = sql_now env\<rparr>
             in Inr (r, db\<lparr>bank_accounts := bank_accounts db @ [r]\<rparr>)))"

record bank_account_response =
  br_id :: uuid
  br_code :: string
  br_bank_name :: string
  br_number :: string
  br_name :: string
  br_verified_at :: "string option"
  br_last_used_at :: "string option"

definition resolve_bank_account :: "payout_provider \<Rightarrow> string \<Rightarrow> string \<Rightarrow> api_error + (string \<times> string \<times> string)" where
  "resolve_bank_account provider code raw =
     res_bind (normalise_account_number raw) (\<lambda>number.
     res_bind (ensure_known_bank code) (\<lambda>_.
     res_bind (resolve_account provider code number) (\<lambda>name.
     Inr (name, code, number))))"

definition add_bank_account :: "cash_crates \<Rightarrow> payout_provider \<Rightarrow> env \<Rightarrow> uuid \<Rightarrow> string \<Rightarrow> string \<Rightarrow> string option \<Rightarrow>
    'z cash_db_scheme \<Rightarrow> (api_error + bank_account_response) \<times> 'z cash_db_scheme" where
  "add_bank_account ck provider env user code raw claimed db =
     (case res_bind (normalise_account_number raw) (\<lambda>number.
           res_bind (ensure_known_bank code) (\<lambda>_.
           res_bind (resolve_account provider code number) (\<lambda>name.
           res_bind (map_err from_sqlx (upsert_account env user code number name (\<lambda>_. Some (sql_now env)) db)) (\<lambda>(r, db1).
           Inr (\<lparr>br_id = ba_id r, br_code = code, br_bank_name = bank_name code, br_number = number, br_name = name,
                 br_verified_at = map_option (ck_rfc3339 ck) (ba_verified_at r), br_last_used_at = None\<rparr>, db1))))) of
        Inl e \<Rightarrow> (Inl e, db)
      | Inr (resp, db1) \<Rightarrow> (Inr resp, db1))"

text \<open>\<open>DELETE\<close>: a payout that used the account holds it by its foreign key.\<close>

definition remove_account :: "uuid \<Rightarrow> uuid \<Rightarrow> 'z cash_db_scheme \<Rightarrow> (api_error + unit) \<times> 'z cash_db_scheme" where
  "remove_account user i db =
     (if \<not> list_ex (\<lambda>r. ba_id r = i \<and> ba_user r = user) (bank_accounts db) then (Inl NotFound, db)
      else if list_ex (\<lambda>p. po_account p = i) (payouts db) then (Inl (from_sqlx ForeignKeyViolation), db)
      else (Inr (), db\<lparr>bank_accounts := filter (\<lambda>r. \<not> (ba_id r = i \<and> ba_user r = user)) (bank_accounts db)\<rparr>))"

text \<open>The list, last used first, never used last, then newest first.\<close>

definition last_used :: "'z cash_db_scheme \<Rightarrow> bank_account_row \<Rightarrow> instant option" where
  "last_used db r =
     (case map po_created_at (filter (\<lambda>p. po_account p = ba_id r) (payouts db)) of
        [] \<Rightarrow> None
      | t # ts \<Rightarrow> Some (fold max ts t))"

definition account_order :: "'z cash_db_scheme \<Rightarrow> bank_account_row \<Rightarrow> int \<times> int \<times> int" where
  "account_order db r =
     (case last_used db r of Some t \<Rightarrow> (0, - t, - ba_created_at r) | None \<Rightarrow> (1, 0, - ba_created_at r))"

definition list_accounts :: "cash_crates \<Rightarrow> uuid \<Rightarrow> 'z cash_db_scheme \<Rightarrow> bank_account_response list" where
  "list_accounts ck user db =
     map (\<lambda>r. \<lparr>br_id = ba_id r, br_code = ba_code r, br_bank_name = bank_name (ba_code r), br_number = ba_number r,
        br_name = ba_name r, br_verified_at = map_option (ck_rfc3339 ck) (ba_verified_at r),
        br_last_used_at = map_option (ck_rfc3339 ck) (last_used db r)\<rparr>)
       (sort_key (account_order db) (filter (\<lambda>r. ba_user r = user) (bank_accounts db)))"

end
