(* ===== verification/Payouts.thy ===== *)
theory Payouts
  imports Cash_Store
begin

text \<open>
  \<open>create_payout\<close> of \<open>crates/api/src/payout_routes.rs\<close>: the destination, the checks, and the
  reservation that moves the amount from the user to what is owed to the bank.
\<close>

section \<open>The request\<close>

datatype destination =
    Beneficiary uuid
  | OneOff string string string bool

record payout_body =
  pb_amount :: string
  pb_destination :: destination
  pb_pin :: string

record payout_bank_account =
  pa_bank_name :: string
  pa_number :: string
  pa_name :: string

record payout_response =
  pr_id :: uuid
  pr_amount :: string
  pr_fee :: string
  pr_account :: payout_bank_account
  pr_status :: string
  pr_reference :: string
  pr_created_at :: string
  pr_settled_at :: "string option"

section \<open>The destination\<close>

definition one_off :: "payout_provider \<Rightarrow> env \<Rightarrow> uuid \<Rightarrow> string \<Rightarrow> string \<Rightarrow> string \<Rightarrow> 'z cash_db_scheme \<Rightarrow>
    api_error + (uuid \<times> 'z cash_db_scheme)" where
  "one_off provider env user code raw shown db =
     (let number = filter is_ascii_digit raw in
      if length number \<noteq> 10 then Inl (BadRequest ''Account numbers are 10 digits.'')
      else
        res_bind (resolve_account provider code number) (\<lambda>resolved.
        if \<not> eq_ignore_ascii_case (trim resolved) (trim shown)
        then Inl (BadRequest ''That account's name changed. Check it and try again.'')
        else
          res_bind (map_err from_sqlx (upsert_account env user code number resolved (\<lambda>v. v) db)) (\<lambda>(r, db1).
          Inr (ba_id r, db1))))"

fun resolve_destination :: "payout_provider \<Rightarrow> env \<Rightarrow> uuid \<Rightarrow> destination \<Rightarrow> 'z cash_db_scheme \<Rightarrow>
    api_error + (uuid \<times> 'z cash_db_scheme)" where
  "resolve_destination provider env user (Beneficiary i) db = Inr (i, db)"
| "resolve_destination provider env user (OneOff code raw shown save) db = one_off provider env user code raw shown db"

section \<open>The checks\<close>

text \<open>\<open>payout_usage_24h\<close>.\<close>

definition used_ngn :: "instant \<Rightarrow> uuid \<Rightarrow> 'z cash_db_scheme \<Rightarrow> decimal" where
  "used_ngn now user db = sum_list (map po_amount (filter (\<lambda>p. po_user p = user \<and> now - days 1 < po_created_at p \<and>
     po_status p \<in> {PoReserved, PoProcessing, PoSettled}) (payouts db)))"

definition payout_amount :: "cash_crates \<Rightarrow> string \<Rightarrow> api_error + decimal" where
  "payout_amount ck raw =
     res_bind (ok_or (BadRequest ''That amount isn't a number.'') (ck_parse_decimal ck (trim raw))) (\<lambda>(amount, scale).
     if amount \<le> 0 then Inl (BadRequest ''Enter an amount above zero.'')
     else if 4 < scale then Inl (BadRequest ''That amount is too precise.'')
     else Inr amount)"

definition payout_pin :: "cash_crates \<Rightarrow> uuid \<Rightarrow> string \<Rightarrow> 'z cash_db_scheme \<Rightarrow> api_error + int" where
  "payout_pin ck user pin db =
     (case fetch_optional (\<lambda>u. us_id u = user) (members db) of
        None \<Rightarrow> Inl (from_sqlx RowNotFound)
      | Some u \<Rightarrow>
          res_bind (ok_or (BadRequest ''Set a PIN before withdrawing.'') (us_pin_hash u)) (\<lambda>pin_hash.
          res_bind (map_err (\<lambda>e. Internal (IMsg (pin_error_text e))) (verify_pin (ck_pin ck) pin pin_hash)) (\<lambda>right.
          if right then Inr (us_tier u) else Inl (PinInvalid 0))))"

definition payout_limit :: "cash_crates \<Rightarrow> int \<Rightarrow> decimal \<Rightarrow> decimal \<Rightarrow> api_error + unit" where
  "payout_limit ck tier_raw amount used =
     (case check_payout (case tier_of_i16 tier_raw of Some t \<Rightarrow> t | None \<Rightarrow> Tier0) amount used of
        PayoutAllowed \<Rightarrow> Inr ()
      | PayoutKycRequired next \<Rightarrow> Inl (KycRequired next)
      | ExceedsDailyCap _ _ remaining \<Rightarrow> Inl (LimitExceeded (ck_show_decimal ck remaining)))"

section \<open>The reservation\<close>

definition payout_journal :: "cash_crates \<Rightarrow> uuid \<Rightarrow> uuid \<Rightarrow> string \<Rightarrow> string \<Rightarrow> decimal \<Rightarrow> bank_account_row \<Rightarrow>
    ledger_error + journal" where
  "payout_journal ck user_account pending reference key amount b =
     build (builder_metadata
       (JObj [(''bank_account_id'', JStr (ck_show_uuid ck (ba_id b))), (''bank_code'', JStr (ba_code b))])
       (builder_entry pending NgnPayablePending Ngn (- amount)
         (builder_entry user_account UserNgn Ngn amount
           (builder_new PayoutReserve reference key))))"

definition payout_answer :: "cash_crates \<Rightarrow> bank_account_row \<Rightarrow> payout_row \<Rightarrow> payout_response" where
  "payout_answer ck b p =
     \<lparr>pr_id = po_id p, pr_amount = ck_show_decimal ck (po_amount p), pr_fee = ck_show_decimal ck (po_fee p),
      pr_account = \<lparr>pa_bank_name = bank_name (ba_code b), pa_number = ba_number b, pa_name = ba_name b\<rparr>,
      pr_status = payout_status_str (po_status p), pr_reference = po_reference p,
      pr_created_at = ck_rfc3339 ck (po_created_at p), pr_settled_at = None\<rparr>"

text \<open>The insert: the keys of \<open>payouts\<close>, and its references to the user and the account.\<close>

definition insert_payout :: "payout_row \<Rightarrow> 'z cash_db_scheme \<Rightarrow> db_error + 'z cash_db_scheme" where
  "insert_payout p db =
     (if po_amount p \<le> 0 then Inl CheckViolation
      else if po_id p \<in> po_id ` set (payouts db) \<or> po_reference p \<in> po_reference ` set (payouts db) then Inl UniqueViolation
      else if po_user p \<notin> us_id ` set (members db) \<or> po_account p \<notin> ba_id ` set (bank_accounts db) then Inl ForeignKeyViolation
      else Inr (db\<lparr>payouts := payouts db @ [p]\<rparr>))"

definition payout_reference :: "cash_crates \<Rightarrow> uuid \<Rightarrow> string" where
  "payout_reference ck i = ''NVLT-'' @ ck_simple_uuid ck i"

definition new_payout :: "cash_crates \<Rightarrow> env \<Rightarrow> uuid \<Rightarrow> decimal \<Rightarrow> bank_account_row \<Rightarrow> uuid \<Rightarrow> payout_row" where
  "new_payout ck env user amount b journal =
     \<lparr>po_id = new_id env 5, po_user = user, po_account = ba_id b, po_amount = amount, po_fee = 0,
      po_status = PoReserved, po_reference = payout_reference ck (new_id env 3), po_journal = journal,
      po_created_at = sql_now env\<rparr>"

text \<open>The payout of a journal: the one there is, or a new row.\<close>

definition record_payout :: "cash_crates \<Rightarrow> env \<Rightarrow> uuid \<Rightarrow> decimal \<Rightarrow> bank_account_row \<Rightarrow> uuid \<Rightarrow> 'z cash_db_scheme \<Rightarrow>
    api_error + (payout_response \<times> 'z cash_db_scheme)" where
  "record_payout ck env user amount b journal db =
     (case fetch_optional (\<lambda>p. po_journal p = journal) (payouts db) of
        Some p \<Rightarrow> Inr (payout_answer ck b p, db)
      | None \<Rightarrow>
          (let p = new_payout ck env user amount b journal in
           res_bind (map_err via_anyhow (insert_payout p db)) (\<lambda>db1. Inr (payout_answer ck b p, db1))))"

definition reserve_payout :: "cash_crates \<Rightarrow> env \<Rightarrow> uuid \<Rightarrow> string \<Rightarrow> decimal \<Rightarrow> bank_account_row \<Rightarrow> 'z cash_db_scheme \<Rightarrow>
    api_error + (payout_response \<times> 'z cash_db_scheme)" where
  "reserve_payout ck env user key amount b db =
     res_bind (map_err via_anyhow (lock_user_ngn_account (new_id env 1) user db)) (\<lambda>(user_account, db1).
     if user_facing_balance UserNgn (raw_balance db1 user_account) < amount then Inl InsufficientBalance
     else
       res_bind (map_err via_anyhow (platform_account (new_id env 2) NgnPayablePending db1)) (\<lambda>(pending, db2).
       res_bind (map_err ledger_internal
         (payout_journal ck user_account pending (payout_reference ck (new_id env 3)) key amount b)) (\<lambda>j.
       res_bind (map_err ledger_internal (post (new_id env 4) j db2)) (\<lambda>(outcome, db3).
       record_payout ck env user amount b (outcome_journal_id outcome) db3))))"

text \<open>
  The whole handler. Its destination is stored by a statement of its own, so it stays when a later
  step fails.
\<close>

definition payout_checks :: "cash_crates \<Rightarrow> payout_provider \<Rightarrow> env \<Rightarrow> uuid \<Rightarrow> string option \<Rightarrow> payout_body \<Rightarrow>
    'z cash_db_scheme \<Rightarrow> api_error + (string \<times> decimal \<times> uuid \<times> 'z cash_db_scheme)" where
  "payout_checks ck provider env user header body db =
     res_bind (ok_or (BadRequest ''Idempotency-Key header is required'') header) (\<lambda>key.
     res_bind (payout_amount ck (pb_amount body)) (\<lambda>amount.
     res_bind (payout_pin ck user (pb_pin body) db) (\<lambda>tier.
     res_bind (payout_limit ck tier amount (used_ngn (sql_now env) user db)) (\<lambda>_.
     res_bind (resolve_destination provider env user (pb_destination body) db) (\<lambda>(account, db1).
     Inr (key, amount, account, db1))))))"

definition create_payout :: "cash_crates \<Rightarrow> payout_provider \<Rightarrow> env \<Rightarrow> uuid \<Rightarrow> string option \<Rightarrow> payout_body \<Rightarrow>
    'z cash_db_scheme \<Rightarrow> (api_error + payout_response) \<times> 'z cash_db_scheme" where
  "create_payout ck provider env user header body db =
     (case payout_checks ck provider env user header body db of
        Inl e \<Rightarrow> (Inl e, db)
      | Inr (key, amount, account, db1) \<Rightarrow>
          (case fetch_optional (\<lambda>r. ba_id r = account \<and> ba_user r = user) (bank_accounts db1) of
             None \<Rightarrow> (Inl NotFound, db1)
           | Some b \<Rightarrow>
               (case reserve_payout ck env user key amount b db1 of
                  Inl e \<Rightarrow> (Inl e, db1)
                | Inr (resp, db2) \<Rightarrow> (Inr resp, db2))))"

end
