(* ===== verification/Funding.thy ===== *)
theory Funding
  imports Cash_Store
begin

text \<open>
  Card funding: \<open>crates/api/src/funding_provider.rs\<close>, the intents of \<open>crates/api/src/funding_routes.rs\<close>
  and the sweep of \<open>crates/api/src/funding_reconciler.rs\<close>.
\<close>

section \<open>The provider\<close>

datatype charge_state = ChargePending | ChargeSucceeded decimal | ChargeFailed string

record verify_data =
  vd_status :: string
  vd_amount :: int
  vd_gateway_response :: "string option"

text \<open>
  \<open>PaystackFunding init verify\<close>: the replies to an initialisation (e-mail, kobo, reference, callback)
  and to a verification of a reference.
\<close>

datatype funding_provider =
    PaystackFunding "string \<Rightarrow> decimal \<Rightarrow> string \<Rightarrow> string \<Rightarrow> string reply" "string \<Rightarrow> verify_data reply"
  | StubFunding

fun is_live :: "funding_provider \<Rightarrow> bool" where
  "is_live (PaystackFunding _ _) = True"
| "is_live StubFunding = False"

text \<open>\<open>Decimal::round\<close>: to the nearest integer, halves to the even one.\<close>

definition round_half_even :: "decimal \<Rightarrow> decimal" where
  "round_half_even x =
     (let f = \<lfloor>x\<rfloor>; r = x - of_int f in
      of_int (if r < 1 / 2 \<or> r = 1 / 2 \<and> even f then f else f + 1))"

definition paystack_initialize :: "string reply \<Rightarrow> api_error + string option" where
  "paystack_initialize r =
     (case r of
        Unreachable \<Rightarrow> Inl (ServiceUnavailable ''We couldn't start that payment. Nothing was charged.'')
      | Unreadable \<Rightarrow> Inl (ServiceUnavailable ''We couldn't start that payment.'')
      | Envelope True _ (Some url) \<Rightarrow> Inr (Some url)
      | Envelope _ _ _ \<Rightarrow> Inl (ServiceUnavailable ''We couldn't start that payment. Nothing was charged.''))"

fun initialize :: "funding_provider \<Rightarrow> string \<Rightarrow> decimal \<Rightarrow> string \<Rightarrow> string \<Rightarrow> api_error + string option" where
  "initialize (PaystackFunding init verify) email amount reference callback =
     paystack_initialize (init email (round_half_even (amount * 100)) reference callback)"
| "initialize StubFunding email amount reference callback = Inr None"

definition charge_of :: "verify_data \<Rightarrow> charge_state" where
  "charge_of d =
     (if vd_status d = ''success'' then ChargeSucceeded (of_int (vd_amount d) / 100)
      else if vd_status d \<in> {''failed'', ''reversed''}
      then ChargeFailed (case vd_gateway_response d of Some m \<Rightarrow> m | None \<Rightarrow> ''the bank declined that card'')
      else ChargePending)"

definition paystack_verify :: "verify_data reply \<Rightarrow> api_error + charge_state" where
  "paystack_verify r =
     (case r of
        Unreachable \<Rightarrow> Inl (ServiceUnavailable ''We couldn't check that payment.'')
      | Unreadable \<Rightarrow> Inl (ServiceUnavailable ''We couldn't check that payment.'')
      | Envelope _ _ None \<Rightarrow> Inr ChargePending
      | Envelope _ _ (Some d) \<Rightarrow> Inr (charge_of d))"

fun verify_charge :: "funding_provider \<Rightarrow> string \<Rightarrow> decimal \<Rightarrow> api_error + charge_state" where
  "verify_charge (PaystackFunding init verify) reference intent = paystack_verify (verify reference)"
| "verify_charge StubFunding reference intent = Inr (ChargeSucceeded intent)"

section \<open>Intents\<close>

definition min_funding_ngn :: decimal where "min_funding_ngn = 100"
definition max_funding_ngn :: decimal where "max_funding_ngn = 1000000"

definition naira_sign :: string where
  "naira_sign = [CHR 0xE2, CHR 0x82, CHR 0xA6]"

record intent_response =
  in_id :: uuid
  in_reference :: string
  in_amount :: string
  in_status :: string
  in_url :: "string option"
  in_live :: bool
  in_created_at :: string

definition funding_amount :: "cash_crates \<Rightarrow> string \<Rightarrow> api_error + decimal" where
  "funding_amount ck raw =
     res_bind (ok_or (BadRequest ''That amount isn't a number.'') (ck_parse_decimal ck (trim raw))) (\<lambda>(amount, scale).
     if amount < min_funding_ngn then Inl (BadRequest (''The smallest top-up is '' @ naira_sign @ ''100.''))
     else if max_funding_ngn < amount then Inl (BadRequest (''The largest single top-up is '' @ naira_sign @ ''1000000.''))
     else if 2 < scale then Inl (BadRequest ''That amount is too precise.'')
     else Inr amount)"

definition insert_deposit :: "ngn_deposit_row \<Rightarrow> 'z cash_db_scheme \<Rightarrow> db_error + 'z cash_db_scheme" where
  "insert_deposit d db =
     (if nd_amount d \<le> 0 then Inl CheckViolation
      else if nd_id d \<in> nd_id ` set (ngn_deposits db) \<or> nd_reference d \<in> nd_reference ` set (ngn_deposits db)
      then Inl UniqueViolation
      else if nd_user d \<notin> us_id ` set (members db) then Inl ForeignKeyViolation
      else Inr (db\<lparr>ngn_deposits := ngn_deposits db @ [d]\<rparr>))"

definition new_intent :: "cash_crates \<Rightarrow> funding_provider \<Rightarrow> env \<Rightarrow> uuid \<Rightarrow> decimal \<Rightarrow> ngn_deposit_row" where
  "new_intent ck provider env user amount =
     \<lparr>nd_id = new_id env 0, nd_user = user, nd_amount = amount,
      nd_provider = (if is_live provider then ''paystack'' else ''stub''),
      nd_reference = ''NVFD-'' @ to_ascii_uppercase (take 12 (ck_simple_uuid ck (new_id env 1))),
      nd_status = DsPending, nd_journal = None, nd_failure = None, nd_created_at = sql_now env\<rparr>"

text \<open>
  \<open>create_intent\<close>: the row is committed before the provider is asked, so it stays when that fails.
\<close>

definition create_intent :: "cash_crates \<Rightarrow> funding_provider \<Rightarrow> string \<Rightarrow> env \<Rightarrow> uuid \<Rightarrow> string \<Rightarrow> 'z cash_db_scheme \<Rightarrow>
    (api_error + intent_response) \<times> 'z cash_db_scheme" where
  "create_intent ck provider web_app_url env user raw db =
     (case res_bind (funding_amount ck raw) (\<lambda>amount.
           res_bind (map_err from_sqlx (ok_or RowNotFound (fetch_optional (\<lambda>u. us_id u = user) (members db)))) (\<lambda>u.
           res_bind (ok_or (BadRequest ''Add an email to your profile before funding.'') (us_email u)) (\<lambda>email.
           let d = new_intent ck provider env user amount in
           res_bind (map_err from_sqlx (insert_deposit d db)) (\<lambda>db1. Inr (email, d, db1))))) of
        Inl e \<Rightarrow> (Inl e, db)
      | Inr (email, d, db1) \<Rightarrow>
          (case initialize provider email (nd_amount d) (nd_reference d)
              (web_app_url @ ''/dashboard?intent='' @ ck_show_uuid ck (nd_id d)) of
             Inl e \<Rightarrow> (Inl e, db1)
           | Inr url \<Rightarrow>
               (Inr \<lparr>in_id = nd_id d, in_reference = nd_reference d, in_amount = ck_show_decimal ck (nd_amount d),
                  in_status = ''pending'', in_url = url, in_live = is_live provider,
                  in_created_at = ck_rfc3339 ck (nd_created_at d)\<rparr>, db1)))"

section \<open>Settling\<close>

definition funding_journal :: "uuid \<Rightarrow> uuid \<Rightarrow> string \<Rightarrow> decimal \<Rightarrow> ledger_error + journal" where
  "funding_journal user_account float_account reference amount =
     build (builder_entry user_account UserNgn Ngn (- amount)
       (builder_entry float_account NgnFloat Ngn amount
         (builder_new NgnDeposit reference (reference @ '':credit''))))"

text \<open>
  The update of the credited row: it checks the amount, and a row that is no longer pending is left
  as it is.
\<close>

definition mark_credited :: "uuid \<Rightarrow> decimal \<Rightarrow> uuid \<Rightarrow> 'z cash_db_scheme \<Rightarrow> db_error + 'z cash_db_scheme" where
  "mark_credited i amount journal db =
     (if amount \<le> 0 \<and> list_ex (\<lambda>d. nd_id d = i \<and> nd_status d = DsPending) (ngn_deposits db) then Inl CheckViolation
      else Inr (db\<lparr>ngn_deposits := update_where (\<lambda>d. nd_id d = i \<and> nd_status d = DsPending)
        (\<lambda>d. d\<lparr>nd_status := DsSucceeded, nd_amount := amount, nd_journal := Some journal\<rparr>) (ngn_deposits db)\<rparr>))"

definition credit_intent :: "env \<Rightarrow> uuid \<Rightarrow> uuid \<Rightarrow> string \<Rightarrow> decimal \<Rightarrow> 'z cash_db_scheme \<Rightarrow>
    api_error + 'z cash_db_scheme" where
  "credit_intent env i user reference amount db =
     res_bind (map_err via_anyhow (lock_user_ngn_account (new_id env 0) user db)) (\<lambda>(user_account, db1).
     res_bind (map_err via_anyhow (platform_account (new_id env 1) NgnFloat db1)) (\<lambda>(float_account, db2).
     res_bind (map_err ledger_internal (funding_journal user_account float_account reference amount)) (\<lambda>j.
     res_bind (map_err ledger_internal (post (new_id env 2) j db2)) (\<lambda>(outcome, db3).
     map_err via_anyhow (mark_credited i amount (outcome_journal_id outcome) db3)))))"

text \<open>\<open>settle\<close>: what the provider says decides the intent; an unreachable provider leaves it open.\<close>

definition settle_intent :: "funding_provider \<Rightarrow> env \<Rightarrow> uuid \<Rightarrow> uuid \<Rightarrow> string \<Rightarrow> decimal \<Rightarrow> 'z cash_db_scheme \<Rightarrow>
    (api_error + deposit_state) \<times> 'z cash_db_scheme" where
  "settle_intent provider env i user reference amount db =
     (case verify_charge provider reference amount of
        Inr (ChargeSucceeded taken) \<Rightarrow>
          (case credit_intent env i user reference taken db of
             Inl e \<Rightarrow> (Inl e, db)
           | Inr db1 \<Rightarrow> (Inr DsSucceeded, db1))
      | Inr (ChargeFailed reason) \<Rightarrow>
          (Inr DsFailed, db\<lparr>ngn_deposits := update_where (\<lambda>d. nd_id d = i \<and> nd_status d = DsPending)
             (\<lambda>d. d\<lparr>nd_status := DsFailed, nd_failure := Some reason\<rparr>) (ngn_deposits db)\<rparr>)
      | Inr ChargePending \<Rightarrow> (Inr DsPending, db)
      | Inl _ \<Rightarrow> (Inr DsPending, db))"

definition get_intent :: "cash_crates \<Rightarrow> funding_provider \<Rightarrow> env \<Rightarrow> uuid \<Rightarrow> uuid \<Rightarrow> 'z cash_db_scheme \<Rightarrow>
    (api_error + intent_response) \<times> 'z cash_db_scheme" where
  "get_intent ck provider env user i db =
     (case fetch_optional (\<lambda>d. nd_id d = i \<and> nd_user d = user) (ngn_deposits db) of
        None \<Rightarrow> (Inl NotFound, db)
      | Some d \<Rightarrow>
          (case (if nd_status d = DsPending then settle_intent provider env i user (nd_reference d) (nd_amount d) db
                 else (Inr (nd_status d), db)) of
             (Inl e, db1) \<Rightarrow> (Inl e, db1)
           | (Inr status, db1) \<Rightarrow>
               (Inr \<lparr>in_id = i, in_reference = nd_reference d, in_amount = ck_show_decimal ck (nd_amount d),
                  in_status = deposit_state_str status, in_url = None, in_live = is_live provider,
                  in_created_at = ck_rfc3339 ck (nd_created_at d)\<rparr>, db1)))"

definition list_intents :: "cash_crates \<Rightarrow> funding_provider \<Rightarrow> uuid \<Rightarrow> 'z cash_db_scheme \<Rightarrow> intent_response list" where
  "list_intents ck provider user db =
     map (\<lambda>d. \<lparr>in_id = nd_id d, in_reference = nd_reference d, in_amount = ck_show_decimal ck (nd_amount d),
         in_status = deposit_state_str (nd_status d), in_url = None, in_live = is_live provider,
         in_created_at = ck_rfc3339 ck (nd_created_at d)\<rparr>)
       (take 50 (sort_key (\<lambda>d. - nd_created_at d) (filter (\<lambda>d. nd_user d = user) (ngn_deposits db))))"

section \<open>The sweep\<close>

definition settle_after_seconds :: int where "settle_after_seconds = 20"
definition abandon_after_hours :: int where "abandon_after_hours = 24"
definition funding_batch :: nat where "funding_batch = 50"

definition due_intents :: "instant \<Rightarrow> 'z cash_db_scheme \<Rightarrow> ngn_deposit_row list" where
  "due_intents now db =
     take funding_batch (sort_key nd_created_at
       (filter (\<lambda>d. nd_status d = DsPending \<and> nd_provider d = ''paystack'' \<and>
          nd_created_at d < now - seconds settle_after_seconds \<and> now - minutes (60 * abandon_after_hours) < nd_created_at d)
        (ngn_deposits db)))"

text \<open>The loop: an error is logged and the next intent is taken. \<open>envs k\<close> is the k-th call's environment.\<close>

fun settle_due :: "funding_provider \<Rightarrow> (nat \<Rightarrow> env) \<Rightarrow> nat \<Rightarrow> ngn_deposit_row list \<Rightarrow> 'z cash_db_scheme \<Rightarrow> 'z cash_db_scheme" where
  "settle_due provider envs k [] db = db"
| "settle_due provider envs k (d # ds) db =
     settle_due provider envs (Suc k) ds
       (snd (settle_intent provider (envs k) (nd_id d) (nd_user d) (nd_reference d) (nd_amount d) db))"

definition abandon :: "instant \<Rightarrow> 'z cash_db_scheme \<Rightarrow> 'z cash_db_scheme" where
  "abandon now db = db\<lparr>ngn_deposits := update_where
     (\<lambda>d. nd_status d = DsPending \<and> nd_provider d = ''paystack'' \<and> nd_created_at d < now - minutes (60 * abandon_after_hours))
     (\<lambda>d. d\<lparr>nd_status := DsAbandoned\<rparr>) (ngn_deposits db)\<rparr>"

definition sweep_funding :: "funding_provider \<Rightarrow> (nat \<Rightarrow> env) \<Rightarrow> instant \<Rightarrow> instant \<Rightarrow> 'z cash_db_scheme \<Rightarrow> 'z cash_db_scheme" where
  "sweep_funding provider envs now later db = abandon later (settle_due provider envs 0 (due_intents now db) db)"

text \<open>\<open>spawn\<close>: the sweep never runs against the stub.\<close>

definition funding_pass :: "funding_provider \<Rightarrow> (nat \<Rightarrow> env) \<Rightarrow> instant \<Rightarrow> instant \<Rightarrow> 'z cash_db_scheme \<Rightarrow> 'z cash_db_scheme" where
  "funding_pass provider envs now later db = (if is_live provider then sweep_funding provider envs now later db else db)"

end
