(* ===== verification/Cash_Runs.thy ===== *)
theory Cash_Runs
  imports Payouts Funding
begin

text \<open>
  The books of naira in and out: over every run of the handlers and the sweep, what users own, what
  is owed to banks and what the provider holds add up with the rows of \<open>payouts\<close> and
  \<open>ngn_deposits\<close>.
\<close>

section \<open>Congruences\<close>

lemma kind_balance_cong:
  "accounts db' = accounts db \<Longrightarrow> entries db' = entries db \<Longrightarrow> kind_balance db' k u a = kind_balance db k u a"
  by (simp add: kind_balance_def find_account_def raw_balance_def comp_def split: option.split)

lemma wf_ledger_cong:
  "accounts db' = accounts db \<Longrightarrow> journals db' = journals db \<Longrightarrow> entries db' = entries db \<Longrightarrow> wf_ledger db' = wf_ledger db"
  by (simp add: wf_ledger_def journal_residual_def)

lemma key_posted_cong: "journals db' = journals db \<Longrightarrow> key_posted db' k = key_posted db k"
  by (simp add: key_posted_def)

lemma more_cash: "ledger.more db = ledger.more db' \<Longrightarrow>
    members db = members db' \<and> bank_accounts db = bank_accounts db' \<and> payouts db = payouts db' \<and> ngn_deposits db = ngn_deposits db'"
  by (cases db; cases db') simp

section \<open>The books\<close>

definition credit_key :: "ngn_deposit_row \<Rightarrow> string" where
  "credit_key d = nd_reference d @ '':credit''"

definition credited :: "ngn_deposit_row \<Rightarrow> decimal" where
  "credited d = (if nd_status d = DsSucceeded then nd_amount d else 0)"

definition credited_to :: "uuid \<Rightarrow> ngn_deposit_row \<Rightarrow> decimal" where
  "credited_to u d = (if nd_user d = u then credited d else 0)"

definition paid_out :: "uuid \<Rightarrow> payout_row \<Rightarrow> decimal" where
  "paid_out u p = (if po_user p = u then po_amount p else 0)"

text \<open>The balances before the first payout and top-up.\<close>

record cash_opening =
  op_user :: "uuid \<Rightarrow> decimal"
  op_float :: decimal

definition cash_books :: "cash_opening \<Rightarrow> 'z cash_db_scheme \<Rightarrow> bool" where
  "cash_books b db \<longleftrightarrow>
     kind_balance db NgnPayablePending None Ngn = - sum_list (map po_amount (payouts db)) \<and>
     kind_balance db NgnFloat None Ngn = op_float b + sum_list (map credited (ngn_deposits db)) \<and>
     (\<forall>u. kind_balance db UserNgn (Some u) Ngn =
        - op_user b u + sum_list (map (paid_out u) (payouts db)) - sum_list (map (credited_to u) (ngn_deposits db)))"

definition cash_rows :: "'z cash_db_scheme \<Rightarrow> bool" where
  "cash_rows db \<longleftrightarrow>
     distinct (map nd_id (ngn_deposits db)) \<and> distinct (map nd_reference (ngn_deposits db)) \<and>
     (\<forall>d \<in> set (ngn_deposits db). nd_status d = DsSucceeded \<longleftrightarrow> key_posted db (credit_key d)) \<and>
     (\<forall>d \<in> set (ngn_deposits db). 0 < nd_amount d) \<and>
     po_journal ` set (payouts db) \<subseteq> jr_id ` set (journals db)"

definition no_overdraft :: "'z cash_db_scheme \<Rightarrow> bool" where
  "no_overdraft db \<longleftrightarrow> (\<forall>u. kind_balance db UserNgn (Some u) Ngn \<le> 0)"

definition cash_inv :: "cash_opening \<Rightarrow> 'z cash_db_scheme \<Rightarrow> bool" where
  "cash_inv b db \<longleftrightarrow> wf_ledger db \<and> cash_books b db \<and> cash_rows db \<and> no_overdraft db"

lemma cash_invD:
  assumes "cash_inv b db"
  shows "distinct (map nd_id (ngn_deposits db))" "distinct (map nd_reference (ngn_deposits db))"
    "\<forall>x \<in> set (ngn_deposits db). nd_status x = DsSucceeded \<longleftrightarrow> key_posted db (credit_key x)"
    "\<forall>x \<in> set (ngn_deposits db). 0 < nd_amount x"
    "po_journal ` set (payouts db) \<subseteq> jr_id ` set (journals db)"
  using assms unfolding cash_inv_def cash_rows_def by blast+

lemma cash_inv_cong:
  assumes "accounts db' = accounts db" "journals db' = journals db" "entries db' = entries db"
    and "payouts db' = payouts db" "ngn_deposits db' = ngn_deposits db"
  shows "cash_inv b db' = cash_inv b db"
  unfolding cash_inv_def cash_books_def cash_rows_def no_overdraft_def
  by (simp only: assms kind_balance_cong [OF assms(1,3)] wf_ledger_cong [OF assms(1-3)] key_posted_cong [OF assms(2)])

text \<open>Changes of rows that move no money.\<close>

lemma cash_inv_rows:
  assumes inv: "cash_inv b db" and same: "accounts db' = accounts db" "journals db' = journals db" "entries db' = entries db"
      "payouts db' = payouts db"
    and sums: "sum_list (map credited (ngn_deposits db')) = sum_list (map credited (ngn_deposits db))"
      "\<And>u. sum_list (map (credited_to u) (ngn_deposits db')) = sum_list (map (credited_to u) (ngn_deposits db))"
    and rows: "cash_rows db'"
  shows "cash_inv b db'"
proof -
  note bal = kind_balance_cong [OF same(1,3)]
  have "cash_books b db'" using inv unfolding cash_inv_def cash_books_def bal same(4) sums by blast
  moreover have "no_overdraft db'" using inv unfolding cash_inv_def no_overdraft_def bal by blast
  moreover have "wf_ledger db'" using inv wf_ledger_cong [OF same(1-3)] unfolding cash_inv_def by blast
  ultimately show ?thesis using rows unfolding cash_inv_def by blast
qed

text \<open>Creating accounts keeps the books.\<close>

lemma account_step_cash:
  assumes "account_step k u a x db db'" "cash_inv b db"
  shows "cash_inv b db'"
proof -
  have wf: "wf_ledger db" using assms(2) by (simp add: cash_inv_def)
  have m: "payouts db' = payouts db" "ngn_deposits db' = ngn_deposits db"
    using more_cash [OF account_step_frame(6) [OF assms(1)]] by simp_all
  have bal: "kind_balance db' k' u' a' = kind_balance db k' u' a'" for k' u' a'
    by (rule account_step_kind_balance [OF assms(1) wf])
  have "cash_books b db'" using assms(2) unfolding cash_inv_def cash_books_def bal m by blast
  moreover have "cash_rows db'"
    using assms(2) unfolding cash_inv_def cash_rows_def m account_step_frame(1,4) [OF assms(1)] by blast
  moreover have "no_overdraft db'" using assms(2) unfolding cash_inv_def no_overdraft_def bal by blast
  ultimately show ?thesis using account_step_wf [OF assms(1) wf] unfolding cash_inv_def by blast
qed

lemma upsert_account_frame:
  assumes "upsert_account env user code number name v db = Inr (r, db')"
  shows "accounts db' = accounts db \<and> journals db' = journals db \<and> entries db' = entries db \<and> payouts db' = payouts db \<and>
    ngn_deposits db' = ngn_deposits db \<and> members db' = members db"
  using assms by (auto simp: upsert_account_def Let_def split: option.splits if_splits)

section \<open>The payout\<close>

lemma payout_journal_Inr:
  assumes "payout_journal ck x y reference key amount b = Inr j"
  shows "j_idempotency_key j = key" "valid_journal j"
    "j_entries j = [\<lparr>e_account_id = x, e_account_kind = UserNgn, e_asset = Ngn, e_amount = amount\<rparr>,
       \<lparr>e_account_id = y, e_account_kind = NgnPayablePending, e_asset = Ngn, e_amount = - amount\<rparr>]"
  using assms unfolding payout_journal_def
  by (auto simp: build_ok_iff builder_new_def builder_entry_def builder_metadata_def)

text \<open>
  The keys a payout may use: not one that names a top-up, and one already in the journal only if it
  is a payout's own.
\<close>

definition payout_key_ok :: "string \<Rightarrow> 'z cash_db_scheme \<Rightarrow> bool" where
  "payout_key_ok key db \<longleftrightarrow> (\<forall>d \<in> set (ngn_deposits db). key \<noteq> credit_key d) \<and>
     (\<forall>r \<in> set (journals db). jr_key r = key \<longrightarrow> jr_id r \<in> po_journal ` set (payouts db))"

lemma insert_payout_Inr: "insert_payout p db = Inr db' \<Longrightarrow> db' = db\<lparr>payouts := payouts db @ [p]\<rparr> \<and> 0 < po_amount p"
  by (auto simp: insert_payout_def split: if_splits)

lemma record_payout_cases:
  assumes "record_payout ck env user amount b i db = Inr (resp, db')"
  shows "(\<exists>p. fetch_optional (\<lambda>p. po_journal p = i) (payouts db) = Some p \<and> resp = payout_answer ck b p \<and> db' = db) \<or>
    fetch_optional (\<lambda>p. po_journal p = i) (payouts db) = None \<and> resp = payout_answer ck b (new_payout ck env user amount b i) \<and>
      db' = db\<lparr>payouts := payouts db @ [new_payout ck env user amount b i]\<rparr> \<and> 0 < amount"
proof (cases "fetch_optional (\<lambda>p. po_journal p = i) (payouts db)")
  case (Some p)
  then show ?thesis using assms by (simp add: record_payout_def)
next
  case None
  define p where "p = new_payout ck env user amount b i"
  obtain db1 where "insert_payout p db = Inr db1" "resp = payout_answer ck b p" "db' = db1"
    using assms None by (auto simp: record_payout_def Let_def res_bind_Inr_iff p_def)
  then show ?thesis using None insert_payout_Inr [of p db db1] by (simp add: p_def new_payout_def)
qed

lemma reserve_payout_cases:
  assumes "reserve_payout ck env user key amount b db = Inr (resp, db')"
  obtains x y db1 db2 db3 j out where
    "account_step UserNgn (Some user) Ngn x db db1" "amount \<le> - raw_balance db1 x"
    "account_step NgnPayablePending None Ngn y db1 db2"
    "payout_journal ck x y (payout_reference ck (new_id env 3)) key amount b = Inr j"
    "post (new_id env 4) j db2 = Inr (out, db3)"
    "record_payout ck env user amount b (outcome_journal_id out) db3 = Inr (resp, db')"
proof -
  obtain x db1 y db2 j out db3 where l: "lock_user_ngn_account (new_id env 1) user db = Inr (x, db1)"
    "\<not> user_facing_balance UserNgn (raw_balance db1 x) < amount"
    "platform_account (new_id env 2) NgnPayablePending db1 = Inr (y, db2)"
    "payout_journal ck x y (payout_reference ck (new_id env 3)) key amount b = Inr j"
    "post (new_id env 4) j db2 = Inr (out, db3)"
    "record_payout ck env user amount b (outcome_journal_id out) db3 = Inr (resp, db')"
    using assms unfolding reserve_payout_def by (auto simp: res_bind_Inr_iff split: if_splits)
  show ?thesis
    by (rule that [OF lock_user_step [OF l(1)] _ platform_step [OF l(3)] l(4-6)])
      (use l(2) in \<open>simp add: user_facing_balance_def is_liability_def\<close>)
qed

text \<open>A reservation under a key not used before: what it moves, and the row it leaves.\<close>

lemma reserve_payout_fresh:
  assumes inv: "cash_inv b0 db" and fresh: "\<not> key_posted db key"
    and r: "reserve_payout ck env user key amount b db = Inr (resp, db')"
  shows "wf_ledger db' \<and> 0 < amount \<and> amount \<le> - kind_balance db UserNgn (Some user) Ngn \<and>
    payouts db' = payouts db @ [new_payout ck env user amount b (new_id env 4)] \<and>
    resp = payout_answer ck b (new_payout ck env user amount b (new_id env 4)) \<and>
    ngn_deposits db' = ngn_deposits db \<and>
    (\<forall>k u a. kind_balance db' k u a = kind_balance db k u a +
       ((if k = UserNgn \<and> u = Some user \<and> a = Ngn then amount else 0) +
        (if k = NgnPayablePending \<and> u = None \<and> a = Ngn then - amount else 0))) \<and>
    (\<forall>k. key_posted db' k \<longleftrightarrow> key_posted db k \<or> k = key) \<and>
    jr_id ` set (journals db') = insert (new_id env 4) (jr_id ` set (journals db))"
proof -
  have wf: "wf_ledger db" using inv by (simp add: cash_inv_def)
  obtain x y db1 db2 db3 j out where s: "account_step UserNgn (Some user) Ngn x db db1" "amount \<le> - raw_balance db1 x"
    "account_step NgnPayablePending None Ngn y db1 db2"
    "payout_journal ck x y (payout_reference ck (new_id env 3)) key amount b = Inr j"
    "post (new_id env 4) j db2 = Inr (out, db3)"
    "record_payout ck env user amount b (outcome_journal_id out) db3 = Inr (resp, db')"
    by (rule reserve_payout_cases [OF r])
  note j = payout_journal_Inr [OF s(4)]
  have wf1: "wf_ledger db1" by (rule account_step_wf [OF s(1) wf])
  have k2: "key_posted db2 k = key_posted db k" for k
    using account_step_frame(4) [OF s(1)] account_step_frame(4) [OF s(3)] by simp
  have js: "journals db2 = journals db" using account_step_frame(1) [OF s(1)] account_step_frame(1) [OF s(3)] by simp
  have "\<not> key_posted db2 (j_idempotency_key j)" using fresh by (simp add: k2 j(1))
  from post_fresh_iff [OF this, of "new_id env 4" out db3] s(5)
  have o: "out = Posted (new_id env 4)" "new_id env 4 \<notin> jr_id ` set (journals db)"
    "journals db3 = journals db2 @ [\<lparr>jr_id = new_id env 4, jr_kind = j_kind j, jr_reference = j_reference j,
          jr_key = j_idempotency_key j, jr_metadata = j_metadata j\<rparr>]"
    by (simp_all add: js)
  note p = pair_transaction [OF wf s(1) s(3) j(2) disjI1 [OF j(3)] _ s(5)]
  have f: "\<not> key_posted db (j_idempotency_key j)" using fresh j(1) by simp
  have m: "payouts db3 = payouts db" "ngn_deposits db3 = ngn_deposits db"
    using more_cash [OF p(4) [OF f]] by simp_all
  have "fetch_optional (\<lambda>p. po_journal p = new_id env 4) (payouts db3) = None"
  proof -
    have sub: "po_journal ` set (payouts db) \<subseteq> jr_id ` set (journals db)" using inv by (simp only: cash_inv_def cash_rows_def)
    have "po_journal p \<noteq> new_id env 4" if "p \<in> set (payouts db)" for p
    proof
      assume "po_journal p = new_id env 4"
      then have "new_id env 4 \<in> po_journal ` set (payouts db)" using that by (metis imageI)
      then show False using subsetD [OF sub] o(2) by simp
    qed
    then show ?thesis by (simp add: m fetch_optional_None_iff)
  qed
  then have d: "db' = db3\<lparr>payouts := payouts db @ [new_payout ck env user amount b (new_id env 4)]\<rparr>" "0 < amount"
    "resp = payout_answer ck b (new_payout ck env user amount b (new_id env 4))"
    using record_payout_cases [OF s(6)] by (simp_all add: o(1) m)
  have same: "accounts db' = accounts db3" "journals db' = journals db3" "entries db' = entries db3"
    "ngn_deposits db' = ngn_deposits db" by (simp_all add: d(1) m)
  have "kind_balance db1 UserNgn (Some user) Ngn = raw_balance db1 x"
    using account_step_found [OF s(1) wf] by (simp add: kind_balance_def)
  then have "amount \<le> - kind_balance db UserNgn (Some user) Ngn"
    using s(2) account_step_kind_balance [OF s(1) wf] by simp
  moreover have "wf_ledger db'" using p(1) [OF f] wf_ledger_cong [OF same(1-3)] by simp
  moreover have "payouts db' = payouts db @ [new_payout ck env user amount b (new_id env 4)]" by (simp add: d(1))
  moreover have "\<forall>k u a. kind_balance db' k u a = kind_balance db k u a +
       ((if k = UserNgn \<and> u = Some user \<and> a = Ngn then amount else 0) +
        (if k = NgnPayablePending \<and> u = None \<and> a = Ngn then - amount else 0))"
    using p(2) [OF f] kind_balance_cong [OF same(1,3)] by simp
  moreover have "\<forall>k. key_posted db' k \<longleftrightarrow> key_posted db k \<or> k = key"
    using p(3) [OF f] key_posted_cong [OF same(2)] j(1) by simp
  moreover have "jr_id ` set (journals db') = insert (new_id env 4) (jr_id ` set (journals db))"
    by (simp add: same(2) o(3) js)
  ultimately show ?thesis using d(2,3) same(4) by blast
qed

text \<open>Under a key a payout has already used: its row is answered, and nothing moves.\<close>

lemma reserve_payout_replay:
  assumes inv: "cash_inv b0 db" and key: "payout_key_ok key db" "key_posted db key"
    and r: "reserve_payout ck env user key amount b db = Inr (resp, db')"
  shows "cash_inv b0 db' \<and> payouts db' = payouts db \<and> ngn_deposits db' = ngn_deposits db \<and> journals db' = journals db \<and>
    (\<forall>k u a. kind_balance db' k u a = kind_balance db k u a) \<and>
    (\<exists>p \<in> set (payouts db). resp = payout_answer ck b p)"
proof -
  have wf: "wf_ledger db" using inv by (simp add: cash_inv_def)
  obtain x y db1 db2 db3 j out where s: "account_step UserNgn (Some user) Ngn x db db1" "amount \<le> - raw_balance db1 x"
    "account_step NgnPayablePending None Ngn y db1 db2"
    "payout_journal ck x y (payout_reference ck (new_id env 3)) key amount b = Inr j"
    "post (new_id env 4) j db2 = Inr (out, db3)"
    "record_payout ck env user amount b (outcome_journal_id out) db3 = Inr (resp, db')"
    by (rule reserve_payout_cases [OF r])
  note j = payout_journal_Inr [OF s(4)]
  have inv2: "cash_inv b0 db2" using account_step_cash [OF s(3) account_step_cash [OF s(1) inv]] .
  have m: "payouts db2 = payouts db" "ngn_deposits db2 = ngn_deposits db" "journals db2 = journals db"
    using more_cash [OF account_step_frame(6) [OF s(1)]] more_cash [OF account_step_frame(6) [OF s(3)]]
      account_step_frame(1) [OF s(1)] account_step_frame(1) [OF s(3)] by simp_all
  have bal: "kind_balance db2 k u a = kind_balance db k u a" for k u a
    using account_step_kind_balance [OF s(1) wf] account_step_kind_balance [OF s(3) account_step_wf [OF s(1) wf]] by simp
  have "key_posted db2 (j_idempotency_key j)" using key(2) j(1) key_posted_cong [OF m(3)] by simp
  then obtain k where "post (new_id env 4) j db2 = Inr (AlreadyPosted k, db2)" using post_replay by blast
  then have o: "out = AlreadyPosted k" "db3 = db2" using s(5) by simp_all
  have "fetch_optional (\<lambda>r. jr_key r = key) (journals db2) \<noteq> None"
    using key(2) m(3) by (auto simp: fetch_optional_None_iff key_posted_def)
  then obtain jr where jr: "fetch_optional (\<lambda>r. jr_key r = key) (journals db2) = Some jr" by blast
  then have "out = AlreadyPosted (jr_id jr)" using s(5) j(1) by (simp add: post_def)
  then have k: "k = jr_id jr" using o(1) by simp
  have "jr \<in> set (journals db)" "jr_key jr = key" using fetch_optional_SomeD [OF jr] m(3) by simp_all
  then have "jr_id jr \<in> po_journal ` set (payouts db)" using key(1) by (simp add: payout_key_ok_def)
  then obtain p where p: "fetch_optional (\<lambda>p. po_journal p = k) (payouts db2) = Some p"
    using k m(1) by (cases "fetch_optional (\<lambda>p. po_journal p = k) (payouts db2)") (auto simp: fetch_optional_None_iff)
  then have d: "db' = db2" "resp = payout_answer ck b p" using s(6) o by (simp_all add: record_payout_def)
  moreover have "p \<in> set (payouts db)" using fetch_optional_SomeD [OF p] m(1) by simp
  ultimately show ?thesis using inv2 m bal by blast
qed

lemma reserve_payout_inv:
  assumes inv: "cash_inv b0 db" and key: "payout_key_ok key db"
    and r: "reserve_payout ck env user key amount b db = Inr (resp, db')"
  shows "cash_inv b0 db'"
proof (cases "key_posted db key")
  case True
  then show ?thesis using reserve_payout_replay [OF inv key True r] by blast
next
  case False
  note f = reserve_payout_fresh [OF inv False r]
  have f1: "wf_ledger db'" "0 < amount" "amount \<le> - kind_balance db UserNgn (Some user) Ngn"
    "payouts db' = payouts db @ [new_payout ck env user amount b (new_id env 4)]" "ngn_deposits db' = ngn_deposits db"
    "jr_id ` set (journals db') = insert (new_id env 4) (jr_id ` set (journals db))"
    using f by blast+
  have bal: "kind_balance db' k u a = kind_balance db k u a +
       ((if k = UserNgn \<and> u = Some user \<and> a = Ngn then amount else 0) +
        (if k = NgnPayablePending \<and> u = None \<and> a = Ngn then - amount else 0))" for k u a
    using f by blast
  have posted: "key_posted db' k \<longleftrightarrow> key_posted db k \<or> k = key" for k using f by blast
  have row: "po_amount (new_payout ck env user amount b i) = amount" "po_user (new_payout ck env user amount b i) = user"
    "po_journal (new_payout ck env user amount b i) = i" for i
    by (simp_all add: new_payout_def)
  have old: "kind_balance db NgnPayablePending None Ngn = - sum_list (map po_amount (payouts db))"
    "kind_balance db NgnFloat None Ngn = op_float b0 + sum_list (map credited (ngn_deposits db))"
    "kind_balance db UserNgn (Some u) Ngn = - op_user b0 u + sum_list (map (paid_out u) (payouts db)) -
       sum_list (map (credited_to u) (ngn_deposits db))" for u
    using inv by (simp_all add: cash_inv_def cash_books_def)
  have under: "kind_balance db UserNgn (Some u) Ngn \<le> 0" for u
    using inv by (simp only: cash_inv_def no_overdraft_def)
  have "cash_books b0 db'"
    by (simp add: cash_books_def bal f1(4,5) row old(1-3) paid_out_def)
  moreover have "cash_rows db'"
  proof -
    have "credit_key d \<noteq> key" if "d \<in> set (ngn_deposits db)" for d
      using key that by (auto simp: payout_key_ok_def)
    then show ?thesis
      using inv unfolding cash_inv_def cash_rows_def f1(4-6) posted by (auto simp: row)
  qed
  moreover have "no_overdraft db'"
    using under f1(3) by (auto simp: no_overdraft_def bal)
  ultimately show ?thesis using f1(1) by (simp add: cash_inv_def)
qed

text \<open>The whole handler.\<close>

lemma resolve_destination_frame:
  assumes "resolve_destination provider env user d db = Inr (i, db')"
  shows "accounts db' = accounts db \<and> journals db' = journals db \<and> entries db' = entries db \<and> payouts db' = payouts db \<and>
    ngn_deposits db' = ngn_deposits db \<and> members db' = members db"
proof (cases d)
  case (Beneficiary x)
  then show ?thesis using assms by simp
next
  case (OneOff code raw shown save)
  then obtain resolved r where "upsert_account env user code (filter is_ascii_digit raw) resolved (\<lambda>v. v) db = Inr (r, db')"
    using assms by (auto simp: one_off_def Let_def res_bind_Inr_iff split: if_splits)
  then show ?thesis by (rule upsert_account_frame)
qed

lemma payout_checks_Inr:
  assumes "payout_checks ck provider env user header body db = Inr (key, amount, account, db1)"
  shows "header = Some key \<and> payout_amount ck (pb_amount body) = Inr amount \<and>
    (\<exists>tier. payout_pin ck user (pb_pin body) db = Inr tier \<and> payout_limit ck tier amount (used_ngn (sql_now env) user db) = Inr ()) \<and>
    resolve_destination provider env user (pb_destination body) db = Inr (account, db1)"
  using assms by (auto simp: payout_checks_def res_bind_Inr_iff ok_or_def split: option.splits)

lemma create_payout_cases:
  assumes "create_payout ck provider env user header body db = (res, db')"
  obtains e where "db' = db" "res = Inl e"
  | key amount account db1 e where "payout_checks ck provider env user header body db = Inr (key, amount, account, db1)"
      "db' = db1" "res = Inl e"
  | key amount account db1 b resp where "payout_checks ck provider env user header body db = Inr (key, amount, account, db1)"
      "fetch_optional (\<lambda>r. ba_id r = account \<and> ba_user r = user) (bank_accounts db1) = Some b"
      "res = Inr resp" "reserve_payout ck env user key amount b db1 = Inr (resp, db')"
proof (cases "payout_checks ck provider env user header body db")
  case (Inl e)
  then have "db' = db" "res = Inl e" using assms by (simp_all add: create_payout_def)
  then show ?thesis by (rule that(1))
next
  case (Inr q)
  obtain key amount account db1 where q: "q = (key, amount, account, db1)" by (cases q)
  note checks = Inr [unfolded q]
  note eq = assms [unfolded create_payout_def checks sum.case prod.case]
  show ?thesis
  proof (cases "fetch_optional (\<lambda>r. ba_id r = account \<and> ba_user r = user) (bank_accounts db1)")
    case None
    then have "db' = db1" "res = Inl NotFound" using eq by simp_all
    then show ?thesis by (rule that(2) [OF checks])
  next
    case b: (Some b)
    show ?thesis
    proof (cases "reserve_payout ck env user key amount b db1")
      case (Inl e)
      then have "db' = db1" "res = Inl e" using eq b by simp_all
      then show ?thesis by (rule that(2) [OF checks])
    next
      case (Inr w)
      obtain resp db2 where w: "w = (resp, db2)" by (cases w)
      then have "res = Inr resp" "db' = db2" using eq b Inr by simp_all
      then show ?thesis using that(3) [OF checks b] Inr w by blast
    qed
  qed
qed

lemma payout_checks_frame:
  assumes "payout_checks ck provider env user header body db = Inr (key, amount, account, db1)"
  shows "accounts db1 = accounts db" "journals db1 = journals db" "entries db1 = entries db" "payouts db1 = payouts db"
    "ngn_deposits db1 = ngn_deposits db" "members db1 = members db"
  using resolve_destination_frame payout_checks_Inr [OF assms] by blast+

lemma create_payout_inv:
  assumes inv: "cash_inv b0 db" and key: "\<And>k. header = Some k \<Longrightarrow> payout_key_ok k db"
  shows "cash_inv b0 (snd (create_payout ck provider env user header body db))"
proof (cases "create_payout ck provider env user header body db")
  case (Pair res db')
  have "cash_inv b0 db'"
    using Pair
  proof (cases rule: create_payout_cases)
    case (1 e)
    then show ?thesis using inv by simp
  next
    case (2 k amount account db1 e)
    then show ?thesis using inv cash_inv_cong [OF payout_checks_frame(1-5) [OF 2(1)]] by simp
  next
    case (3 k amount account db1 b resp)
    note f = payout_checks_frame [OF 3(1)]
    have "cash_inv b0 db1" using inv cash_inv_cong [OF f(1-5)] by simp
    moreover have "payout_key_ok k db1"
      using key [of k] payout_checks_Inr [OF 3(1)] by (simp add: payout_key_ok_def f)
    ultimately show ?thesis using reserve_payout_inv 3(4) by blast
  qed
  then show ?thesis using Pair by simp
qed

section \<open>The top-up\<close>

lemma funding_journal_Inr:
  assumes "funding_journal x y reference amount = Inr j"
  shows "j_idempotency_key j = reference @ '':credit''" "valid_journal j"
    "j_entries j = [\<lparr>e_account_id = y, e_account_kind = NgnFloat, e_asset = Ngn, e_amount = amount\<rparr>,
       \<lparr>e_account_id = x, e_account_kind = UserNgn, e_asset = Ngn, e_amount = - amount\<rparr>]"
  using assms unfolding funding_journal_def
  by (auto simp: build_ok_iff builder_new_def builder_entry_def builder_metadata_def)

lemma credit_intent_cases:
  assumes "credit_intent env i user reference amount db = Inr db'"
  obtains x y db1 db2 db3 j out where
    "account_step UserNgn (Some user) Ngn x db db1" "account_step NgnFloat None Ngn y db1 db2"
    "funding_journal x y reference amount = Inr j" "post (new_id env 2) j db2 = Inr (out, db3)"
    "mark_credited i amount (outcome_journal_id out) db3 = Inr db'"
proof -
  obtain x db1 y db2 j out db3 where l: "lock_user_ngn_account (new_id env 0) user db = Inr (x, db1)"
    "platform_account (new_id env 1) NgnFloat db1 = Inr (y, db2)"
    "funding_journal x y reference amount = Inr j" "post (new_id env 2) j db2 = Inr (out, db3)"
    "mark_credited i amount (outcome_journal_id out) db3 = Inr db'"
    using assms unfolding credit_intent_def by (auto simp: res_bind_Inr_iff)
  show ?thesis by (rule that [OF lock_user_step [OF l(1)] platform_step [OF l(2)] l(3-5)])
qed

text \<open>The rows an update by id touches.\<close>

definition only_row :: "ngn_deposit_row \<Rightarrow> 'z cash_db_scheme \<Rightarrow> bool" where
  "only_row d db \<longleftrightarrow> d \<in> set (ngn_deposits db) \<and> distinct (map nd_id (ngn_deposits db))"

lemma update_only:
  assumes "d \<in> set ds" "distinct (map nd_id ds)" "nd_status d = DsPending"
  shows "update_where (\<lambda>x. nd_id x = nd_id d \<and> nd_status x = DsPending) f ds = update_where (\<lambda>x. nd_id x = nd_id d) f ds"
proof -
  have "x = d" if "x \<in> set ds" "nd_id x = nd_id d" for x
    using assms(1,2) that by (metis distinct_map inj_onD)
  then have "(nd_id x = nd_id d \<and> nd_status x = DsPending) = (nd_id x = nd_id d)" if "x \<in> set ds" for x
    using that assms(3) by blast
  then show ?thesis by (simp add: update_where_def)
qed

text \<open>A credit of a pending top-up: the money and the row.\<close>

lemma credit_intent_pending:
  assumes inv: "cash_inv b0 db" and d: "d \<in> set (ngn_deposits db)" "nd_status d = DsPending"
    and c: "credit_intent env (nd_id d) (nd_user d) (nd_reference d) amount db = Inr db'"
  shows "\<exists>journal. wf_ledger db' \<and> 0 < amount \<and> payouts db' = payouts db \<and> members db' = members db \<and>
    ngn_deposits db' = update_where (\<lambda>x. nd_id x = nd_id d)
      (\<lambda>x. x\<lparr>nd_status := DsSucceeded, nd_amount := amount, nd_journal := Some journal\<rparr>) (ngn_deposits db) \<and>
    (\<forall>k u a. kind_balance db' k u a = kind_balance db k u a +
       ((if k = NgnFloat \<and> u = None \<and> a = Ngn then amount else 0) +
        (if k = UserNgn \<and> u = Some (nd_user d) \<and> a = Ngn then - amount else 0))) \<and>
    (\<forall>k. key_posted db' k \<longleftrightarrow> key_posted db k \<or> k = credit_key d) \<and>
    jr_id ` set (journals db) \<subseteq> jr_id ` set (journals db')"
proof -
  have wf: "wf_ledger db" and rows: "cash_rows db" using inv by (simp_all add: cash_inv_def)
  obtain x y db1 db2 db3 j out where s: "account_step UserNgn (Some (nd_user d)) Ngn x db db1"
    "account_step NgnFloat None Ngn y db1 db2" "funding_journal x y (nd_reference d) amount = Inr j"
    "post (new_id env 2) j db2 = Inr (out, db3)" "mark_credited (nd_id d) amount (outcome_journal_id out) db3 = Inr db'"
    by (rule credit_intent_cases [OF c])
  note j = funding_journal_Inr [OF s(3)]
  have fresh: "\<not> key_posted db (j_idempotency_key j)"
    using rows d by (auto simp: cash_rows_def j(1) credit_key_def)
  note p = pair_transaction [OF wf s(1) s(2) j(2) disjI2 [OF j(3)] fresh s(4)]
  have m: "payouts db3 = payouts db" "ngn_deposits db3 = ngn_deposits db" "members db3 = members db"
    using more_cash [OF p(4)] by simp_all
  have pending: "list_ex (\<lambda>x. nd_id x = nd_id d \<and> nd_status x = DsPending) (ngn_deposits db3)"
    using d m(2) by (auto simp: list_ex_iff)
  have e: "0 < amount" "db' = db3\<lparr>ngn_deposits := update_where (\<lambda>x. nd_id x = nd_id d \<and> nd_status x = DsPending)
      (\<lambda>x. x\<lparr>nd_status := DsSucceeded, nd_amount := amount, nd_journal := Some (outcome_journal_id out)\<rparr>) (ngn_deposits db)\<rparr>"
    using s(5) pending by (auto simp: mark_credited_def m(2) split: if_splits)
  have same: "accounts db' = accounts db3" "journals db' = journals db3" "entries db' = entries db3"
    "payouts db' = payouts db" "members db' = members db" by (simp_all add: e(2) m)
  have "distinct (map nd_id (ngn_deposits db))" using rows by (simp add: cash_rows_def)
  from update_only [OF d(1) this d(2)]
  have "ngn_deposits db' = update_where (\<lambda>x. nd_id x = nd_id d)
      (\<lambda>x. x\<lparr>nd_status := DsSucceeded, nd_amount := amount, nd_journal := Some (outcome_journal_id out)\<rparr>) (ngn_deposits db)"
    by (simp add: e(2))
  moreover have "wf_ledger db'" using p(1) wf_ledger_cong [OF same(1-3)] by simp
  moreover have "\<forall>k u a. kind_balance db' k u a = kind_balance db k u a +
       ((if k = NgnFloat \<and> u = None \<and> a = Ngn then amount else 0) +
        (if k = UserNgn \<and> u = Some (nd_user d) \<and> a = Ngn then - amount else 0))"
    using p(2) kind_balance_cong [OF same(1,3)] by (simp add: add.commute)
  moreover have "\<forall>k. key_posted db' k \<longleftrightarrow> key_posted db k \<or> k = credit_key d"
    using p(3) key_posted_cong [OF same(2)] j(1) by (simp add: credit_key_def)
  moreover have "jr_id ` set (journals db) \<subseteq> jr_id ` set (journals db')"
  proof -
    have "journals db2 = journals db" using account_step_frame(1) [OF s(1)] account_step_frame(1) [OF s(2)] by simp
    moreover have "\<not> key_posted db2 (j_idempotency_key j)" using fresh key_posted_cong [OF \<open>journals db2 = journals db\<close>] by simp
    ultimately have "set (journals db) \<subseteq> set (journals db3)" using post_fresh_iff s(4) by fastforce
    then show ?thesis unfolding same(2) by (rule image_mono)
  qed
  ultimately show ?thesis using e(1) same(4,5) by blast
qed

lemma sum_update_id:
  fixes g :: "ngn_deposit_row \<Rightarrow> decimal"
  assumes "distinct (map nd_id ds)" "d \<in> set ds"
  shows "sum_list (map g (update_where (\<lambda>x. nd_id x = nd_id d) f ds)) = sum_list (map g ds) - g d + g (f d)"
  by (rule sum_list_update_where [OF assms refl])

lemma credit_intent_inv:
  assumes inv: "cash_inv b0 db" and d: "d \<in> set (ngn_deposits db)" "nd_status d = DsPending"
    and c: "credit_intent env (nd_id d) (nd_user d) (nd_reference d) amount db = Inr db'"
  shows "cash_inv b0 db'"
proof -
  obtain journal where f: "wf_ledger db'" "0 < amount" "payouts db' = payouts db"
    "ngn_deposits db' = update_where (\<lambda>x. nd_id x = nd_id d)
      (\<lambda>x. x\<lparr>nd_status := DsSucceeded, nd_amount := amount, nd_journal := Some journal\<rparr>) (ngn_deposits db)"
    and bal: "\<And>k u a. kind_balance db' k u a = kind_balance db k u a +
       ((if k = NgnFloat \<and> u = None \<and> a = Ngn then amount else 0) +
        (if k = UserNgn \<and> u = Some (nd_user d) \<and> a = Ngn then - amount else 0))"
    and posted: "\<And>k. key_posted db' k \<longleftrightarrow> key_posted db k \<or> k = credit_key d"
    and js: "jr_id ` set (journals db) \<subseteq> jr_id ` set (journals db')"
    using credit_intent_pending [OF inv d c] by blast
  let ?f = "\<lambda>x. x\<lparr>nd_status := DsSucceeded, nd_amount := amount, nd_journal := Some journal\<rparr>"
  note rows = cash_invD [OF inv]
  note ids = rows(1,2) and status = rows(3) and pos = rows(4) and jp = rows(5)
  have sums: "sum_list (map credited (ngn_deposits db')) = sum_list (map credited (ngn_deposits db)) + amount"
    "sum_list (map (credited_to u) (ngn_deposits db')) = sum_list (map (credited_to u) (ngn_deposits db)) +
       (if nd_user d = u then amount else 0)" for u
    unfolding f(4) sum_update_id [OF ids(1) d(1)] using d(2) by (simp_all add: credited_def credited_to_def)
  have "kind_balance db NgnPayablePending None Ngn = - sum_list (map po_amount (payouts db))"
    "kind_balance db NgnFloat None Ngn = op_float b0 + sum_list (map credited (ngn_deposits db))"
    "kind_balance db UserNgn (Some u) Ngn = - op_user b0 u + sum_list (map (paid_out u) (payouts db)) -
       sum_list (map (credited_to u) (ngn_deposits db))" for u
    using inv by (simp_all add: cash_inv_def cash_books_def)
  then have "cash_books b0 db'" by (simp add: cash_books_def bal f(3) sums)
  moreover have "cash_rows db'"
  proof -
    have "map nd_id (ngn_deposits db') = map nd_id (ngn_deposits db)"
      "map nd_reference (ngn_deposits db') = map nd_reference (ngn_deposits db)"
      unfolding f(4) by (simp_all add: map_update_where)
    moreover have "nd_status y = DsSucceeded \<longleftrightarrow> key_posted db' (credit_key y)" "0 < nd_amount y"
      if "y \<in> set (ngn_deposits db')" for y
    proof -
      have "y \<in> (\<lambda>x. if nd_id x = nd_id d then ?f x else x) ` set (ngn_deposits db)"
        using that unfolding f(4) set_update_where .
      then obtain x where x': "y = (if nd_id x = nd_id d then ?f x else x)" "x \<in> set (ngn_deposits db)" by (rule imageE)
      note x = x'(2,1)
      have key: "credit_key x = credit_key d \<longleftrightarrow> x = d"
        using ids(2) d(1) x(1) by (auto simp: credit_key_def dest: inj_onD simp: distinct_map)
      have same: "nd_id x = nd_id d \<longleftrightarrow> x = d" using ids(1) d(1) x(1) by (auto simp: distinct_map dest: inj_onD)
      have ck: "credit_key y = credit_key x" using x(2) by (simp add: credit_key_def)
      show "nd_status y = DsSucceeded \<longleftrightarrow> key_posted db' (credit_key y)" "0 < nd_amount y"
        using x(1) status pos f(2) unfolding ck posted key by (simp_all add: x(2) same)
    qed
    moreover have "po_journal ` set (payouts db') \<subseteq> jr_id ` set (journals db')" using jp js f(3) by simp
    ultimately show ?thesis using ids by (simp add: cash_rows_def)
  qed
  moreover have "no_overdraft db'"
    unfolding no_overdraft_def
  proof
    fix u
    have "kind_balance db UserNgn (Some u) Ngn \<le> 0" using inv by (simp only: cash_inv_def no_overdraft_def)
    then show "kind_balance db' UserNgn (Some u) Ngn \<le> 0" using f(2) by (auto simp: bal)
  qed
  ultimately show ?thesis using f(1) by (simp add: cash_inv_def)
qed

text \<open>Rows that end without money.\<close>

lemma close_deposits_inv:
  assumes inv: "cash_inv b0 db" and st: "st = DsFailed \<or> st = DsAbandoned"
    and f: "\<And>x. nd_status (f x) = st" "\<And>x. nd_id (f x) = nd_id x" "\<And>x. nd_reference (f x) = nd_reference x"
      "\<And>x. nd_amount (f x) = nd_amount x" "\<And>x. nd_user (f x) = nd_user x"
    and p: "\<And>x. p x \<Longrightarrow> nd_status x = DsPending"
  shows "cash_inv b0 (db\<lparr>ngn_deposits := update_where p f (ngn_deposits db)\<rparr>)"
proof -
  let ?ds = "update_where p f (ngn_deposits db)" and ?db = "db\<lparr>ngn_deposits := update_where p f (ngn_deposits db)\<rparr>"
  let ?g = "\<lambda>x. if p x then f x else x"
  have same: "accounts ?db = accounts db" "journals ?db = journals db" "entries ?db = entries db" "payouts ?db = payouts db"
    "ngn_deposits ?db = ?ds" by simp_all
  have st': "(nd_status (?g x) = DsSucceeded) = (nd_status x = DsSucceeded)" for x using f(1) p st by auto
  have g: "credited (?g x) = credited x" "credit_key (?g x) = credit_key x" "nd_amount (?g x) = nd_amount x"
    "credited_to u (?g x) = credited_to u x" "nd_id (?g x) = nd_id x" "nd_reference (?g x) = nd_reference x" for x u
    using st' [of x] by (simp_all add: credited_def credit_key_def credited_to_def f(2-5) del: if_split)
  have maps: "map credited ?ds = map credited (ngn_deposits db)" "map (credited_to u) ?ds = map (credited_to u) (ngn_deposits db)"
    "map nd_id ?ds = map nd_id (ngn_deposits db)" "map nd_reference ?ds = map nd_reference (ngn_deposits db)" for u
    by (simp_all only: update_where_def map_map comp_def g)
  have "(nd_status y = DsSucceeded) = key_posted db (credit_key y) \<and> 0 < nd_amount y" if "y \<in> set ?ds" for y
  proof -
    have "y \<in> ?g ` set (ngn_deposits db)" using that unfolding set_update_where .
    then obtain x where x: "y = ?g x" "x \<in> set (ngn_deposits db)" by (rule imageE)
    show ?thesis using cash_invD(3,4) [OF inv] x(2) unfolding x(1) st' g by blast
  qed
  then have "cash_rows ?db"
    using cash_invD [OF inv] unfolding cash_rows_def same maps key_posted_cong [OF same(2)] by blast
  then show ?thesis
    by (intro cash_inv_rows [OF inv same(1-4)]) (simp_all only: same maps)
qed

lemma settle_intent_inv:
  assumes inv: "cash_inv b0 db" and d: "d \<in> set (ngn_deposits db)" "nd_status d = DsPending"
  shows "cash_inv b0 (snd (settle_intent provider env (nd_id d) (nd_user d) (nd_reference d) amount db))"
proof (cases "verify_charge provider (nd_reference d) amount")
  case (Inl e)
  then show ?thesis using inv by (simp add: settle_intent_def)
next
  case (Inr c)
  show ?thesis
  proof (cases c)
    case ChargePending
    then show ?thesis using inv Inr by (simp add: settle_intent_def)
  next
    case (ChargeSucceeded taken)
    show ?thesis
    proof (cases "credit_intent env (nd_id d) (nd_user d) (nd_reference d) taken db")
      case (Inl e)
      then show ?thesis using inv Inr ChargeSucceeded by (simp add: settle_intent_def)
    next
      case c: (Inr db1)
      then show ?thesis using credit_intent_inv [OF inv d c] Inr ChargeSucceeded by (simp add: settle_intent_def)
    qed
  next
    case (ChargeFailed reason)
    have "cash_inv b0 (db\<lparr>ngn_deposits := update_where (\<lambda>x. nd_id x = nd_id d \<and> nd_status x = DsPending)
        (\<lambda>x. x\<lparr>nd_status := DsFailed, nd_failure := Some reason\<rparr>) (ngn_deposits db)\<rparr>)"
      by (rule close_deposits_inv [OF inv, of DsFailed]) simp_all
    then show ?thesis using Inr ChargeFailed by (simp add: settle_intent_def)
  qed
qed

text \<open>Settling one row leaves the others as they are.\<close>

lemma settle_intent_others:
  assumes inv: "cash_inv b0 db" and d: "d \<in> set (ngn_deposits db)" "nd_status d = DsPending"
    and e: "e \<in> set (ngn_deposits db)" "nd_id e \<noteq> nd_id d"
  shows "e \<in> set (ngn_deposits (snd (settle_intent provider env (nd_id d) (nd_user d) (nd_reference d) amount db)))"
proof (cases "\<exists>taken db1. verify_charge provider (nd_reference d) amount = Inr (ChargeSucceeded taken) \<and>
    credit_intent env (nd_id d) (nd_user d) (nd_reference d) taken db = Inr db1")
  case True
  then obtain taken db1 where t: "verify_charge provider (nd_reference d) amount = Inr (ChargeSucceeded taken)"
    "credit_intent env (nd_id d) (nd_user d) (nd_reference d) taken db = Inr db1" by blast
  obtain journal where "ngn_deposits db1 = update_where (\<lambda>x. nd_id x = nd_id d)
      (\<lambda>x. x\<lparr>nd_status := DsSucceeded, nd_amount := taken, nd_journal := Some journal\<rparr>) (ngn_deposits db)"
    using credit_intent_pending [OF inv d t(2)] by blast
  then have "e \<in> set (ngn_deposits db1)" using e by (force simp: set_update_where)
  then show ?thesis using t by (simp add: settle_intent_def)
next
  case False
  have upd: "e \<in> set (update_where (\<lambda>x. nd_id x = nd_id d \<and> nd_status x = DsPending) f (ngn_deposits db))" for f
    using e by (force simp: set_update_where)
  show ?thesis using False e(1) upd by (auto simp: settle_intent_def split: sum.split charge_state.split)
qed

lemma settle_due_inv:
  assumes "cash_inv b0 db" "set ds \<subseteq> set (ngn_deposits db)" "\<forall>d \<in> set ds. nd_status d = DsPending" "distinct (map nd_id ds)"
  shows "cash_inv b0 (settle_due provider envs k ds db)"
  using assms
proof (induction ds arbitrary: k db)
  case (Cons d ds)
  let ?db = "snd (settle_intent provider (envs k) (nd_id d) (nd_user d) (nd_reference d) (nd_amount d) db)"
  have d: "d \<in> set (ngn_deposits db)" "nd_status d = DsPending" using Cons.prems by simp_all
  have "e \<in> set (ngn_deposits ?db)" if "e \<in> set ds" for e
  proof (rule settle_intent_others [OF Cons.prems(1) d])
    show "e \<in> set (ngn_deposits db)" using Cons.prems(2) that by auto
    show "nd_id e \<noteq> nd_id d" using Cons.prems(4) that by (metis distinct.simps(2) imageI list.set_map list.simps(9))
  qed
  then have "cash_inv b0 (settle_due provider envs (Suc k) ds ?db)"
    using Cons.prems by (intro Cons.IH settle_intent_inv [OF _ d]) auto
  then show ?case by simp
qed simp

lemma due_intents_rows:
  "set (due_intents now db) \<subseteq> {d \<in> set (ngn_deposits db). nd_status d = DsPending \<and> nd_provider d = ''paystack''}"
  by (auto simp: due_intents_def dest!: in_set_takeD)

lemma due_intents_distinct:
  assumes "distinct (map nd_id (ngn_deposits db))"
  shows "distinct (map nd_id (due_intents now db))"
proof -
  have "distinct (map nd_id (filter p (ngn_deposits db)))" for p using assms by (simp add: distinct_map_filter)
  then have "distinct (map nd_id (sort_key nd_created_at (filter p (ngn_deposits db))))" for p
    by (simp add: distinct_map)
  then show ?thesis unfolding due_intents_def by (simp flip: take_map)
qed

lemma funding_pass_inv:
  assumes "cash_inv b0 db"
  shows "cash_inv b0 (funding_pass provider envs now later db)"
proof (cases "is_live provider")
  case True
  have "distinct (map nd_id (ngn_deposits db))" using assms by (simp add: cash_inv_def cash_rows_def)
  then have "cash_inv b0 (settle_due provider envs 0 (due_intents now db) db)"
    using due_intents_rows [of now db] by (intro settle_due_inv assms due_intents_distinct) auto
  then have "cash_inv b0 (abandon later (settle_due provider envs 0 (due_intents now db) db))"
    unfolding abandon_def by (rule close_deposits_inv [of _ _ DsAbandoned]) simp_all
  then show ?thesis using True by (simp add: funding_pass_def sweep_funding_def)
qed (use assms in \<open>simp add: funding_pass_def\<close>)

lemma get_intent_inv:
  assumes "cash_inv b0 db"
  shows "cash_inv b0 (snd (get_intent ck provider env user i db))"
proof (cases "fetch_optional (\<lambda>d. nd_id d = i \<and> nd_user d = user) (ngn_deposits db)")
  case None
  then show ?thesis using assms by (simp add: get_intent_def)
next
  case (Some d)
  then have d: "d \<in> set (ngn_deposits db)" "i = nd_id d" "user = nd_user d" by (auto dest: fetch_optional_SomeD)
  have "snd (get_intent ck provider env user i db) =
    (if nd_status d = DsPending then snd (settle_intent provider env (nd_id d) (nd_user d) (nd_reference d) (nd_amount d) db) else db)"
    using Some d(2,3) by (auto simp: get_intent_def split: prod.split sum.split)
  then show ?thesis using assms settle_intent_inv [OF assms d(1)] by simp
qed

text \<open>A new intent, under a reference no journal names.\<close>

lemma create_intent_inv:
  assumes inv: "cash_inv b0 db" and fresh: "\<not> key_posted db (''NVFD-'' @ to_ascii_uppercase (take 12 (ck_simple_uuid ck (new_id env 1))) @ '':credit'')"
  shows "cash_inv b0 (snd (create_intent ck provider url env user raw db))"
proof -
  have ins: "cash_inv b0 db1" if "insert_deposit (new_intent ck provider env user amount) db = Inr db1" for amount db1
  proof -
    define d where "d = new_intent ck provider env user amount"
    have i: "db1 = db\<lparr>ngn_deposits := ngn_deposits db @ [d]\<rparr>" "nd_id d \<notin> nd_id ` set (ngn_deposits db)"
      "nd_reference d \<notin> nd_reference ` set (ngn_deposits db)" "0 < nd_amount d"
      using that by (auto simp: insert_deposit_def d_def split: if_splits)
    have same: "accounts db1 = accounts db" "journals db1 = journals db" "entries db1 = entries db" "payouts db1 = payouts db"
      "ngn_deposits db1 = ngn_deposits db @ [d]" by (simp_all add: i(1))
    have st: "nd_status d = DsPending" "\<not> key_posted db (credit_key d)"
      using fresh by (simp_all add: d_def new_intent_def credit_key_def)
    have "cash_rows db1"
      using inv i(2-4) st unfolding cash_inv_def cash_rows_def same key_posted_cong [OF same(2)] by simp
    moreover have "sum_list (map credited (ngn_deposits db1)) = sum_list (map credited (ngn_deposits db))"
      "sum_list (map (credited_to u) (ngn_deposits db1)) = sum_list (map (credited_to u) (ngn_deposits db))" for u
      using st(1) by (simp_all add: same credited_def credited_to_def)
    ultimately show ?thesis by (intro cash_inv_rows [OF inv same(1-4)])
  qed
  show ?thesis
    using inv ins by (auto simp: create_intent_def res_bind_def map_err_def ok_or_def Let_def split: sum.splits option.splits if_splits)
qed

section \<open>Runs\<close>

text \<open>
  The steps: every handler and the sweep, and changes to members that keep them. A client's
  idempotency key is its own, and a reference drawn for a new intent is one no journal names; both
  are random 48 or 128 bit strings in the clients and the code.
\<close>

inductive cash_step :: "cash_crates \<Rightarrow> 'z cash_db_scheme \<Rightarrow> 'z cash_db_scheme \<Rightarrow> bool" for ck :: cash_crates where
  payout: "(\<And>k. header = Some k \<Longrightarrow> payout_key_ok k db) \<Longrightarrow>
    cash_step ck db (snd (create_payout ck bank env user header body db))"
| intent: "\<not> key_posted db (''NVFD-'' @ to_ascii_uppercase (take 12 (ck_simple_uuid ck (new_id env 1))) @ '':credit'') \<Longrightarrow>
    cash_step ck db (snd (create_intent ck provider url env user raw db))"
| poll: "cash_step ck db (snd (get_intent ck provider env user i db))"
| sweep: "cash_step ck db (funding_pass provider envs now later db)"
| save: "cash_step ck db (snd (add_bank_account ck bank env user code raw claimed db))"
| remove: "cash_step ck db (snd (remove_account user i db))"
| members: "cash_step ck db (db\<lparr>members := ms\<rparr>)"

inductive cash_reach :: "cash_crates \<Rightarrow> 'z cash_db_scheme \<Rightarrow> 'z cash_db_scheme \<Rightarrow> bool" for ck :: cash_crates and start :: "'z cash_db_scheme" where
  refl: "cash_reach ck start start"
| step: "cash_reach ck start db \<Longrightarrow> cash_step ck db db' \<Longrightarrow> cash_reach ck start db'"

lemma add_bank_account_frame:
  "snd (add_bank_account ck bank env user code raw claimed db) = db \<or>
   (\<exists>number name v r. upsert_account env user code number name v db = Inr (r, snd (add_bank_account ck bank env user code raw claimed db)))"
proof (cases "add_bank_account ck bank env user code raw claimed db")
  case (Pair res db')
  show ?thesis
    using Pair unfolding add_bank_account_def
    by (auto simp: res_bind_Inr_iff split: sum.splits)
qed

lemma cash_step_inv: "cash_step ck db db' \<Longrightarrow> cash_inv b db \<Longrightarrow> cash_inv b db'"
proof (induction rule: cash_step.induct)
  case (payout header db bank env user body)
  then show ?case by (intro create_payout_inv)
next
  case (intent db env provider url user raw)
  then show ?case by (intro create_intent_inv)
next
  case (poll db provider env user i)
  then show ?case by (rule get_intent_inv)
next
  case (sweep db provider envs now later)
  then show ?case by (rule funding_pass_inv)
next
  case (save db bank env user code raw claimed)
  show ?case
    using add_bank_account_frame [of ck bank env user code raw claimed db]
  proof (elim disjE exE)
    fix number name v r
    assume "upsert_account env user code number name v db = Inr (r, snd (add_bank_account ck bank env user code raw claimed db))"
    note f = upsert_account_frame [OF this]
    have "cash_inv b (snd (add_bank_account ck bank env user code raw claimed db)) = cash_inv b db"
      by (rule cash_inv_cong) (use f in blast)+
    then show ?thesis using save by simp
  qed (use save in simp)
next
  case (remove db user i)
  have "cash_inv b (snd (remove_account user i db)) = cash_inv b db"
    by (rule cash_inv_cong) (auto simp: remove_account_def)
  then show ?case using remove by simp
next
  case (members db ms)
  have "cash_inv b (db\<lparr>members := ms\<rparr>) = cash_inv b db" by (rule cash_inv_cong) simp_all
  then show ?case using members by simp
qed

text \<open>Where a run starts: no payouts and no top-ups, and nobody overdrawn.\<close>

definition opening_of :: "'z cash_db_scheme \<Rightarrow> cash_opening" where
  "opening_of db = \<lparr>op_user = (\<lambda>u. - kind_balance db UserNgn (Some u) Ngn), op_float = kind_balance db NgnFloat None Ngn\<rparr>"

definition cash_start :: "'z cash_db_scheme \<Rightarrow> bool" where
  "cash_start db \<longleftrightarrow> wf_ledger db \<and> payouts db = [] \<and> ngn_deposits db = [] \<and>
     kind_balance db NgnPayablePending None Ngn = 0 \<and> no_overdraft db"

lemma cash_start_inv: "cash_start db \<Longrightarrow> cash_inv (opening_of db) db"
  by (auto simp: cash_start_def cash_inv_def cash_books_def cash_rows_def opening_of_def)

lemma cash_reach_inv: "cash_reach ck start db \<Longrightarrow> cash_inv b start \<Longrightarrow> cash_inv b db"
  by (induction rule: cash_reach.induct) (auto intro: cash_step_inv)


end
