(* ===== verification/Cash_Properties.thy ===== *)
theory Cash_Properties
  imports Cash_Runs
begin

text \<open>What a payout and a top-up do, and what can never be undone.\<close>

section \<open>Payouts\<close>

lemma payout_limit_Inr:
  "payout_limit ck t amount used = Inr () \<longleftrightarrow>
     check_payout (case tier_of_i16 t of Some t \<Rightarrow> t | None \<Rightarrow> Tier0) amount used = PayoutAllowed"
  by (simp add: payout_limit_def split: payout_check.split)

lemma payout_pin_Inr:
  assumes "payout_pin ck user pin db = Inr tier"
  obtains u h where "fetch_optional (\<lambda>u. us_id u = user) (members db) = Some u" "us_tier u = tier" "us_pin_hash u = Some h"
    "verify_pin (ck_pin ck) pin h = Inr True"
  using assms by (auto simp: payout_pin_def res_bind_Inr_iff ok_or_def split: option.splits if_splits)

text \<open>
  C16. A payout under a new key that is answered has been reserved, with every check passed: the PIN
  was right, the amount is positive, within the balance and within what the tier allows on top of
  the last day's payouts, and the account is the user's own. One row is added, exactly the amount
  moves from the user to what is owed to banks, and no other balance changes.
\<close>

theorem payout_reserves:
  assumes "cash_start start" "cash_reach ck start db" "\<not> key_posted db key"
    and "create_payout ck bank env user (Some key) body db = (Inr resp, db')"
  shows "\<exists>amount b u h cap. payout_amount ck (pb_amount body) = Inr amount \<and> 0 < amount \<and>
    u \<in> set (members db) \<and> us_id u = user \<and> us_pin_hash u = Some h \<and> verify_pin (ck_pin ck) (pb_pin body) h = Inr True \<and>
    daily_payout_cap (case tier_of_i16 (us_tier u) of Some t \<Rightarrow> t | None \<Rightarrow> Tier0) = Some cap \<and>
    used_ngn (sql_now env) user db + amount \<le> cap \<and>
    amount \<le> user_facing_balance UserNgn (kind_balance db UserNgn (Some user) Ngn) \<and>
    b \<in> set (bank_accounts db') \<and> ba_user b = user \<and>
    payouts db' = payouts db @ [new_payout ck env user amount b (new_id env 4)] \<and>
    resp = payout_answer ck b (new_payout ck env user amount b (new_id env 4)) \<and>
    (\<forall>k w a. kind_balance db' k w a = kind_balance db k w a +
       ((if k = UserNgn \<and> w = Some user \<and> a = Ngn then amount else 0) +
        (if k = NgnPayablePending \<and> w = None \<and> a = Ngn then - amount else 0)))"
  using assms(4)
proof (cases rule: create_payout_cases)
  case (3 k amount account db1 b r)
  note checks = payout_checks_Inr [OF 3(1)] and f = payout_checks_frame [OF 3(1)]
  have inv: "cash_inv (opening_of start) db1"
    using cash_reach_inv [OF assms(2) cash_start_inv [OF assms(1)]] cash_inv_cong [OF f(1-5)] by simp
  have k: "k = key" "r = resp" using checks 3(3) by simp_all
  have fresh: "\<not> key_posted db1 key" using assms(3) key_posted_cong [OF f(2)] by simp
  have bal: "kind_balance db1 q u a = kind_balance db q u a" for q u a by (rule kind_balance_cong [OF f(1,3)])
  note res = reserve_payout_fresh [OF inv fresh 3(4) [unfolded k]]
  obtain tier where t: "payout_pin ck user (pb_pin body) db = Inr tier"
    "payout_limit ck tier amount (used_ngn (sql_now env) user db) = Inr ()" using checks by blast
  obtain u h where u: "fetch_optional (\<lambda>u. us_id u = user) (members db) = Some u" "us_tier u = tier" "us_pin_hash u = Some h"
    "verify_pin (ck_pin ck) (pb_pin body) h = Inr True"
    by (rule payout_pin_Inr [OF t(1)])
  obtain cap where cap: "daily_payout_cap (case tier_of_i16 (us_tier u) of Some t \<Rightarrow> t | None \<Rightarrow> Tier0) = Some cap"
    "used_ngn (sql_now env) user db + amount \<le> cap"
    using t(2) u(2) by (auto simp: payout_limit_Inr check_payout_allowed_iff)
  have b: "b \<in> set (bank_accounts db1)" "ba_user b = user" using fetch_optional_SomeD [OF 3(2)] by simp_all
  have banks: "bank_accounts db' = bank_accounts db1"
  proof -
    obtain x y db2 db3 db4 j out where s: "account_step UserNgn (Some user) Ngn x db1 db2"
      "account_step NgnPayablePending None Ngn y db2 db3" "post (new_id env 4) j db3 = Inr (out, db4)"
      "record_payout ck env user amount b (outcome_journal_id out) db4 = Inr (resp, db')"
      by (rule reserve_payout_cases [OF 3(4) [unfolded k]])
    have "bank_accounts db4 = bank_accounts db1"
      using more_cash [OF account_step_frame(6) [OF s(1)]] more_cash [OF account_step_frame(6) [OF s(2)]]
        more_cash [OF post_effect(5) [OF s(3)]] by simp
    then show ?thesis using record_payout_cases [OF s(4)] by auto
  qed
  have "amount \<le> user_facing_balance UserNgn (kind_balance db UserNgn (Some user) Ngn)"
    using res bal by (simp add: user_facing_balance_def is_liability_def)
  moreover have "0 < amount" "payouts db' = payouts db @ [new_payout ck env user amount b (new_id env 4)]"
    "resp = payout_answer ck b (new_payout ck env user amount b (new_id env 4))"
    "\<forall>k w a. kind_balance db' k w a = kind_balance db k w a +
       ((if k = UserNgn \<and> w = Some user \<and> a = Ngn then amount else 0) +
        (if k = NgnPayablePending \<and> w = None \<and> a = Ngn then - amount else 0))"
    using res unfolding bal f(4) by blast+
  moreover have "u \<in> set (members db)" "us_id u = user" using fetch_optional_SomeD [OF u(1)] by simp_all
  moreover have "payout_amount ck (pb_amount body) = Inr amount" using checks by blast
  moreover have "b \<in> set (bank_accounts db')" using b(1) banks by simp
  ultimately show ?thesis
    using u(3,4) cap b(2)
    by - (rule exI [where x = amount], rule exI [where x = b], rule exI [where x = u], rule exI [where x = h],
        rule exI [where x = cap], intro conjI; assumption)
qed simp_all

section \<open>Top-ups\<close>

text \<open>Settling and closing touch pending rows only.\<close>

lemma update_pending_keeps:
  assumes "d \<in> set ds" "\<not> p d"
  shows "d \<in> set (update_where p f ds)"
proof -
  have "(if p d then f d else d) \<in> (\<lambda>x. if p x then f x else x) ` set ds" using assms(1) by (rule imageI)
  then show ?thesis using assms(2) by (simp add: set_update_where)
qed

lemma credit_intent_keeps:
  assumes "credit_intent env i user reference amount db = Inr db'" "d \<in> set (ngn_deposits db)" "nd_status d \<noteq> DsPending \<or> nd_id d \<noteq> i"
  shows "d \<in> set (ngn_deposits db')"
proof -
  obtain x y db1 db2 db3 j out where s: "account_step UserNgn (Some user) Ngn x db db1" "account_step NgnFloat None Ngn y db1 db2"
    "post (new_id env 2) j db2 = Inr (out, db3)" "mark_credited i amount (outcome_journal_id out) db3 = Inr db'"
    by (rule credit_intent_cases [OF assms(1)])
  have "ngn_deposits db3 = ngn_deposits db"
    using more_cash [OF account_step_frame(6) [OF s(1)]] more_cash [OF account_step_frame(6) [OF s(2)]]
      more_cash [OF post_effect(5) [OF s(3)]] by simp
  then have "db' = db3\<lparr>ngn_deposits := update_where (\<lambda>d. nd_id d = i \<and> nd_status d = DsPending)
        (\<lambda>d. d\<lparr>nd_status := DsSucceeded, nd_amount := amount, nd_journal := Some (outcome_journal_id out)\<rparr>) (ngn_deposits db)\<rparr>"
    using s(4) by (simp add: mark_credited_def split: if_splits)
  moreover have "d \<in> set (update_where (\<lambda>d. nd_id d = i \<and> nd_status d = DsPending) f (ngn_deposits db))" for f
    by (rule update_pending_keeps [OF assms(2)]) (use assms(3) in blast)
  ultimately show ?thesis by simp
qed

lemma settle_intent_keeps:
  assumes "d \<in> set (ngn_deposits db)" "nd_status d \<noteq> DsPending \<or> nd_id d \<noteq> i"
  shows "d \<in> set (ngn_deposits (snd (settle_intent provider env i user reference amount db)))"
proof -
  have upd: "d \<in> set (update_where (\<lambda>d. nd_id d = i \<and> nd_status d = DsPending) f (ngn_deposits db))" for f
    using assms by (intro update_pending_keeps) auto
  have cred: "d \<in> set (ngn_deposits db')" if "credit_intent env i user reference taken db = Inr db'" for taken db'
    using credit_intent_keeps [OF that assms] .
  show ?thesis
    using assms(1) upd cred by (auto simp: settle_intent_def split: sum.split charge_state.split)
qed

lemma settle_due_keeps:
  "d \<in> set (ngn_deposits db) \<Longrightarrow> nd_status d \<noteq> DsPending \<or> nd_id d \<notin> nd_id ` set ds \<Longrightarrow>
   d \<in> set (ngn_deposits (settle_due provider envs k ds db))"
proof (induction ds arbitrary: k db)
  case (Cons e ds)
  have "d \<in> set (ngn_deposits (snd (settle_intent provider (envs k) (nd_id e) (nd_user e) (nd_reference e) (nd_amount e) db)))"
    using Cons.prems by (intro settle_intent_keeps) auto
  then show ?case using Cons by simp
qed simp

lemma cash_step_keeps:
  "cash_step ck db db' \<Longrightarrow> d \<in> set (ngn_deposits db) \<Longrightarrow> nd_status d \<noteq> DsPending \<Longrightarrow> d \<in> set (ngn_deposits db')"
proof (induction rule: cash_step.induct)
  case (payout header db bank env user body)
  show ?case
  proof (cases "create_payout ck bank env user header body db")
    case (Pair res db')
    have "ngn_deposits db' = ngn_deposits db"
      using Pair
    proof (cases rule: create_payout_cases)
      case (3 k amount account db1 b r)
      obtain x y db2 db3 db4 j out where s: "account_step UserNgn (Some user) Ngn x db1 db2"
        "account_step NgnPayablePending None Ngn y db2 db3" "post (new_id env 4) j db3 = Inr (out, db4)"
        "record_payout ck env user amount b (outcome_journal_id out) db4 = Inr (r, db')"
        by (rule reserve_payout_cases [OF 3(4)])
      have "ngn_deposits db4 = ngn_deposits db"
        using more_cash [OF account_step_frame(6) [OF s(1)]] more_cash [OF account_step_frame(6) [OF s(2)]]
          more_cash [OF post_effect(5) [OF s(3)]] payout_checks_frame(5) [OF 3(1)] by simp
      then show ?thesis using record_payout_cases [OF s(4)] by auto
    qed (use payout_checks_frame(5) in blast)+
    then show ?thesis using payout Pair by simp
  qed
next
  case (intent db env provider url user raw)
  have "d \<in> set (ngn_deposits db1)" if "insert_deposit x db = Inr db1" for x db1
    using that intent by (auto simp: insert_deposit_def split: if_splits)
  then show ?case
    using intent by (auto simp: create_intent_def res_bind_def map_err_def ok_or_def Let_def split: sum.splits option.splits if_splits)
next
  case (poll db provider env user i)
  have keep: "d \<in> set (ngn_deposits (snd (settle_intent provider env i user r a db)))" for r a
    using settle_intent_keeps poll by blast
  show ?case
  proof (cases "fetch_optional (\<lambda>d. nd_id d = i \<and> nd_user d = user) (ngn_deposits db)")
    case None
    then show ?thesis using poll by (simp add: get_intent_def)
  next
    case (Some e)
    have "snd (get_intent ck provider env user i db) =
      (if nd_status e = DsPending then snd (settle_intent provider env i user (nd_reference e) (nd_amount e) db) else db)"
      using Some by (auto simp: get_intent_def split: prod.split sum.split)
    then show ?thesis using keep poll by simp
  qed
next
  case (sweep db provider envs now later)
  have "d \<in> set (ngn_deposits (settle_due provider envs 0 (due_intents now db) db))"
    using settle_due_keeps sweep by blast
  then have "d \<in> set (ngn_deposits (abandon later (settle_due provider envs 0 (due_intents now db) db)))"
    using sweep by (simp add: abandon_def update_pending_keeps)
  then show ?case using sweep by (simp add: funding_pass_def sweep_funding_def)
next
  case (save db bank env user code raw claimed)
  show ?case
    using add_bank_account_frame [of ck bank env user code raw claimed db]
  proof (elim disjE exE)
    fix number name v r
    assume "upsert_account env user code number name v db = Inr (r, snd (add_bank_account ck bank env user code raw claimed db))"
    from upsert_account_frame [OF this] show ?thesis using save by simp
  qed (use save in simp)
next
  case (remove db user i)
  then show ?case by (simp add: remove_account_def)
next
  case (members db ms)
  then show ?case by simp
qed


text \<open>Finding or creating an account, and posting, go through with fresh identifiers.\<close>

lemma lock_user_ok: "\<not> has_account i db \<Longrightarrow> \<exists>x db'. lock_user_ngn_account i user db = Inr (x, db') \<and> (\<forall>y. has_account y db' \<longrightarrow> has_account y db \<or> y = i)"
  by (auto simp: lock_user_ngn_account_def has_account_def add_account_def split: option.split)

lemma platform_ok: "\<not> has_account i db \<Longrightarrow> \<exists>x db'. platform_account i NgnFloat db = Inr (x, db')"
  by (auto simp: platform_account_def scope_ok_def is_user_scoped_def split: option.split)


text \<open>
  The sweep gives up unasked: a pending card intent older than the day's window is abandoned by
  the next pass, whatever the provider would say of it, a confirmed charge included.
\<close>

theorem sweep_abandons_unasked:
  assumes "is_live provider" "d \<in> set (ngn_deposits db)" "distinct (map nd_id (ngn_deposits db))"
    and "nd_status d = DsPending" "nd_provider d = ''paystack''" "nd_created_at d < now - minutes (60 * 24)" "now \<le> later"
  shows "d\<lparr>nd_status := DsAbandoned\<rparr> \<in> set (ngn_deposits (funding_pass provider envs now later db))"
proof -
  have "nd_id d \<notin> nd_id ` set (due_intents now db)"
  proof
    assume "nd_id d \<in> nd_id ` set (due_intents now db)"
    then obtain e where e: "e \<in> set (due_intents now db)" "nd_id e = nd_id d" by auto
    then have "e \<in> set (ngn_deposits db)" "now - minutes (60 * 24) < nd_created_at e"
      by (auto simp: due_intents_def abandon_after_hours_def dest!: in_set_takeD)
    then have "e = d" using e(2) assms(2,3) by (metis distinct_map inj_onD)
    then show False using \<open>now - minutes (60 * 24) < nd_created_at e\<close> assms(6) by simp
  qed
  then have "d \<in> set (ngn_deposits (settle_due provider envs 0 (due_intents now db) db))"
    using settle_due_keeps assms(2) by blast
  then have "d\<lparr>nd_status := DsAbandoned\<rparr> \<in> set (ngn_deposits (abandon later (settle_due provider envs 0 (due_intents now db) db)))"
    using assms(4-7) unfolding abandon_def by (simp add: set_update_where abandon_after_hours_def)
  then show ?thesis using assms(1) by (simp add: funding_pass_def sweep_funding_def)
qed

end
