(* ===== verification/Cash_Witnesses.thy ===== *)
theory Cash_Witnesses
  imports Cash_Properties
begin

text \<open>
  Concrete runs of naira in and out, and the two ways the idempotency key of a payout goes wrong.
\<close>

definition demo_cash :: cash_crates where
  "demo_cash = \<lparr>ck_parse_decimal = (\<lambda>s. if s = ''900'' then Some (900, 0) else if s = ''1000'' then Some (1000, 0) else None),
     ck_show_decimal = (\<lambda>d. ''''), ck_show_uuid = (\<lambda>i. ''u''), ck_simple_uuid = (\<lambda>i. ''0123456789abcdef''),
     ck_rfc3339 = (\<lambda>t. ''t''), ck_pin = demo_argon\<rparr>"

definition demo_paystack :: funding_provider where
  "demo_paystack = PaystackFunding (\<lambda>email kobo reference url. Envelope True None (Some ''https://pay''))
     (\<lambda>reference. Envelope True None (Some \<lparr>vd_status = ''success'', vd_amount = 100000, vd_gateway_response = None\<rparr>))"

definition cash_env :: "nat \<Rightarrow> env" where
  "cash_env k = \<lparr>app_now = 0, sql_now = 0, new_id = (\<lambda>n. of_nat (k + n))\<rparr>"

definition empty_bank :: cash_db where
  "empty_bank = \<lparr>accounts = [], journals = [], entries = [],
     members = [\<lparr>us_id = 7, us_phone = None, us_email = Some ''a@x.ng'', us_index = 0, us_pin_hash = Some ''$246801'',
        us_tier = 1, us_display_name = None, us_avatar_seed = None, us_date_of_birth = None\<rparr>],
     bank_accounts = [\<lparr>ba_id = 9, ba_user = 7, ba_code = ''058'', ba_number = ''0123456789'', ba_name = ''ADA'',
        ba_verified_at = None, ba_created_at = 0\<rparr>],
     payouts = [], ngn_deposits = []\<rparr>"

definition asked_card :: cash_db where
  "asked_card = snd (create_intent demo_cash demo_paystack ''https://w'' (cash_env 10) 7 ''1000'' empty_bank)"

definition funded :: cash_db where
  "funded = snd (get_intent demo_cash demo_paystack (cash_env 20) 7 10 asked_card)"

definition withdrawal :: "payout_body" where
  "withdrawal = \<lparr>pb_amount = '' 900 '', pb_destination = Beneficiary 9, pb_pin = ''246801''\<rparr>"

definition withdrawn :: cash_db where
  "withdrawn = snd (create_payout demo_cash StubPayouts (cash_env 30) 7 (Some ''k1'') withdrawal funded)"

text \<open>The same withdrawal under the key of the top-up's own credit.\<close>

definition free_payout :: cash_db where
  "free_payout = snd (create_payout demo_cash StubPayouts (cash_env 30) 7 (Some ''NVFD-0123456789AB:credit'') withdrawal funded)"

lemma empty_bank_start: "cash_start empty_bank"
  by (simp add: cash_start_def empty_bank_def wf_ledger_def journal_residual_def kind_balance_def find_account_def no_overdraft_def)

lemma reach_asked_card: "cash_reach demo_cash empty_bank asked_card"
proof -
  have "\<not> key_posted empty_bank k" for k by (simp add: key_posted_def empty_bank_def)
  then show ?thesis unfolding asked_card_def by (intro cash_reach.step [OF cash_reach.refl] cash_step.intent)
qed

lemma reach_funded: "cash_reach demo_cash empty_bank funded"
  unfolding funded_def by (rule cash_reach.step [OF reach_asked_card cash_step.poll])

lemma asked_card_rows: "map (\<lambda>d. (nd_id d, nd_user d, nd_reference d, nd_status d)) (ngn_deposits asked_card) =
    [(10, 7, ''NVFD-0123456789AB'', DsPending)]"
  by code_simp

lemma funded_facts:
  "kind_balance funded UserNgn (Some 7) Ngn = - 1000" "map jr_key (journals funded) = [''NVFD-0123456789AB:credit'']"
  "map credited (ngn_deposits funded) = [1000]" "payouts funded = []"
  by code_simp+

lemma withdrawn_answers:
  "\<exists>resp. create_payout demo_cash StubPayouts (cash_env 30) 7 (Some ''k1'') withdrawal funded = (Inr resp, withdrawn)"
proof -
  have "case fst (create_payout demo_cash StubPayouts (cash_env 30) 7 (Some ''k1'') withdrawal funded) of Inr _ \<Rightarrow> True | _ \<Rightarrow> False"
    by code_simp
  then show ?thesis unfolding withdrawn_def
    by (cases "create_payout demo_cash StubPayouts (cash_env 30) 7 (Some ''k1'') withdrawal funded") (auto split: sum.splits)
qed

lemma reach_withdrawn: "cash_reach demo_cash empty_bank withdrawn"
proof -
  have js: "map jr_key (journals funded) = [''NVFD-0123456789AB:credit'']" by (rule funded_facts(2))
  have ds: "map nd_reference (ngn_deposits funded) = [''NVFD-0123456789AB'']" by code_simp
  have "payout_key_ok ''k1'' funded"
    using js ds by (auto simp: payout_key_ok_def credit_key_def map_eq_Cons_conv)
  then show ?thesis
    unfolding withdrawn_def by (intro cash_reach.step [OF reach_funded] cash_step.payout) simp
qed

section \<open>The properties at these runs\<close>


theorem payout_reserves_witness:
  "\<exists>b. payouts withdrawn = payouts funded @ [new_payout demo_cash (cash_env 30) 7 900 b (new_id (cash_env 30) 4)]"
proof -
  obtain resp where r: "create_payout demo_cash StubPayouts (cash_env 30) 7 (Some ''k1'') withdrawal funded = (Inr resp, withdrawn)"
    using withdrawn_answers by blast
  have "\<not> key_posted funded ''k1''" using funded_facts(2) by (auto simp: key_posted_def map_eq_Cons_conv)
  from payout_reserves [OF empty_bank_start reach_funded this r]
  obtain amount b where w: "payout_amount demo_cash (pb_amount withdrawal) = Inr amount"
    "payouts withdrawn = payouts funded @ [new_payout demo_cash (cash_env 30) 7 amount b (new_id (cash_env 30) 4)]"
    by blast
  have "payout_amount demo_cash (pb_amount withdrawal) = Inr 900" by code_simp
  then have "amount = 900" using w(1) by simp
  then show ?thesis using w(2) by blast
qed



definition old_intent :: cash_db where
  "old_intent = asked_card\<lparr>ngn_deposits := map (\<lambda>d. d\<lparr>nd_created_at := - days 2\<rparr>) (ngn_deposits asked_card)\<rparr>"

theorem sweep_abandons_unasked_witness:
  "\<exists>d. d \<in> set (ngn_deposits (funding_pass demo_paystack cash_env 0 0 old_intent)) \<and> nd_status d = DsAbandoned"
proof -
  have "map (\<lambda>d. (nd_status d, nd_provider d, nd_created_at d)) (ngn_deposits old_intent) = [(DsPending, ''paystack'', - days 2)]"
    by code_simp
  then obtain d where d: "ngn_deposits old_intent = [d]" "nd_status d = DsPending" "nd_provider d = ''paystack''" "nd_created_at d = - days 2"
    by (auto simp: map_eq_Cons_conv)
  have "d\<lparr>nd_status := DsAbandoned\<rparr> \<in> set (ngn_deposits (funding_pass demo_paystack cash_env 0 0 old_intent))"
    by (rule sweep_abandons_unasked) (simp_all add: d demo_paystack_def duration_defs)
  then show ?thesis by (intro exI [of _ "d\<lparr>nd_status := DsAbandoned\<rparr>"]) simp
qed

section \<open>Keys that are not the client's own\<close>

text \<open>
  The key of a payout is taken from the client and used as it comes. With the key of a top-up's
  credit the journal is found already posted, a payout is still recorded against it, and nothing is
  taken from the user: 900 naira are reserved for the bank while the balance stays at 1,000.
\<close>

theorem payout_key_reuse_is_free:
  "map (\<lambda>p. (po_user p, po_amount p, po_status p)) (payouts free_payout) = [(7, 900, PoReserved)] \<and>
   kind_balance free_payout UserNgn (Some 7) Ngn = kind_balance funded UserNgn (Some 7) Ngn \<and>
   kind_balance free_payout NgnPayablePending None Ngn = 0"
proof -
  have "map (\<lambda>p. (po_user p, po_amount p, po_status p)) (payouts free_payout) = [(7, 900, PoReserved)]" by code_simp
  moreover have "kind_balance free_payout UserNgn (Some 7) Ngn = - 1000" "kind_balance free_payout NgnPayablePending None Ngn = 0"
    by code_simp+
  ultimately show ?thesis using funded_facts(1) by simp
qed

text \<open>A replay is refused by the checks that come before the key is looked up.\<close>

lemma payout_replay_refused:
  "fst (create_payout demo_cash StubPayouts (cash_env 50) 7 (Some ''k1'') withdrawal withdrawn) = Inl InsufficientBalance"
proof -
  have "case fst (create_payout demo_cash StubPayouts (cash_env 50) 7 (Some ''k1'') withdrawal withdrawn) of
      Inl InsufficientBalance \<Rightarrow> True | _ \<Rightarrow> False" by code_simp
  then show ?thesis by (auto split: sum.splits api_error.splits)
qed

end
