(* ===== verification/Catalogue.thy ===== *)
theory Catalogue
  imports Order_Create Rust_Text
begin

text \<open>
  What a supplier's listing says and what it costs: prices, JSON readers and the rows of the guest
  endpoints of \<open>crates/api/src/number_catalog.rs\<close>, and the offers built from them
  (\<open>OfferSku\<close> of \<open>number_offers.rs\<close>).
\<close>

section \<open>JSON as it is received\<close>

text \<open>
  A number is kept as \<open>serde_json\<close> gives it: its value as an \<open>i64\<close> when it has one, its \<open>f64\<close> as
  text, that \<open>f64\<close> cut to an \<open>i64\<close>, and the text of the number itself. An object lists its members once, in key order.
\<close>

datatype jval =
    JvNull
  | JvBool bool
  | JvNum "int option" string int string
  | JvStr string
  | JvArr "jval list"
  | JvObj "(string \<times> jval) list"

fun jv_get :: "jval \<Rightarrow> string \<Rightarrow> jval option" where
  "jv_get (JvObj ms) k = map_of ms k"
| "jv_get _ k = None"

fun jv_object :: "jval \<Rightarrow> (string \<times> jval) list option" where
  "jv_object (JvObj ms) = Some ms"
| "jv_object _ = None"

fun jv_array :: "jval \<Rightarrow> jval list option" where
  "jv_array (JvArr vs) = Some vs"
| "jv_array _ = None"

fun jv_str :: "jval \<Rightarrow> string option" where
  "jv_str (JvStr s) = Some s"
| "jv_str _ = None"

text \<open>\<open>str::parse::<i64>\<close>: a sign, digits, no overflow.\<close>

definition parse_i64 :: "string \<Rightarrow> int option" where
  "parse_i64 s =
     (case s of
        c # ds \<Rightarrow>
          if c = CHR ''-''
          then (if ds \<noteq> [] \<and> list_all is_ascii_digit ds \<and> int (digits_val ds) \<le> 2 ^ 63 then Some (- int (digits_val ds)) else None)
          else map_option int (parse_unsigned (2 ^ 63) s)
      | [] \<Rightarrow> None)"

definition as_decimal :: "crates \<Rightarrow> jval \<Rightarrow> decimal option" where
  "as_decimal cr v =
     (case v of
        JvNum i f _ _ \<Rightarrow> (case cr_parse_decimal cr f of Some d \<Rightarrow> Some d | None \<Rightarrow> map_option of_int i)
      | JvStr s \<Rightarrow> cr_parse_decimal cr (trim s)
      | _ \<Rightarrow> None)"

definition json_decimal :: "crates \<Rightarrow> jval option \<Rightarrow> decimal option" where
  "json_decimal cr v = (case v of None \<Rightarrow> None | Some v \<Rightarrow> as_decimal cr v)"

definition json_i64 :: "jval option \<Rightarrow> int option" where
  "json_i64 v =
     (case v of
        None \<Rightarrow> None
      | Some (JvNum i _ t _) \<Rightarrow> (case i of Some n \<Rightarrow> Some n | None \<Rightarrow> Some t)
      | Some (JvStr s) \<Rightarrow> parse_i64 (trim s)
      | Some _ \<Rightarrow> None)"

section \<open>Prices\<close>

definition min_price_ngn :: decimal where "min_price_ngn = 100"

record pricing =
  pc_usd_ngn :: decimal
  pc_margin :: decimal
  pc_currency :: "string option"

definition prices_in_usd :: "pricing \<Rightarrow> bool" where
  "prices_in_usd p \<longleftrightarrow> (case pc_currency p of Some c \<Rightarrow> eq_ignore_ascii_case c ''USD'' | None \<Rightarrow> True)"

definition sale_price :: "pricing \<Rightarrow> decimal \<Rightarrow> decimal" where
  "sale_price p cost =
     (let raw = cost * pc_usd_ngn p * pc_margin p;
          rounded = of_int \<lceil>raw / 10\<rceil> * 10
      in max rounded min_price_ngn)"

lemma sale_price_bounds:
  "cost * pc_usd_ngn p * pc_margin p \<le> sale_price p cost"
  "min_price_ngn \<le> sale_price p cost"
  "sale_price p cost < max (cost * pc_usd_ngn p * pc_margin p + 10) (min_price_ngn + 10)"
  "\<exists>k. sale_price p cost = of_int k * 10"
proof -
  let ?raw = "cost * pc_usd_ngn p * pc_margin p"
  have "?raw / 10 \<le> of_int \<lceil>?raw / 10\<rceil>" "of_int \<lceil>?raw / 10\<rceil> < ?raw / 10 + 1"
    using ceiling_correct [of "?raw / 10"] by linarith+
  then have r: "?raw \<le> of_int \<lceil>?raw / 10\<rceil> * 10" "of_int \<lceil>?raw / 10\<rceil> * 10 < ?raw + 10" by linarith+
  then show "?raw \<le> sale_price p cost" "min_price_ngn \<le> sale_price p cost"
    "sale_price p cost < max (?raw + 10) (min_price_ngn + 10)"
    unfolding sale_price_def Let_def by (auto simp: max_def)
  have "min_price_ngn = of_int 10 * 10" by (simp add: min_price_ngn_def)
  then show "\<exists>k. sale_price p cost = of_int k * 10"
    unfolding sale_price_def Let_def max_def by metis
qed

lemma sale_price_mono:
  "0 \<le> pc_usd_ngn p * pc_margin p \<Longrightarrow> a \<le> b \<Longrightarrow> sale_price p a \<le> sale_price p b"
proof -
  assume h: "0 \<le> pc_usd_ngn p * pc_margin p" "a \<le> b"
  then have "a * (pc_usd_ngn p * pc_margin p) \<le> b * (pc_usd_ngn p * pc_margin p)" by (intro mult_right_mono)
  then have "\<lceil>a * pc_usd_ngn p * pc_margin p / 10\<rceil> \<le> \<lceil>b * pc_usd_ngn p * pc_margin p / 10\<rceil>"
    by (intro ceiling_mono divide_right_mono) (simp_all add: mult.assoc)
  then have "(of_int \<lceil>a * pc_usd_ngn p * pc_margin p / 10\<rceil> :: rat) \<le> of_int \<lceil>b * pc_usd_ngn p * pc_margin p / 10\<rceil>" by simp
  then show ?thesis unfolding sale_price_def Let_def by (intro max.mono) simp_all
qed

section \<open>SKUs\<close>

record offer_sku =
  ku_provider :: string
  ku_product_slug :: string
  ku_country_code :: string
  ku_product :: string
  ku_country :: string
  ku_operator :: "string option"
  ku_cost :: decimal
  ku_currency :: string
  ku_rate :: decimal
  ku_stock :: int

definition parse_success_rate :: "decimal \<Rightarrow> decimal option" where
  "parse_success_rate v = (if 0 < v \<and> v \<le> 100 then Some v else None)"

definition parse_success_json :: "crates \<Rightarrow> jval \<Rightarrow> decimal option" where
  "parse_success_json cr v = (case as_decimal cr v of None \<Rightarrow> None | Some d \<Rightarrow> parse_success_rate d)"

definition stub_skus :: "offer_sku list" where
  "stub_skus =
     [\<lparr>ku_provider = ''stub'', ku_product_slug = ''whatsapp'', ku_country_code = ''NG'', ku_product = ''whatsapp'',
        ku_country = ''nigeria'', ku_operator = None, ku_cost = 20 / 100, ku_currency = ''USD'', ku_rate = 82, ku_stock = 12\<rparr>,
      \<lparr>ku_provider = ''stub'', ku_product_slug = ''whatsapp'', ku_country_code = ''NG'', ku_product = ''whatsapp-low'',
        ku_country = ''nigeria'', ku_operator = Some ''budget'', ku_cost = 8 / 100, ku_currency = ''USD'', ku_rate = 39, ku_stock = 4\<rparr>]"

text \<open>\<open>i32::try_from(n).unwrap_or(i32::MAX)\<close>.\<close>

definition saturate_i32 :: "int \<Rightarrow> int" where
  "saturate_i32 n = (if - (2 ^ 31) \<le> n \<and> n \<le> 2 ^ 31 - 1 then n else 2 ^ 31 - 1)"

text \<open>
  The country list of the supplier. The keys of \<open>iso\<close> and \<open>prefix\<close> are in the order the hash map
  gives them; only the first is used.
\<close>

record guest_country =
  gc_iso :: "string list"
  gc_prefix :: "string list"
  gc_text :: "string option"

record guest_product =
  gp_category :: string
  gp_qty :: int
  gp_price :: decimal

definition row_success_rate :: "crates \<Rightarrow> jval \<Rightarrow> decimal option" where
  "row_success_rate cr row =
     (case (case jv_get row ''rate'' of None \<Rightarrow> None | Some v \<Rightarrow> parse_success_json cr v) of
        Some r \<Rightarrow> Some r
      | None \<Rightarrow> (case jv_get row ''rate1'' of None \<Rightarrow> None | Some v \<Rightarrow> parse_success_json cr v))"

text \<open>The rows of one product in one country that can be sold: operator, count, cost, rate.\<close>

definition operator_row :: "crates \<Rightarrow> string \<times> jval \<Rightarrow> (string \<times> int \<times> decimal \<times> decimal) option" where
  "operator_row cr = (\<lambda>(operator, row).
     (case json_i64 (jv_get row ''count'') of
        None \<Rightarrow> None
      | Some count \<Rightarrow>
          if count \<le> 0 then None
          else (case json_decimal cr (jv_get row ''cost'') of
             None \<Rightarrow> None
           | Some cost \<Rightarrow>
               (case row_success_rate cr row of
                  None \<Rightarrow> None
                | Some rate \<Rightarrow> Some (operator, count, cost, rate)))))"

definition operator_skus :: "crates \<Rightarrow> (string \<times> guest_country) list \<Rightarrow> string \<Rightarrow> string \<Rightarrow> string \<Rightarrow> jval \<Rightarrow>
    offer_sku list" where
  "operator_skus cr countries' currency country_key product_key operators =
     (case map_of countries' country_key of
        None \<Rightarrow> []
      | Some country \<Rightarrow>
          (case gc_iso country of
             [] \<Rightarrow> []
           | code # _ \<Rightarrow>
               (case jv_object operators of
                  None \<Rightarrow> []
                | Some ops \<Rightarrow>
                    (let rows = List.map_filter (operator_row cr) ops;
                         has_named = list_ex (\<lambda>(op, _). op \<noteq> ''any'') rows
                     in map (\<lambda>(operator, count, cost, rate).
                          \<lparr>ku_provider = ''fivesim'', ku_product_slug = product_key, ku_country_code = cr_to_uppercase cr code,
                           ku_product = product_key, ku_country = country_key, ku_operator = Some operator,
                           ku_cost = cost, ku_currency = currency, ku_rate = rate, ku_stock = saturate_i32 count\<rparr>)
                        (filter (\<lambda>(op, _). \<not> (has_named \<and> op = ''any'')) rows)))))"

text \<open>The dump is by country, then product; a slice is by product, then country.\<close>

definition guest_entry :: "crates \<Rightarrow> (string \<times> guest_country) list \<Rightarrow> string \<Rightarrow> string \<times> jval \<Rightarrow> offer_sku list" where
  "guest_entry cr countries' currency = (\<lambda>(top_key, nested).
     (case jv_object nested of
        None \<Rightarrow> []
      | Some inner \<Rightarrow>
          if map_of countries' top_key \<noteq> None
          then concat (map (\<lambda>(product_key, ops). operator_skus cr countries' currency top_key product_key ops) inner)
          else concat (map (\<lambda>(country_key, ops). operator_skus cr countries' currency country_key top_key ops) inner)))"

definition skus_from_guest_prices :: "crates \<Rightarrow> jval \<Rightarrow> (string \<times> guest_country) list \<Rightarrow> pricing \<Rightarrow> offer_sku list" where
  "skus_from_guest_prices cr prices' countries' p =
     (case jv_object prices' of
        None \<Rightarrow> []
      | Some dump \<Rightarrow>
          (let currency = (case pc_currency p of Some c \<Rightarrow> c | None \<Rightarrow> ''USD'')
           in concat (map (guest_entry cr countries' currency) dump)))"

definition same_source :: "offer_sku \<Rightarrow> offer_sku \<Rightarrow> bool" where
  "same_source a b \<longleftrightarrow> ku_provider a = ku_provider b \<and> ku_product a = ku_product b \<and>
     ku_country a = ku_country b \<and> ku_operator a = ku_operator b"

definition merge_skus :: "offer_sku list \<Rightarrow> offer_sku list \<Rightarrow> offer_sku list" where
  "merge_skus left right = fold (\<lambda>k acc. if list_ex (\<lambda>e. same_source e k) acc then acc else acc @ [k]) right left"

definition affordable_skus :: "offer_sku list \<Rightarrow> decimal \<Rightarrow> offer_sku list" where
  "affordable_skus skus max_cost = filter (\<lambda>k. ku_cost k \<le> max_cost \<and> 0 < ku_rate k) skus"

definition wallet_is_funded :: "decimal \<Rightarrow> bool" where
  "wallet_is_funded balance \<longleftrightarrow> 0 < balance"

section \<open>Names\<close>

definition brands :: "(string \<times> string) list" where
  "brands =
     [(''whatsapp'', ''WhatsApp''), (''tiktok'', ''TikTok''), (''paypal'', ''PayPal''), (''wechat'', ''WeChat''),
      (''youtube'', ''YouTube''), (''linkedin'', ''LinkedIn''), (''snapchat'', ''Snapchat''), (''facebook'', ''Facebook''),
      (''instagram'', ''Instagram''), (''telegram'', ''Telegram''), (''twitter'', ''X (Twitter)''), (''openai'', ''OpenAI''),
      (''github'', ''GitHub''), (''payoneer'', ''Payoneer''), (''binance'', ''Binance''), (''coinbase'', ''Coinbase''),
      (''airbnb'', ''Airbnb''), (''aliexpress'', ''AliExpress''), (''ebay'', ''eBay''), (''imo'', ''IMO''),
      (''kakaotalk'', ''KakaoTalk''), (''viber'', ''Viber''), (''bolt'', ''Bolt''), (''uber'', ''Uber''),
      (''glovo'', ''Glovo''), (''jumia'', ''Jumia''), (''opay'', ''OPay''), (''kuda'', ''Kuda'')]"

text \<open>The first character of a UTF-8 string, and the rest.\<close>

definition first_char :: "string \<Rightarrow> string \<times> string" where
  "first_char s = (case s of [] \<Rightarrow> ([], []) | c # cs \<Rightarrow> (c # takeWhile continuation cs, dropWhile continuation cs))"

fun split_any :: "char list \<Rightarrow> string \<Rightarrow> string list" where
  "split_any seps [] = [[]]"
| "split_any seps (x # xs) =
     (if x \<in> set seps then [] # split_any seps xs
      else (case split_any seps xs of p # ps \<Rightarrow> (x # p) # ps | [] \<Rightarrow> [[x]]))"

fun join_with :: "string \<Rightarrow> string list \<Rightarrow> string" where
  "join_with sep [] = []"
| "join_with sep [p] = p"
| "join_with sep (p # q # ps) = p @ sep @ join_with sep (q # ps)"

definition humanise :: "crates \<Rightarrow> string \<Rightarrow> string" where
  "humanise cr key =
     (case map_of brands key of
        Some brand \<Rightarrow> brand
      | None \<Rightarrow> join_with '' '' (map (\<lambda>part. (let (c, rest) = first_char part in cr_to_uppercase cr c @ rest))
          (filter (\<lambda>part. part \<noteq> []) (split_any [CHR ''-'', CHR ''_'', CHR ''.''] key))))"

section \<open>Facts\<close>

lemma operator_row_Some:
  "operator_row cr x = Some (op, count, cost, rate) \<Longrightarrow> fst x = op \<and> 0 < count \<and> 0 < rate \<and> rate \<le> 100"
  by (cases x) (auto simp: operator_row_def row_success_rate_def parse_success_json_def parse_success_rate_def
      split: option.splits if_splits)

text \<open>Every SKU read from the supplier has stock and a published rate.\<close>

lemma map_filter_member: "y \<in> set (List.map_filter f xs) \<longleftrightarrow> (\<exists>x \<in> set xs. f x = Some y)"
  by (induction xs) (auto simp: List.map_filter_def)

lemma saturate_pos: "0 < n \<Longrightarrow> 0 < saturate_i32 n"
  by (simp add: saturate_i32_def)

lemma operator_skus_sound:
  assumes "k \<in> set (operator_skus cr cs cur c p ops)"
  shows "ku_provider k = ''fivesim'' \<and> 0 < ku_stock k \<and> 0 < ku_rate k \<and> ku_rate k \<le> 100 \<and> ku_currency k = cur"
  using assms unfolding operator_skus_def Let_def
  by (auto split: option.splits list.splits dest!: operator_row_Some simp: map_filter_member saturate_pos)

lemma guest_skus_sound:
  assumes "k \<in> set (skus_from_guest_prices cr v cs p)"
  shows "ku_provider k = ''fivesim'' \<and> 0 < ku_stock k \<and> 0 < ku_rate k \<and> ku_rate k \<le> 100"
  using assms unfolding skus_from_guest_prices_def Let_def guest_entry_def
  by (auto split: option.splits if_splits dest!: operator_skus_sound)

lemma merge_skus_member: "k \<in> set (merge_skus l r) \<Longrightarrow> k \<in> set l \<or> k \<in> set r"
  unfolding merge_skus_def
proof (induction r arbitrary: l)
  case (Cons a r)
  show ?case
  proof (cases "list_ex (\<lambda>e. same_source e a) l")
    case True
    then show ?thesis using Cons.IH [of l] Cons.prems by auto
  next
    case False
    then show ?thesis using Cons.IH [of "l @ [a]"] Cons.prems by auto
  qed
qed simp

end
