(* ===== verification/Catalogue_Store.thy ===== *)
theory Catalogue_Store
  imports Catalogue "HOL-Library.List_Lexorder" "HOL-Library.Char_ord"
begin

text \<open>
  Writing the catalogue: the countries, products and prices a sweep upserts
  (\<open>crates/api/src/number_catalog.rs\<close>) and the offers with their sources
  (\<open>crates/api/src/number_offers.rs\<close>), on the tables the purchase reads. Every statement is a
  transaction of its own.
\<close>

text \<open>A \<open>NUMERIC(_, k)\<close> column rounds half away from zero.\<close>

definition numeric_column :: "nat \<Rightarrow> decimal \<Rightarrow> decimal" where
  "numeric_column k x =
     (let n = \<bar>x\<bar> * 10 ^ k; r = of_int \<lfloor>n + 1 / 2\<rfloor> / 10 ^ k in if x < 0 then - r else r)"

section \<open>Countries\<close>

definition unlisted_sort :: int where "unlisted_sort = 500"

definition upsert_country :: "crates \<Rightarrow> uuid \<Rightarrow> string \<Rightarrow> guest_country \<Rightarrow> 'z shop_db_scheme \<Rightarrow>
    uuid option \<times> 'z shop_db_scheme" where
  "upsert_country cr i key country db =
     (case (gc_iso country, gc_prefix country) of
        (code # _, dial # _) \<Rightarrow>
          (let code = cr_to_uppercase cr code;
               name = (case gc_text country of Some t \<Rightarrow> t | None \<Rightarrow> humanise cr key)
           in case fetch_optional (\<lambda>r. cn_provider_country r = key) (countries db) of
                Some r \<Rightarrow> (Some (cn_id r), db\<lparr>countries := update_where (\<lambda>r. cn_provider_country r = key)
                   (\<lambda>r. r\<lparr>cn_name := name, cn_dial := dial\<rparr>) (countries db)\<rparr>)
              | None \<Rightarrow>
                  (case fetch_optional (\<lambda>r. cn_code r = code) (countries db) of
                     Some holder \<Rightarrow>
                       if cn_provider_country holder < key then (None, db)
                       else (Some (cn_id holder), db\<lparr>countries := update_where (\<lambda>r. cn_code r = code)
                         (\<lambda>r. r\<lparr>cn_provider_country := key, cn_name := name, cn_dial := dial\<rparr>) (countries db)\<rparr>)
                   | None \<Rightarrow> (Some i, db\<lparr>countries := countries db @
                       [\<lparr>cn_id = i, cn_code = code, cn_provider_country = key, cn_active = True,
                         cn_name = name, cn_dial = dial, cn_sort = unlisted_sort\<rparr>]\<rparr>)))
      | _ \<Rightarrow> (None, db))"

section \<open>Products\<close>

text \<open>
  One statement for all products of a country: it inserts nothing when one of the new slugs is taken
  by a product the supplier calls otherwise. \<open>ids key\<close> is the id drawn for a new product.
\<close>

definition new_product :: "crates \<Rightarrow> (string \<Rightarrow> uuid) \<Rightarrow> string \<Rightarrow> product_row" where
  "new_product cr ids key =
     \<lparr>pd_id = ids key, pd_slug = key, pd_provider_product = key, pd_active = True, pd_floor_usd = 0,
      pd_name = humanise cr key, pd_sort = unlisted_sort\<rparr>"

definition upsert_products :: "crates \<Rightarrow> (string \<Rightarrow> uuid) \<Rightarrow> string list \<Rightarrow> 'z shop_db_scheme \<Rightarrow>
    db_error + ((string \<Rightarrow> uuid option) \<times> 'z shop_db_scheme)" where
  "upsert_products cr ids keys db =
     (let known = (\<lambda>k. list_ex (\<lambda>p. pd_provider_product p = k) (products db));
          fresh = filter (\<lambda>k. \<not> known k) keys
      in if list_ex (\<lambda>k. list_ex (\<lambda>p. pd_slug p = k) (products db)) fresh then Inl UniqueViolation
         else (let db' = db\<lparr>products := products db @ map (new_product cr ids) fresh\<rparr>
               in Inr (\<lambda>k. if k \<in> set keys
                    then map_option pd_id (fetch_optional (\<lambda>p. pd_provider_product p = k) (products db')) else None, db')))"

section \<open>Prices\<close>

definition price_hysteresis :: decimal where "price_hysteresis = 5 / 100"

definition kept_price :: "bool \<Rightarrow> decimal \<Rightarrow> decimal \<Rightarrow> decimal" where
  "kept_price priced stored recomputed =
     (if \<not> priced then stored
      else if \<bar>recomputed - stored\<bar> / max stored 1 < price_hysteresis then stored
      else recomputed)"

definition upsert_price :: "pricing \<Rightarrow> instant \<Rightarrow> uuid \<Rightarrow> uuid \<times> guest_product \<Rightarrow> 'z shop_db_scheme \<Rightarrow> 'z shop_db_scheme" where
  "upsert_price p now country = (\<lambda>(product, offer) db.
     (let price = sale_price p (gp_price offer);
          cost = numeric_column 6 (gp_price offer);
          stock = saturate_i32 (max (gp_qty offer) 0);
          currency = (case pc_currency p of Some c \<Rightarrow> c | None \<Rightarrow> ''USD'');
          seen = (if 0 < stock then Some now else None);
          mine = (\<lambda>r. pr_product r = product \<and> pr_country r = country)
      in if list_ex mine (prices db)
         then db\<lparr>prices := update_where mine
           (\<lambda>r. r\<lparr>pr_price := kept_price (prices_in_usd p) (pr_price r) price, pr_cost := Some cost,
              pr_currency := Some currency, pr_stock := stock, pr_synced := Some now,
              pr_last_in_stock := (case seen of Some t \<Rightarrow> Some t | None \<Rightarrow> pr_last_in_stock r)\<rparr>) (prices db)\<rparr>
         else db\<lparr>prices := prices db @
           [\<lparr>pr_product = product, pr_country = country, pr_price = price, pr_active = True, pr_cost = Some cost,
             pr_currency = Some currency, pr_operator = Some ''any'', pr_stock = stock,
             pr_last_in_stock = seen, pr_synced = Some now\<rparr>]\<rparr>))"

definition priced_rows :: "(string \<times> guest_product) list \<Rightarrow> (string \<Rightarrow> uuid option) \<Rightarrow> (uuid \<times> guest_product) list" where
  "priced_rows offers' ids = List.map_filter (\<lambda>(key, offer). map_option (\<lambda>i. (i, offer)) (ids key)) offers'"

definition upsert_prices :: "pricing \<Rightarrow> instant \<Rightarrow> uuid \<Rightarrow> (string \<times> guest_product) list \<Rightarrow> (string \<Rightarrow> uuid option) \<Rightarrow>
    'z shop_db_scheme \<Rightarrow> nat \<times> 'z shop_db_scheme" where
  "upsert_prices p now country offers' ids db =
     (let rows = priced_rows offers' ids in (length rows, fold (upsert_price p now country) rows db))"

section \<open>Offers\<close>

definition product_id_for :: "string \<Rightarrow> 'z shop_db_scheme \<Rightarrow> uuid option" where
  "product_id_for slug db = map_option pd_id
     (fetch_optional (\<lambda>p. pd_active p \<and> (pd_slug p = slug \<or> pd_provider_product p = slug)) (products db))"

definition country_id_for :: "crates \<Rightarrow> string \<Rightarrow> 'z shop_db_scheme \<Rightarrow> uuid option" where
  "country_id_for cr code db = map_option cn_id
     (fetch_optional (\<lambda>c. cn_code c = cr_to_uppercase cr code \<and> cn_active c) (countries db))"

text \<open>The unique key of \<open>number_offers\<close>, and the upsert on it with the checks of the table.\<close>

definition upsert_offer :: "instant \<Rightarrow> uuid \<Rightarrow> uuid \<Rightarrow> uuid \<Rightarrow> decimal \<Rightarrow> decimal \<Rightarrow> int \<Rightarrow> 'z shop_db_scheme \<Rightarrow>
    db_error + (uuid \<times> 'z shop_db_scheme)" where
  "upsert_offer now i product country price rate stock db =
     (let rate = numeric_column 4 rate; price = numeric_column 4 price;
          mine = (\<lambda>f. of_product f = product \<and> of_country f = country \<and> of_price f = price \<and> of_rate f = rate)
      in if \<not> (0 < price \<and> 0 < rate \<and> rate \<le> 100 \<and> 0 \<le> max stock 0) then Inl CheckViolation
         else case fetch_optional mine (offers db) of
           Some f \<Rightarrow> Inr (of_id f, db\<lparr>offers := update_where mine
             (\<lambda>f. f\<lparr>of_quantity := max stock 0, of_active := 0 < stock, of_fetched_at := now\<rparr>) (offers db)\<rparr>)
         | None \<Rightarrow>
             if i \<in> of_id ` set (offers db) then Inl UniqueViolation
             else Inr (i, db\<lparr>offers := offers db @
               [\<lparr>of_id = i, of_product = product, of_country = country, of_price = price,
                 of_quantity = max stock 0, of_active = 0 < stock, of_rate = rate, of_fetched_at = now\<rparr>]\<rparr>))"

definition allowed_providers :: "string list" where
  "allowed_providers = [''fivesim'', ''smspool'', ''smsactivate'', ''daisysms'', ''smshub'', ''tigersms'', ''stub'']"

definition operator_text :: "offer_sku \<Rightarrow> string" where
  "operator_text k = (case ku_operator k of None \<Rightarrow> [] | Some s \<Rightarrow> s)"

definition source_of :: "string \<Rightarrow> uuid \<Rightarrow> offer_sku \<Rightarrow> offer_source" where
  "source_of provider offer_id k =
     \<lparr>os_offer = offer_id, os_provider = provider, os_country = ku_country k, os_product = ku_product k,
      os_operator = operator_text k, os_cost = numeric_column 6 (ku_cost k), os_currency = ku_currency k,
      os_stock = max (ku_stock k) 0, os_rate = numeric_column 4 (ku_rate k)\<rparr>"

definition source_key :: "offer_source \<Rightarrow> string \<times> string \<times> string \<times> string" where
  "source_key s = (os_provider s, os_product s, os_country s, os_operator s)"

definition upsert_source :: "offer_source \<Rightarrow> 'z shop_db_scheme \<Rightarrow> db_error + 'z shop_db_scheme" where
  "upsert_source s db =
     (if os_provider s \<notin> set allowed_providers \<or> \<not> (0 < os_rate s \<and> os_rate s \<le> 100) then Inl CheckViolation
      else if list_ex (\<lambda>x. source_key x = source_key s) (sources db)
      then Inr (db\<lparr>sources := update_where (\<lambda>x. source_key x = source_key s) (\<lambda>_. s) (sources db)\<rparr>)
      else Inr (db\<lparr>sources := sources db @ [s]\<rparr>))"

text \<open>One SKU: skipped (\<open>Inr None\<close>), or written.\<close>

definition apply_sku :: "crates \<Rightarrow> pricing \<Rightarrow> instant \<Rightarrow> uuid \<Rightarrow> string \<Rightarrow> offer_sku \<Rightarrow> 'z shop_db_scheme \<Rightarrow>
    (db_error + (string \<times> string \<times> string) option) \<times> 'z shop_db_scheme" where
  "apply_sku cr p now i provider k db =
     (if ku_provider k \<noteq> provider then (Inr None, db)
      else case product_id_for (ku_product_slug k) db of
        None \<Rightarrow> (Inr None, db)
      | Some product \<Rightarrow>
          (case country_id_for cr (ku_country_code k) db of
             None \<Rightarrow> (Inr None, db)
           | Some country \<Rightarrow>
               if \<not> (prices_in_usd p \<or> provider = ''stub'') then (Inr None, db)
               else (case upsert_offer now i product country (sale_price p (ku_cost k)) (ku_rate k) (ku_stock k) db of
                  Inl e \<Rightarrow> (Inl e, db)
                | Inr (offer_id, db1) \<Rightarrow>
                    (case upsert_source (source_of provider offer_id k) db1 of
                       Inl e \<Rightarrow> (Inl e, db1)
                     | Inr db2 \<Rightarrow> (Inr (Some (ku_product k, ku_country k, operator_text k)), db2)))))"

text \<open>All of them, in order; \<open>ids\<close> gives the offer ids drawn. The keys written are returned.\<close>

fun apply_skus :: "crates \<Rightarrow> pricing \<Rightarrow> instant \<Rightarrow> (nat \<Rightarrow> uuid) \<Rightarrow> nat \<Rightarrow> string \<Rightarrow> offer_sku list \<Rightarrow> 'z shop_db_scheme \<Rightarrow>
    (db_error + (string \<times> string \<times> string) list) \<times> 'z shop_db_scheme" where
  "apply_skus cr p now ids n provider [] db = (Inr [], db)"
| "apply_skus cr p now ids n provider (k # ks) db =
     (case apply_sku cr p now (ids n) provider k db of
        (Inl e, db1) \<Rightarrow> (Inl e, db1)
      | (Inr written, db1) \<Rightarrow>
          (case apply_skus cr p now ids (Suc n) provider ks db1 of
             (Inl e, db2) \<Rightarrow> (Inl e, db2)
           | (Inr seen, db2) \<Rightarrow> (Inr (case written of None \<Rightarrow> seen | Some w \<Rightarrow> w # seen), db2)))"

definition zero_missing_sources :: "string \<Rightarrow> (string \<times> string \<times> string) list \<Rightarrow> 'z shop_db_scheme \<Rightarrow> 'z shop_db_scheme" where
  "zero_missing_sources provider seen db =
     db\<lparr>sources := update_where (\<lambda>s. os_provider s = provider \<and> (os_product s, os_country s, os_operator s) \<notin> set seen)
       (\<lambda>s. s\<lparr>os_stock := 0\<rparr>) (sources db)\<rparr>"

definition offer_stock :: "offer_source list \<Rightarrow> uuid \<Rightarrow> int" where
  "offer_stock srcs offer_id = sum_list (map os_stock (filter (\<lambda>s. os_offer s = offer_id) srcs))"

text \<open>A sum that does not fit the column's 32 bits fails the statement.\<close>

definition refresh_offers :: "'z shop_db_scheme \<Rightarrow> db_error + 'z shop_db_scheme" where
  "refresh_offers db =
     (if list_ex (\<lambda>f. 2 ^ 31 \<le> offer_stock (sources db) (of_id f)) (offers db) then Inl OutOfRange
      else Inr (db\<lparr>offers := map (\<lambda>f. f\<lparr>of_quantity := offer_stock (sources db) (of_id f),
       of_active := 0 < offer_stock (sources db) (of_id f)\<rparr>) (offers db)\<rparr>))"

definition apply_provider_skus :: "crates \<Rightarrow> pricing \<Rightarrow> instant \<Rightarrow> (nat \<Rightarrow> uuid) \<Rightarrow> string \<Rightarrow> offer_sku list \<Rightarrow> bool \<Rightarrow>
    'z shop_db_scheme \<Rightarrow> (db_error + nat) \<times> 'z shop_db_scheme" where
  "apply_provider_skus cr p now ids provider skus zero_missing db =
     (case apply_skus cr p now ids 0 provider skus db of
        (Inl e, db1) \<Rightarrow> (Inl e, db1)
      | (Inr seen, db1) \<Rightarrow>
          (let db2 = (if zero_missing then zero_missing_sources provider seen db1 else db1)
           in case refresh_offers db2 of
                Inl e \<Rightarrow> (Inl e, db2)
              | Inr db3 \<Rightarrow> (Inr (length seen), db3)))"

end
