(* ===== verification/Catalogue_Sync.thy ===== *)
theory Catalogue_Sync
  imports Catalogue_Store
begin

text \<open>
  A sweep of the catalogue, \<open>sync\<close> and \<open>sync_offers\<close> of \<open>crates/api/src/number_catalog.rs\<close>: countries
  and prices from the guest endpoints, then the offers of every supplier that is switched on. The
  suppliers' answers are parameters; \<open>None\<close> is an answer that could not be read.
\<close>

section \<open>Countries and prices\<close>

record sync_answers =
  sa_now :: instant
  sa_countries :: "(string \<times> guest_country) list option"
  sa_listing :: "string \<Rightarrow> (string \<times> guest_product) list option"
  sa_prices :: "jval option"
  sa_product_prices :: "string \<Rightarrow> jval option"
  sa_country_id :: "string \<Rightarrow> uuid"
  sa_product_id :: "string \<Rightarrow> string \<Rightarrow> uuid"

record sync_report =
  sr_countries :: nat
  sr_products :: nat
  sr_rows :: nat
  sr_in_stock :: nat

definition empty_report :: sync_report where
  "empty_report = \<lparr>sr_countries = 0, sr_products = 0, sr_rows = 0, sr_in_stock = 0\<rparr>"

datatype sync_error = CountryListUnreadable | NoCountry | SyncDb db_error

definition shop_guest_products :: "string list" where
  "shop_guest_products = [''whatsapp'', ''telegram'', ''instagram'', ''facebook'', ''tiktok'', ''google'',
     ''twitter'', ''discord'', ''apple'', ''uber'', ''tinder'', ''amazon'']"

definition activations :: "(string \<times> guest_product) list \<Rightarrow> (string \<times> guest_product) list" where
  "activations listing = filter (\<lambda>(_, offer). gp_category offer = ''activation'') listing"

definition sync_country :: "crates \<Rightarrow> pricing \<Rightarrow> sync_answers \<Rightarrow> string \<Rightarrow> guest_country \<Rightarrow> sync_report \<Rightarrow>
    'z shop_db_scheme \<Rightarrow> (sync_error + sync_report) \<times> 'z shop_db_scheme" where
  "sync_country cr p a key country report db =
     (case upsert_country cr (sa_country_id a key) key country db of
        (None, db1) \<Rightarrow> (Inr report, db1)
      | (Some country_id, db1) \<Rightarrow>
          (let report = report\<lparr>sr_countries := sr_countries report + 1\<rparr> in
           case sa_listing a key of
             None \<Rightarrow> (Inr report, db1)
           | Some listing \<Rightarrow>
               (let offered = activations listing in
                if offered = [] then (Inr report, db1)
                else case upsert_products cr (sa_product_id a key) (map fst offered) db1 of
                  Inl e \<Rightarrow> (Inl (SyncDb e), db1)
                | Inr (ids, db2) \<Rightarrow>
                    (let (written, db3) = upsert_prices p (sa_now a) country_id offered ids db2 in
                     (Inr (report\<lparr>sr_products := max (sr_products report) (length offered),
                        sr_rows := sr_rows report + written,
                        sr_in_stock := sr_in_stock report + length (filter (\<lambda>(_, offer). 0 < gp_qty offer) offered)\<rparr>), db3)))))"

fun sync_countries :: "crates \<Rightarrow> pricing \<Rightarrow> sync_answers \<Rightarrow> (string \<times> guest_country) list \<Rightarrow> sync_report \<Rightarrow>
    'z shop_db_scheme \<Rightarrow> (sync_error + sync_report) \<times> 'z shop_db_scheme" where
  "sync_countries cr p a [] report db = (Inr report, db)"
| "sync_countries cr p a ((key, country) # rest) report db =
     (case sync_country cr p a key country report db of
        (Inl e, db1) \<Rightarrow> (Inl e, db1)
      | (Inr report, db1) \<Rightarrow> sync_countries cr p a rest report db1)"

text \<open>The offers come from the price dump and the slices of the shop's products, the dump first.\<close>

definition guest_skus :: "crates \<Rightarrow> pricing \<Rightarrow> sync_answers \<Rightarrow> (string \<times> guest_country) list \<Rightarrow> offer_sku list option" where
  "guest_skus cr p a cs =
     fold (\<lambda>product acc. (case sa_product_prices a product of
         None \<Rightarrow> acc
       | Some payload \<Rightarrow> Some (merge_skus (case acc of None \<Rightarrow> [] | Some s \<Rightarrow> s) (skus_from_guest_prices cr payload cs p))))
       shop_guest_products
       (map_option (\<lambda>payload. skus_from_guest_prices cr payload cs p) (sa_prices a))"

definition sync :: "crates \<Rightarrow> pricing \<Rightarrow> sync_answers \<Rightarrow> 'z shop_db_scheme \<Rightarrow>
    (sync_error + (sync_report \<times> offer_sku list option)) \<times> 'z shop_db_scheme" where
  "sync cr p a db =
     (case sa_countries a of
        None \<Rightarrow> (Inl CountryListUnreadable, db)
      | Some cs \<Rightarrow>
          (case sync_countries cr p a (sort_key fst cs) empty_report db of
             (Inl e, db1) \<Rightarrow> (Inl e, db1)
           | (Inr report, db1) \<Rightarrow>
               if sr_countries report = 0 then (Inl NoCountry, db1)
               else (Inr (report, guest_skus cr p a cs), db1)))"

section \<open>Offers\<close>

text \<open>
  What each supplier answers a sweep: its balance and its SKUs. \<open>None\<close> for the SKUs of a listing
  keeps the rows of the last sweep.
\<close>

record supplier_answers =
  su_balance :: "decimal option"
  su_skus :: "offer_sku list option"

definition fivesim_listing :: "bool \<Rightarrow> decimal option \<Rightarrow> offer_sku list option \<Rightarrow> offer_sku list option" where
  "fivesim_listing keyed balance skus =
     (case (if keyed then balance else None) of
        Some b \<Rightarrow> (if \<not> wallet_is_funded b then Some [] else map_option (\<lambda>s. affordable_skus s b) skus)
      | None \<Rightarrow> skus)"

text \<open>An error of the SKU request is a failed sweep (\<open>Inl\<close>), an unread balance keeps the rows.\<close>

definition smspool_listing :: "supplier_answers \<Rightarrow> unit + offer_sku list option" where
  "smspool_listing s =
     (case su_balance s of
        Some b \<Rightarrow> (if \<not> wallet_is_funded b then Inr (Some [])
          else (case su_skus s of None \<Rightarrow> Inl () | Some skus \<Rightarrow> Inr (Some (affordable_skus skus b))))
      | None \<Rightarrow> Inr None)"

record offer_sync =
  os_now :: instant
  os_write_stub :: bool
  os_fivesim_keyed :: bool
  os_fivesim_balance :: "decimal option"
  os_smspool :: "supplier_answers option"
  os_smspool_pricing :: pricing
  os_activate :: "string \<Rightarrow> supplier_answers option"
  os_activate_pricing :: "string \<Rightarrow> pricing option"
  os_ids :: "string \<Rightarrow> nat \<Rightarrow> uuid"

definition write_offers :: "crates \<Rightarrow> offer_sync \<Rightarrow> pricing \<Rightarrow> string \<Rightarrow> offer_sku list \<Rightarrow> 'z shop_db_scheme \<Rightarrow>
    (db_error + nat) \<times> 'z shop_db_scheme" where
  "write_offers cr o' p provider skus db =
     apply_provider_skus cr p (os_now o') (os_ids o' provider) provider skus True db"

definition hide_provider :: "crates \<Rightarrow> offer_sync \<Rightarrow> pricing \<Rightarrow> string \<Rightarrow> 'z shop_db_scheme \<Rightarrow>
    (db_error + nat) \<times> 'z shop_db_scheme" where
  "hide_provider cr o' p provider db = write_offers cr o' p provider [] db"

definition keep_rows :: "'z shop_db_scheme \<Rightarrow> (db_error + nat) \<times> 'z shop_db_scheme" where
  "keep_rows db = (Inr 0, db)"

definition sync_fivesim :: "crates \<Rightarrow> pricing \<Rightarrow> offer_sync \<Rightarrow> sell_settings \<Rightarrow> offer_sku list option \<Rightarrow>
    'z shop_db_scheme \<Rightarrow> (db_error + nat) \<times> 'z shop_db_scheme" where
  "sync_fivesim cr p o' sell skus db =
     (if fivesim_enabled sell
      then (case fivesim_listing (os_fivesim_keyed o') (os_fivesim_balance o') skus of
          Some listing \<Rightarrow> write_offers cr o' p ''fivesim'' listing db
        | None \<Rightarrow> keep_rows db)
      else hide_provider cr o' p ''fivesim'' db)"

definition sync_smspool :: "crates \<Rightarrow> offer_sync \<Rightarrow> sell_settings \<Rightarrow> 'z shop_db_scheme \<Rightarrow>
    (db_error + nat) \<times> 'z shop_db_scheme" where
  "sync_smspool cr o' sell db =
     (if smspool_enabled sell
      then (case os_smspool o' of
          Some pool \<Rightarrow>
            (case smspool_listing pool of
               Inr (Some skus) \<Rightarrow> write_offers cr o' (os_smspool_pricing o') ''smspool'' skus db
             | Inr None \<Rightarrow> keep_rows db
             | Inl _ \<Rightarrow> keep_rows db)
        | None \<Rightarrow> hide_provider cr o' (os_smspool_pricing o') ''smspool'' db)
      else hide_provider cr o' (os_smspool_pricing o') ''smspool'' db)"

text \<open>The \<open>handler_api\<close> suppliers, in the order of \<open>KNOWN_PROVIDERS\<close>.\<close>

definition activate_flavors :: "string list" where
  "activate_flavors = [''smsactivate'', ''daisysms'', ''smshub'', ''tigersms'']"

definition sync_activate_one :: "crates \<Rightarrow> offer_sync \<Rightarrow> sell_settings \<Rightarrow> string \<Rightarrow> 'z shop_db_scheme \<Rightarrow>
    (db_error + nat) \<times> 'z shop_db_scheme" where
  "sync_activate_one cr o' sell provider db =
     (let p = (case os_activate_pricing o' provider of Some q \<Rightarrow> q | None \<Rightarrow> os_smspool_pricing o') in
      case (is_enabled sell provider, os_activate o' provider) of
        (True, Some adapter) \<Rightarrow>
          (case su_skus adapter of
             Some skus \<Rightarrow> write_offers cr o' p provider skus db
           | None \<Rightarrow> keep_rows db)
      | _ \<Rightarrow> hide_provider cr o' p provider db)"

fun sync_activate :: "crates \<Rightarrow> offer_sync \<Rightarrow> sell_settings \<Rightarrow> string list \<Rightarrow> 'z shop_db_scheme \<Rightarrow>
    (db_error + nat) \<times> 'z shop_db_scheme" where
  "sync_activate cr o' sell [] db = keep_rows db"
| "sync_activate cr o' sell (provider # rest) db =
     and_then (sync_activate_one cr o' sell provider db) (\<lambda>_ db. sync_activate cr o' sell rest db)"

definition sync_stub :: "crates \<Rightarrow> pricing \<Rightarrow> offer_sync \<Rightarrow> 'z shop_db_scheme \<Rightarrow> (db_error + nat) \<times> 'z shop_db_scheme" where
  "sync_stub cr p o' db =
     and_then (write_offers cr o' p ''stub'' stub_skus db) (\<lambda>_ db.
     and_then (write_offers cr o' p ''fivesim'' [] db) (\<lambda>_ db.
     hide_provider cr o' (os_smspool_pricing o') ''smspool'' db))"

definition sync_live :: "crates \<Rightarrow> pricing \<Rightarrow> offer_sync \<Rightarrow> sell_settings \<Rightarrow> offer_sku list option \<Rightarrow> 'z shop_db_scheme \<Rightarrow>
    (db_error + nat) \<times> 'z shop_db_scheme" where
  "sync_live cr p o' sell skus db =
     and_then (write_offers cr o' p ''stub'' [] db) (\<lambda>_ db.
     and_then (sync_fivesim cr p o' sell skus db) (\<lambda>_ db.
     and_then (sync_smspool cr o' sell db) (\<lambda>_ db.
     sync_activate cr o' sell (filter (\<lambda>q. q \<in> set activate_flavors) known_providers) db)))"

definition sync_offers :: "crates \<Rightarrow> pricing \<Rightarrow> offer_sync \<Rightarrow> offer_sku list option \<Rightarrow> 'z shop_db_scheme \<Rightarrow>
    (db_error + nat) \<times> 'z shop_db_scheme" where
  "sync_offers cr p o' skus db =
     (let (sell, flags) = sell_load (sell_flags db);
          db = db\<lparr>sell_flags := flags\<rparr>
      in if os_write_stub o' then sync_stub cr p o' db else sync_live cr p o' sell skus db)"

text \<open>One pass of the loop: the offers are synced whether or not the catalogue could be read.\<close>

definition catalogue_pass :: "crates \<Rightarrow> pricing \<Rightarrow> sync_answers \<Rightarrow> offer_sync \<Rightarrow> 'z shop_db_scheme \<Rightarrow> 'z shop_db_scheme" where
  "catalogue_pass cr p a o' db =
     (case sync cr p a db of
        (Inr (_, skus), db1) \<Rightarrow> snd (sync_offers cr p o' skus db1)
      | (Inl _, db1) \<Rightarrow> snd (sync_offers cr p o' None db1))"

end
