(* ===== verification/Shop_Reads.thy ===== *)
theory Shop_Reads
  imports Catalogue_Store
begin

text \<open>
  What the shop shows, the reading handlers of \<open>crates/api/src/number_routes.rs\<close>: the featured
  catalogue, the offers of a product, the product search and the countries of a product.
\<close>

text \<open>
  The database's text order and case mapping (its collation), and the text of a time, are
  parameters.
\<close>

record shop_text =
  st_collate :: "string \<Rightarrow> string"
  st_lower :: "string \<Rightarrow> string"
  st_rfc3339 :: "instant \<Rightarrow> string"

text \<open>\<open>ORDER BY\<close> with several keys: stable sorts, the last key first.\<close>

section \<open>The featured catalogue\<close>

record catalog_country =
  cc_code :: string
  cc_name :: string
  cc_dial :: string
  cc_price :: string
  cc_in_stock :: bool

record catalog_product =
  cp_slug :: string
  cp_name :: string
  cp_countries :: "catalog_country list"

definition joined_prices :: "'z shop_db_scheme \<Rightarrow> (product_row \<times> country_row \<times> price_row) list" where
  "joined_prices db =
     concat (map (\<lambda>r. concat (map (\<lambda>p. map (\<lambda>c. (p, c, r)) (filter (\<lambda>c. cn_id c = pr_country r) (countries db)))
       (filter (\<lambda>p. pd_id p = pr_product r) (products db)))) (prices db))"

definition featured :: "product_row \<times> country_row \<times> price_row \<Rightarrow> bool" where
  "featured = (\<lambda>(p, c, r). pr_active r \<and> pd_active p \<and> cn_active c \<and> pd_sort p < unlisted_sort \<and> cn_sort c < unlisted_sort)"

definition country_entry :: "crates \<Rightarrow> country_row \<Rightarrow> price_row \<Rightarrow> catalog_country" where
  "country_entry cr c r = \<lparr>cc_code = cn_code c, cc_name = cn_name c, cc_dial = cn_dial c,
     cc_price = cr_show_decimal cr (pr_price r), cc_in_stock = 0 < pr_stock r\<rparr>"

text \<open>Rows of the same slug that follow each other become one product.\<close>

fun group_products :: "crates \<Rightarrow> (product_row \<times> country_row \<times> price_row) list \<Rightarrow> catalog_product list" where
  "group_products cr [] = []"
| "group_products cr ((p, c, r) # rows) =
     (case group_products cr rows of
        g # gs \<Rightarrow>
          if cp_slug g = pd_slug p
          then g\<lparr>cp_name := pd_name p, cp_countries := country_entry cr c r # cp_countries g\<rparr> # gs
          else \<lparr>cp_slug = pd_slug p, cp_name = pd_name p, cp_countries = [country_entry cr c r]\<rparr> # g # gs
      | [] \<Rightarrow> [\<lparr>cp_slug = pd_slug p, cp_name = pd_name p, cp_countries = [country_entry cr c r]\<rparr>])"

definition catalog :: "crates \<Rightarrow> shop_text \<Rightarrow> 'z shop_db_scheme \<Rightarrow> catalog_product list" where
  "catalog cr tx db = group_products cr
     (sort_key (\<lambda>(p, c, r). pd_sort p) (sort_key (\<lambda>(p, c, r). st_collate tx (pd_name p))
       (sort_key (\<lambda>(p, c, r). cn_sort c) (sort_key (\<lambda>(p, c, r). st_collate tx (cn_name c))
         (filter featured (joined_prices db))))))"

section \<open>Offers of a product\<close>

definition low_success_warning :: string where
  "low_success_warning = ''This option currently has a low verification success rate. We recommend choosing an option with a higher success rate.''"

record offer_response =
  or_id :: uuid
  or_product_slug :: string
  or_product_name :: string
  or_country_code :: string
  or_country_name :: string
  or_dial_code :: string
  or_price :: string
  or_in_stock :: bool
  or_quantity :: int
  or_success_rate :: string
  or_success_fetched_at :: string
  or_recommended :: bool
  or_low_success :: bool
  or_warning :: "string option"

text \<open>An offer with its product, its country and the stock its eligible sources have.\<close>

record listed_offer =
  lo_offer :: offer_row
  lo_product :: product_row
  lo_country :: country_row
  lo_stock :: int

definition eligible_stock :: "uuid \<Rightarrow> string list \<Rightarrow> decimal \<Rightarrow> offer_source list \<Rightarrow> int" where
  "eligible_stock offer_id providers floor_usd srcs =
     sum_list (map os_stock (filter (eligible_source offer_id providers floor_usd) srcs))"

definition listing_of :: "string list \<Rightarrow> offer_row \<Rightarrow> product_row \<Rightarrow> country_row \<Rightarrow> 'z shop_db_scheme \<Rightarrow> listed_offer option" where
  "listing_of providers f p c db =
     (let stock = eligible_stock (of_id f) providers (pd_floor_usd p) (sources db)
      in if of_active f \<and> 0 < of_rate f \<and> list_ex (eligible_source (of_id f) providers (pd_floor_usd p)) (sources db) \<and> 0 < stock
         then Some \<lparr>lo_offer = f, lo_product = p, lo_country = c, lo_stock = stock\<rparr> else None)"

definition offer_joins :: "'z shop_db_scheme \<Rightarrow> (offer_row \<times> product_row \<times> country_row) list" where
  "offer_joins db =
     concat (map (\<lambda>f. concat (map (\<lambda>p. map (\<lambda>c. (f, p, c)) (filter (\<lambda>c. cn_id c = of_country f) (countries db)))
       (filter (\<lambda>p. pd_id p = of_product f) (products db)))) (offers db))"

definition same_pair :: "listed_offer \<Rightarrow> listed_offer \<Rightarrow> bool" where
  "same_pair a b \<longleftrightarrow> of_product (lo_offer a) = of_product (lo_offer b) \<and> of_country (lo_offer a) = of_country (lo_offer b)"

text \<open>The dearest tier of each product and country: \<open>fraction\<close> of the top price and up.\<close>

definition pair_top :: "listed_offer list \<Rightarrow> listed_offer \<Rightarrow> decimal" where
  "pair_top ls a = fold max (map (\<lambda>b. of_price (lo_offer b)) (filter (same_pair a) ls)) (of_price (lo_offer a))"

definition top_tier :: "decimal \<Rightarrow> listed_offer list \<Rightarrow> listed_offer list" where
  "top_tier fraction ls = filter (\<lambda>a. pair_top ls a * fraction \<le> of_price (lo_offer a)) ls"

definition listed_offers :: "string list \<Rightarrow> string \<Rightarrow> string option \<Rightarrow> 'z shop_db_scheme \<Rightarrow> listed_offer list" where
  "listed_offers providers slug country db =
     List.map_filter (\<lambda>(f, p, c). if pd_slug p = slug \<and> (case country of None \<Rightarrow> True | Some code \<Rightarrow> cn_code c = code)
       then listing_of providers f p c db else None) (offer_joins db)"

definition offer_answer :: "crates \<Rightarrow> shop_text \<Rightarrow> nat \<Rightarrow> listed_offer \<Rightarrow> offer_response" where
  "offer_answer cr tx i l =
     (let low = of_rate (lo_offer l) < 40 in
      \<lparr>or_id = of_id (lo_offer l), or_product_slug = pd_slug (lo_product l), or_product_name = pd_name (lo_product l),
       or_country_code = cn_code (lo_country l), or_country_name = cn_name (lo_country l), or_dial_code = cn_dial (lo_country l),
       or_price = cr_show_decimal cr (of_price (lo_offer l)), or_in_stock = True, or_quantity = lo_stock l,
       or_success_rate = cr_show_decimal cr (of_rate (lo_offer l)),
       or_success_fetched_at = st_rfc3339 tx (of_fetched_at (lo_offer l)),
       or_recommended = (i = 0 \<and> \<not> low), or_low_success = low,
       or_warning = (if low then Some low_success_warning else None)\<rparr>)"

definition ranked_listing :: "shop_config \<Rightarrow> string \<Rightarrow> string option \<Rightarrow> 'z shop_db_scheme \<Rightarrow> listed_offer list" where
  "ranked_listing cfg slug country db =
     (let providers = source_providers (fst (sell_load (sell_flags db))) (\<not> sc_funding_live cfg)
      in take 200 (sort_key (\<lambda>l. - of_rate (lo_offer l)) (sort_key (\<lambda>l. of_price (lo_offer l)) (sort_key (\<lambda>l. - lo_stock l)
           (top_tier (sc_min_price_fraction cfg) (listed_offers providers slug country db))))))"

definition list_offers :: "crates \<Rightarrow> shop_text \<Rightarrow> shop_config \<Rightarrow> string \<Rightarrow> string option \<Rightarrow> 'z shop_db_scheme \<Rightarrow>
    api_error + offer_response list" where
  "list_offers cr tx cfg product country db =
     (let product = cr_to_lowercase cr (trim product) in
      if product = [] then Inl (BadRequest ''Pick a platform.'')
      else if fetch_optional (\<lambda>p. pd_slug p = product \<and> pd_active p) (products db) = None
      then Inl (BadRequest ''We don't sell numbers for that app.'')
      else (let country = (case country of None \<Rightarrow> None | Some c \<Rightarrow>
                  (let code = cr_to_uppercase cr (trim c) in if code = [] then None else Some code))
            in Inr (map (\<lambda>(i, l). offer_answer cr tx i l) (enumerate 0 (ranked_listing cfg product country db)))))"

section \<open>Search\<close>

text \<open>\<open>LIKE\<close> on characters: \<open>%\<close> is any text, \<open>_\<close> any character, a backslash takes the next one as it is.\<close>

fun utf8_chars :: "nat \<Rightarrow> string \<Rightarrow> string list" where
  "utf8_chars 0 s = []"
| "utf8_chars (Suc n) s = (case s of [] \<Rightarrow> [] | _ \<Rightarrow> (let (c, rest) = first_char s in c # utf8_chars n rest))"

definition characters :: "string \<Rightarrow> string list" where
  "characters s = utf8_chars (length s) s"

fun like :: "string list \<Rightarrow> string list \<Rightarrow> bool" where
  "like [] s \<longleftrightarrow> s = []"
| "like (p # ps) s \<longleftrightarrow>
     (if p = ''%'' then list_ex (like ps) (suffixes s)
      else (case s of
         [] \<Rightarrow> False
       | c # cs \<Rightarrow>
           if p = ''_'' then like ps cs
           else if p = [CHR 0x5C] then (case ps of q # qs \<Rightarrow> q = c \<and> like qs cs | [] \<Rightarrow> False)
           else p = c \<and> like ps cs))"

record product_summary =
  pm_slug :: string
  pm_name :: string
  pm_from_price :: "string option"
  pm_country_count :: nat

definition page_limit :: "int option \<Rightarrow> nat" where
  "page_limit limit = nat (min (max (case limit of None \<Rightarrow> 60 | Some n \<Rightarrow> n) 1) 200)"

definition search_pattern :: "crates \<Rightarrow> string option \<Rightarrow> string list option" where
  "search_pattern cr q =
     (case q of
        None \<Rightarrow> None
      | Some q \<Rightarrow> (let t = trim q in if t = [] then None
          else Some ([''%''] @ characters (cr_to_lowercase cr t) @ [''%''])))"

definition sellable_offers :: "string list \<Rightarrow> 'z shop_db_scheme \<Rightarrow> listed_offer list" where
  "sellable_offers providers db =
     List.map_filter (\<lambda>(f, p, c). if pd_active p \<and> cn_active c \<and> of_active f \<and> 0 < of_rate f \<and>
         list_ex (eligible_source (of_id f) providers (pd_floor_usd p)) (sources db)
       then Some \<lparr>lo_offer = f, lo_product = p, lo_country = c,
         lo_stock = eligible_stock (of_id f) providers (pd_floor_usd p) (sources db)\<rparr> else None) (offer_joins db)"

definition min_price_of :: "decimal list \<Rightarrow> decimal option" where
  "min_price_of ps = (case ps of [] \<Rightarrow> None | p # rest \<Rightarrow> Some (fold min rest p))"

definition search_products :: "crates \<Rightarrow> shop_text \<Rightarrow> shop_config \<Rightarrow> string option \<Rightarrow> int option \<Rightarrow> 'z shop_db_scheme \<Rightarrow>
    product_summary list" where
  "search_products cr tx cfg q limit db =
     (let providers = source_providers (fst (sell_load (sell_flags db))) (\<not> sc_funding_live cfg);
          pattern = search_pattern cr q;
          tiered = top_tier (sc_min_price_fraction cfg) (sellable_offers providers db);
          of_p = (\<lambda>p. filter (\<lambda>l. of_product (lo_offer l) = pd_id p) tiered);
          count_p = (\<lambda>p. length (remdups (map (\<lambda>l. of_country (lo_offer l)) (of_p p))));
          hits = filter (\<lambda>p. of_p p \<noteq> [] \<and> pd_active p \<and> (case pattern of None \<Rightarrow> True
            | Some pat \<Rightarrow> like pat (characters (st_lower tx (pd_name p))) \<or> like pat (characters (pd_slug p)))) (products db)
      in map (\<lambda>p. \<lparr>pm_slug = pd_slug p, pm_name = pd_name p,
            pm_from_price = map_option (cr_show_decimal cr) (min_price_of (map (\<lambda>l. of_price (lo_offer l)) (of_p p))),
            pm_country_count = count_p p\<rparr>)
           (take (page_limit limit) (sort_key pd_sort (sort_key (\<lambda>p. - int (count_p p))
             (sort_key (\<lambda>p. st_collate tx (pd_name p)) hits)))))"

section \<open>Countries of a product\<close>

definition product_countries :: "crates \<Rightarrow> shop_text \<Rightarrow> string \<Rightarrow> 'z shop_db_scheme \<Rightarrow> catalog_country list" where
  "product_countries cr tx slug db =
     (let slug = cr_to_lowercase cr (trim slug)
      in map (\<lambda>(p, c, r). country_entry cr c r) (take 200
        (sort_key (\<lambda>(p, c, r). pr_price r) (sort_key (\<lambda>(p, c, r). cn_sort c) (sort_key (\<lambda>(p, c, r). st_collate tx (cn_name c))
          (filter (\<lambda>(p, c, r). pd_slug p = slug \<and> pr_active r \<and> pd_active p \<and> cn_active c \<and> 0 < pr_stock r)
            (joined_prices db)))))))"

end
