(* ===== verification/Catalogue_Properties.thy ===== *)
theory Catalogue_Properties
  imports Catalogue_Sync Shop_Reads
begin

text \<open>
  What a sweep of the catalogue guarantees: prices that cover the cost, offers whose stock is that of
  their sources, country codes that belong to the lowest supplier key; and how the list of offers
  relates to the purchase.
\<close>

section \<open>Stored prices\<close>

lemma numeric_column_of_int: "numeric_column k (of_int n * 10) = of_int n * 10"
proof -
  have r: "of_int \<lfloor>of_int m * 10 * 10 ^ k + 1 / 2 :: rat\<rfloor> / 10 ^ k = (of_int m * 10 :: rat)" for m :: int
  proof -
    have "(of_int m * 10 * 10 ^ k :: rat) = of_int (m * 10 * 10 ^ k)" by simp
    then have "\<lfloor>of_int m * 10 * 10 ^ k + 1 / 2 :: rat\<rfloor> = m * 10 * 10 ^ k"
      by (simp only: floor_add_int [symmetric] floor_eq_iff) simp
    then show ?thesis by simp
  qed
  show ?thesis
  proof (cases "n < 0")
    case True
    then have "\<bar>of_int n * 10 :: rat\<bar> = of_int (- n) * 10" by (simp add: abs_mult)
    then show ?thesis using r [of "- n"] True by (simp add: numeric_column_def Let_def)
  next
    case False
    then have "\<bar>of_int n * 10 :: rat\<bar> = of_int n * 10" by (simp add: abs_mult)
    then show ?thesis using r [of n] False by (simp add: numeric_column_def Let_def)
  qed
qed

lemma numeric_sale_price: "numeric_column 4 (sale_price p cost) = sale_price p cost"
  using sale_price_bounds(4) [of p cost] numeric_column_of_int by metis

lemma kept_price_near:
  assumes "1 \<le> stored"
  shows "recomputed \<le> kept_price True stored recomputed * (105 / 100) \<or> recomputed \<le> 0"
proof (cases "\<bar>recomputed - stored\<bar> / max stored 1 < price_hysteresis")
  case True
  have "max stored 1 = stored" using assms by simp
  then have "\<bar>recomputed - stored\<bar> < price_hysteresis * stored" using True assms by (simp add: divide_less_eq)
  then have "recomputed - stored < price_hysteresis * stored" by linarith
  then show ?thesis using True by (simp add: kept_price_def price_hysteresis_def)
next
  case False
  then have "kept_price True stored recomputed = recomputed" by (simp add: kept_price_def)
  then show ?thesis by (cases "0 \<le> recomputed") auto
qed

text \<open>The row of a product after its listing was written.\<close>

definition price_ok :: "pricing \<Rightarrow> guest_product \<Rightarrow> price_row \<Rightarrow> bool" where
  "price_ok p offer r \<longleftrightarrow> gp_price offer * pc_usd_ngn p \<le> pr_price r \<and> 1 \<le> pr_price r \<and>
     pr_cost r = Some (numeric_column 6 (gp_price offer)) \<and> pr_stock r = saturate_i32 (max (gp_qty offer) 0)"

definition mine :: "uuid \<Rightarrow> uuid \<Rightarrow> price_row \<Rightarrow> bool" where
  "mine product country r \<longleftrightarrow> pr_product r = product \<and> pr_country r = country"

lemma sale_price_covers:
  assumes "105 / 100 \<le> pc_margin p" "0 \<le> pc_usd_ngn p" "0 \<le> cost"
  shows "cost * pc_usd_ngn p * (105 / 100) \<le> sale_price p cost"
proof -
  have "cost * pc_usd_ngn p * (105 / 100) \<le> cost * pc_usd_ngn p * pc_margin p"
    using assms by (intro mult_left_mono mult_nonneg_nonneg)
  then show ?thesis using sale_price_bounds(1) [of cost p] by linarith
qed

lemma kept_price_covers:
  assumes p: "105 / 100 \<le> pc_margin p" "0 \<le> pc_usd_ngn p" "0 \<le> cost" and s: "1 \<le> stored"
  shows "cost * pc_usd_ngn p \<le> kept_price True stored (sale_price p cost) \<and> 1 \<le> kept_price True stored (sale_price p cost)"
proof -
  have c: "cost * pc_usd_ngn p * (105 / 100) \<le> sale_price p cost" by (rule sale_price_covers [OF p])
  have pos: "100 \<le> sale_price p cost" using sale_price_bounds(2) [of p cost] by (simp add: min_price_ngn_def)
  from kept_price_near [OF s, of "sale_price p cost"] pos
  have "sale_price p cost \<le> kept_price True stored (sale_price p cost) * (105 / 100)" by auto
  with c have "cost * pc_usd_ngn p \<le> kept_price True stored (sale_price p cost)" by linarith
  moreover have "1 \<le> kept_price True stored (sale_price p cost)" using s pos by (simp add: kept_price_def)
  ultimately show ?thesis by simp
qed

lemma upsert_price_rows:
  assumes p: "105 / 100 \<le> pc_margin p" "0 \<le> pc_usd_ngn p" "prices_in_usd p" and c: "0 \<le> gp_price offer"
    and old: "\<forall>r \<in> set (prices db). 1 \<le> pr_price r"
  shows "\<exists>r \<in> set (prices (upsert_price p now country (product, offer) db)). mine product country r"
    and "\<forall>r \<in> set (prices (upsert_price p now country (product, offer) db)). mine product country r \<longrightarrow> price_ok p offer r"
    and "\<forall>r. \<not> mine product country r \<longrightarrow>
      (r \<in> set (prices (upsert_price p now country (product, offer) db)) \<longleftrightarrow> r \<in> set (prices db))"
    and "\<forall>r \<in> set (prices (upsert_price p now country (product, offer) db)). 1 \<le> pr_price r"
proof -
  let ?db' = "upsert_price p now country (product, offer) db"
  let ?f = "\<lambda>r. r\<lparr>pr_price := kept_price (prices_in_usd p) (pr_price r) (sale_price p (gp_price offer)),
      pr_cost := Some (numeric_column 6 (gp_price offer)),
      pr_currency := Some (case pc_currency p of Some c \<Rightarrow> c | None \<Rightarrow> ''USD''),
      pr_stock := saturate_i32 (max (gp_qty offer) 0), pr_synced := Some now,
      pr_last_in_stock := (case (if 0 < saturate_i32 (max (gp_qty offer) 0) then Some now else None) of
         Some t \<Rightarrow> Some t | None \<Rightarrow> pr_last_in_stock r)\<rparr>"
  have ok: "price_ok p offer (?f r) \<and> mine product country (?f r) = mine product country r \<and> 1 \<le> pr_price (?f r)"
    if "1 \<le> pr_price r" for r
    using kept_price_covers [OF p(1,2) c that] p(3) by (simp add: price_ok_def mine_def)
  have "(\<exists>r \<in> set (prices ?db'). mine product country r) \<and>
      (\<forall>r \<in> set (prices ?db'). mine product country r \<longrightarrow> price_ok p offer r) \<and>
      (\<forall>r. \<not> mine product country r \<longrightarrow> (r \<in> set (prices ?db') \<longleftrightarrow> r \<in> set (prices db))) \<and>
      (\<forall>r \<in> set (prices ?db'). 1 \<le> pr_price r)"
  proof (cases "list_ex (mine product country) (prices db)")
    case True
    then have "prices ?db' = update_where (mine product country) ?f (prices db)"
      by (simp add: upsert_price_def Let_def mine_def [abs_def] cong: if_cong)
    then have set: "set (prices ?db') = ?f ` {r \<in> set (prices db). mine product country r} \<union>
        {r \<in> set (prices db). \<not> mine product country r}"
      by (auto simp: set_update_where)
    obtain r where r: "r \<in> set (prices db)" "mine product country r" using True by (auto simp: list_ex_iff)
    show ?thesis unfolding set
    proof (intro conjI)
      show "\<exists>r \<in> ?f ` {r \<in> set (prices db). mine product country r} \<union> {r \<in> set (prices db). \<not> mine product country r}.
          mine product country r"
        using r ok old by blast
    qed (use ok old in blast)+
  next
    case False
    define new where "new = \<lparr>pr_product = product, pr_country = country, pr_price = sale_price p (gp_price offer),
      pr_active = True, pr_cost = Some (numeric_column 6 (gp_price offer)),
      pr_currency = Some (case pc_currency p of Some c \<Rightarrow> c | None \<Rightarrow> ''USD''), pr_operator = Some ''any'',
      pr_stock = saturate_i32 (max (gp_qty offer) 0),
      pr_last_in_stock = (if 0 < saturate_i32 (max (gp_qty offer) 0) then Some now else None), pr_synced = Some now\<rparr>"
    have db': "prices ?db' = prices db @ [new]"
      using False by (simp add: upsert_price_def Let_def mine_def [abs_def] new_def)
    have "gp_price offer * pc_usd_ngn p \<le> gp_price offer * pc_usd_ngn p * (105 / 100)"
      using c p(2) by simp
    then have "price_ok p offer new \<and> mine product country new \<and> 1 \<le> pr_price new"
      using sale_price_covers [OF p(1,2) c] sale_price_bounds(2) [of p "gp_price offer"]
      by (simp add: price_ok_def mine_def new_def min_price_ngn_def)
    then show ?thesis using old False unfolding db' by (auto simp: list_ex_iff)
  qed
  then show "\<exists>r \<in> set (prices ?db'). mine product country r"
    "\<forall>r \<in> set (prices ?db'). mine product country r \<longrightarrow> price_ok p offer r"
    "\<forall>r. \<not> mine product country r \<longrightarrow> (r \<in> set (prices ?db') \<longleftrightarrow> r \<in> set (prices db))"
    "\<forall>r \<in> set (prices ?db'). 1 \<le> pr_price r"
    by blast+
qed

lemma fold_prices:
  assumes p: "105 / 100 \<le> pc_margin p" "0 \<le> pc_usd_ngn p" "prices_in_usd p"
  shows "\<forall>(i, offer) \<in> set rows. 0 \<le> gp_price offer \<Longrightarrow> \<forall>r \<in> set (prices db). 1 \<le> pr_price r \<Longrightarrow> distinct (map fst rows) \<Longrightarrow>
    (\<forall>(i, offer) \<in> set rows. (\<exists>r \<in> set (prices (fold (upsert_price p now country) rows db)). mine i country r) \<and>
       (\<forall>r \<in> set (prices (fold (upsert_price p now country) rows db)). mine i country r \<longrightarrow> price_ok p offer r)) \<and>
    (\<forall>r. (\<forall>i \<in> fst ` set rows. \<not> mine i country r) \<longrightarrow>
       (r \<in> set (prices (fold (upsert_price p now country) rows db)) \<longleftrightarrow> r \<in> set (prices db)))"
proof (induction rows arbitrary: db)
  case (Cons x rows)
  obtain i offer where x: "x = (i, offer)" by force
  let ?db1 = "upsert_price p now country (i, offer) db"
  let ?rest = "fold (upsert_price p now country) rows ?db1"
  have c: "0 \<le> gp_price offer" using Cons.prems(1) x by simp
  note step = upsert_price_rows [OF p c Cons.prems(2), where now = now and country = country and product = i]
  have IH: "(\<forall>(i, offer) \<in> set rows. (\<exists>r \<in> set (prices ?rest). mine i country r) \<and>
       (\<forall>r \<in> set (prices ?rest). mine i country r \<longrightarrow> price_ok p offer r)) \<and>
    (\<forall>r. (\<forall>i \<in> fst ` set rows. \<not> mine i country r) \<longrightarrow> (r \<in> set (prices ?rest) \<longleftrightarrow> r \<in> set (prices ?db1)))"
    using Cons.prems step(4) by (intro Cons.IH) auto
  have other: "\<forall>j \<in> fst ` set rows. \<not> mine j country r" if "mine i country r" for r
    using Cons.prems(3) that x by (auto simp: mine_def)
  have "(\<exists>r \<in> set (prices ?rest). mine i country r) \<and> (\<forall>r \<in> set (prices ?rest). mine i country r \<longrightarrow> price_ok p offer r)"
    using IH step(1,2) other by blast
  moreover have "r \<in> set (prices ?rest) \<longleftrightarrow> r \<in> set (prices db)"
    if "\<forall>j \<in> insert i (fst ` set rows). \<not> mine j country r" for r
    using IH step(3) that by blast
  ultimately show ?case using IH by (auto simp: x)
qed simp

text \<open>
  C23. Prices cover costs. When the supplier quotes dollars and the margin is at least 1.05, writing a
  country's listing leaves every listed product priced at the supplier's cost in naira or above,
  although a price within five per cent of the recomputed one is kept.
\<close>

theorem price_covers_cost:
  assumes "105 / 100 \<le> pc_margin p" "0 \<le> pc_usd_ngn p" "prices_in_usd p"
    and "\<forall>r \<in> set (prices db). 1 \<le> pr_price r" "distinct (map fst (priced_rows listing ids))"
    and "(key, offer) \<in> set listing" "ids key = Some product" "\<forall>x \<in> set listing. 0 \<le> gp_price (snd x)"
  shows "\<exists>r \<in> set (prices (snd (upsert_prices p now country listing ids db))).
    pr_product r = product \<and> pr_country r = country \<and> gp_price offer * pc_usd_ngn p \<le> pr_price r"
proof -
  have m: "(product, offer) \<in> set (priced_rows listing ids)"
    using assms(6,7) by (force simp: priced_rows_def map_filter_member)
  have nn: "\<forall>(i, offer) \<in> set (priced_rows listing ids). 0 \<le> gp_price offer"
    using assms(8) by (fastforce simp: priced_rows_def map_filter_member)
  show ?thesis
    using fold_prices [OF assms(1-3) nn assms(4,5), where now = now and country = country] m
    by (force simp: upsert_prices_def Let_def price_ok_def mine_def)
qed

section \<open>Offers of a supplier\<close>

definition offer_at :: "'z shop_db_scheme \<Rightarrow> uuid \<Rightarrow> decimal \<Rightarrow> bool" where
  "offer_at db i price \<longleftrightarrow> (\<exists>f \<in> set (offers db). of_id f = i \<and> of_price f = price)"

definition skey :: "offer_source \<Rightarrow> string \<times> string \<times> string" where
  "skey s = (os_product s, os_country s, os_operator s)"

text \<open>A source written for one of the SKUs, hung on an offer at the price of its cost.\<close>

definition written_for :: "pricing \<Rightarrow> string \<Rightarrow> offer_sku set \<Rightarrow> offer_source \<Rightarrow> 'z shop_db_scheme \<Rightarrow> bool" where
  "written_for p provider K s db \<longleftrightarrow> (\<exists>k \<in> K. ku_provider k = provider \<and>
     s = source_of provider (os_offer s) k \<and> offer_at db (os_offer s) (sale_price p (ku_cost k)))"

lemma upsert_offer_Inr:
  assumes "upsert_offer now i product country (sale_price p cost) rate stock db = Inr (offer_id, db')"
  shows "offer_at db' offer_id (sale_price p cost)" "sources db' = sources db"
    "\<And>j x. offer_at db j x \<Longrightarrow> offer_at db' j x"
proof -
  let ?mine = "\<lambda>f. of_product f = product \<and> of_country f = country \<and> of_price f = sale_price p cost \<and>
    of_rate f = numeric_column 4 rate"
  let ?f = "\<lambda>f. f\<lparr>of_quantity := max stock 0, of_active := 0 < stock, of_fetched_at := now\<rparr>"
  note d = assms [unfolded upsert_offer_def Let_def numeric_sale_price]
  have "offer_at db' offer_id (sale_price p cost) \<and> sources db' = sources db \<and> (\<forall>j x. offer_at db j x \<longrightarrow> offer_at db' j x)"
  proof (cases "fetch_optional ?mine (offers db)")
    case None
    then show ?thesis using d by (auto simp: offer_at_def split: if_splits)
  next
    case (Some f)
    then have db': "db' = db\<lparr>offers := update_where ?mine ?f (offers db)\<rparr>" "offer_id = of_id f"
      using d by (auto split: if_splits)
    have f: "f \<in> set (offers db)" "?mine f" using fetch_optional_SomeD [OF Some] by simp_all
    have same: "of_id (?f g) = of_id g \<and> of_price (?f g) = of_price g" for g by simp
    have keep: "offer_at db' j x" if "offer_at db j x" for j x
    proof -
      obtain g where g: "g \<in> set (offers db)" "of_id g = j" "of_price g = x" using \<open>offer_at db j x\<close> by (auto simp: offer_at_def)
      have "(if ?mine g then ?f g else g) \<in> set (offers db')"
        unfolding db' using g(1) by (auto simp: set_update_where)
      then show ?thesis unfolding offer_at_def using g same [of g] by (intro bexI [of _ "if ?mine g then ?f g else g"]) auto
    qed
    have "offer_at db offer_id (sale_price p cost)" using f db'(2) by (auto simp: offer_at_def)
    with keep show ?thesis by (auto simp: db'(1))
  qed
  then show "offer_at db' offer_id (sale_price p cost)" "sources db' = sources db"
    "\<And>j x. offer_at db j x \<Longrightarrow> offer_at db' j x" by blast+
qed

lemma upsert_source_Inr:
  assumes "upsert_source s db = Inr db'"
  shows "offers db' = offers db" "x \<in> set (sources db') \<Longrightarrow> x = s \<or> x \<in> set (sources db) \<and> source_key x \<noteq> source_key s"
    "x \<in> set (sources db) \<Longrightarrow> source_key x \<noteq> source_key s \<Longrightarrow> x \<in> set (sources db')"
  using assms by (auto simp: upsert_source_def set_update_where list_ex_iff split: if_splits)

lemma offer_at_offers: "offers db' = offers db \<Longrightarrow> offer_at db' i x = offer_at db i x"
  by (simp add: offer_at_def)

text \<open>One SKU, and then all of them.\<close>

definition sku_step :: "pricing \<Rightarrow> string \<Rightarrow> offer_sku set \<Rightarrow> (string \<times> string \<times> string) set \<Rightarrow> 'z shop_db_scheme \<Rightarrow>
    'z shop_db_scheme \<Rightarrow> bool" where
  "sku_step p provider K seen db db' \<longleftrightarrow>
     (\<forall>s \<in> set (sources db'). written_for p provider K s db' \<or>
        s \<in> set (sources db) \<and> (os_provider s = provider \<longrightarrow> skey s \<notin> seen)) \<and>
     (\<forall>s \<in> set (sources db). os_provider s \<noteq> provider \<longrightarrow> s \<in> set (sources db')) \<and>
     (\<forall>j x. offer_at db j x \<longrightarrow> offer_at db' j x)"

lemma sku_step_refl: "sku_step p provider K {} db db"
  by (simp add: sku_step_def)

lemma sku_step_trans:
  assumes "sku_step p provider K seen db db1" "sku_step p provider K seen' db1 db2"
  shows "sku_step p provider K (seen \<union> seen') db db2"
proof -
  have up: "written_for p provider K s db2" if "written_for p provider K s db1" for s
    using that assms(2) unfolding sku_step_def written_for_def by blast
  show ?thesis
    unfolding sku_step_def
  proof (intro conjI ballI allI impI)
    fix s assume s: "s \<in> set (sources db2)"
    show "written_for p provider K s db2 \<or> s \<in> set (sources db) \<and> (os_provider s = provider \<longrightarrow> skey s \<notin> seen \<union> seen')"
      using s assms up unfolding sku_step_def by blast
  next
    fix s assume "s \<in> set (sources db)" "os_provider s \<noteq> provider"
    then show "s \<in> set (sources db2)" using assms unfolding sku_step_def by blast
  next
    fix j x assume "offer_at db j x"
    then show "offer_at db2 j x" using assms unfolding sku_step_def by blast
  qed
qed

lemma apply_sku_step:
  assumes "apply_sku cr p now i provider k db = (Inr written, db')" "k \<in> K"
  shows "sku_step p provider K (set_option written) db db'"
proof -
  from assms(1) consider "written = None" "db' = db"
    | product country offer_id db1 where "ku_provider k = provider"
        "upsert_offer now i product country (sale_price p (ku_cost k)) (ku_rate k) (ku_stock k) db = Inr (offer_id, db1)"
        "upsert_source (source_of provider offer_id k) db1 = Inr db'" "written = Some (ku_product k, ku_country k, operator_text k)"
    unfolding apply_sku_def by (auto split: if_splits option.splits sum.splits prod.splits)
  then show ?thesis
  proof cases
    case 1
    then show ?thesis using sku_step_refl by simp
  next
    case 2
    note o' = upsert_offer_Inr [OF 2(2)] and s = upsert_source_Inr [OF 2(3)]
    have at: "offer_at db' j x \<longleftrightarrow> offer_at db1 j x" for j x by (rule offer_at_offers [OF s(1)])
    have new: "written_for p provider K (source_of provider offer_id k) db'"
      unfolding written_for_def using 2(1) assms(2) o'(1) at by (intro bexI [of _ k]) (simp_all add: source_of_def)
    have key: "source_key x = source_key (source_of provider offer_id k) \<longleftrightarrow> os_provider x = provider \<and> skey x = (ku_product k, ku_country k, operator_text k)" for x
      by (auto simp: source_key_def source_of_def skey_def)
    show ?thesis
      unfolding sku_step_def
    proof (intro conjI ballI allI impI)
      fix x assume x: "x \<in> set (sources db')"
      show "written_for p provider K x db' \<or> x \<in> set (sources db) \<and> (os_provider x = provider \<longrightarrow> skey x \<notin> set_option written)"
        using s(2) [OF x] new key [of x] 2(4) o'(2) by auto
    next
      fix x assume x: "x \<in> set (sources db)" "os_provider x \<noteq> provider"
      then show "x \<in> set (sources db')" using s(3) [of x] key [of x] o'(2) by simp
    next
      fix j x assume "offer_at db j x"
      then show "offer_at db' j x" using o'(3) at by blast
    qed
  qed
qed

lemma apply_skus_step:
  "apply_skus cr p now ids n provider ks db = (Inr seen, db') \<Longrightarrow> set ks \<subseteq> K \<Longrightarrow> sku_step p provider K (set seen) db db'"
proof (induction ks arbitrary: n db seen)
  case Nil
  then show ?case using sku_step_refl by simp
next
  case (Cons k ks)
  obtain written db1 where 1: "apply_sku cr p now (ids n) provider k db = (Inr written, db1)"
    using Cons.prems(1) by (auto split: prod.splits sum.splits)
  obtain seen2 where 2: "apply_skus cr p now ids (Suc n) provider ks db1 = (Inr seen2, db')"
    and seen: "seen = (case written of None \<Rightarrow> seen2 | Some w \<Rightarrow> w # seen2)"
    using Cons.prems(1) 1 by (auto split: prod.splits sum.splits)
  have "sku_step p provider K (set_option written \<union> set seen2) db db'"
    by (rule sku_step_trans [OF apply_sku_step [OF 1] Cons.IH [OF 2]]) (use Cons.prems(2) in auto)
  moreover have "set_option written \<union> set seen2 = set seen" using seen by (auto split: option.splits)
  ultimately show ?case by simp
qed

text \<open>
  C22. A sweep leaves exactly what the supplier lists. After the SKUs of a supplier were applied, every
  source of that supplier with stock was written for one of them and hangs on an offer priced from
  its cost, so never below cost times margin; the sources of other suppliers are untouched; and each
  offer's quantity is the stock of its sources and it is active when there is some.
\<close>

theorem sweep_prices_offers:
  assumes "apply_provider_skus cr p now ids provider skus True db = (Inr n, db')"
  shows "(\<forall>s \<in> set (sources db'). os_provider s = provider \<and> 0 < os_stock s \<longrightarrow>
      (\<exists>k \<in> set skus. \<exists>f \<in> set (offers db'). s = source_of provider (of_id f) k \<and> of_id f = os_offer s \<and>
         of_price f = sale_price p (ku_cost k) \<and> ku_cost k * pc_usd_ngn p * pc_margin p \<le> of_price f)) \<and>
    (\<forall>s \<in> set (sources db). os_provider s \<noteq> provider \<longrightarrow> s \<in> set (sources db')) \<and>
    (\<forall>f \<in> set (offers db'). of_quantity f = offer_stock (sources db') (of_id f) \<and> of_active f = (0 < of_quantity f))"
proof -
  obtain seen db1 where a: "apply_skus cr p now ids 0 provider skus db = (Inr seen, db1)"
    and r: "refresh_offers (zero_missing_sources provider seen db1) = Inr db'"
    using assms by (auto simp: apply_provider_skus_def Let_def split: prod.splits sum.splits)
  let ?db2 = "zero_missing_sources provider seen db1"
  note step = apply_skus_step [OF a subset_refl, unfolded sku_step_def]
  have src: "sources db' = sources ?db2"
    and offs: "offers db' = map (\<lambda>f. f\<lparr>of_quantity := offer_stock (sources ?db2) (of_id f),
       of_active := 0 < offer_stock (sources ?db2) (of_id f)\<rparr>) (offers ?db2)"
    using r by (auto simp: refresh_offers_def split: if_splits)
  have at: "\<exists>f \<in> set (offers db'). of_id f = i \<and> of_price f = x" if o': "offer_at db1 i x" for i x
  proof -
    obtain f where f: "f \<in> set (offers db1)" "of_id f = i" "of_price f = x" using o' unfolding offer_at_def by blast
    let ?g = "f\<lparr>of_quantity := offer_stock (sources ?db2) (of_id f), of_active := 0 < offer_stock (sources ?db2) (of_id f)\<rparr>"
    have "offers ?db2 = offers db1" by (simp add: zero_missing_sources_def)
    then have "?g \<in> set (offers db')" unfolding offs set_map using f(1) by (intro imageI) simp
    then show ?thesis using f(2,3) by (intro bexI [of _ ?g]) simp_all
  qed
  have z: "set (sources ?db2) = (\<lambda>s. s\<lparr>os_stock := 0\<rparr>) ` {s \<in> set (sources db1). os_provider s = provider \<and> skey s \<notin> set seen} \<union>
      {s \<in> set (sources db1). \<not> (os_provider s = provider \<and> skey s \<notin> set seen)}"
    by (auto simp: zero_missing_sources_def set_update_where skey_def)
  show ?thesis
  proof (intro conjI ballI impI)
    fix s assume s: "s \<in> set (sources db')" "os_provider s = provider \<and> 0 < os_stock s"
    have "s \<in> set (sources db1) \<and> skey s \<in> set seen"
      using s(1) unfolding src z
    proof (elim UnE imageE)
      fix x assume "s = x\<lparr>os_stock := 0\<rparr>"
      then have "os_stock s = 0" by simp
      then show ?thesis using s(2) by simp
    qed (use s(2) in simp)
    then have "written_for p provider (set skus) s db1" using bspec [OF conjunct1 [OF step]] s(2) by iprover
    then obtain k where k: "k \<in> set skus" "s = source_of provider (os_offer s) k" "offer_at db1 (os_offer s) (sale_price p (ku_cost k))"
      unfolding written_for_def by blast
    obtain f where f: "f \<in> set (offers db')" "of_id f = os_offer s" "of_price f = sale_price p (ku_cost k)"
      using at [OF k(3)] by blast
    have c: "ku_cost k * pc_usd_ngn p * pc_margin p \<le> of_price f" using f(3) sale_price_bounds(1) by simp
    show "\<exists>k \<in> set skus. \<exists>f \<in> set (offers db'). s = source_of provider (of_id f) k \<and> of_id f = os_offer s \<and>
        of_price f = sale_price p (ku_cost k) \<and> ku_cost k * pc_usd_ngn p * pc_margin p \<le> of_price f"
      using k(1,2) f c by (intro bexI [of _ k] bexI [of _ f] conjI) simp_all
  next
    fix s assume s: "s \<in> set (sources db)" "os_provider s \<noteq> provider"
    have "s \<in> set (sources db1)" using bspec [OF conjunct1 [OF conjunct2 [OF step]] s(1)] s(2) by iprover
    then show "s \<in> set (sources db')" unfolding src z using s(2) by (intro UnI2) simp
  next
    fix f assume "f \<in> set (offers db')"
    then show "of_quantity f = offer_stock (sources db') (of_id f)" "of_active f = (0 < of_quantity f)"
      unfolding offs src by auto
  qed
qed

end
