(* ===== verification/Shop_Properties.thy ===== *)
theory Shop_Properties
  imports Catalogue_Properties
begin

text \<open>
  Country codes after a sweep, and the list of offers against the purchase: what is listed has stock
  with a supplier that is switched on, and can be bought at the listed price unless a dearer offer
  the list leaves out has stock.
\<close>

section \<open>Country codes\<close>

definition addressable :: "guest_country \<Rightarrow> bool" where
  "addressable c \<longleftrightarrow> gc_iso c \<noteq> [] \<and> gc_prefix c \<noteq> []"

definition iso_code :: "crates \<Rightarrow> guest_country \<Rightarrow> string" where
  "iso_code cr c = cr_to_uppercase cr (hd (gc_iso c))"

text \<open>The supplier keys that claim a code.\<close>

definition claimants :: "crates \<Rightarrow> (string \<times> guest_country) list \<Rightarrow> string \<Rightarrow> string set" where
  "claimants cr cs code = {k. \<exists>c. (k, c) \<in> set cs \<and> addressable c \<and> iso_code cr c = code}"

definition countries_ok :: "crates \<Rightarrow> (string \<times> guest_country) list \<Rightarrow> country_row list \<Rightarrow> bool" where
  "countries_ok cr cs rows \<longleftrightarrow> distinct (map cn_code rows) \<and> distinct (map cn_provider_country rows) \<and>
     (\<forall>r \<in> set rows. cn_provider_country r \<in> claimants cr cs (cn_code r))"

text \<open>The code has a row whose key is at most \<open>k\<close>.\<close>

definition held_below :: "country_row list \<Rightarrow> string \<Rightarrow> string \<Rightarrow> bool" where
  "held_below rows code k \<longleftrightarrow> (\<exists>r \<in> set rows. cn_code r = code \<and> cn_provider_country r \<le> k)"

lemma claimants_code:
  assumes "distinct (map fst cs)" "k \<in> claimants cr cs a" "k \<in> claimants cr cs b"
  shows "a = b"
  using assms by (auto simp: claimants_def dest: eq_key_imp_eq_value)

lemma upsert_country_step:
  assumes cs: "distinct (map fst cs)" "(key, c) \<in> set cs" and ok: "countries_ok cr cs (countries db)"
  shows "countries_ok cr cs (countries (snd (upsert_country cr i key c db)))"
    and "held_below (countries db) code k \<Longrightarrow> held_below (countries (snd (upsert_country cr i key c db))) code k"
    and "addressable c \<Longrightarrow> held_below (countries (snd (upsert_country cr i key c db))) (iso_code cr c) key"
proof -
  let ?rows' = "countries (snd (upsert_country cr i key c db))"
  have "countries_ok cr cs ?rows' \<and> (\<forall>code k. held_below (countries db) code k \<longrightarrow> held_below ?rows' code k) \<and>
      (addressable c \<longrightarrow> held_below ?rows' (iso_code cr c) key)"
  proof (cases "addressable c")
    case False
    then have "?rows' = countries db"
      by (auto simp: upsert_country_def addressable_def split: list.splits)
    then show ?thesis using ok False by simp
  next
    case True
    then obtain x xs d ds where l: "gc_iso c = x # xs" "gc_prefix c = d # ds"
      by (auto simp: addressable_def neq_Nil_conv)
    define code where "code = iso_code cr c"
    define name where "name = (case gc_text c of Some t \<Rightarrow> t | None \<Rightarrow> humanise cr key)"
    have mem: "key \<in> claimants cr cs code" using cs(2) True by (auto simp: claimants_def code_def)
    have same: "cn_code r = code" if "r \<in> set (countries db)" "cn_provider_country r = key" for r
      using ok that claimants_code [OF cs(1) _ mem] by (auto simp: countries_ok_def)
    have upd: "?rows' = (case fetch_optional (\<lambda>r. cn_provider_country r = key) (countries db) of
        Some r \<Rightarrow> update_where (\<lambda>r. cn_provider_country r = key) (\<lambda>r. r\<lparr>cn_name := name, cn_dial := d\<rparr>) (countries db)
      | None \<Rightarrow> (case fetch_optional (\<lambda>r. cn_code r = code) (countries db) of
          Some h \<Rightarrow> (if cn_provider_country h < key then countries db
            else update_where (\<lambda>r. cn_code r = code)
              (\<lambda>r. r\<lparr>cn_provider_country := key, cn_name := name, cn_dial := d\<rparr>) (countries db))
        | None \<Rightarrow> countries db @ [\<lparr>cn_id = i, cn_code = code, cn_provider_country = key, cn_active = True,
            cn_name = name, cn_dial = d, cn_sort = unlisted_sort\<rparr>]))"
      using l by (auto simp: upsert_country_def code_def name_def iso_code_def Let_def split: option.split)
    consider (named) r where "fetch_optional (\<lambda>r. cn_provider_country r = key) (countries db) = Some r"
      | (lower) h where "fetch_optional (\<lambda>r. cn_provider_country r = key) (countries db) = None"
          "fetch_optional (\<lambda>r. cn_code r = code) (countries db) = Some h" "cn_provider_country h < key"
      | (higher) h where "fetch_optional (\<lambda>r. cn_provider_country r = key) (countries db) = None"
          "fetch_optional (\<lambda>r. cn_code r = code) (countries db) = Some h" "\<not> cn_provider_country h < key"
      | (free) "fetch_optional (\<lambda>r. cn_provider_country r = key) (countries db) = None"
          "fetch_optional (\<lambda>r. cn_code r = code) (countries db) = None"
      by (metis option.exhaust)
    then show ?thesis
    proof cases
      case (named r)
      let ?f = "\<lambda>r. r\<lparr>cn_name := name, cn_dial := d\<rparr>"
      have rows: "?rows' = update_where (\<lambda>r. cn_provider_country r = key) ?f (countries db)" using upd named by simp
      have maps: "map cn_code ?rows' = map cn_code (countries db)"
        "map cn_provider_country ?rows' = map cn_provider_country (countries db)"
        unfolding rows by (simp_all add: map_update_where)
      have held: "held_below ?rows' a b \<longleftrightarrow> held_below (countries db) a b" for a b
      proof -
        have pairs: "held_below rs a b \<longleftrightarrow> (\<exists>p \<in> set (map (\<lambda>r. (cn_code r, cn_provider_country r)) rs). fst p = a \<and> snd p \<le> b)" for rs
          by (auto simp: held_below_def)
        have "map (\<lambda>r. (cn_code r, cn_provider_country r)) ?rows' = map (\<lambda>r. (cn_code r, cn_provider_country r)) (countries db)"
          unfolding rows by (rule map_update_where) simp
        then show ?thesis unfolding pairs by (simp only:)
      qed
      have "countries_ok cr cs ?rows'"
        using ok maps unfolding countries_ok_def rows by (auto simp: set_update_where)
      moreover have "held_below (countries db) code key"
        using fetch_optional_SomeD [OF named] same unfolding held_below_def by (auto intro: bexI [of _ r])
      ultimately show ?thesis by (simp add: held code_def)
    next
      case (lower h)
      have rows: "?rows' = countries db" using upd lower by simp
      have "held_below (countries db) code key"
        using fetch_optional_SomeD [OF lower(2)] lower(3) unfolding held_below_def
        by (intro bexI [of _ h]) (simp_all add: less_imp_le)
      then show ?thesis using ok by (simp add: rows code_def)
    next
      case (higher h)
      let ?f = "\<lambda>r. r\<lparr>cn_provider_country := key, cn_name := name, cn_dial := d\<rparr>"
      have rows: "?rows' = update_where (\<lambda>r. cn_code r = code) ?f (countries db)" using upd higher by simp
      have h: "h \<in> set (countries db)" "cn_code h = code" using fetch_optional_SomeD [OF higher(2)] by simp_all
      have uniq: "r = h" if "r \<in> set (countries db)" "cn_code r = code" for r
        using ok h that by (auto simp: countries_ok_def distinct_map dest: inj_onD)
      have none: "cn_provider_country r \<noteq> key" if "r \<in> set (countries db)" for r
        using higher(1) that by (auto simp: fetch_optional_None_iff)
      have set: "set ?rows' = insert (?f h) {r \<in> set (countries db). cn_code r \<noteq> code}"
      proof -
        have one: "{r \<in> set (countries db). cn_code r = code} = {h}" using h uniq by blast
        have "set ?rows' = ?f ` {r \<in> set (countries db). cn_code r = code} \<union> {r \<in> set (countries db). cn_code r \<noteq> code}"
          unfolding rows by (auto simp: set_update_where)
        then show ?thesis unfolding one by simp
      qed
      have codes: "map cn_code ?rows' = map cn_code (countries db)" unfolding rows by (simp add: map_update_where)
      have "distinct (map cn_provider_country ?rows')"
      proof -
        have "distinct ?rows'" using ok codes by (metis countries_ok_def distinct_map)
        moreover have "inj_on cn_provider_country (set ?rows')"
        proof (rule inj_onI)
          fix a b assume ab: "a \<in> set ?rows'" "b \<in> set ?rows'" "cn_provider_country a = cn_provider_country b"
          have inj: "inj_on cn_provider_country (set (countries db))" using ok by (simp add: countries_ok_def distinct_map)
          have new: "cn_provider_country (?f h) = key" by simp
          have old: "x \<in> set (countries db) \<and> cn_provider_country x \<noteq> key" if "x \<in> set ?rows'" "x \<noteq> ?f h" for x
            using that none [of x] unfolding set by blast
          show "a = b"
          proof (cases "a = ?f h"; cases "b = ?f h")
            assume "a \<noteq> ?f h" "b \<noteq> ?f h"
            then show ?thesis using old [OF ab(1)] old [OF ab(2)] inj_onD [OF inj ab(3)] by blast
          next
            assume "a = ?f h" "b \<noteq> ?f h"
            then show ?thesis using old [OF ab(2)] ab(3) new by metis
          next
            assume "a \<noteq> ?f h" "b = ?f h"
            then show ?thesis using old [OF ab(1)] ab(3) new by metis
          qed simp
        qed
        ultimately show ?thesis by (simp add: distinct_map)
      qed
      moreover have "\<forall>r \<in> set ?rows'. cn_provider_country r \<in> claimants cr cs (cn_code r)"
        using ok mem h(2) unfolding set countries_ok_def by auto
      ultimately have "countries_ok cr cs ?rows'" using ok codes by (simp add: countries_ok_def)
      moreover have "held_below ?rows' a b" if old: "held_below (countries db) a b" for a b
      proof -
        obtain r where r: "r \<in> set (countries db)" "cn_code r = a" "cn_provider_country r \<le> b"
          using old unfolding held_below_def by blast
        show ?thesis
        proof (cases "a = code")
          case True
          then have "r = h" using uniq r by simp
          then have "key \<le> b" using higher(3) r(3) by (meson leI order_trans)
          then show ?thesis unfolding held_below_def set using True h(2) by (intro bexI [of _ "?f h"]) simp_all
        next
          case False
          then show ?thesis unfolding held_below_def set using r by (intro bexI [of _ r]) simp_all
        qed
      qed
      moreover have "held_below ?rows' code key" unfolding held_below_def set using h(2) by (intro bexI [of _ "?f h"]) simp_all
      ultimately show ?thesis by (simp add: code_def)
    next
      case free
      define new where "new = \<lparr>cn_id = i, cn_code = code, cn_provider_country = key, cn_active = True,
            cn_name = name, cn_dial = d, cn_sort = unlisted_sort\<rparr>"
      have rows: "?rows' = countries db @ [new]" using upd free by (simp add: new_def)
      have "countries_ok cr cs ?rows'"
        using ok mem free by (auto simp: rows countries_ok_def new_def fetch_optional_None_iff)
      moreover have "held_below ?rows' code key" by (simp add: rows held_below_def new_def)
      ultimately show ?thesis by (auto simp: code_def rows held_below_def)
    qed
  qed
  then show "countries_ok cr cs ?rows'" "held_below (countries db) code k \<Longrightarrow> held_below ?rows' code k"
    "addressable c \<Longrightarrow> held_below ?rows' (iso_code cr c) key" by blast+
qed

text \<open>Products and prices leave the countries alone.\<close>

lemma upsert_products_countries: "upsert_products cr ids ks db = Inr (m, db') \<Longrightarrow> countries db' = countries db"
  by (auto simp: upsert_products_def Let_def split: if_splits)

lemma upsert_price_countries: "countries (upsert_price p now c x db) = countries db"
  by (simp add: upsert_price_def Let_def case_prod_beta)

lemma upsert_prices_countries: "countries (snd (upsert_prices p now c listing ids db)) = countries db"
proof -
  have "countries (fold (upsert_price p now c) rows db) = countries db" for rows
    by (induction rows arbitrary: db) (simp_all add: upsert_price_countries)
  then show ?thesis by (simp add: upsert_prices_def Let_def)
qed

lemma sync_country_countries:
  "countries (snd (sync_country cr p a key c report db)) = countries (snd (upsert_country cr (sa_country_id a key) key c db))"
proof -
  obtain r db1 where u: "upsert_country cr (sa_country_id a key) key c db = (r, db1)" by force
  show ?thesis
    unfolding sync_country_def u Let_def
    by (auto split: option.split sum.split prod.split dest: upsert_products_countries)
      (metis snd_conv upsert_prices_countries upsert_products_countries)+
qed

lemma sync_countries_held:
  assumes cs: "distinct (map fst cs)"
  shows "set rest \<subseteq> set cs \<Longrightarrow> countries_ok cr cs (countries db) \<Longrightarrow> sync_countries cr p a rest report db = (Inr rep, db') \<Longrightarrow>
    countries_ok cr cs (countries db') \<and> (\<forall>code k. held_below (countries db) code k \<longrightarrow> held_below (countries db') code k) \<and>
    (\<forall>(k, c) \<in> set rest. addressable c \<longrightarrow> held_below (countries db') (iso_code cr c) k)"
proof (induction rest arbitrary: report db)
  case (Cons x rest)
  obtain key c where x: "x = (key, c)" by force
  obtain rep1 db1 where 1: "sync_country cr p a key c report db = (Inr rep1, db1)"
    and 2: "sync_countries cr p a rest rep1 db1 = (Inr rep, db')"
    using Cons.prems(3) by (auto simp: x split: prod.splits sum.splits)
  have key: "(key, c) \<in> set cs" using Cons.prems(1) x by simp
  have db1: "countries db1 = countries (snd (upsert_country cr (sa_country_id a key) key c db))"
    using sync_country_countries [of cr p a key c report db] 1 by simp
  note step = upsert_country_step [OF cs key Cons.prems(2), where i = "sa_country_id a key", folded db1]
  have "set rest \<subseteq> set cs" using Cons.prems(1) by simp
  note IH = Cons.IH [OF this step(1) 2]
  show ?case using IH step(2,3) by (auto simp: x)
qed simp

text \<open>
  Each ISO code is sold under the lowest supplier key that claims it. Whatever the catalogue held
  before (rows under any of the supplier's keys for their code), a sweep that succeeds leaves every
  claimed code with exactly one row, and its key is the least claimant.
\<close>

theorem country_codes_converge:
  assumes "sync cr p a db = (Inr (report, skus), db')" "sa_countries a = Some cs"
    and "distinct (map fst cs)" "countries_ok cr cs (countries db)" "claimants cr cs code \<noteq> {}"
  shows "\<exists>!r. r \<in> set (countries db') \<and> cn_code r = code \<and> cn_provider_country r = Min (claimants cr cs code)"
proof -
  obtain rep where run: "sync_countries cr p a (sort_key fst cs) empty_report db = (Inr rep, db')"
    using assms(1,2) by (auto simp: sync_def split: prod.splits sum.splits if_splits)
  have "distinct (map fst (sort_key fst cs))" "set (sort_key fst cs) \<subseteq> set cs"
    using assms(3) by (simp_all add: distinct_map)
  note h = sync_countries_held [OF assms(3) this(2) assms(4) run]
  have fin: "finite (claimants cr cs code)"
    by (rule finite_subset [of _ "fst ` set cs"]) (force simp: claimants_def)+
  then have least: "Min (claimants cr cs code) \<in> claimants cr cs code" using assms(5) by (rule Min_in)
  then obtain c where c: "(Min (claimants cr cs code), c) \<in> set cs" "addressable c" "iso_code cr c = code"
    by (auto simp: claimants_def)
  then have "held_below (countries db') code (Min (claimants cr cs code))" using h by fastforce
  then obtain r where r: "r \<in> set (countries db')" "cn_code r = code" "cn_provider_country r \<le> Min (claimants cr cs code)"
    unfolding held_below_def by blast
  have "cn_provider_country r \<in> claimants cr cs code" using h r(1,2) by (auto simp: countries_ok_def)
  then have "cn_provider_country r = Min (claimants cr cs code)" using Min_le [OF fin] r(3) by (simp add: order_antisym)
  moreover have "inj_on cn_code (set (countries db'))" using h by (auto simp: countries_ok_def distinct_map)
  ultimately show ?thesis using r by (intro ex1I [of _ r]) (auto dest: inj_onD)
qed

section \<open>The list of offers\<close>

definition shop_providers :: "shop_config \<Rightarrow> 'z shop_db_scheme \<Rightarrow> string list" where
  "shop_providers cfg db = source_providers (fst (sell_load (sell_flags db))) (\<not> sc_funding_live cfg)"

lemma live_has_no_stub: "sc_funding_live cfg \<Longrightarrow> ''stub'' \<notin> set (shop_providers cfg db)"
  by (simp add: shop_providers_def source_providers_def known_providers_def)

lemma listing_of_Some:
  assumes "listing_of providers f p c db = Some l"
  shows "l = \<lparr>lo_offer = f, lo_product = p, lo_country = c,
      lo_stock = eligible_stock (of_id f) providers (pd_floor_usd p) (sources db)\<rparr>"
    "of_active f" "\<exists>s \<in> set (sources db). eligible_source (of_id f) providers (pd_floor_usd p) s"
  using assms by (auto simp: listing_of_def Let_def list_ex_iff split: if_splits)

lemma listed_offers_member:
  assumes "l \<in> set (listed_offers providers slug country db)"
  shows "lo_offer l \<in> set (offers db)" "lo_product l \<in> set (products db)" "lo_country l \<in> set (countries db)"
    "pd_id (lo_product l) = of_product (lo_offer l)" "cn_id (lo_country l) = of_country (lo_offer l)"
    "pd_slug (lo_product l) = slug" "country \<noteq> None \<Longrightarrow> country = Some (cn_code (lo_country l))"
    "listing_of providers (lo_offer l) (lo_product l) (lo_country l) db = Some l"
proof -
  obtain f p c where j: "(f, p, c) \<in> set (offer_joins db)" "pd_slug p = slug"
    "country \<noteq> None \<longrightarrow> country = Some (cn_code c)" "listing_of providers f p c db = Some l"
    using assms unfolding listed_offers_def map_filter_member by (fastforce split: if_splits option.splits)
  have m: "f \<in> set (offers db)" "p \<in> set (products db)" "c \<in> set (countries db)" "pd_id p = of_product f" "cn_id c = of_country f"
    using j(1) by (auto simp: offer_joins_def)
  have "lo_offer l = f" "lo_product l = p" "lo_country l = c" using listing_of_Some(1) [OF j(4)] by simp_all
  with j m show "lo_offer l \<in> set (offers db)" "lo_product l \<in> set (products db)" "lo_country l \<in> set (countries db)"
    "pd_id (lo_product l) = of_product (lo_offer l)" "cn_id (lo_country l) = of_country (lo_offer l)"
    "pd_slug (lo_product l) = slug" "country \<noteq> None \<Longrightarrow> country = Some (cn_code (lo_country l))"
    "listing_of providers (lo_offer l) (lo_product l) (lo_country l) db = Some l"
    by simp_all
qed

lemma listed_offers_intro:
  assumes "f \<in> set (offers db)" "p \<in> set (products db)" "c \<in> set (countries db)"
    "pd_id p = of_product f" "cn_id c = of_country f" "pd_slug p = slug" "country \<noteq> None \<Longrightarrow> country = Some (cn_code c)"
    "listing_of providers f p c db = Some l"
  shows "l \<in> set (listed_offers providers slug country db)"
proof -
  have "(f, p, c) \<in> set (offer_joins db)" using assms(1-5) by (auto simp: offer_joins_def)
  then show ?thesis
    unfolding listed_offers_def map_filter_member using assms(6-8)
    by (intro bexI [of _ "(f, p, c)"]) (auto split: option.split)
qed

lemma ranked_listing_member:
  "l \<in> set (ranked_listing cfg slug country db) \<Longrightarrow>
   l \<in> set (listed_offers (shop_providers cfg db) slug country db) \<and>
   pair_top (listed_offers (shop_providers cfg db) slug country db) l * sc_min_price_fraction cfg \<le> of_price (lo_offer l)"
  unfolding ranked_listing_def Let_def shop_providers_def [symmetric]
  by (auto dest!: in_set_takeD simp: top_tier_def)

lemma ranked_sorted: "sorted (map (\<lambda>l. - of_rate (lo_offer l)) (ranked_listing cfg slug country db))"
  unfolding ranked_listing_def Let_def take_map [symmetric] by (intro sorted_wrt_take) (simp add: sorted_sort_key)

text \<open>
  The list of offers shows only what can be had. Every offer listed is active and has a source with
  stock at a supplier that is switched on (with live payments never the stub), at its stored price;
  the list falls in success rate; and the pick is the first offer alone, and only when it carries no
  warning.
\<close>

theorem listing_shows_live_stock:
  assumes "list_offers cr tx cfg product country db = Inr answers" "i < length answers"
  shows "(\<exists>f \<in> set (offers db). \<exists>s \<in> set (sources db). or_id (answers ! i) = of_id f \<and>
      or_price (answers ! i) = cr_show_decimal cr (of_price f) \<and> of_active f \<and> os_offer s = of_id f \<and> 0 < os_stock s \<and>
      os_provider s \<in> set (shop_providers cfg db) \<and> (sc_funding_live cfg \<longrightarrow> os_provider s \<noteq> ''stub'') \<and>
      (or_recommended (answers ! i) \<longleftrightarrow> i = 0 \<and> 40 \<le> of_rate f) \<and> (or_warning (answers ! i) = None \<longleftrightarrow> 40 \<le> of_rate f) \<and>
      (\<forall>j < i. \<exists>g \<in> set (offers db). or_id (answers ! j) = of_id g \<and> of_rate f \<le> of_rate g))"
proof -
  obtain slug code where ls: "answers = map (\<lambda>(i, l). offer_answer cr tx i l) (enumerate 0 (ranked_listing cfg slug code db))"
    using assms(1) by (auto simp: list_offers_def Let_def split: if_splits)
  let ?ls = "ranked_listing cfg slug code db"
  have len: "length answers = length ?ls" by (simp add: ls)
  have nth: "answers ! j = offer_answer cr tx j (?ls ! j)" if "j < length ?ls" for j
    using that by (simp add: ls nth_enumerate_eq)
  have mem: "lo_offer (?ls ! j) \<in> set (offers db)" if "j < length ?ls" for j
    using listed_offers_member(1) [OF conjunct1 [OF ranked_listing_member [OF nth_mem [OF that]]]] .
  have i: "i < length ?ls" using assms(2) len by simp
  then have l: "?ls ! i \<in> set (listed_offers (shop_providers cfg db) slug code db)"
    using ranked_listing_member [OF nth_mem] by blast
  note lm = listing_of_Some [OF listed_offers_member(8) [OF l]]
  obtain s where s: "s \<in> set (sources db)"
    "eligible_source (of_id (lo_offer (?ls ! i))) (shop_providers cfg db) (pd_floor_usd (lo_product (?ls ! i))) s"
    using lm(3) by blast
  have sorted: "of_rate (lo_offer (?ls ! i)) \<le> of_rate (lo_offer (?ls ! j))" if "j < i" for j
    using ranked_sorted [of cfg slug code db] that i sorted_nth_mono [of "map (\<lambda>l. - of_rate (lo_offer l)) ?ls" j i] by simp
  show ?thesis
  proof (rule bexI [OF _ mem [OF i]], rule bexI [OF _ s(1)], intro conjI)
    show "\<forall>j < i. \<exists>g \<in> set (offers db). or_id (answers ! j) = of_id g \<and> of_rate (lo_offer (?ls ! i)) \<le> of_rate g"
      using nth mem sorted i by (auto intro!: bexI [OF _ mem] simp: offer_answer_def Let_def)
    show "sc_funding_live cfg \<longrightarrow> os_provider s \<noteq> ''stub''"
      using s(2) live_has_no_stub [of cfg db] by (auto simp: eligible_source_def)
  qed (use s(2) lm(2) nth [OF i] in \<open>auto simp: eligible_source_def offer_answer_def Let_def\<close>)
qed

section \<open>Listed and bought\<close>

text \<open>The facts of the tables the two handlers rely on.\<close>

definition shop_ok :: "'z shop_db_scheme \<Rightarrow> bool" where
  "shop_ok db \<longleftrightarrow> distinct (map of_id (offers db)) \<and> distinct (map pd_id (products db)) \<and>
     (\<forall>s \<in> set (sources db). 0 \<le> os_stock s) \<and>
     (\<forall>f \<in> set (offers db). 0 < of_rate f \<and> of_quantity f = offer_stock (sources db) (of_id f))"

text \<open>No offer of the pair has stock that the list does not count.\<close>

definition no_hidden_stock :: "string list \<Rightarrow> listed_offer \<Rightarrow> 'z shop_db_scheme \<Rightarrow> bool" where
  "no_hidden_stock providers l db \<longleftrightarrow>
     (\<forall>f \<in> set (offers db). \<forall>s \<in> set (sources db).
        of_product f = of_product (lo_offer l) \<and> of_country f = of_country (lo_offer l) \<and> of_active f \<and>
        os_offer s = of_id f \<and> 0 < os_stock s \<longrightarrow> eligible_source (of_id f) providers (pd_floor_usd (lo_product l)) s)"

lemma sum_pos:
  assumes "\<forall>s \<in> set xs. 0 \<le> g s" "x \<in> set xs" "0 < (g x :: int)"
  shows "0 < sum_list (map g xs)"
  using assms
proof (induction xs)
  case (Cons y ys)
  have "0 \<le> sum_list (map g ys)" using Cons.prems(1) by (intro sum_list_nonneg) auto
  then show ?case using Cons by auto
qed simp

lemma pair_top_ge: "b \<in> set ls \<Longrightarrow> same_pair a b \<Longrightarrow> of_price (lo_offer b) \<le> pair_top ls a"
  unfolding pair_top_def by (rule fold_max_upper) auto

lemma top_price_member:
  assumes "top_price product country db = Some best"
  obtains f s where "f \<in> set (offers db)" "of_product f = product" "of_country f = country" "of_active f"
    "s \<in> set (sources db)" "os_offer s = of_id f" "0 < os_stock s" "best = of_price f"
proof -
  let ?fs = "filter (\<lambda>f. of_product f = product \<and> of_country f = country \<and> of_active f \<and>
    list_ex (\<lambda>s. os_offer s = of_id f \<and> 0 < os_stock s) (sources db)) (offers db)"
  obtain x xs where "map of_price ?fs = x # xs" "best = fold max xs x"
    using assms by (auto simp: top_price_def split: list.splits)
  then have "best \<in> set (map of_price ?fs)" using fold_max_in [of xs x] by simp
  then show ?thesis using that by (auto simp: list_ex_iff)
qed

text \<open>
  C21. What is listed can be bought. When no stock is hidden from the list (every stocked source of an
  offer of the same product and country is one the list counts), the purchase of a listed offer, at
  the listed price or more, is accepted at the stored price with at least one source.
\<close>

theorem listed_offer_buyable:
  assumes ok: "shop_ok db" "0 \<le> sc_min_price_fraction cfg"
    and l: "l \<in> set (ranked_listing cfg slug country db)" "no_hidden_stock (shop_providers cfg db) l db"
    and body: "cb_offer body = Some (of_id (lo_offer l))" "of_price (lo_offer l) \<le> expected"
  shows "\<exists>k. pick_sku cr cfg numbers now body (Some expected) db = Inr k \<and>
    sk_price k = of_price (lo_offer l) \<and> sk_offer k = Some (of_id (lo_offer l)) \<and> sk_sources k \<noteq> []"
proof -
  let ?f = "lo_offer l" and ?prov = "shop_providers cfg db" and ?floor = "pd_floor_usd (lo_product l)"
  let ?ls = "listed_offers ?prov slug country db"
  have m: "l \<in> set ?ls" "pair_top ?ls l * sc_min_price_fraction cfg \<le> of_price ?f"
    using ranked_listing_member [OF l(1)] by simp_all
  note lm = listed_offers_member [OF m(1)]
  note lo = listing_of_Some [OF lm(8)]
  obtain s where s: "s \<in> set (sources db)" "eligible_source (of_id ?f) ?prov ?floor s" using lo(3) by blast
  have f: "fetch_optional (\<lambda>f. of_id f = of_id ?f) (offers db) = Some ?f"
    using ok(1) lm(1) by (intro fetch_optional_unique) (auto simp: shop_ok_def distinct_map dest: inj_onD)
  have p: "fetch_optional (\<lambda>p. pd_id p = of_product ?f) (products db) = Some (lo_product l)"
    using ok(1) lm(2,4) by (intro fetch_optional_unique) (auto simp: shop_ok_def distinct_map inj_on_def)
  have "0 < offer_stock (sources db) (of_id ?f)"
    unfolding offer_stock_def using ok(1) s by (intro sum_pos [where x = s]) (auto simp: shop_ok_def eligible_source_def)
  then have q: "0 < of_quantity ?f" using ok(1) lm(1) by (simp add: shop_ok_def)
  have top: "\<not> of_price ?f < best * sc_min_price_fraction cfg" if "top_price (of_product ?f) (of_country ?f) db = Some best" for best
  proof -
    obtain f' s' where f': "f' \<in> set (offers db)" "of_product f' = of_product ?f" "of_country f' = of_country ?f" "of_active f'"
      "s' \<in> set (sources db)" "os_offer s' = of_id f'" "0 < os_stock s'" "best = of_price f'"
      using top_price_member [OF \<open>top_price _ _ _ = _\<close>] by metis
    have e: "eligible_source (of_id f') ?prov ?floor s'" using l(2) f' unfolding no_hidden_stock_def by blast
    have "0 < eligible_stock (of_id f') ?prov ?floor (sources db)"
      unfolding eligible_stock_def using ok(1) f'(5,7) e by (intro sum_pos [where x = s']) (auto simp: shop_ok_def)
    then have "listing_of ?prov f' (lo_product l) (lo_country l) db = Some \<lparr>lo_offer = f', lo_product = lo_product l,
        lo_country = lo_country l, lo_stock = eligible_stock (of_id f') ?prov ?floor (sources db)\<rparr>"
      using ok(1) f'(1,4,5) e by (auto simp: listing_of_def Let_def list_ex_iff shop_ok_def)
    note in_list = listed_offers_intro [OF f'(1) lm(2,3) _ _ lm(6) lm(7) this]
    have "of_price f' \<le> pair_top ?ls l" using f'(2,3) lm(4,5) pair_top_ge [OF in_list, of l] by (simp add: same_pair_def)
    then have "best * sc_min_price_fraction cfg \<le> pair_top ?ls l * sc_min_price_fraction cfg"
      using ok(2) f'(8) by (simp add: mult_right_mono)
    with m(2) show ?thesis by simp
  qed
  let ?rs = "ranked_sources now (of_id ?f) ?prov ?floor (orders db) (sources db)"
  have rs: "s \<in> set ?rs" using s by (simp add: ranked_sources_set)
  then obtain r rest where r: "?rs = r # rest" by (cases ?rs) auto
  have pick: "\<exists>k. pick_offer cr cfg now (of_id ?f) (Some expected) db = Inr k \<and> sk_price k = of_price ?f \<and>
      sk_offer k = Some (of_id ?f) \<and> sk_sources k = ?rs"
    using f p q lo(2) body(2) top r unfolding pick_offer_def shop_providers_def
    by (auto split: option.split)
  then obtain k where k: "pick_offer cr cfg now (of_id ?f) (Some expected) db = Inr k" "sk_price k = of_price ?f"
    "sk_offer k = Some (of_id ?f)" "sk_sources k = ?rs" by blast
  have keep: "filter (\<lambda>s. os_provider s \<noteq> ''stub'') ?rs = ?rs" if "sc_funding_live cfg"
    using live_has_no_stub [OF that, of db] by (auto simp: filter_id_conv ranked_sources_set eligible_source_def)
  have "drop_stub cfg k = Inr (k\<lparr>sk_sources := ?rs\<rparr>)"
    using keep k(3,4) r by (cases "sc_funding_live cfg") (simp_all add: drop_stub_def Let_def)
  then show ?thesis using k body(1) r by (simp add: pick_sku_def)
qed

end
