(* ===== verification/Shop_Witnesses.thy ===== *)
theory Shop_Witnesses
  imports Shop_Properties Order_Witnesses
begin

text \<open>
  The properties of the catalogue applied to a small shop, and the shop in which an offer is listed
  and refused.
\<close>

section \<open>The shop\<close>

definition demo_pricing :: pricing where
  "demo_pricing = \<lparr>pc_usd_ngn = 1500, pc_margin = 13 / 10, pc_currency = Some ''usd''\<rparr>"

definition demo_listing :: "(string \<times> guest_product) list" where
  "demo_listing = [(''whatsapp'', \<lparr>gp_category = ''activation'', gp_qty = 5, gp_price = 1 / 5\<rparr>)]"

definition demo_ids :: "string \<Rightarrow> uuid option" where
  "demo_ids k = (if k = ''whatsapp'' then Some 20 else None)"

definition demo_swept :: "(db_error + nat) \<times> shop_db" where
  "demo_swept = apply_provider_skus demo_crates demo_pricing 1000 (\<lambda>n. word_of_nat (30 + n)) ''stub'' stub_skus True demo_shop"

definition demo_countries :: "(string \<times> guest_country) list" where
  "demo_countries =
     [(''nigeria'', \<lparr>gc_iso = [''ng''], gc_prefix = [''+234''], gc_text = Some ''Nigeria''\<rparr>),
      (''abuja'', \<lparr>gc_iso = [''ng''], gc_prefix = [''+234''], gc_text = None\<rparr>)]"

definition demo_answers :: sync_answers where
  "demo_answers = \<lparr>sa_now = 1000, sa_countries = Some demo_countries, sa_listing = (\<lambda>_. Some demo_listing),
     sa_prices = None, sa_product_prices = (\<lambda>_. None), sa_country_id = (\<lambda>_. 40), sa_product_id = (\<lambda>_ _. 41)\<rparr>"

definition demo_synced :: "(sync_error + (sync_report \<times> offer_sku list option)) \<times> shop_db" where
  "demo_synced = sync demo_crates demo_pricing demo_answers demo_shop"

definition demo_text :: shop_text where
  "demo_text = \<lparr>st_collate = (\<lambda>s. s), st_lower = to_ascii_lowercase, st_rfc3339 = (\<lambda>_. ''t'')\<rparr>"

definition demo_offer :: offer_row where
  "demo_offer = \<lparr>of_id = 30, of_product = 20, of_country = 21, of_price = 300, of_quantity = 12, of_active = True,
     of_rate = 82, of_fetched_at = 1000\<rparr>"

definition demo_source :: offer_source where
  "demo_source = \<lparr>os_offer = 30, os_provider = ''fivesim'', os_country = ''nigeria'', os_product = ''whatsapp'',
     os_operator = ''any'', os_cost = 1 / 5, os_currency = ''USD'', os_stock = 12, os_rate = 82\<rparr>"

definition demo_offering :: shop_db where
  "demo_offering = demo_shop\<lparr>offers := [demo_offer], sources := [demo_source]\<rparr>"

definition demo_listed :: listed_offer where
  "demo_listed = \<lparr>lo_offer = demo_offer, lo_product = hd (products demo_shop), lo_country = hd (countries demo_shop), lo_stock = 12\<rparr>"

definition demo_order :: order_body where
  "demo_order = \<lparr>cb_offer = Some 30, cb_product_slug = ''whatsapp'', cb_country_code = ''NG'', cb_expected = None\<rparr>"

section \<open>Witnesses\<close>

theorem price_covers_cost_witness:
  "\<exists>r \<in> set (prices (snd (upsert_prices demo_pricing 1000 21 demo_listing demo_ids demo_shop))).
     pr_product r = 20 \<and> pr_country r = 21 \<and> 300 \<le> pr_price r"
proof -
  have "\<exists>r \<in> set (prices (snd (upsert_prices demo_pricing 1000 21 demo_listing demo_ids demo_shop))).
     pr_product r = 20 \<and> pr_country r = 21 \<and> gp_price (snd (hd demo_listing)) * pc_usd_ngn demo_pricing \<le> pr_price r"
    by (rule price_covers_cost [where key = "''whatsapp''"]) (code_simp | simp add: demo_listing_def)+
  then show ?thesis by (simp add: demo_listing_def demo_pricing_def)
qed

theorem sweep_prices_offers_witness:
  "length (offers (snd demo_swept)) = 2 \<and>
   list_all (\<lambda>f. of_quantity f = offer_stock (sources (snd demo_swept)) (of_id f)) (offers (snd demo_swept))"
proof -
  have "fst demo_swept = Inr 2" by code_simp
  then have run: "apply_provider_skus demo_crates demo_pricing 1000 (\<lambda>n. word_of_nat (30 + n)) ''stub'' stub_skus True demo_shop =
      (Inr 2, snd demo_swept)"
    unfolding demo_swept_def by (metis prod.collapse)
  have "length (offers (snd demo_swept)) = 2" by code_simp
  with sweep_prices_offers [OF run] show ?thesis unfolding list_all_iff by blast
qed

theorem country_codes_converge_witness:
  "\<exists>!r. r \<in> set (countries (snd demo_synced)) \<and> cn_code r = ''NG'' \<and>
     cn_provider_country r = Min (claimants demo_crates demo_countries ''NG'')"
proof -
  have "(case fst demo_synced of Inr (report, skus) \<Rightarrow> skus = None | Inl _ \<Rightarrow> False)" by code_simp
  then obtain report where run: "sync demo_crates demo_pricing demo_answers demo_shop = (Inr (report, None), snd demo_synced)"
    unfolding demo_synced_def by (auto split: sum.splits prod.splits simp: prod_eq_iff)
  have cs: "sa_countries demo_answers = Some demo_countries" "distinct (map fst demo_countries)"
    by (simp_all add: demo_answers_def demo_countries_def)
  have up: "cr_to_uppercase demo_crates ''ng'' = ''NG''" by code_simp
  have mem: "''nigeria'' \<in> claimants demo_crates demo_countries ''NG''"
    unfolding claimants_def demo_countries_def by (simp add: addressable_def iso_code_def up)
  then have "countries_ok demo_crates demo_countries (countries demo_shop)"
    by (simp add: countries_ok_def demo_shop_def)
  with country_codes_converge [OF run cs] mem show ?thesis by blast
qed

theorem listing_shows_live_stock_witness:
  "\<exists>f \<in> set (offers demo_offering). \<exists>s \<in> set (sources demo_offering). os_offer s = of_id f \<and> 0 < os_stock s \<and>
     os_provider s \<in> set (shop_providers demo_config demo_offering)"
proof -
  have "(case list_offers demo_crates demo_text demo_config '' WhatsApp'' (Some ''ng'') demo_offering of
      Inr answers \<Rightarrow> length answers = 1 | Inl _ \<Rightarrow> False)" by code_simp
  then obtain answers where a: "list_offers demo_crates demo_text demo_config '' WhatsApp'' (Some ''ng'') demo_offering = Inr answers"
    "length answers = 1" by (auto split: sum.splits)
  then have "0 < length answers" by simp
  with listing_shows_live_stock [OF a(1)] show ?thesis by blast
qed

theorem listed_offer_buyable_witness:
  "case pick_sku demo_crates demo_config demo_supplier 1000 demo_order (Some 300) demo_offering of
     Inr k \<Rightarrow> sk_price k = 300 \<and> sk_sources k \<noteq> [] | Inl _ \<Rightarrow> False"
proof -
  have ok: "shop_ok demo_offering" by code_simp
  have f: "0 \<le> sc_min_price_fraction demo_config" by (simp add: demo_config_def)
  have "ranked_listing demo_config ''whatsapp'' None demo_offering = [demo_listed]" by code_simp
  then have l: "demo_listed \<in> set (ranked_listing demo_config ''whatsapp'' None demo_offering)" by simp
  have h: "no_hidden_stock (shop_providers demo_config demo_offering) demo_listed demo_offering" by code_simp
  have b: "cb_offer demo_order = Some (of_id (lo_offer demo_listed))" "of_price (lo_offer demo_listed) \<le> 300"
    by (simp_all add: demo_order_def demo_listed_def demo_offer_def)
  have "of_price (lo_offer demo_listed) = 300" by (simp add: demo_listed_def demo_offer_def)
  with listed_offer_buyable [OF ok f l h b, where cr = demo_crates and numbers = demo_supplier and now = 1000]
  show ?thesis by auto
qed

section \<open>Listed and refused\<close>

text \<open>A dearer offer of the same pair, whose only source is at a supplier that is switched off.\<close>

definition hidden_offering :: shop_db where
  "hidden_offering = demo_offering\<lparr>
     offers := [demo_offer, demo_offer\<lparr>of_id := 31, of_price := 1000, of_quantity := 3\<rparr>],
     sources := [demo_source, demo_source\<lparr>os_offer := 31, os_provider := ''smspool'', os_stock := 3\<rparr>]\<rparr>"

definition half_config :: shop_config where
  "half_config = \<lparr>sc_funding_live = True, sc_min_price_fraction = 1 / 2\<rparr>"

text \<open>
  An offer can be listed and refused. The list compares an offer with the dearest offer it shows,
  the purchase with the dearest that has stock anywhere: when a dearer offer is left with stock at a
  supplier that is switched off, the purchase at the listed price is refused with the message that
  it just sold out, although the tables are consistent.
\<close>

theorem listed_offer_refused:
  "shop_ok hidden_offering \<and> map (of_id \<circ> lo_offer) (ranked_listing half_config ''whatsapp'' None hidden_offering) = [30] \<and>
   pick_sku demo_crates half_config demo_supplier 1000 demo_order (Some 300) hidden_offering = Inl no_longer_available"
proof (intro conjI)
  show "shop_ok hidden_offering" by code_simp
  show "map (of_id \<circ> lo_offer) (ranked_listing half_config ''whatsapp'' None hidden_offering) = [30]" by code_simp
  show "pick_sku demo_crates half_config demo_supplier 1000 demo_order (Some 300) hidden_offering = Inl no_longer_available"
    by code_simp
qed

end
