(* ===== verification/Supplier_Wire.thy ===== *)
theory Supplier_Wire
  imports Catalogue_Store
begin

text \<open>
  What the number suppliers answer over HTTP and how a purchase that failed in transport is taken
  (\<open>classify_buy_transport\<close> of \<open>crates/api/src/number_provider.rs\<close>), with the readings of JSON the three
  adapters share. The HTTP client, the JSON parser and the parsers of \<open>chrono\<close> and \<open>rust_decimal\<close> are
  parameters.
\<close>

section \<open>Replies\<close>

text \<open>
  A request that could not connect never left; one that failed later may have arrived. An answer has a
  status and a body, \<open>None\<close> when the body could not be read.
\<close>

datatype supplier_reply = ConnectFailed | RequestFailed | Answered nat "string option"

definition is_success :: "nat \<Rightarrow> bool" where
  "is_success st \<longleftrightarrow> 200 \<le> st \<and> st < 300"

definition is_server_error :: "nat \<Rightarrow> bool" where
  "is_server_error st \<longleftrightarrow> 500 \<le> st \<and> st < 600"

definition is_client_error :: "nat \<Rightarrow> bool" where
  "is_client_error st \<longleftrightarrow> 400 \<le> st \<and> st < 500"

definition refused :: "string \<Rightarrow> purchase_error" where
  "refused message = Rejected (ServiceUnavailable message)"

definition classify_buy_transport :: "supplier_reply \<Rightarrow> purchase_error" where
  "classify_buy_transport r = (case r of ConnectFailed \<Rightarrow> refused copy_buy_restored | _ \<Rightarrow> Ambiguous)"

section \<open>Readings\<close>

record supplier_wire =
  sw_json :: "string \<Rightarrow> jval option"
  sw_rfc3339 :: "string \<Rightarrow> instant option"
  sw_decimal :: "jval \<Rightarrow> decimal option"
  sw_now :: instant

fun jv_i64 :: "jval \<Rightarrow> int option" where
  "jv_i64 (JvNum i _ _ _) = i"
| "jv_i64 _ = None"

definition jv_get_or :: "jval \<Rightarrow> string list \<Rightarrow> jval option" where
  "jv_get_or v ks = List.find (\<lambda>_. True) (List.map_filter (jv_get v) ks)"

definition value_key :: "jval \<Rightarrow> string" where
  "value_key v = (case v of JvStr s \<Rightarrow> s | JvNum _ _ _ t \<Rightarrow> t | _ \<Rightarrow> [])"

definition value_key_or_null :: "jval option \<Rightarrow> string" where
  "value_key_or_null v = (case v of None \<Rightarrow> [] | Some v \<Rightarrow> value_key v)"

definition non_empty :: "string option \<Rightarrow> string option" where
  "non_empty s = (case s of Some t \<Rightarrow> if t = [] then None else Some t | None \<Rightarrow> None)"

definition trimmed_text :: "jval option \<Rightarrow> string option" where
  "trimmed_text v = non_empty (map_option trim (Option.bind v jv_str))"

text \<open>
  The members of a struct as \<open>serde\<close> reads them: with a default a missing member is the default, an
  \<open>Option\<close> takes null for \<open>None\<close>; a member of another type makes the struct unreadable.
\<close>

definition field_or :: "'a \<Rightarrow> (jval \<Rightarrow> 'a option) \<Rightarrow> jval \<Rightarrow> string \<Rightarrow> 'a option" where
  "field_or d f v k = (case jv_get v k of None \<Rightarrow> Some d | Some x \<Rightarrow> f x)"

definition field_opt :: "(jval \<Rightarrow> 'a option) \<Rightarrow> jval \<Rightarrow> string \<Rightarrow> 'a option option" where
  "field_opt f v k = (case jv_get v k of None \<Rightarrow> Some None | Some JvNull \<Rightarrow> Some None | Some x \<Rightarrow> map_option Some (f x))"

fun read_all :: "('a \<Rightarrow> 'b option) \<Rightarrow> 'a list \<Rightarrow> 'b list option" where
  "read_all f [] = Some []"
| "read_all f (x # xs) =
     (case f x of None \<Rightarrow> None | Some y \<Rightarrow> map_option ((#) y) (read_all f xs))"

lemma read_all_Some: "read_all f xs = Some ys \<longleftrightarrow> map f xs = map Some ys"
proof (induction xs arbitrary: ys)
  case (Cons x xs)
  then show ?case by (cases ys) (auto split: option.splits)
qed auto

lemma jv_get_or_simps:
  "jv_get_or v [] = None"
  "jv_get_or v (k # ks) = (case jv_get v k of Some x \<Rightarrow> Some x | None \<Rightarrow> jv_get_or v ks)"
  by (simp_all add: jv_get_or_def List.map_filter_def split: option.split)

lemma non_empty_Some_iff: "non_empty s = Some t \<longleftrightarrow> s = Some t \<and> t \<noteq> []"
  by (auto simp: non_empty_def split: option.splits)

end
