(* ===== verification/Smspool.thy ===== *)
theory Smspool
  imports Supplier_Wire
begin

text \<open>
  The SMSPool adapter, \<open>crates/api/src/number_smspool.rs\<close>: services and countries it is mapped to, the
  SKUs of its success rates, buying, checking and cancelling. A request's reply is an argument.
\<close>

section \<open>Purchases that fail\<close>

definition json_success_zero :: "jval \<Rightarrow> bool" where
  "json_success_zero v =
     (case jv_get v ''success'' of
        Some (JvBool b) \<Rightarrow> \<not> b
      | Some (JvNum i f _ _) \<Rightarrow> i = Some 0 \<or> f = ''0'' \<or> f = ''-0''
      | Some (JvStr s) \<Rightarrow> trim s = ''0'' \<or> eq_ignore_ascii_case s ''false''
      | _ \<Rightarrow> False)"

definition classify_smspool_failure :: "bool \<Rightarrow> string \<Rightarrow> jval option \<Rightarrow> purchase_error" where
  "classify_smspool_failure server_error body json =
     (let lower = to_ascii_lowercase body;
          kind = to_ascii_uppercase (value_key_or_null (Option.bind json (\<lambda>v. jv_get v ''type'')))
      in if kind = ''OUT_OF_STOCK'' \<or> contains ''out_of_stock'' lower \<or> contains ''out of stock'' lower \<or>
           contains ''available'' lower \<or> contains ''stock'' lower \<and> \<not> contains ''balance'' lower
         then refused copy_out_of_stock
         else if kind = ''BALANCE_ERROR'' \<or> contains ''balance'' lower \<or> contains ''funds'' lower \<or> contains ''no money'' lower
         then refused copy_source_unavailable
         else if server_error then Ambiguous
         else refused copy_buy_restored)"

definition smspool_error_from_json :: "jval \<Rightarrow> purchase_error option" where
  "smspool_error_from_json body =
     (let kind = to_ascii_uppercase (value_key_or_null (jv_get body ''type''));
          message = value_key_or_null (jv_get body ''message'')
      in if \<not> json_success_zero body \<and> kind = [] then None
         else Some (classify_smspool_failure False (kind @ '' '' @ message) (Some body)))"

section \<open>Buying, checking, cancelling\<close>

record smspool_order =
  so_orderid :: "string option"
  so_order_id :: "string option"
  so_phonenumber :: "string option"
  so_number :: "string option"
  so_cost :: "decimal option"
  so_price :: "decimal option"

definition read_smspool_order :: "supplier_wire \<Rightarrow> jval \<Rightarrow> smspool_order option" where
  "read_smspool_order w v =
     (case v of
        JvObj _ \<Rightarrow>
          Option.bind (field_opt jv_str v ''orderid'') (\<lambda>a.
          Option.bind (field_opt jv_str v ''order_id'') (\<lambda>b.
          Option.bind (field_opt jv_str v ''phonenumber'') (\<lambda>c.
          Option.bind (field_opt jv_str v ''number'') (\<lambda>d.
          Option.bind (field_opt (sw_decimal w) v ''cost'') (\<lambda>e.
          Option.bind (field_opt (sw_decimal w) v ''price'') (\<lambda>f.
            Some \<lparr>so_orderid = a, so_order_id = b, so_phonenumber = c, so_number = d, so_cost = e, so_price = f\<rparr>))))))
      | _ \<Rightarrow> None)"

definition or_else :: "'a option \<Rightarrow> 'a option \<Rightarrow> 'a option" where
  "or_else a b = (case a of Some x \<Rightarrow> Some x | None \<Rightarrow> b)"

definition smspool_assigned :: "supplier_wire \<Rightarrow> string \<Rightarrow> smspool_order \<Rightarrow> purchase_error + activation" where
  "smspool_assigned w currency order =
     (case non_empty (or_else (so_orderid order) (so_order_id order)) of
        None \<Rightarrow> Inl Ambiguous
      | Some order_id \<Rightarrow>
          (let phone = (case or_else (so_phonenumber order) (so_number order) of None \<Rightarrow> [] | Some p \<Rightarrow> p)
           in if phone = [] then Inl Ambiguous
              else Inr \<lparr>av_provider_order_id = order_id, av_phone = phone,
                av_cost = or_else (so_cost order) (so_price order), av_cost_currency = Some currency,
                av_expires_at = Some (sw_now w + minutes 20)\<rparr>))"

definition smspool_buy :: "supplier_wire \<Rightarrow> string \<Rightarrow> supplier_reply \<Rightarrow> purchase_error + activation" where
  "smspool_buy w currency reply =
     (case reply of
        Answered st body \<Rightarrow>
          if \<not> is_success st
          then Inl (classify_smspool_failure (is_server_error st) (case body of None \<Rightarrow> [] | Some b \<Rightarrow> b) None)
          else (case Option.bind body (sw_json w) of
             None \<Rightarrow> Inl Ambiguous
           | Some v \<Rightarrow>
               (case smspool_error_from_json v of
                  Some err \<Rightarrow> Inl err
                | None \<Rightarrow>
                    (case read_smspool_order w v of
                       None \<Rightarrow> Inl Ambiguous
                     | Some order \<Rightarrow> smspool_assigned w currency order)))
      | failed \<Rightarrow> Inl (classify_buy_transport failed))"

definition plain_sms :: "string \<Rightarrow> string option \<Rightarrow> sms" where
  "plain_sms text code = \<lparr>sms_sender = None, sms_body = text, sms_code_of = code, sms_received_at = None,
     sms_provider_id = None\<rparr>"

definition parse_smspool_check :: "jval \<Rightarrow> activation_check" where
  "parse_smspool_check body =
     (let status = or_else (Option.bind (jv_get body ''status'') jv_i64)
            (Option.bind (Option.bind (jv_get body ''status'') jv_str) parse_i64);
          code = trimmed_text (jv_get_or body [''sms'', ''code'']);
          full = trimmed_text (jv_get body ''full_sms'')
      in \<lparr>ck_messages = (case code of
             Some c \<Rightarrow> [plain_sms (case full of Some t \<Rightarrow> t | None \<Rightarrow> c) (Some c)]
           | None \<Rightarrow> (case full of Some t \<Rightarrow> [plain_sms t None] | None \<Rightarrow> [])),
          ck_lifecycle = (if status \<in> {Some 3, Some 5, Some 6} then Closed else Open),
          ck_expires_at = None\<rparr>)"

definition check_failed :: api_error where
  "check_failed = ServiceUnavailable ''We couldn't check that number just now.''"

definition smspool_check :: "supplier_wire \<Rightarrow> supplier_reply \<Rightarrow> api_error + activation_check" where
  "smspool_check w reply =
     (case reply of
        Answered st (Some b) \<Rightarrow>
          if \<not> is_success st then Inl check_failed
          else (case sw_json w b of None \<Rightarrow> Inl check_failed | Some v \<Rightarrow> Inr (parse_smspool_check v))
      | _ \<Rightarrow> Inl check_failed)"

definition smspool_cancel :: "supplier_reply \<Rightarrow> api_error + unit" where
  "smspool_cancel reply =
     (case reply of
        Answered st _ \<Rightarrow>
          if \<not> is_success st
          then Inl (ServiceUnavailable ''That number can't be released just yet. Try again in a moment.'')
          else Inr ()
      | _ \<Rightarrow> Inl (ServiceUnavailable ''We couldn't release that number.''))"

section \<open>Services and countries\<close>

definition service_map :: "(string \<times> string) list" where
  "service_map =
     [(''whatsapp'', ''whatsapp''), (''telegram'', ''telegram''), (''instagram'', ''instagram''),
      (''facebook'', ''facebook''), (''tiktok'', ''tiktok''), (''google'', ''google''), (''twitter'', ''x''),
      (''x.com'', ''x''), (''discord'', ''discord''), (''apple'', ''apple''), (''uber'', ''uber''),
      (''tinder'', ''tinder''), (''amazon'', ''amazon'')]"

definition map_service :: "string \<Rightarrow> string option" where
  "map_service name =
     map_option snd (List.find (\<lambda>(needle, _). contains needle (to_ascii_lowercase name)) service_map)"

definition map_service_score :: "string \<Rightarrow> string \<Rightarrow> nat" where
  "map_service_score name slug =
     (let n = to_ascii_lowercase name; needle = (if slug = ''x'' then ''twitter'' else slug)
      in if n = needle then 0 else if prefix needle n then 1 else 2)"

definition map_country :: "string \<Rightarrow> string option" where
  "map_country name =
     map_of
       [(''nigeria'', ''NG''), (''ng'', ''NG''), (''united states'', ''US''), (''usa'', ''US''), (''us'', ''US''),
        (''united kingdom'', ''GB''), (''england'', ''GB''), (''gb'', ''GB''), (''uk'', ''GB''), (''ghana'', ''GH''),
        (''gh'', ''GH''), (''south africa'', ''ZA''), (''za'', ''ZA''), (''kenya'', ''KE''), (''ke'', ''KE'')]
       (to_ascii_lowercase name)"

record mapped_service =
  ms_slug :: string
  ms_provider_id :: string

text \<open>One row of the service list: its slug, and its rank for that slug with its id.\<close>

record candidate =
  cd_score :: nat
  cd_number :: nat
  cd_provider_id :: string

definition service_candidate :: "jval \<Rightarrow> (string \<times> candidate) option" where
  "service_candidate row =
     (let name = (case Option.bind (jv_get row ''name'') jv_str of None \<Rightarrow> [] | Some n \<Rightarrow> n) in
      case map_service name of
        None \<Rightarrow> None
      | Some slug \<Rightarrow>
          (case non_empty (map_option value_key (jv_get_or row [''ID'', ''id''])) of
             None \<Rightarrow> None
           | Some provider_id \<Rightarrow>
               Some (slug, \<lparr>cd_score = map_service_score name slug,
                 cd_number = (case parse_unsigned (2 ^ 64) provider_id of None \<Rightarrow> 2 ^ 64 - 1 | Some n \<Rightarrow> n),
                 cd_provider_id = provider_id\<rparr>)))"

definition better :: "candidate \<Rightarrow> candidate \<Rightarrow> bool" where
  "better c b \<longleftrightarrow> cd_score c < cd_score b \<or> cd_score c = cd_score b \<and> cd_number c < cd_number b"

definition keep_best :: "string \<times> candidate \<Rightarrow> (string \<times> candidate) list \<Rightarrow> (string \<times> candidate) list" where
  "keep_best = (\<lambda>(slug, c) best.
     (case map_of best slug of
        Some b \<Rightarrow> if better c b then AList.update slug c best else best
      | None \<Rightarrow> AList.update slug c best))"

definition select_mapped_services :: "jval list \<Rightarrow> mapped_service list" where
  "select_mapped_services rows =
     map (\<lambda>(slug, c). \<lparr>ms_slug = slug, ms_provider_id = cd_provider_id c\<rparr>)
       (sort_key fst (fold keep_best (List.map_filter service_candidate rows) []))"

section \<open>SKUs\<close>

definition country_code_from_success_row :: "crates \<Rightarrow> jval \<Rightarrow> string option" where
  "country_code_from_success_row cr row =
     or_else (map_option (cr_to_uppercase cr) (Option.bind (jv_get_or row [''short_name'', ''country_code'', ''iso'']) jv_str))
       (Option.bind (Option.bind (jv_get row ''name'') jv_str) map_country)"

definition success_sku :: "crates \<Rightarrow> string \<Rightarrow> string \<Rightarrow> string \<Rightarrow> jval \<Rightarrow> offer_sku option" where
  "success_sku cr slug provider_product currency row =
     (case country_code_from_success_row cr row of
        None \<Rightarrow> None
      | Some country_code \<Rightarrow>
          (let provider_country = (case non_empty (map_option value_key (jv_get_or row [''country_id'', ''country''])) of
                 Some c \<Rightarrow> c | None \<Rightarrow> country_code);
               stock = (case Option.bind (jv_get_or row [''stock'', ''amount'']) jv_i64 of Some n \<Rightarrow> n | None \<Rightarrow> 0)
           in if stock \<le> 0 then None
              else (case Option.bind (jv_get_or row [''price'', ''low_price'', ''cost'']) (as_decimal cr) of
                 None \<Rightarrow> None
               | Some cost \<Rightarrow>
                   (case Option.bind (Option.bind (jv_get_or row [''success_rate'', ''rate'', ''success'']) (as_decimal cr))
                       parse_success_rate of
                      None \<Rightarrow> None
                    | Some rate \<Rightarrow>
                        Some \<lparr>ku_provider = ''smspool'', ku_product_slug = slug, ku_country_code = country_code,
                          ku_product = provider_product, ku_country = provider_country, ku_operator = None,
                          ku_cost = cost, ku_currency = currency, ku_rate = rate, ku_stock = saturate_i32 stock\<rparr>))))"

definition skus_from_success_rows :: "crates \<Rightarrow> string \<Rightarrow> string \<Rightarrow> string \<Rightarrow> jval list \<Rightarrow> offer_sku list" where
  "skus_from_success_rows cr slug provider_product currency rows =
     List.map_filter (success_sku cr slug provider_product currency) rows"

text \<open>The listing: every service's rows, and an error (\<open>None\<close>) as soon as one cannot be read.\<close>

definition read_json :: "supplier_wire \<Rightarrow> supplier_reply \<Rightarrow> jval option" where
  "read_json w reply =
     (case reply of Answered st (Some b) \<Rightarrow> if is_success st then sw_json w b else None | _ \<Rightarrow> None)"

definition success_rows :: "jval \<Rightarrow> jval list" where
  "success_rows body =
     (case or_else (jv_array body) (Option.bind (jv_get body ''data'') jv_array) of Some rows \<Rightarrow> rows | None \<Rightarrow> [])"

definition smspool_skus :: "crates \<Rightarrow> supplier_wire \<Rightarrow> string \<Rightarrow> supplier_reply \<Rightarrow> (string \<Rightarrow> supplier_reply) \<Rightarrow>
    offer_sku list option" where
  "smspool_skus cr w currency services success =
     (case read_json w services of
        None \<Rightarrow> None
      | Some body \<Rightarrow>
          (let mapped = select_mapped_services (case jv_array body of Some rows \<Rightarrow> rows | None \<Rightarrow> [])
           in if mapped = [] then None
              else map_option concat (read_all (\<lambda>s. map_option
                (\<lambda>v. skus_from_success_rows cr (ms_slug s) (ms_provider_id s) currency (success_rows v))
                (read_json w (success (ms_provider_id s)))) mapped)))"

definition smspool_balance :: "crates \<Rightarrow> supplier_wire \<Rightarrow> supplier_reply \<Rightarrow> decimal option" where
  "smspool_balance cr w reply =
     Option.bind (read_json w reply) (\<lambda>body. Option.bind (jv_get_or body [''balance'', ''Balance'']) (as_decimal cr))"

end
