(* ===== verification/Activate.thy ===== *)
theory Activate
  imports Smspool
begin

text \<open>
  The adapter of the suppliers that speak \<open>handler_api.php\<close>, \<open>crates/api/src/number_activate.rs\<close>: plain
  words for purchases and checks, JSON for the catalogue. A request's reply is an argument.
\<close>

datatype activate_flavor = SmsActivate | SmsHub | TigerSms | DaisySms

fun flavor_provider :: "activate_flavor \<Rightarrow> string" where
  "flavor_provider SmsActivate = ''smsactivate''"
| "flavor_provider SmsHub = ''smshub''"
| "flavor_provider TigerSms = ''tigersms''"
| "flavor_provider DaisySms = ''daisysms''"

fun default_base :: "activate_flavor \<Rightarrow> string" where
  "default_base SmsActivate = ''https://api.sms-activate.ae/stubs/handler_api.php''"
| "default_base SmsHub = ''https://smshub.org/stubs/handler_api.php''"
| "default_base TigerSms = ''https://api.tiger-sms.com/stubs/handler_api.php''"
| "default_base DaisySms = ''https://daisysms.com/stubs/handler_api.php''"

definition flavor_parse :: "string \<Rightarrow> activate_flavor option" where
  "flavor_parse name =
     (let n = to_ascii_lowercase (trim name) in
      if n = ''smsactivate'' \<or> n = ''sms-activate'' then Some SmsActivate
      else if n = ''smshub'' then Some SmsHub
      else if n = ''tigersms'' \<or> n = ''tiger-sms'' then Some TigerSms
      else if n = ''daisysms'' \<or> n = ''daisy-sms'' then Some DaisySms
      else None)"

fun default_currency :: "activate_flavor \<Rightarrow> string" where
  "default_currency DaisySms = ''USD''"
| "default_currency _ = ''RUB''"

definition unproven_success_rate :: decimal where
  "unproven_success_rate = 50"

section \<open>Buying\<close>

text \<open>\<open>error_for_status\<close> turns client and server errors into errors.\<close>

definition activate_get :: "supplier_reply \<Rightarrow> supplier_reply + string" where
  "activate_get reply =
     (case reply of
        Answered st (Some b) \<Rightarrow> if is_client_error st \<or> is_server_error st then Inl reply else Inr b
      | _ \<Rightarrow> Inl reply)"

definition normalise_phone :: "string \<Rightarrow> string" where
  "normalise_phone raw =
     (let digits = filter is_ascii_digit raw in if digits = [] then raw else CHR ''+'' # digits)"

definition classify_activate_error :: "string \<Rightarrow> purchase_error" where
  "classify_activate_error token =
     (let upper = to_ascii_uppercase (trim token) in
      if upper \<in> set [''NO_NUMBERS'', ''NO_NUMBER''] then refused copy_out_of_stock
      else if upper \<in> set [''NO_BALANCE'', ''NO_MONEY'', ''NO_BALANCE_FORWARD''] then refused copy_source_unavailable
      else if upper \<in> set [''BAD_KEY'', ''BAD_ACTION'', ''BAD_SERVICE'', ''WRONG_SERVICE'', ''WRONG_COUNTRY'',
           ''BAD_STATUS'', ''ERROR_NO_KEY'', ''WRONG_MAX_PRICE'', ''ACCOUNT_INACTIVE''] then refused copy_source_unavailable
      else Ambiguous)"

definition parse_buy :: "string \<Rightarrow> purchase_error + activation" where
  "parse_buy body =
     (let trimmed = trim body in
      if prefix ''ACCESS_NUMBER:'' trimmed
      then (let rest = drop 14 trimmed;
                (l, r) = (case split_once (CHR '':'') rest of Some p \<Rightarrow> p | None \<Rightarrow> (rest, []));
                i = trim l; phone = trim r
            in if i = [] \<or> phone = [] then Inl Ambiguous
               else Inr \<lparr>av_provider_order_id = i, av_phone = normalise_phone phone, av_cost = None,
                 av_cost_currency = None, av_expires_at = None\<rparr>)
      else Inl (classify_activate_error trimmed))"

definition activate_buy :: "string \<Rightarrow> supplier_reply \<Rightarrow> purchase_error + activation" where
  "activate_buy currency reply =
     (case activate_get reply of
        Inl failed \<Rightarrow> Inl (classify_buy_transport failed)
      | Inr body \<Rightarrow>
          (case parse_buy body of
             Inr a \<Rightarrow> Inr (a\<lparr>av_cost_currency := Some currency\<rparr>)
           | Inl err \<Rightarrow> Inl err))"

section \<open>Checking and cancelling\<close>

definition parse_status :: "instant \<Rightarrow> string \<Rightarrow> activation_check" where
  "parse_status now body =
     (let trimmed = trim body in
      if prefix ''STATUS_OK:'' trimmed
      then (let code = trim (drop 10 trimmed) in
            if code = [] then check_open
            else \<lparr>ck_messages = [\<lparr>sms_sender = None, sms_body = code, sms_code_of = Some code,
                   sms_received_at = Some now, sms_provider_id = None\<rparr>],
                 ck_lifecycle = Closed, ck_expires_at = None\<rparr>)
      else if to_ascii_uppercase trimmed \<in> set [''STATUS_CANCEL'', ''ACCESS_CANCEL'', ''STATUS_REVOKE'', ''NO_ACTIVATION'']
      then check_closed
      else check_open)"

definition supplier_unreachable :: api_error where
  "supplier_unreachable = ServiceUnavailable ''We couldn't reach the number supplier.''"

definition activate_check :: "instant \<Rightarrow> supplier_reply \<Rightarrow> api_error + activation_check" where
  "activate_check now reply =
     (case activate_get reply of Inl _ \<Rightarrow> Inl supplier_unreachable | Inr body \<Rightarrow> Inr (parse_status now body))"

definition activate_cancel :: "supplier_reply \<Rightarrow> api_error + unit" where
  "activate_cancel reply =
     (case activate_get reply of Inl _ \<Rightarrow> Inl supplier_unreachable | Inr _ \<Rightarrow> Inr ())"

section \<open>The catalogue\<close>

definition text_or_empty :: "jval option \<Rightarrow> string" where
  "text_or_empty v = (case Option.bind v jv_str of Some s \<Rightarrow> s | None \<Rightarrow> [])"

definition activate_countries :: "jval \<Rightarrow> (string \<times> string) list" where
  "activate_countries raw =
     (case jv_object raw of
        None \<Rightarrow> []
      | Some rows \<Rightarrow> List.map_filter (\<lambda>(i, row). map_option (Pair i)
          (map_country (text_or_empty (jv_get_or row [''eng'', ''name''])))) rows)"

text \<open>The first mapping of a service code wins.\<close>

definition activate_services :: "jval \<Rightarrow> (string \<times> string) list" where
  "activate_services raw =
     fold (\<lambda>row out. (let code = text_or_empty (jv_get row ''code'') in
         if code = [] then out
         else (case map_service (text_or_empty (jv_get row ''name'')) of
            None \<Rightarrow> out
          | Some slug \<Rightarrow> if map_of out code = None then out @ [(code, slug)] else out)))
       (case Option.bind (jv_get raw ''services'') jv_array of Some rows \<Rightarrow> rows | None \<Rightarrow> []) []"

definition trunc_to_i32 :: "decimal \<Rightarrow> int option" where
  "trunc_to_i32 d =
     (let n = (if 0 \<le> d then \<lfloor>d\<rfloor> else \<lceil>d\<rceil>) in if - (2 ^ 31) \<le> n \<and> n < 2 ^ 31 then Some n else None)"

definition price_sku :: "crates \<Rightarrow> string \<Rightarrow> string \<Rightarrow> (string \<times> string) list \<Rightarrow> string \<Rightarrow> string \<Rightarrow> string \<times> jval \<Rightarrow>
    offer_sku option" where
  "price_sku cr provider currency services country_id country_code = (\<lambda>(service_code, row).
     (case map_of services service_code of
        None \<Rightarrow> None
      | Some slug \<Rightarrow>
          (case Option.bind (jv_get row ''cost'') (as_decimal cr) of
             None \<Rightarrow> None
           | Some cost \<Rightarrow>
               (let stock = (case Option.bind (Option.bind (jv_get row ''count'') (as_decimal cr)) trunc_to_i32 of
                      Some n \<Rightarrow> n | None \<Rightarrow> 0)
                in if cost \<le> 0 \<or> stock \<le> 0 then None
                   else Some \<lparr>ku_provider = provider, ku_product_slug = slug, ku_country_code = country_code,
                     ku_product = service_code, ku_country = country_id, ku_operator = None, ku_cost = cost,
                     ku_currency = currency, ku_rate = unproven_success_rate, ku_stock = stock\<rparr>))))"

definition skus_from_prices :: "crates \<Rightarrow> string \<Rightarrow> jval \<Rightarrow> (string \<times> string) list \<Rightarrow> (string \<times> string) list \<Rightarrow> string \<Rightarrow>
    offer_sku list" where
  "skus_from_prices cr provider prices' countries' services currency =
     (case jv_object prices' of
        None \<Rightarrow> []
      | Some by_country \<Rightarrow>
          sort_key ku_country_code (sort_key ku_product_slug (sort_key ku_product
            (concat (map (\<lambda>(country_id, offered).
               (case (map_of countries' country_id, jv_object offered) of
                  (Some country_code, Some by_service) \<Rightarrow>
                    List.map_filter (price_sku cr provider currency services country_id country_code) by_service
                | _ \<Rightarrow> [])) by_country)))))"

text \<open>An answer that is not JSON, no country or no service is an error (\<open>None\<close>).\<close>

definition activate_json :: "supplier_wire \<Rightarrow> supplier_reply \<Rightarrow> jval option" where
  "activate_json w reply = (case activate_get reply of Inl _ \<Rightarrow> None | Inr body \<Rightarrow> sw_json w body)"

definition activate_skus :: "crates \<Rightarrow> supplier_wire \<Rightarrow> activate_flavor \<Rightarrow> string \<Rightarrow> (string \<Rightarrow> supplier_reply) \<Rightarrow>
    offer_sku list option" where
  "activate_skus cr w flavor currency ask =
     Option.bind (activate_json w (ask ''getCountries'')) (\<lambda>cs.
     if activate_countries cs = [] then None
     else Option.bind (activate_json w (ask ''getServicesList'')) (\<lambda>ss.
     if activate_services ss = [] then None
     else Option.bind (activate_json w (ask ''getPrices'')) (\<lambda>ps.
       Some (skus_from_prices cr (flavor_provider flavor) ps (activate_countries cs) (activate_services ss) currency))))"

end
