(* ===== verification/Fivesim.thy ===== *)
theory Fivesim
  imports Smspool
begin

text \<open>
  The 5SIM adapter and the stub of \<open>crates/api/src/number_provider.rs\<close>: reading an order, buying with
  its fallbacks, recovering a recent purchase, checking and cancelling. A request's reply is an argument.
  An order is read from a JSON object.
\<close>

section \<open>Reading an order\<close>

record fivesim_sms =
  fs_text :: string
  fs_code :: "jval option"
  fs_sender :: "string option"
  fs_date :: "string option"
  fs_created_at :: "string option"
  fs_id :: "jval option"

record fivesim_order =
  fo_id :: jval
  fo_phone :: string
  fo_price :: "jval option"
  fo_expires :: "string option"
  fo_status :: string
  fo_sms :: "fivesim_sms list"
  fo_country :: "string option"
  fo_product :: "string option"

definition read_fivesim_sms :: "jval \<Rightarrow> fivesim_sms option" where
  "read_fivesim_sms v =
     (case v of
        JvObj _ \<Rightarrow>
          Option.bind (field_or [] jv_str v ''text'') (\<lambda>text.
          Option.bind (field_opt Some v ''code'') (\<lambda>code.
          Option.bind (field_opt jv_str v ''sender'') (\<lambda>sender.
          Option.bind (field_opt jv_str v ''date'') (\<lambda>date.
          Option.bind (field_opt jv_str v ''created_at'') (\<lambda>created.
          Option.bind (field_opt Some v ''id'') (\<lambda>i.
            Some \<lparr>fs_text = text, fs_code = code, fs_sender = sender, fs_date = date, fs_created_at = created, fs_id = i\<rparr>))))))
      | _ \<Rightarrow> None)"

definition read_fivesim_order :: "jval \<Rightarrow> fivesim_order option" where
  "read_fivesim_order v =
     (case v of
        JvObj _ \<Rightarrow>
          Option.bind (jv_get v ''id'') (\<lambda>i.
          Option.bind (Option.bind (jv_get v ''phone'') jv_str) (\<lambda>phone.
          Option.bind (field_opt Some v ''price'') (\<lambda>price.
          Option.bind (field_opt jv_str v ''expires'') (\<lambda>expires.
          Option.bind (field_or [] jv_str v ''status'') (\<lambda>status.
          Option.bind (field_or [] (\<lambda>x. Option.bind (jv_array x) (read_all read_fivesim_sms)) v ''sms'') (\<lambda>smses.
          Option.bind (field_opt jv_str v ''country'') (\<lambda>country.
          Option.bind (field_opt jv_str v ''product'') (\<lambda>product.
            Some \<lparr>fo_id = i, fo_phone = phone, fo_price = price, fo_expires = expires, fo_status = status,
              fo_sms = smses, fo_country = country, fo_product = product\<rparr>))))))))
      | _ \<Rightarrow> None)"

definition fivesim_order_list :: "jval \<Rightarrow> fivesim_order list option" where
  "fivesim_order_list v = Option.bind (Option.bind (jv_get v ''Data'') jv_array) (read_all read_fivesim_order)"

definition json_id :: "jval \<Rightarrow> string option" where
  "json_id v = (case v of JvNum _ _ _ t \<Rightarrow> Some t | JvStr s \<Rightarrow> (if s = [] then None else Some s) | _ \<Rightarrow> None)"

definition fivesim_price :: "crates \<Rightarrow> jval option \<Rightarrow> decimal option" where
  "fivesim_price cr v =
     (case v of Some (JvNum _ _ _ t) \<Rightarrow> cr_parse_decimal cr t | Some (JvStr s) \<Rightarrow> cr_parse_decimal cr s | _ \<Rightarrow> None)"

definition json_code :: "jval option \<Rightarrow> string option" where
  "json_code v =
     (case v of
        Some (JvStr s) \<Rightarrow> (let t = trim s in if t = [] then None else Some t)
      | Some (JvNum _ _ _ t) \<Rightarrow> Some t
      | _ \<Rightarrow> None)"

text \<open>A time \<open>chrono\<close> does not read is tried again with six digits after the first dot.\<close>

definition six_digits :: "string \<Rightarrow> string" where
  "six_digits ds = take 6 ds @ replicate (6 - length ds) (CHR ''0'')"

definition parse_rfc3339_loose :: "supplier_wire \<Rightarrow> string \<Rightarrow> instant option" where
  "parse_rfc3339_loose w raw =
     (case sw_rfc3339 w raw of
        Some t \<Rightarrow> Some t
      | None \<Rightarrow>
          (case split_once (CHR ''.'') raw of
             None \<Rightarrow> None
           | Some (head, rest) \<Rightarrow>
               (let digits = takeWhile is_ascii_digit rest; tz = dropWhile is_ascii_digit rest
                in if digits = [] then None else sw_rfc3339 w (head @ ''.'' @ six_digits digits @ tz))))"

definition activation_from_order :: "crates \<Rightarrow> supplier_wire \<Rightarrow> string option \<Rightarrow> fivesim_order \<Rightarrow> activation option" where
  "activation_from_order cr w currency order =
     (case json_id (fo_id order) of
        None \<Rightarrow> None
      | Some provider_order_id \<Rightarrow>
          if trim (fo_phone order) = [] then None
          else Some \<lparr>av_provider_order_id = provider_order_id, av_phone = fo_phone order,
            av_cost = fivesim_price cr (fo_price order), av_cost_currency = currency,
            av_expires_at = Option.bind (fo_expires order) (parse_rfc3339_loose w)\<rparr>)"

definition sms_of_fivesim :: "supplier_wire \<Rightarrow> fivesim_sms \<Rightarrow> sms" where
  "sms_of_fivesim w s =
     \<lparr>sms_sender = fs_sender s, sms_body = fs_text s, sms_code_of = json_code (fs_code s),
      sms_received_at = or_else (Option.bind (fs_date s) (parse_rfc3339_loose w))
        (Option.bind (fs_created_at s) (parse_rfc3339_loose w)),
      sms_provider_id = Option.bind (fs_id s) json_id\<rparr>"

definition fivesim_activation_check :: "supplier_wire \<Rightarrow> fivesim_order \<Rightarrow> activation_check" where
  "fivesim_activation_check w order =
     \<lparr>ck_messages = map (sms_of_fivesim w) (fo_sms order),
      ck_lifecycle = (if to_ascii_uppercase (fo_status order) \<in>
          set [''FINISHED'', ''TIMEOUT'', ''CANCELED'', ''CANCELLED'', ''BANNED''] then Closed else Open),
      ck_expires_at = Option.bind (fo_expires order) (parse_rfc3339_loose w)\<rparr>"

section \<open>Buying\<close>

definition classify_fivesim_plain_body :: "string \<Rightarrow> purchase_error option" where
  "classify_fivesim_plain_body body =
     (let trimmed = trim body; lower = to_ascii_lowercase trimmed in
      if trimmed = [] \<or> prefix ''{'' trimmed \<or> prefix ''['' trimmed then None
      else if contains ''no free phones'' lower \<or> contains ''no product'' lower then Some (refused copy_out_of_stock)
      else if contains ''not enough user balance'' lower then Some (refused copy_source_unavailable)
      else Some (refused copy_buy_restored))"

definition fivesim_refusal :: "nat \<Rightarrow> string \<Rightarrow> purchase_error" where
  "fivesim_refusal st body =
     (let message = (if contains ''no free phones'' body \<or> contains ''no product'' body then copy_out_of_stock
            else if contains ''not enough user balance'' body then copy_source_unavailable
            else copy_buy_restored)
      in if is_server_error st then Ambiguous else refused message)"

definition recover_recent_buy :: "crates \<Rightarrow> supplier_wire \<Rightarrow> string option \<Rightarrow> supplier_reply \<Rightarrow> string \<Rightarrow> string \<Rightarrow>
    activation option" where
  "recover_recent_buy cr w currency recent country product =
     (case Option.bind (read_json w recent) fivesim_order_list of
        None \<Rightarrow> None
      | Some listed \<Rightarrow>
          List.find (\<lambda>_. True) (List.map_filter (\<lambda>order.
            if (case fo_country order of Some c \<Rightarrow> eq_ignore_ascii_case c country | None \<Rightarrow> False) \<and>
               (case fo_product order of Some p \<Rightarrow> eq_ignore_ascii_case p product | None \<Rightarrow> False)
            then activation_from_order cr w currency order else None) listed))"

definition fivesim_purchase :: "crates \<Rightarrow> supplier_wire \<Rightarrow> string option \<Rightarrow> supplier_reply \<Rightarrow> supplier_reply \<Rightarrow> string \<Rightarrow>
    string \<Rightarrow> purchase_error + activation" where
  "fivesim_purchase cr w currency reply recent country product =
     (case reply of
        Answered st (Some body) \<Rightarrow>
          if \<not> is_success st then Inl (fivesim_refusal st body)
          else (case classify_fivesim_plain_body body of
             Some err \<Rightarrow> Inl err
           | None \<Rightarrow>
               (case Option.bind (Option.bind (sw_json w body) read_fivesim_order) (activation_from_order cr w currency) of
                  Some a \<Rightarrow> Inr a
                | None \<Rightarrow>
                    (case recover_recent_buy cr w currency recent country product of
                       Some a \<Rightarrow> Inr a
                     | None \<Rightarrow> Inl Ambiguous)))
      | Answered st None \<Rightarrow> Inl Ambiguous
      | failed \<Rightarrow> Inl (classify_buy_transport failed))"

definition any_operator :: string where "any_operator = ''any''"

text \<open>\<open>ask\<close> answers the purchase with an operator, \<open>recent\<close> the list of orders asked for after it.\<close>

definition fivesim_buy :: "crates \<Rightarrow> supplier_wire \<Rightarrow> string option \<Rightarrow> (string \<Rightarrow> supplier_reply) \<Rightarrow>
    (string \<Rightarrow> supplier_reply) \<Rightarrow> string \<Rightarrow> string \<Rightarrow> string \<Rightarrow> purchase_error + activation" where
  "fivesim_buy cr w currency ask recent country product operator =
     (let operator = (if trim operator = [] then any_operator else operator);
          first = fivesim_purchase cr w currency (ask operator) (recent operator) country product
      in case first of
           Inl err \<Rightarrow>
             if is_out_of_stock err \<and> \<not> eq_ignore_ascii_case operator any_operator
             then fivesim_purchase cr w currency (ask any_operator) (recent any_operator) country product
             else Inl err
         | Inr a \<Rightarrow> Inr a)"

section \<open>Checking and cancelling\<close>

definition fivesim_check :: "supplier_wire \<Rightarrow> supplier_reply \<Rightarrow> api_error + activation_check" where
  "fivesim_check w reply =
     (case Option.bind (read_json w reply) read_fivesim_order of
        None \<Rightarrow> Inl check_failed
      | Some order \<Rightarrow> Inr (fivesim_activation_check w order))"

definition fivesim_cancel :: "supplier_reply \<Rightarrow> api_error + unit" where
  "fivesim_cancel reply =
     (case reply of
        Answered st _ \<Rightarrow>
          if \<not> is_success st
          then Inl (ServiceUnavailable (''That number can't be released just yet '' @ [CHR 0xE2, CHR 0x80, CHR 0x94] @
            '' try again in a moment.''))
          else Inr ()
      | _ \<Rightarrow> Inl (ServiceUnavailable ''We couldn't release that number.''))"

section \<open>The stub\<close>

definition stub_received :: activation_check where
  "stub_received = with_messages
     [\<lparr>sms_sender = Some ''Naivolt'', sms_body = ''Your code is 123456'', sms_code_of = Some ''123456'',
       sms_received_at = None, sms_provider_id = None\<rparr>] check_open"

text \<open>\<open>seed\<close> is the text of the identifier drawn.\<close>

definition stub_buy :: "instant \<Rightarrow> string \<Rightarrow> activation" where
  "stub_buy now seed =
     \<lparr>av_provider_order_id = ''stub-'' @ take 12 seed, av_phone = ''+000'' @ take 9 seed, av_cost = None,
      av_cost_currency = None, av_expires_at = Some (now + minutes 20)\<rparr>"

end
