(* ===== verification/Number_Providers.thy ===== *)
theory Number_Providers
  imports Activate Fivesim
begin

text \<open>
  The suppliers the shop was started with, \<open>NumberProviders\<close> of \<open>crates/api/src/number_provider.rs\<close>: which
  adapter buys, checks and cancels for a provider name. It is the \<open>supplier\<close> of the order model.
\<close>

section \<open>The configured suppliers\<close>

text \<open>What each supplier answers to the requests of its adapter.\<close>

record fivesim_conn =
  fc_currency :: "string option"
  fc_buy :: "string \<Rightarrow> string \<Rightarrow> string \<Rightarrow> supplier_reply"
  fc_recent :: "string \<Rightarrow> supplier_reply"
  fc_check :: "string \<Rightarrow> supplier_reply"
  fc_cancel :: "string \<Rightarrow> supplier_reply"

datatype primary_provider = FiveSim fivesim_conn | Stub "string \<Rightarrow> string \<Rightarrow> string"

record smspool_conn =
  sc_currency :: string
  sc_buy :: "string \<Rightarrow> string \<Rightarrow> supplier_reply"
  sc_check :: "string \<Rightarrow> supplier_reply"
  sc_cancel :: "string \<Rightarrow> supplier_reply"

record activate_conn =
  ac_flavor :: activate_flavor
  ac_currency :: string
  ac_buy :: "string \<Rightarrow> string \<Rightarrow> supplier_reply"
  ac_check :: "string \<Rightarrow> supplier_reply"
  ac_cancel :: "string \<Rightarrow> supplier_reply"

record number_providers =
  np_primary :: primary_provider
  np_smspool :: "smspool_conn option"
  np_activate :: "activate_conn list"

section \<open>The primary supplier\<close>

text \<open>\<open>AnyNumberProvider\<close>: 5SIM or the stub, whose identifiers come from the argument of \<open>Stub\<close>.\<close>

definition buy_with :: "crates \<Rightarrow> supplier_wire \<Rightarrow> primary_provider \<Rightarrow> string \<Rightarrow> string \<Rightarrow> string \<Rightarrow>
    purchase_error + activation" where
  "buy_with cr w p country product operator =
     (case p of
        FiveSim c \<Rightarrow> fivesim_buy cr w (fc_currency c) (\<lambda>op. fc_buy c country op product) (fc_recent c) country product operator
      | Stub seed \<Rightarrow> Inr (stub_buy (sw_now w) (seed country product)))"

definition primary_buy :: "crates \<Rightarrow> supplier_wire \<Rightarrow> primary_provider \<Rightarrow> string \<Rightarrow> string \<Rightarrow> purchase_error + activation" where
  "primary_buy cr w p country product = buy_with cr w p country product any_operator"

definition primary_check :: "supplier_wire \<Rightarrow> primary_provider \<Rightarrow> string \<Rightarrow> api_error + activation_check" where
  "primary_check w p order_id =
     (case p of FiveSim c \<Rightarrow> fivesim_check w (fc_check c order_id) | Stub _ \<Rightarrow> Inr stub_received)"

definition primary_cancel :: "primary_provider \<Rightarrow> string \<Rightarrow> api_error + unit" where
  "primary_cancel p order_id = (case p of FiveSim c \<Rightarrow> fivesim_cancel (fc_cancel c order_id) | Stub _ \<Rightarrow> Inr ())"

definition primary_is_live :: "primary_provider \<Rightarrow> bool" where
  "primary_is_live p = (case p of FiveSim _ \<Rightarrow> True | Stub _ \<Rightarrow> False)"

section \<open>By provider name\<close>

definition is_foreign_supplier :: "string \<Rightarrow> bool" where
  "is_foreign_supplier provider \<longleftrightarrow> flavor_parse provider \<noteq> None \<or> provider = ''smspool''"

definition providers_live :: "number_providers \<Rightarrow> bool" where
  "providers_live n \<longleftrightarrow> primary_is_live (np_primary n) \<or> np_smspool n \<noteq> None \<or> np_activate n \<noteq> []"

definition recover_activation :: "crates \<Rightarrow> supplier_wire \<Rightarrow> number_providers \<Rightarrow> string \<Rightarrow> string \<Rightarrow> activation option" where
  "recover_activation cr w n country product =
     (case np_primary n of
        FiveSim c \<Rightarrow> recover_recent_buy cr w (fc_currency c) (fc_recent c any_operator) country product
      | Stub _ \<Rightarrow> None)"

definition activate_named :: "number_providers \<Rightarrow> string \<Rightarrow> activate_conn option" where
  "activate_named n provider = List.find (\<lambda>c. flavor_provider (ac_flavor c) = provider) (np_activate n)"

definition buy_source :: "crates \<Rightarrow> supplier_wire \<Rightarrow> number_providers \<Rightarrow> string \<Rightarrow> string \<Rightarrow> string \<Rightarrow> string \<Rightarrow>
    purchase_error + activation" where
  "buy_source cr w n provider country product operator =
     (case activate_named n provider of
        Some c \<Rightarrow> activate_buy (ac_currency c) (ac_buy c country product)
      | None \<Rightarrow>
          if provider = ''smspool''
          then (case np_smspool n of
             Some pool \<Rightarrow> smspool_buy w (sc_currency pool) (sc_buy pool country product)
           | None \<Rightarrow> Inl (refused copy_out_of_stock))
          else if provider = ''fivesim'' then buy_with cr w (np_primary n) country product operator
          else if provider = ''stub'' then primary_buy cr w (np_primary n) country product
          else if is_foreign_supplier provider then Inl (refused copy_source_unavailable)
          else Inl (refused copy_buy_restored))"

definition check_for :: "supplier_wire \<Rightarrow> number_providers \<Rightarrow> string \<Rightarrow> string \<Rightarrow> api_error + activation_check" where
  "check_for w n provider order_id =
     (case activate_named n provider of
        Some c \<Rightarrow> activate_check (sw_now w) (ac_check c order_id)
      | None \<Rightarrow>
          if provider = ''smspool''
          then (case np_smspool n of
             Some pool \<Rightarrow> smspool_check w (sc_check pool order_id)
           | None \<Rightarrow> Inl (ServiceUnavailable ''That number isn't available to check right now.''))
          else if is_foreign_supplier provider
          then Inl (ServiceUnavailable ''That number isn't available to check right now.'')
          else primary_check w (np_primary n) order_id)"

definition cancel_for :: "number_providers \<Rightarrow> string \<Rightarrow> string \<Rightarrow> api_error + unit" where
  "cancel_for n provider order_id =
     (case activate_named n provider of
        Some c \<Rightarrow> activate_cancel (ac_cancel c order_id)
      | None \<Rightarrow>
          if provider = ''smspool''
          then (case np_smspool n of
             Some pool \<Rightarrow> smspool_cancel (sc_cancel pool order_id)
           | None \<Rightarrow> Inl (ServiceUnavailable ''That number isn't available to cancel right now.''))
          else if is_foreign_supplier provider
          then Inl (ServiceUnavailable ''That number isn't available to cancel right now.'')
          else primary_cancel (np_primary n) order_id)"

section \<open>The supplier of the order model\<close>

definition supplier_of :: "crates \<Rightarrow> supplier_wire \<Rightarrow> number_providers \<Rightarrow> supplier" where
  "supplier_of cr w n =
     \<lparr>sp_live = providers_live n, sp_primary_live = primary_is_live (np_primary n), sp_check = check_for w n,
      sp_cancel = cancel_for n, sp_recover = recover_activation cr w n,
      sp_buy = primary_buy cr w (np_primary n), sp_buy_source = buy_source cr w n\<rparr>"

end
