(* ===== verification/Supplier_Properties.thy ===== *)
theory Supplier_Properties
  imports Number_Providers Catalogue_Sync
begin

text \<open>
  What the adapters guarantee the orders: a purchase whose request was lost is never taken for a
  refusal, an order is only asked about at the supplier that sold it, and what they list fits the
  tables of the shop.
\<close>

section \<open>Purchases\<close>

text \<open>The request may have arrived, and what came of it is not known.\<close>

definition lost :: "supplier_reply \<Rightarrow> bool" where
  "lost r \<longleftrightarrow> r = RequestFailed \<or> (\<exists>st. is_success st \<and> r = Answered st None)"

text \<open>
  What the buying loop relies on in an adapter: a request that was not sent is refused, one that was
  lost is not, and a number that was bought has a phone.
\<close>

locale purchase_port =
  fixes buy :: "supplier_reply \<Rightarrow> purchase_error + activation"
  assumes unsent: "buy ConnectFailed = Inl (refused copy_buy_restored)"
    and cut: "buy RequestFailed = Inl Ambiguous"
    and unread: "is_success st \<Longrightarrow> buy (Answered st None) = Inl Ambiguous"
    and phone: "buy r = Inr a \<Longrightarrow> av_phone a \<noteq> []"
begin

lemma lost_ambiguous: "lost r \<Longrightarrow> buy r = Inl Ambiguous"
  using cut unread by (auto simp: lost_def)

lemma bought_answered:
  assumes "buy r = Inr a"
  shows "\<exists>st b. r = Answered st b \<and> (is_success st \<longrightarrow> b \<noteq> None)"
proof (cases r)
  case (Answered st b)
  then show ?thesis using assms unread [of st] by (cases b) auto
qed (use assms unsent cut in auto)

end

lemma success_no_error: "is_success st \<Longrightarrow> \<not> is_client_error st \<and> \<not> is_server_error st"
  by (simp add: is_success_def is_client_error_def is_server_error_def)

lemma normalise_phone_empty: "normalise_phone p = [] \<Longrightarrow> p = []"
  by (auto simp: normalise_phone_def Let_def split: if_splits)

lemma parse_buy_phone: "parse_buy b = Inr a \<Longrightarrow> av_phone a \<noteq> [] \<and> av_provider_order_id a \<noteq> []"
  unfolding parse_buy_def Let_def
  by (auto split: if_splits prod.splits option.splits dest: normalise_phone_empty)

lemma activation_phone: "activation_from_order cr w c order = Some a \<Longrightarrow> av_phone a \<noteq> []"
proof
  assume a: "activation_from_order cr w c order = Some a" "av_phone a = []"
  have "trim [] = []" by code_simp
  then show False using a by (auto simp: activation_from_order_def split: option.splits if_splits)
qed

lemma find_first: "List.find (\<lambda>_. True) xs = Some x \<Longrightarrow> x \<in> set xs"
  by (cases xs) auto

lemma recovered_phone: "recover_recent_buy cr w c recent country product = Some a \<Longrightarrow> av_phone a \<noteq> []"
proof -
  assume "recover_recent_buy cr w c recent country product = Some a"
  then obtain os where "List.find (\<lambda>_. True) (List.map_filter (\<lambda>order.
            if (case fo_country order of Some c \<Rightarrow> eq_ignore_ascii_case c country | None \<Rightarrow> False) \<and>
               (case fo_product order of Some p \<Rightarrow> eq_ignore_ascii_case p product | None \<Rightarrow> False)
            then activation_from_order cr w c order else None) os) = Some a"
    by (auto simp: recover_recent_buy_def split: option.splits)
  from find_first [OF this] obtain order where "activation_from_order cr w c order = Some a"
    unfolding map_filter_member by (metis option.distinct(1))
  then show "av_phone a \<noteq> []" by (rule activation_phone)
qed

interpretation activate_port: purchase_port "activate_buy currency"
proof
  fix r a
  assume "activate_buy currency r = Inr a"
  then obtain b a' where "parse_buy b = Inr a'" "a = a'\<lparr>av_cost_currency := Some currency\<rparr>"
    by (auto simp: activate_buy_def split: sum.splits)
  then show "av_phone a \<noteq> []" using parse_buy_phone by simp
qed (simp_all add: activate_buy_def activate_get_def classify_buy_transport_def)

lemma smspool_assigned_phone: "smspool_assigned w c v = Inr a \<Longrightarrow> av_phone a \<noteq> []"
  by (auto simp: smspool_assigned_def Let_def split: option.splits if_splits)

interpretation smspool_port: purchase_port "smspool_buy w currency"
proof
  fix r a
  assume "smspool_buy w currency r = Inr a"
  then obtain v where "smspool_assigned w currency v = Inr a"
    by (auto simp: smspool_buy_def split: supplier_reply.splits option.splits if_splits)
  then show "av_phone a \<noteq> []" by (rule smspool_assigned_phone)
qed (simp_all add: smspool_buy_def classify_buy_transport_def)

interpretation fivesim_port: purchase_port "\<lambda>r. fivesim_purchase cr w currency r recent country product"
proof
  fix r a
  assume "fivesim_purchase cr w currency r recent country product = Inr a"
  then have "(\<exists>order. activation_from_order cr w currency order = Some a) \<or>
      recover_recent_buy cr w currency recent country product = Some a"
    by (auto simp: fivesim_purchase_def bind_eq_Some_conv split: supplier_reply.splits option.splits if_splits)
  then show "av_phone a \<noteq> []" using activation_phone recovered_phone by blast
qed (simp_all add: fivesim_purchase_def classify_buy_transport_def)

definition named_operator :: "string \<Rightarrow> string" where
  "named_operator operator = (if trim operator = [] then any_operator else operator)"

text \<open>The purchase from the source was sent to its supplier and lost.\<close>

definition lost_at :: "number_providers \<Rightarrow> offer_source \<Rightarrow> bool" where
  "lost_at n s \<longleftrightarrow>
     (case activate_named n (os_provider s) of
        Some c \<Rightarrow> lost (ac_buy c (os_country s) (os_product s))
      | None \<Rightarrow>
          if os_provider s = ''smspool''
          then (case np_smspool n of None \<Rightarrow> False | Some pool \<Rightarrow> lost (sc_buy pool (os_country s) (os_product s)))
          else os_provider s = ''fivesim'' \<and>
            (case np_primary n of
               FiveSim c \<Rightarrow> lost (fc_buy c (os_country s) (named_operator (os_operator s)) (os_product s))
             | Stub _ \<Rightarrow> False))"

lemma lost_source_ambiguous:
  assumes "lost_at n s"
  shows "buy_source cr w n (os_provider s) (os_country s) (os_product s) (os_operator s) = Inl Ambiguous"
proof -
  have five: "fivesim_buy cr w cur (\<lambda>op. fc_buy c country op product) recent country product operator = Inl Ambiguous"
    if l: "lost (fc_buy c country (named_operator operator) product)" for c country product operator cur recent
    using fivesim_port.lost_ambiguous [OF l]
    by (simp add: fivesim_buy_def Let_def is_out_of_stock_def flip: named_operator_def)
  show ?thesis
    using assms unfolding lost_at_def buy_source_def buy_with_def
    by (auto simp: activate_port.lost_ambiguous smspool_port.lost_ambiguous five split: option.splits if_splits primary_provider.splits)
qed


text \<open>A handler\_api supplier that refuses in a known word lets the next source try.\<close>

lemma activate_refusal_steps_aside:
  assumes "activate_buy currency (Answered st (Some body)) = Inl (Rejected e)"
  shows "e = ServiceUnavailable copy_out_of_stock \<or> e = ServiceUnavailable copy_source_unavailable"
  using assms unfolding activate_buy_def activate_get_def parse_buy_def classify_activate_error_def Let_def refused_def
  by (auto split: if_splits prod.splits option.splits sum.splits simp: classify_buy_transport_def)

section \<open>By provider name\<close>

text \<open>
  What is asked of another supplier never reaches the primary one: for every name of a
  handler\_api supplier or SMSPool, configured or not, buying, checking and cancelling do not depend
  on the primary supplier.
\<close>

theorem foreign_orders_stay_foreign:
  assumes "is_foreign_supplier provider"
  shows "check_for w (n\<lparr>np_primary := p\<rparr>) provider order_id = check_for w n provider order_id \<and>
    cancel_for (n\<lparr>np_primary := p\<rparr>) provider order_id = cancel_for n provider order_id \<and>
    buy_source cr w (n\<lparr>np_primary := p\<rparr>) provider country product operator = buy_source cr w n provider country product operator"
proof -
  have own: "\<not> is_foreign_supplier ''fivesim''" "\<not> is_foreign_supplier ''stub''" by code_simp+
  then have "provider \<noteq> ''fivesim''" "provider \<noteq> ''stub''" using assms by metis+
  then show ?thesis using assms
    by (simp add: check_for_def cancel_for_def buy_source_def activate_named_def split: option.split)
qed

section \<open>Service out of service\<close>

text \<open>
  An outage of SMSPool is taken for a refusal. A server error may follow a charge and is otherwise
  ambiguous, but the words of a gateway's page (\<open>503 Service Temporarily Unavailable\<close>) contain
  \<open>available\<close>, so the purchase counts as out of stock: the next source is asked, or the money given
  back, although SMSPool may have sold a number.
\<close>

theorem smspool_outage_refuses:
  "smspool_buy w currency (Answered 503 (Some ''<h1>503 Service Temporarily Unavailable</h1>'')) = Inl (refused copy_out_of_stock) \<and>
   smspool_buy w currency (Answered 502 (Some ''<h1>502 Bad Gateway</h1>'')) = Inl Ambiguous"
proof -
  have "\<not> is_success 503 \<and> \<not> is_success 502 \<and> is_server_error 503 \<and> is_server_error 502"
    by (simp add: is_success_def is_server_error_def)
  moreover have "classify_smspool_failure True ''<h1>503 Service Temporarily Unavailable</h1>'' None = refused copy_out_of_stock"
    by code_simp
  moreover have "classify_smspool_failure True ''<h1>502 Bad Gateway</h1>'' None = Ambiguous" by code_simp
  ultimately show ?thesis by (simp add: smspool_buy_def)
qed

section \<open>Listings\<close>

definition sku_fits :: "offer_sku \<Rightarrow> bool" where
  "sku_fits k \<longleftrightarrow> ku_provider k \<in> set allowed_providers \<and> 0 < ku_rate k \<and> ku_rate k \<le> 100 \<and> 0 < ku_stock k \<and> ku_stock k < 2147483648"

lemma saturate_fits: "0 < n \<Longrightarrow> 0 < saturate_i32 n \<and> saturate_i32 n < 2147483648"
  by (simp add: saturate_i32_def)

lemma parse_success_rate_bounds: "parse_success_rate r = Some x \<Longrightarrow> 0 < x \<and> x \<le> 100"
  by (auto simp: parse_success_rate_def split: if_splits)

lemma success_sku_fits: "success_sku cr slug pp cur row = Some k \<Longrightarrow> sku_fits k"
proof -
  assume sku: "success_sku cr slug pp cur row = Some k"
  let ?n = "case Option.bind (jv_get_or row [''stock'', ''amount'']) jv_i64 of None \<Rightarrow> 0 | Some n \<Rightarrow> n"
  let ?cost = "Option.bind (jv_get_or row [''price'', ''low_price'', ''cost'']) (as_decimal cr)"
  let ?raw = "Option.bind (jv_get_or row [''success_rate'', ''rate'', ''success'']) (as_decimal cr)"
  obtain code cost rate where "country_code_from_success_row cr row = Some code" "0 < ?n" "?cost = Some cost"
    "Option.bind ?raw parse_success_rate = Some rate" "ku_rate k = rate" "ku_provider k = ''smspool''" "ku_stock k = saturate_i32 ?n"
  proof (cases "country_code_from_success_row cr row"; cases "?n \<le> 0"; cases ?cost; cases "Option.bind ?raw parse_success_rate")
  qed (use sku in \<open>auto simp: success_sku_def Let_def\<close>)
  then show "sku_fits k"
    using parse_success_rate_bounds saturate_fits by (auto simp: sku_fits_def allowed_providers_def bind_eq_Some_conv)
qed

lemma price_sku_facts:
  assumes "price_sku cr provider cur ss cid code x = Some k"
  shows "ku_provider k = provider" "0 < ku_cost k" "ku_rate k = 50" "0 < ku_stock k" "ku_stock k < 2147483648"
    "map_of ss (ku_product k) = Some (ku_product_slug k)" "ku_country k = cid" "ku_country_code k = code"
  using assms
  by (auto simp: price_sku_def Let_def unproven_success_rate_def trunc_to_i32_def bind_eq_Some_conv
      split: prod.splits option.splits if_splits)

lemma skus_from_prices_member:
  assumes "k \<in> set (skus_from_prices cr provider ps cs ss cur)"
  obtains x where "price_sku cr provider cur ss (ku_country k) (ku_country_code k) x = Some k"
    "map_of cs (ku_country k) = Some (ku_country_code k)"
proof -
  obtain y where "y \<in> set (case jv_object ps of None \<Rightarrow> [] | Some by_country \<Rightarrow> by_country)"
    "k \<in> set ((\<lambda>(country_id, offered). (case (map_of cs country_id, jv_object offered) of
        (Some country_code, Some by_service) \<Rightarrow> List.map_filter (price_sku cr provider cur ss country_id country_code) by_service
      | _ \<Rightarrow> [])) y)"
    using assms unfolding skus_from_prices_def by (cases "jv_object ps") fastforce+
  then obtain cid code x where "price_sku cr provider cur ss cid code x = Some k" "map_of cs cid = Some code"
    by (cases y) (auto simp: map_filter_member split: option.splits)
  then show ?thesis using price_sku_facts(7,8) that by metis
qed

lemma skus_from_prices_fit:
  assumes "k \<in> set (skus_from_prices cr (flavor_provider f) ps cs ss cur)"
  shows "sku_fits k \<and> 0 < ku_cost k"
proof -
  obtain x where "price_sku cr (flavor_provider f) cur ss (ku_country k) (ku_country_code k) x = Some k"
    using assms by (rule skus_from_prices_member)
  note facts = price_sku_facts [OF this]
  have "flavor_provider f \<in> set allowed_providers" by (cases f) (simp_all add: allowed_providers_def)
  then show ?thesis using facts by (simp add: sku_fits_def)
qed

lemma guest_operator_fits: "k \<in> set (operator_skus cr cs cur c p ops) \<Longrightarrow> sku_fits k"
  unfolding operator_skus_def Let_def
  by (auto split: option.splits list.splits dest!: operator_row_Some
      simp: map_filter_member saturate_fits sku_fits_def allowed_providers_def)

lemma guest_skus_fit: "k \<in> set (skus_from_guest_prices cr v cs p) \<Longrightarrow> sku_fits k"
  unfolding skus_from_guest_prices_def Let_def guest_entry_def
  by (auto split: option.splits if_splits dest!: guest_operator_fits)


section \<open>Services of SMSPool\<close>

lemma better_trans: "\<not> better c b \<Longrightarrow> better d b \<Longrightarrow> \<not> better c d"
  by (auto simp: better_def)

lemma better_irrefl: "\<not> better c c"
  by (simp add: better_def)

lemma keep_best_inv:
  defines "best \<equiv> \<lambda>cs. fold keep_best cs []"
  shows "distinct (map fst (best cs)) \<and>
    (\<forall>slug b. map_of (best cs) slug = Some b \<longrightarrow> (slug, b) \<in> set cs) \<and>
    (\<forall>(slug, c) \<in> set cs. \<exists>b. map_of (best cs) slug = Some b \<and> \<not> better c b)"
proof (induction cs rule: rev_induct)
  case Nil
  then show ?case by (simp add: best_def)
next
  case (snoc x cs)
  obtain slug c where x: "x = (slug, c)" by (rule prod.exhaust)
  have step: "best (cs @ [x]) = keep_best (slug, c) (best cs)" by (simp add: best_def x)
  consider (old) b where "map_of (best cs) slug = Some b" "\<not> better c b" "best (cs @ [x]) = best cs"
    | (new) "best (cs @ [x]) = AList.update slug c (best cs)"
        "\<forall>b. map_of (best cs) slug = Some b \<longrightarrow> better c b"
    unfolding step keep_best_def by (cases "map_of (best cs) slug") auto
  then show ?case
  proof cases
    case old
    then show ?thesis using snoc x by auto
  next
    case new
    have "\<exists>b. map_of (best (cs @ [x])) s = Some b \<and> \<not> better d b" if sd: "(s, d) \<in> set cs" for s d
    proof -
      obtain b where b: "map_of (best cs) s = Some b" "\<not> better d b" using snoc sd by fastforce
      show ?thesis
      proof (cases "s = slug")
        case True
        then have "better c b" using new(2) b(1) by simp
        then show ?thesis using True better_trans [OF b(2)] new(1) by (simp add: update_conv)
      qed (use b new(1) in \<open>simp add: update_conv\<close>)
    qed
    then have covered: "\<forall>(s, d) \<in> set (cs @ [x]). \<exists>b. map_of (best (cs @ [x])) s = Some b \<and> \<not> better d b"
      using new(1) x better_irrefl by (auto simp: update_conv)
    have "\<forall>s b. map_of (best (cs @ [x])) s = Some b \<longrightarrow> (s, b) \<in> set (cs @ [x])"
      using snoc new(1) x by (auto simp: update_conv split: if_splits)
    moreover have "distinct (map fst (best (cs @ [x])))" using snoc new(1) by (simp add: distinct_update)
    ultimately show ?thesis using covered by blast
  qed
qed

text \<open>
  SMSPool's service list is read as the best service of each product. The services chosen are in
  the order of their products, one for each product some row names, and no row of the same product
  has a better name (exact, then prefix) or an equal one with a lower id.
\<close>

theorem services_pick_best:
  "sorted (map ms_slug (select_mapped_services rows)) \<and> distinct (map ms_slug (select_mapped_services rows)) \<and>
   (\<forall>row \<in> set rows. \<forall>slug c. service_candidate row = Some (slug, c) \<longrightarrow>
      (\<exists>m \<in> set (select_mapped_services rows). ms_slug m = slug)) \<and>
   (\<forall>m \<in> set (select_mapped_services rows). \<exists>row \<in> set rows. \<exists>best.
      service_candidate row = Some (ms_slug m, best) \<and> cd_provider_id best = ms_provider_id m \<and>
      (\<forall>other \<in> set rows. \<forall>c. service_candidate other = Some (ms_slug m, c) \<longrightarrow> \<not> better c best))"
proof -
  define cs where "cs = List.map_filter service_candidate rows"
  define best where "best = fold keep_best cs []"
  note all = keep_best_inv [of cs, folded best_def]
  have inv: "distinct (map fst best)" "map_of best slug = Some b \<Longrightarrow> (slug, b) \<in> set cs"
    "(slug, c) \<in> set cs \<Longrightarrow> \<exists>b. map_of best slug = Some b \<and> \<not> better c b" for slug b c
    using conjunct1 [OF all] conjunct1 [OF conjunct2 [OF all]] bspec [OF conjunct2 [OF conjunct2 [OF all]], of "(slug, c)"] by blast+
  have cand: "(slug, c) \<in> set cs \<longleftrightarrow> (\<exists>row \<in> set rows. service_candidate row = Some (slug, c))" for slug c
    by (simp add: cs_def map_filter_member)
  let ?f = "\<lambda>(slug, c). \<lparr>ms_slug = slug, ms_provider_id = cd_provider_id c\<rparr>"
  have sel: "select_mapped_services rows = map ?f (sort_key fst best)"
    by (simp add: select_mapped_services_def best_def cs_def)
  have slugs: "map ms_slug (select_mapped_services rows) = map fst (sort_key fst best)"
    unfolding sel by (simp add: case_prod_beta comp_def)
  have "distinct (map fst (sort_key fst best))" using inv(1) by (simp add: distinct_map)
  then have "sorted (map ms_slug (select_mapped_services rows))" "distinct (map ms_slug (select_mapped_services rows))"
    unfolding slugs by simp_all
  moreover have "\<exists>m \<in> set (select_mapped_services rows). ms_slug m = slug"
    if r: "row \<in> set rows" "service_candidate row = Some (slug, c)" for row slug c
  proof -
    have "(slug, c) \<in> set cs" using r cand by blast
    then obtain b where "(slug, b) \<in> set best" using inv(3) map_of_SomeD by metis
    then show ?thesis unfolding sel by (intro bexI [of _ "?f (slug, b)"]) force+
  qed
  moreover have "\<exists>row \<in> set rows. \<exists>b. service_candidate row = Some (ms_slug m, b) \<and> cd_provider_id b = ms_provider_id m \<and>
      (\<forall>other \<in> set rows. \<forall>c. service_candidate other = Some (ms_slug m, c) \<longrightarrow> \<not> better c b)"
    if chosen: "m \<in> set (select_mapped_services rows)" for m
  proof -
    obtain slug b where b: "(slug, b) \<in> set best" "m = \<lparr>ms_slug = slug, ms_provider_id = cd_provider_id b\<rparr>"
      using chosen unfolding sel by auto
    have held: "map_of best slug = Some b" using b(1) inv(1) by simp
    then obtain row where row: "row \<in> set rows" "service_candidate row = Some (slug, b)"
      using inv(2) cand by metis
    have "\<not> better c b" if "other \<in> set rows" "service_candidate other = Some (slug, c)" for other c
      using inv(3) [of slug c] held cand that by auto
    then show ?thesis using row b(2) by auto
  qed
  ultimately show ?thesis by blast
qed

end
