(* ===== verification/Supplier_Witnesses.thy ===== *)
theory Supplier_Witnesses
  imports Supplier_Properties Order_Witnesses
begin

text \<open>The properties of the supplier adapters on a shop with DaisySMS and the stub.\<close>

definition demo_wire :: supplier_wire where
  "demo_wire = \<lparr>sw_json = (\<lambda>_. None), sw_rfc3339 = (\<lambda>_. None), sw_decimal = (\<lambda>_. None), sw_now = 1000\<rparr>"

definition demo_daisy :: activate_conn where
  "demo_daisy = \<lparr>ac_flavor = DaisySms, ac_currency = ''USD'', ac_buy = (\<lambda>_ _. RequestFailed),
     ac_check = (\<lambda>_. Answered 200 (Some ''STATUS_OK:4711'')), ac_cancel = (\<lambda>_. ConnectFailed)\<rparr>"

definition demo_providers :: number_providers where
  "demo_providers = \<lparr>np_primary = Stub (\<lambda>_ _. ''0123456789abcdef''), np_smspool = None, np_activate = [demo_daisy]\<rparr>"

definition daisy_source :: offer_source where
  "daisy_source = \<lparr>os_offer = 30, os_provider = ''daisysms'', os_country = ''0'', os_product = ''wa'', os_operator = [],
     os_cost = 1 / 5, os_currency = ''USD'', os_stock = 12, os_rate = 50\<rparr>"


theorem foreign_orders_stay_foreign_witness:
  "check_for demo_wire (demo_providers\<lparr>np_primary := Stub (\<lambda>_ _. [])\<rparr>) ''daisysms'' ''7'' = check_for demo_wire demo_providers ''daisysms'' ''7'' \<and>
   ck_lifecycle (parse_status 1000 ''STATUS_OK:4711'') = Closed"
proof -
  have "is_foreign_supplier ''daisysms''" by code_simp
  note f = foreign_orders_stay_foreign [OF this, where p = "Stub (\<lambda>_ _. [])" and n = demo_providers and w = demo_wire and order_id = "''7''"]
  have "ck_lifecycle (parse_status 1000 ''STATUS_OK:4711'') = Closed" by code_simp
  with f show ?thesis by blast
qed

definition demo_services :: "jval list" where
  "demo_services =
     [JvObj [(''ID'', JvNum (Some 901) ''901'' 901 ''901''), (''name'', JvStr ''Google Voice'')],
      JvObj [(''ID'', JvStr ''395''), (''name'', JvStr ''Google/Gmail'')],
      JvObj [(''ID'', JvStr ''12''), (''name'', JvStr ''WhatsApp Business'')],
      JvObj [(''ID'', JvStr ''907''), (''name'', JvStr ''WhatsApp'')]]"

lemma demo_names:
  "map_service ''Google Voice'' = Some ''google''" "map_service ''Google/Gmail'' = Some ''google''"
  "map_service ''WhatsApp Business'' = Some ''whatsapp''" "map_service ''WhatsApp'' = Some ''whatsapp''"
  "map_service_score ''Google Voice'' ''google'' = 1" "map_service_score ''Google/Gmail'' ''google'' = 1"
  "map_service_score ''WhatsApp Business'' ''whatsapp'' = 1" "map_service_score ''WhatsApp'' ''whatsapp'' = 0"
  by code_simp+

lemma demo_numbers:
  "parse_unsigned 18446744073709551616 ''901'' = Some 901" "parse_unsigned 18446744073709551616 ''395'' = Some 395"
  "parse_unsigned 18446744073709551616 ''12'' = Some 12" "parse_unsigned 18446744073709551616 ''907'' = Some 907"
  by (simp_all add: parse_unsigned_def digits_val_def digit_val_def is_ascii_digit_def)

lemma demo_candidates:
  "List.map_filter service_candidate demo_services =
     [(''google'', \<lparr>cd_score = 1, cd_number = 901, cd_provider_id = ''901''\<rparr>),
      (''google'', \<lparr>cd_score = 1, cd_number = 395, cd_provider_id = ''395''\<rparr>),
      (''whatsapp'', \<lparr>cd_score = 1, cd_number = 12, cd_provider_id = ''12''\<rparr>),
      (''whatsapp'', \<lparr>cd_score = 0, cd_number = 907, cd_provider_id = ''907''\<rparr>)]"
  by (simp add: demo_services_def List.map_filter_simps service_candidate_def jv_get_or_simps value_key_def non_empty_def
      demo_names demo_numbers)

theorem services_pick_best_witness:
  "map ms_provider_id (select_mapped_services demo_services) = [''395'', ''907''] \<and>
   distinct (map ms_slug (select_mapped_services demo_services))"
proof
  have "sort_key fst [(''google'', a), (''whatsapp'', b)] = [(''google'', a), (''whatsapp'', b)]" for a b :: candidate
    by (rule sort_key_id_if_sorted) code_simp
  then show "map ms_provider_id (select_mapped_services demo_services) = [''395'', ''907'']"
    by (simp add: select_mapped_services_def demo_candidates keep_best_def better_def)
qed (use services_pick_best [of demo_services] in blast)

end
