(* ===== verification/Admin_Store.thy ===== *)
theory Admin_Store
  imports Auth_Routes Shop_Reads
begin

text \<open>
  The operators of the dashboard: authenticator secrets and session tokens
  (\<open>crates/api/src/operator.rs\<close>), the tables of migrations 0001, 0021 and 0027, who is let in
  (\<open>authorise\<close> of \<open>admin_routes.rs\<close>, \<open>require_operator\<close> of \<open>admin_recovery.rs\<close>), the lockout after
  wrong codes and the audit log with its chain of hashes.
\<close>

section \<open>State\<close>

record operator_row =
  op_id :: uuid
  op_email :: string
  op_secret :: string
  op_disabled_at :: "instant option"

record operator_session_row =
  oz_operator :: uuid
  oz_hash :: string
  oz_expires_at :: instant

record member_row =
  mb_email :: string
  mb_invited_by :: string
  mb_created_at :: instant
  mb_revoked_at :: "instant option"

record audit_row =
  lg_id :: int
  lg_actor_type :: string
  lg_actor :: uuid
  lg_action :: string
  lg_target :: string
  lg_before :: jval
  lg_after :: jval
  lg_prev :: "string option"
  lg_hash :: string
  lg_created_at :: instant

text \<open>The lockouts are in the memory of the process: the times of the wrong codes by address.\<close>

record admin_db = shop_db +
  users_of :: "user_row list"
  identities_of :: "identity_row list"
  operators :: "operator_row list"
  operator_sessions :: "operator_session_row list"
  members :: "member_row list"
  audit :: "audit_row list"
  audit_next :: int
  lockouts :: "string \<Rightarrow> instant list"

text \<open>
  \<open>am_sha256\<close> and \<open>am_sha256_hex\<close> are the digest and its hexadecimal text, \<open>am_seal\<close> and \<open>am_open\<close> are
  AES-GCM under a 32 byte key and a nonce, \<open>am_totp\<close> checks a code at a time, \<open>am_json\<close> is the text of a
  JSON value, \<open>am_lower\<close> the \<open>lower\<close> of SQL.
\<close>

record admin_crates =
  am_sha256 :: "string \<Rightarrow> string"
  am_sha256_hex :: "string \<Rightarrow> string"
  am_seal :: "string \<Rightarrow> string \<Rightarrow> string \<Rightarrow> string option"
  am_open :: "string \<Rightarrow> string \<Rightarrow> string \<Rightarrow> string option"
  am_totp :: "string \<Rightarrow> string \<Rightarrow> string \<Rightarrow> instant \<Rightarrow> bool"
  am_totp_url :: "string \<Rightarrow> string \<Rightarrow> string"
  am_json :: "jval \<Rightarrow> string"
  am_lower :: "string \<Rightarrow> string"
  am_rfc3339 :: "instant \<Rightarrow> string"

record admin_config =
  aq_keys :: string
  aq_emails :: "string list"
  aq_totp_key :: "string option"
  aq_refund_cap :: decimal

section \<open>Secrets and tokens\<close>

definition aes_key :: "string \<Rightarrow> api_error + string" where
  "aes_key key =
     (if length key < 32 then Inl (Internal (IMsg ''OPERATOR_TOTP_KEY must be at least 32 bytes'')) else Inr (take 32 key))"

definition encrypt_totp_secret :: "admin_crates \<Rightarrow> string \<Rightarrow> string \<Rightarrow> string \<Rightarrow> api_error + string" where
  "encrypt_totp_secret am nonce key plaintext =
     res_bind (aes_key key) (\<lambda>k.
     res_bind (ok_or (Internal (IMsg ''aead::Error'')) (am_seal am k nonce plaintext)) (\<lambda>ciphertext.
     Inr (nonce @ ciphertext)))"

definition decrypt_totp_secret :: "admin_crates \<Rightarrow> string \<Rightarrow> string \<Rightarrow> api_error + string" where
  "decrypt_totp_secret am key packed =
     (if length packed < 13 then Inl (Internal (IMsg ''totp secret blob is too short''))
      else res_bind (aes_key key) (\<lambda>k.
        ok_or (Internal (IMsg ''aead::Error'')) (am_open am k (take 12 packed) (drop 12 packed))))"

definition hash_session_token :: "admin_crates \<Rightarrow> string \<Rightarrow> string" where
  "hash_session_token am raw = am_sha256 am raw"

definition mask_phone :: "string option \<Rightarrow> string option" where
  "mask_phone phone =
     (case phone of
        None \<Rightarrow> None
      | Some p \<Rightarrow>
          if p = [] then None
          else (let digits = filter is_ascii_digit p in
            if length digits \<le> 4 then Some (replicate (length digits) (CHR ''*''))
            else Some (replicate (length digits - 4) (CHR ''*'') @ drop (length digits - 4) digits)))"

section \<open>Who is let in\<close>

definition verified_emails :: "admin_crates \<Rightarrow> uuid \<Rightarrow> 'z admin_db_scheme \<Rightarrow> string list" where
  "verified_emails am user db =
     List.map_filter (\<lambda>r. if ir_user r = user \<and> ir_verified_at r \<noteq> None then map_option (am_lower am) (ir_email r) else None)
       (identities_of db)"

definition is_member :: "admin_crates \<Rightarrow> string \<Rightarrow> member_row \<Rightarrow> bool" where
  "is_member am email m \<longleftrightarrow> mb_revoked_at m = None \<and> am_lower am (mb_email m) = email"

definition authorise :: "auth_crates \<Rightarrow> admin_crates \<Rightarrow> admin_config \<Rightarrow> instant \<Rightarrow> string option \<Rightarrow>
    'z admin_db_scheme \<Rightarrow> api_error + string" where
  "authorise au am cfg now authorization db =
     res_bind (current_user au (aq_keys cfg) now authorization) (\<lambda>c.
       (let emails = verified_emails am (cu_id c) db in
        case List.find (\<lambda>e. e \<in> set (aq_emails cfg)) emails of
          Some e \<Rightarrow> Inr e
        | None \<Rightarrow>
            ok_or NotFound (map_option (\<lambda>m. am_lower am (mb_email m))
              (fetch_optional (\<lambda>m. list_ex (\<lambda>e. is_member am e m) emails) (members db)))))"

record admin_headers =
  ah_authorization :: "string option"
  ah_operator_session :: "string option"
  ah_idempotency_key :: "string option"

definition session_of :: "admin_crates \<Rightarrow> admin_config \<Rightarrow> instant \<Rightarrow> string \<Rightarrow> string \<Rightarrow> 'z admin_db_scheme \<Rightarrow>
    operator_row option" where
  "session_of am cfg now email hash db =
     List.find (\<lambda>_. True) (concat (map (\<lambda>s. filter (\<lambda>o'. op_id o' = oz_operator s \<and> am_lower am (op_email o') = email \<and>
         (am_lower am (op_email o') \<in> set (aq_emails cfg) \<or>
          list_ex (is_member am (am_lower am (op_email o'))) (members db))) (operators db))
       (filter (\<lambda>s. oz_hash s = hash \<and> now < oz_expires_at s) (operator_sessions db))))"

definition require_operator :: "auth_crates \<Rightarrow> admin_crates \<Rightarrow> admin_config \<Rightarrow> env \<Rightarrow> admin_headers \<Rightarrow>
    'z admin_db_scheme \<Rightarrow> api_error + uuid" where
  "require_operator au am cfg env h db =
     res_bind (authorise au am cfg (app_now env) (ah_authorization h) db) (\<lambda>email.
       (let presented = (case ah_operator_session h of Some t \<Rightarrow> t | None \<Rightarrow> []) in
        if presented = [] then Inl NotFound
        else case session_of am cfg (sql_now env) email (hash_session_token am presented) db of
          None \<Rightarrow> Inl NotFound
        | Some o' \<Rightarrow> if op_disabled_at o' \<noteq> None then Inl OperatorDisabled else Inr (op_id o')))"

section \<open>Lockouts\<close>

definition lockout_window :: instant where "lockout_window = minutes 15"

definition recent_failures :: "instant \<Rightarrow> instant list \<Rightarrow> instant list" where
  "recent_failures now stamps = filter (\<lambda>x. now - x < lockout_window) stamps"

text \<open>Looking forgets what is older than the window.\<close>

definition totp_is_locked :: "crates \<Rightarrow> instant \<Rightarrow> string \<Rightarrow> 'z admin_db_scheme \<Rightarrow> bool \<times> 'z admin_db_scheme" where
  "totp_is_locked cr now email db =
     (let k = cr_to_lowercase cr email; stamps = recent_failures now (lockouts db k)
      in (5 \<le> length stamps, db\<lparr>lockouts := (lockouts db)(k := stamps)\<rparr>))"

definition record_totp_failure :: "crates \<Rightarrow> instant \<Rightarrow> string \<Rightarrow> 'z admin_db_scheme \<Rightarrow> 'z admin_db_scheme" where
  "record_totp_failure cr now email db =
     (let k = cr_to_lowercase cr email in db\<lparr>lockouts := (lockouts db)(k := lockouts db k @ [now])\<rparr>)"

definition clear_totp_failures :: "crates \<Rightarrow> string \<Rightarrow> 'z admin_db_scheme \<Rightarrow> 'z admin_db_scheme" where
  "clear_totp_failures cr email db = db\<lparr>lockouts := (lockouts db)(cr_to_lowercase cr email := [])\<rparr>"

definition bad_totp :: api_error where
  "bad_totp = BadRequest ''that code isn't right''"

section \<open>The audit log\<close>

definition audit_hash :: "admin_crates \<Rightarrow> string option \<Rightarrow> string \<Rightarrow> string \<Rightarrow> string \<Rightarrow> string \<Rightarrow> string \<Rightarrow> string \<Rightarrow> string" where
  "audit_hash am prev actor_type actor_id action target before after =
     am_sha256_hex am ((case prev of Some p \<Rightarrow> p | None \<Rightarrow> []) @ actor_type @ actor_id @ action @ target @ before @ after)"

text \<open>\<open>insert_audit\<close> reads the last hash and inserts, in two statements.\<close>

definition last_hash :: "'z admin_db_scheme \<Rightarrow> string option" where
  "last_hash db = (case sort_key (\<lambda>r. - lg_id r) (audit db) of [] \<Rightarrow> None | r # _ \<Rightarrow> Some (lg_hash r))"

definition append_audit :: "admin_crates \<Rightarrow> (uuid \<Rightarrow> string) \<Rightarrow> instant \<Rightarrow> string option \<Rightarrow> uuid \<Rightarrow> string \<Rightarrow> uuid \<Rightarrow>
    jval \<Rightarrow> jval \<Rightarrow> 'z admin_db_scheme \<Rightarrow> int \<times> 'z admin_db_scheme" where
  "append_audit am show_uuid now prev operator_id action target before after db =
     (audit_next db, db\<lparr>audit_next := audit_next db + 1, audit := audit db @
       [\<lparr>lg_id = audit_next db, lg_actor_type = ''admin'', lg_actor = operator_id, lg_action = action,
         lg_target = show_uuid target, lg_before = before, lg_after = after, lg_prev = prev,
         lg_hash = audit_hash am prev ''admin'' (show_uuid operator_id) action (show_uuid target)
           (am_json am before) (am_json am after),
         lg_created_at = now\<rparr>]\<rparr>)"

definition insert_audit :: "admin_crates \<Rightarrow> (uuid \<Rightarrow> string) \<Rightarrow> instant \<Rightarrow> uuid \<Rightarrow> string \<Rightarrow> uuid \<Rightarrow> jval \<Rightarrow> jval \<Rightarrow>
    'z admin_db_scheme \<Rightarrow> int \<times> 'z admin_db_scheme" where
  "insert_audit am show_uuid now operator_id action target before after db =
     append_audit am show_uuid now (last_hash db) operator_id action target before after db"

text \<open>\<open>INSERT INTO operator_alerts ... ON CONFLICT (dedupe_key) DO NOTHING\<close>.\<close>

definition insert_alert :: "string \<Rightarrow> uuid \<Rightarrow> instant \<Rightarrow> uuid \<Rightarrow> 'z admin_db_scheme \<Rightarrow> 'z admin_db_scheme" where
  "insert_alert key i now order_id db =
     (if key \<in> al_key ` set (alerts db) then db
      else db\<lparr>alerts := alerts db @ [\<lparr>al_id = i, al_order = order_id, al_key = key, al_delivered = False,
        al_attempts = 0, al_next_at = now, al_last_error = None, al_claim = None,
        al_delivered_at = None, al_created_at = now\<rparr>]\<rparr>)"

end
