(* ===== verification/Admin_Routes.thy ===== *)
theory Admin_Routes
  imports Admin_Store Number_Sources
begin

text \<open>
  The handlers of the dashboard, \<open>crates/api/src/admin_routes.rs\<close> and \<open>admin_recovery.rs\<close>: enrolling and
  signing in with an authenticator, inviting and revoking members, the switches of the suppliers, and
  rechecking or refunding an order that holds a reservation. Each statement is a transaction; \<open>envs\<close>
  gives each its times and ids.
\<close>

section \<open>An order as the dashboard shows it\<close>

record order_detail =
  dt_id :: string
  dt_email :: string
  dt_status :: string
  dt_price :: string
  dt_created_at :: string
  dt_expires_at :: "string option"
  dt_provider :: string
  dt_provider_order_id :: "string option"
  dt_last_error :: "string option"
  dt_phone :: "string option"
  dt_review_reason :: "string option"
  dt_reserved :: string
  dt_refunded :: "string option"
  dt_settled :: "string option"

text \<open>The address is read as text: a user without one is a column that cannot be decoded.\<close>

definition load_detail :: "crates \<Rightarrow> admin_crates \<Rightarrow> uuid \<Rightarrow> 'z admin_db_scheme \<Rightarrow> api_error + order_detail" where
  "load_detail cr am order_id db =
     (case find_order order_id db of
        None \<Rightarrow> Inl NotFound
      | Some r \<Rightarrow>
          (case fetch_optional (\<lambda>u. us_id u = no_user r) (users_of db) of
             None \<Rightarrow> Inl NotFound
           | Some u \<Rightarrow>
               (case us_email u of
                  None \<Rightarrow> Inl (from_sqlx NullColumn)
                | Some email \<Rightarrow> Inr
                    \<lparr>dt_id = cr_show_uuid cr (no_id r), dt_email = email, dt_status = order_status_as_str (no_status r),
                     dt_price = cr_show_decimal cr (no_price r), dt_created_at = am_rfc3339 am (no_created_at r),
                     dt_expires_at = map_option (am_rfc3339 am) (no_expires_at r), dt_provider = no_provider r,
                     dt_provider_order_id = no_provider_order r, dt_last_error = no_last_error r,
                     dt_phone = mask_phone (no_phone r), dt_review_reason = no_review_reason r,
                     dt_reserved = cr_show_uuid cr (no_reserved r),
                     dt_refunded = map_option (cr_show_uuid cr) (no_refunded r),
                     dt_settled = map_option (cr_show_uuid cr) (no_settled r)\<rparr>)))"

definition order_detail_of :: "auth_crates \<Rightarrow> crates \<Rightarrow> admin_crates \<Rightarrow> admin_config \<Rightarrow> instant \<Rightarrow> admin_headers \<Rightarrow> uuid \<Rightarrow>
    'z admin_db_scheme \<Rightarrow> api_error + order_detail" where
  "order_detail_of au cr am cfg now h order_id db =
     res_bind (authorise au am cfg now (ah_authorization h) db) (\<lambda>_. load_detail cr am order_id db)"

record order_summary =
  om_id :: string
  om_email :: string
  om_status :: string
  om_price :: string
  om_created_at :: string
  om_provider :: string

definition summary_of :: "crates \<Rightarrow> admin_crates \<Rightarrow> order_row \<times> user_row \<Rightarrow> api_error + order_summary" where
  "summary_of cr am = (\<lambda>(r, u).
     (case us_email u of
        None \<Rightarrow> Inl (from_sqlx NullColumn)
      | Some email \<Rightarrow> Inr \<lparr>om_id = cr_show_uuid cr (no_id r), om_email = email, om_status = order_status_as_str (no_status r),
          om_price = cr_show_decimal cr (no_price r), om_created_at = am_rfc3339 am (no_created_at r),
          om_provider = no_provider r\<rparr>))"

fun all_ok :: "('a \<Rightarrow> 'e + 'b) \<Rightarrow> 'a list \<Rightarrow> 'e + 'b list" where
  "all_ok f [] = Inr []"
| "all_ok f (x # xs) = res_bind (f x) (\<lambda>y. res_bind (all_ok f xs) (\<lambda>ys. Inr (y # ys)))"

definition trimmed_filter :: "string option \<Rightarrow> string option" where
  "trimmed_filter s = (case s of None \<Rightarrow> None | Some t \<Rightarrow> (let u = trim t in if u = [] then None else Some u))"

definition list_orders :: "auth_crates \<Rightarrow> crates \<Rightarrow> admin_crates \<Rightarrow> admin_config \<Rightarrow> instant \<Rightarrow> admin_headers \<Rightarrow>
    string option \<Rightarrow> string option \<Rightarrow> 'z admin_db_scheme \<Rightarrow> api_error + order_summary list" where
  "list_orders au cr am cfg now h reference email db =
     res_bind (authorise au am cfg now (ah_authorization h) db) (\<lambda>_.
       (let email = map_option (cr_to_lowercase cr) (trimmed_filter email);
            reference = Option.bind (trimmed_filter reference) (cr_parse_uuid cr)
        in if email = None \<and> reference = None then Inr []
           else all_ok (summary_of cr am) (take 50 (sort_key (\<lambda>(r, _). - no_created_at r)
             (filter (\<lambda>(r, u). (case reference of None \<Rightarrow> True | Some i \<Rightarrow> no_id r = i) \<and>
                (case email of None \<Rightarrow> True | Some e \<Rightarrow> map_option (am_lower am) (us_email u) = Some e))
              (concat (map (\<lambda>r. map (Pair r) (filter (\<lambda>u. us_id u = no_user r) (users_of db))) (orders db))))))))"

section \<open>Authenticators and sessions\<close>

definition totp_key :: "admin_config \<Rightarrow> api_error + string" where
  "totp_key cfg = ok_or (Internal (IMsg ''OPERATOR_TOTP_KEY is not set'')) (aq_totp_key cfg)"

definition admin_me :: "auth_crates \<Rightarrow> admin_crates \<Rightarrow> admin_config \<Rightarrow> instant \<Rightarrow> admin_headers \<Rightarrow>
    'z admin_db_scheme \<Rightarrow> api_error + (string \<times> bool)" where
  "admin_me au am cfg now h db =
     res_bind (authorise au am cfg now (ah_authorization h) db) (\<lambda>email.
       Inr (email, list_ex (\<lambda>o'. am_lower am (op_email o') = email) (operators db)))"

text \<open>\<open>secret\<close> and \<open>nonce\<close> are drawn; the answer is the id, the address and the URI of the authenticator.\<close>

definition enroll_operator :: "auth_crates \<Rightarrow> admin_crates \<Rightarrow> admin_config \<Rightarrow> env \<Rightarrow> string \<Rightarrow> string \<Rightarrow> admin_headers \<Rightarrow>
    'z admin_db_scheme \<Rightarrow> (api_error + (uuid \<times> string \<times> string)) \<times> 'z admin_db_scheme" where
  "enroll_operator au am cfg env secret nonce h db =
     (case res_bind (authorise au am cfg (app_now env) (ah_authorization h) db) (\<lambda>email.
           res_bind (totp_key cfg) (\<lambda>key.
           res_bind (encrypt_totp_secret am nonce key secret) (\<lambda>packed. Inr (email, packed)))) of
        Inl e \<Rightarrow> (Inl e, db)
      | Inr (email, packed) \<Rightarrow>
          if email \<in> op_email ` set (operators db) then (Inl (Conflict ''that operator is already enrolled''), db)
          else (Inr (new_id env 0, email, am_totp_url am secret email),
            db\<lparr>operators := operators db @ [\<lparr>op_id = new_id env 0, op_email = email, op_secret = packed, op_disabled_at = None\<rparr>]\<rparr>))"

text \<open>\<open>token\<close> is the 64 characters drawn for the session.\<close>

definition create_session :: "auth_crates \<Rightarrow> crates \<Rightarrow> admin_crates \<Rightarrow> admin_config \<Rightarrow> env \<Rightarrow> string \<Rightarrow> admin_headers \<Rightarrow>
    string \<Rightarrow> 'z admin_db_scheme \<Rightarrow> (api_error + (string \<times> string)) \<times> 'z admin_db_scheme" where
  "create_session au cr am cfg env token h code db =
     (case authorise au am cfg (app_now env) (ah_authorization h) db of
        Inl e \<Rightarrow> (Inl e, db)
      | Inr email \<Rightarrow>
          (let (locked, db1) = totp_is_locked cr (app_now env) email db in
           if locked then (Inl TotpLocked, db1)
           else case fetch_optional (\<lambda>o'. am_lower am (op_email o') = email) (operators db1) of
             None \<Rightarrow> (Inl bad_totp, record_totp_failure cr (app_now env) email db1)
           | Some o' \<Rightarrow>
               if op_disabled_at o' \<noteq> None then (Inl OperatorDisabled, db1)
               else (case res_bind (totp_key cfg) (\<lambda>key. decrypt_totp_secret am key (op_secret o')) of
                  Inl e \<Rightarrow> (Inl e, db1)
                | Inr secret \<Rightarrow>
                    if \<not> am_totp am secret email (trim code) (app_now env)
                    then (Inl bad_totp, record_totp_failure cr (app_now env) email db1)
                    else (let db2 = clear_totp_failures cr email db1; expires = sql_now env + minutes 30
                          in (Inr (token, am_rfc3339 am expires), db2\<lparr>operator_sessions := operator_sessions db2 @
                            [\<lparr>oz_operator = op_id o', oz_hash = hash_session_token am token, oz_expires_at = expires\<rparr>]\<rparr>)))))"

definition delete_session :: "auth_crates \<Rightarrow> admin_crates \<Rightarrow> admin_config \<Rightarrow> env \<Rightarrow> admin_headers \<Rightarrow>
    'z admin_db_scheme \<Rightarrow> (api_error + unit) \<times> 'z admin_db_scheme" where
  "delete_session au am cfg env h db =
     (case require_operator au am cfg env h db of
        Inl e \<Rightarrow> (Inl e, db)
      | Inr operator_id \<Rightarrow>
          (let hash = hash_session_token am (case ah_operator_session h of Some t \<Rightarrow> t | None \<Rightarrow> []);
               hit = (\<lambda>s. oz_hash s = hash \<and> oz_operator s = operator_id)
           in if list_ex hit (operator_sessions db)
              then (Inr (), db\<lparr>operator_sessions := filter (\<lambda>s. \<not> hit s) (operator_sessions db)\<rparr>)
              else (Inl NotFound, db)))"

section \<open>Members\<close>

definition enter_an_address :: api_error where
  "enter_an_address = BadRequest ''enter an email address''"

definition normalise_admin_email :: "crates \<Rightarrow> string \<Rightarrow> api_error + string" where
  "normalise_admin_email cr raw =
     (let email = cr_to_lowercase cr (trim raw) in
      case split_once (CHR ''@'') email of
        None \<Rightarrow> Inl enter_an_address
      | Some (l, d) \<Rightarrow>
          if 254 < length email \<or> l = [] \<or> d = [] \<or> \<not> contains ''.'' d \<or> list_ex (\<lambda>w. contains w email) ws_encodings
          then Inl enter_an_address else Inr email)"

record admin_member =
  rm_email :: string
  rm_invited_by :: string
  rm_created_at :: string

definition list_members :: "auth_crates \<Rightarrow> admin_crates \<Rightarrow> admin_config \<Rightarrow> env \<Rightarrow> admin_headers \<Rightarrow>
    'z admin_db_scheme \<Rightarrow> api_error + admin_member list" where
  "list_members au am cfg env h db =
     res_bind (require_operator au am cfg env h db) (\<lambda>_.
       Inr (map (\<lambda>m. \<lparr>rm_email = mb_email m, rm_invited_by = mb_invited_by m, rm_created_at = am_rfc3339 am (mb_created_at m)\<rparr>)
         (sort_key mb_created_at (filter (\<lambda>m. mb_revoked_at m = None) (members db)))))"

definition already_admin :: api_error where
  "already_admin = Conflict ''that email is already an admin''"

definition invite_member :: "auth_crates \<Rightarrow> crates \<Rightarrow> admin_crates \<Rightarrow> admin_config \<Rightarrow> env \<Rightarrow> admin_headers \<Rightarrow> string \<Rightarrow>
    'z admin_db_scheme \<Rightarrow> (api_error + admin_member) \<times> 'z admin_db_scheme" where
  "invite_member au cr am cfg env h raw db =
     (case res_bind (require_operator au am cfg env h db) (\<lambda>operator_id.
           res_bind (normalise_admin_email cr raw) (\<lambda>email.
           res_bind (ok_or NotFound (fetch_optional (\<lambda>o'. op_id o' = operator_id) (operators db))) (\<lambda>o'.
           if email \<in> set (aq_emails cfg) then Inl already_admin
           else case fetch_optional (\<lambda>m. am_lower am (mb_email m) = email) (members db) of
             Some m \<Rightarrow> if mb_revoked_at m = None then Inl already_admin else Inr (email, am_lower am (op_email o'))
           | None \<Rightarrow> Inr (email, am_lower am (op_email o'))))) of
        Inl e \<Rightarrow> (Inl e, db)
      | Inr (email, invited_by) \<Rightarrow>
          (let m = \<lparr>mb_email = email, mb_invited_by = invited_by, mb_created_at = sql_now env, mb_revoked_at = None\<rparr>
           in (Inr \<lparr>rm_email = email, rm_invited_by = invited_by, rm_created_at = am_rfc3339 am (sql_now env)\<rparr>,
               db\<lparr>members := (if list_ex (\<lambda>x. mb_email x = email) (members db)
                 then update_where (\<lambda>x. mb_email x = email) (\<lambda>_. m) (members db) else members db @ [m])\<rparr>)))"

definition revoke_member :: "auth_crates \<Rightarrow> crates \<Rightarrow> admin_crates \<Rightarrow> admin_config \<Rightarrow> env \<Rightarrow> admin_headers \<Rightarrow> string \<Rightarrow>
    'z admin_db_scheme \<Rightarrow> (api_error + unit) \<times> 'z admin_db_scheme" where
  "revoke_member au cr am cfg env h raw db =
     (case res_bind (require_operator au am cfg env h db) (\<lambda>_. normalise_admin_email cr raw) of
        Inl e \<Rightarrow> (Inl e, db)
      | Inr email \<Rightarrow>
          if \<not> list_ex (is_member am email) (members db) then (Inl NotFound, db)
          else (Inr (), db\<lparr>members := update_where (is_member am email) (\<lambda>m. m\<lparr>mb_revoked_at := Some (sql_now env)\<rparr>) (members db),
            operator_sessions := filter (\<lambda>s. \<not> list_ex (\<lambda>o'. am_lower am (op_email o') = email \<and> op_id o' = oz_operator s)
              (operators db)) (operator_sessions db)\<rparr>))"

section \<open>Switches of the suppliers\<close>

definition audit_target :: uuid where "audit_target = 1"

definition sell_json :: "sell_settings \<Rightarrow> jval" where
  "sell_json s = JvObj [(''fivesimEnabled'', JvBool (fivesim_enabled s)),
     (''providers'', JvObj (sort_key fst (map (\<lambda>(k, v). (k, JvBool v)) s))), (''smspoolEnabled'', JvBool (smspool_enabled s))]"

definition wanted_settings :: "sell_settings \<Rightarrow> bool \<Rightarrow> bool \<Rightarrow> (string \<times> bool) list \<Rightarrow> sell_settings" where
  "wanted_settings before fivesim smspool providers =
     fold (\<lambda>(k, v) m. AList.update k v m) (filter (\<lambda>(k, _). k \<in> set known_providers) providers)
       (AList.update ''smspool'' smspool (AList.update ''fivesim'' fivesim before))"

definition put_sell_settings :: "auth_crates \<Rightarrow> crates \<Rightarrow> admin_crates \<Rightarrow> admin_config \<Rightarrow> env \<Rightarrow> admin_headers \<Rightarrow>
    bool \<Rightarrow> bool \<Rightarrow> (string \<times> bool) list \<Rightarrow> 'z admin_db_scheme \<Rightarrow> (api_error + sell_settings) \<times> 'z admin_db_scheme" where
  "put_sell_settings au cr am cfg env h fivesim smspool providers db =
     (case require_operator au am cfg env h db of
        Inl e \<Rightarrow> (Inl e, db)
      | Inr operator_id \<Rightarrow>
          (let (before, flags) = sell_load (sell_flags db);
               db1 = db\<lparr>sell_flags := flags\<rparr>;
               wanted = wanted_settings before fivesim smspool providers
           in if \<not> any_enabled wanted then (Inl LastProvider, db1)
              else (Inr wanted, snd (insert_audit am (cr_show_uuid cr) (sql_now env) operator_id ''sell_settings'' audit_target
                (sell_json before) (sell_json wanted) (db1\<lparr>sell_flags := sell_store wanted (sell_flags db1)\<rparr>)))))"

section \<open>Recheck\<close>

definition json_text :: "string option \<Rightarrow> jval" where
  "json_text s = (case s of None \<Rightarrow> JvNull | Some t \<Rightarrow> JvStr t)"

definition journal_snapshot :: "crates \<Rightarrow> order_row \<Rightarrow> (string \<times> jval) list" where
  "journal_snapshot cr r =
     [(''refundedJournalId'', json_text (map_option (cr_show_uuid cr) (no_refunded r))),
      (''reservedJournalId'', json_text (Some (cr_show_uuid cr (no_reserved r)))),
      (''settledJournalId'', json_text (map_option (cr_show_uuid cr) (no_settled r))),
      (''status'', JvStr (order_status_as_str (no_status r)))]"

definition order_journals :: "crates \<Rightarrow> uuid \<Rightarrow> 'z admin_db_scheme \<Rightarrow> api_error + (string \<times> jval) list" where
  "order_journals cr order_id db = ok_or NotFound (map_option (journal_snapshot cr) (find_order order_id db))"

text \<open>Why a claim was not given.\<close>

definition reject_if_claimed :: "instant \<Rightarrow> uuid \<Rightarrow> 'z admin_db_scheme \<Rightarrow> api_error" where
  "reject_if_claimed now order_id db =
     (case find_order order_id db of
        None \<Rightarrow> NotFound
      | Some r \<Rightarrow>
          (case no_claim r of
             Some (_, until) \<Rightarrow> if now < until then ClaimConflict
               else Conflict ''This order is not holding a reservation that can be updated.''
           | None \<Rightarrow> Conflict ''This order is not holding a reservation that can be updated.''))"

definition map_claim_err :: "api_error + 'a \<Rightarrow> api_error + 'a" where
  "map_claim_err r =
     (case r of Inl (Conflict message) \<Rightarrow> (if contains ''claim'' (to_ascii_lowercase message) then Inl ClaimConflict else r)
      | _ \<Rightarrow> r)"

definition answered :: "api_error + 'a \<Rightarrow> 's \<Rightarrow> (api_error + 'a) \<times> 's" where
  "answered r db = (r, db)"

text \<open>The end of a recheck that changed the order: the audit row and the order as it is now.\<close>

definition audited :: "crates \<Rightarrow> admin_crates \<Rightarrow> instant \<Rightarrow> uuid \<Rightarrow> uuid \<Rightarrow> (string \<times> jval) list \<Rightarrow> 'z admin_db_scheme \<Rightarrow>
    (api_error + order_detail) \<times> 'z admin_db_scheme" where
  "audited cr am now operator_id order_id before db =
     (case order_journals cr order_id db of
        Inl e \<Rightarrow> (Inl e, db)
      | Inr after \<Rightarrow>
          (let db1 = snd (insert_audit am (cr_show_uuid cr) now operator_id ''number_recheck'' order_id
             (JvObj before) (JvObj after) db)
           in (load_detail cr am order_id db1, db1)))"

definition recheck_supplier :: "crates \<Rightarrow> admin_crates \<Rightarrow> supplier \<Rightarrow> (nat \<Rightarrow> env) \<Rightarrow> uuid \<Rightarrow> uuid \<Rightarrow> uuid \<Rightarrow> order_row \<Rightarrow> string \<Rightarrow>
    (string \<times> jval) list \<Rightarrow> 'z admin_db_scheme \<Rightarrow> (api_error + order_detail) \<times> 'z admin_db_scheme" where
  "recheck_supplier cr am numbers envs operator_id claim order_id row provider_id before db =
     (case claim_slot claim (sql_now (envs 1)) db of
        (None, db1) \<Rightarrow>
          and_then (commit (release_order (sql_now (envs 1)) order_id claim 1 None db1) db1)
            (\<lambda>_ db. (Inl (ServiceUnavailable ''Supplier checks are busy. Try again shortly.''), db))
      | (Some slot, db1) \<Rightarrow>
          (let db2 = release_slot slot claim db1 in
           case sp_check numbers (no_provider row) provider_id of
             Inr check \<Rightarrow>
               and_then (map_prod map_claim_err id (commit (apply_check (cr_show_uuid cr) (cr_digest cr) (envs 2) order_id
                   (Some claim) check db2) db2))
                 (\<lambda>_ db. audited cr am (sql_now (envs 3)) operator_id order_id before db)
           | Inl _ \<Rightarrow>
               and_then (commit (release_order (sql_now (envs 2)) order_id claim 15 (Some ''provider_unavailable'') db2) db2)
                 (\<lambda>_ db. (let db3 = (if 4 \<le> no_attempts row
                     then insert_alert (''number-recheck-exhausted:'' @ cr_show_uuid cr order_id) (new_id (envs 3) 0)
                       (sql_now (envs 3)) order_id db else db)
                   in (load_detail cr am order_id db3, db3)))))"

text \<open>\<open>token\<close> is the claim's new UUID. The order is read once, before it is claimed.\<close>

definition recheck_order :: "auth_crates \<Rightarrow> crates \<Rightarrow> admin_crates \<Rightarrow> admin_config \<Rightarrow> supplier \<Rightarrow> (nat \<Rightarrow> env) \<Rightarrow> uuid \<Rightarrow>
    admin_headers \<Rightarrow> uuid \<Rightarrow> 'z admin_db_scheme \<Rightarrow> (api_error + order_detail) \<times> 'z admin_db_scheme" where
  "recheck_order au cr am cfg numbers envs token h order_id db =
     (case require_operator au am cfg (envs 0) h db of
        Inl e \<Rightarrow> (Inl e, db)
      | Inr operator_id \<Rightarrow>
     (case find_order order_id db of
        None \<Rightarrow> (Inl NotFound, db)
      | Some row \<Rightarrow>
          if no_status row = OReview \<and> no_provider_order row = None then (Inl RecheckUnavailable, db)
          else (let before = journal_snapshot cr row in
            and_then (commit (try_claim_held_order token (sql_now (envs 0)) order_id db) db) (\<lambda>claimed db.
              (case claimed of
                 None \<Rightarrow> (Inl (reject_if_claimed (app_now (envs 0)) order_id db), db)
               | Some claim \<Rightarrow>
                   if no_status row = OReserved \<and> no_purchase_started row = None
                   then and_then (commit (apply_claimed (cr_digest cr) (envs 1) order_id claim
                          (Refund RFailed ''purchase_not_started'') db) db)
                        (\<lambda>_ db. audited cr am (sql_now (envs 2)) operator_id order_id before db)
                   else if no_status row = OReserved \<and> no_provider_order row = None
                   then and_then (commit (mark_review_required (cr_show_uuid cr) (envs 1) order_id claim ''purchase_outcome_unknown'' db) db)
                        (\<lambda>_ db. audited cr am (sql_now (envs 2)) operator_id order_id before db)
                   else (case no_provider_order row of
                      None \<Rightarrow> (Inl RecheckUnavailable,
                        snd (commit (release_order (sql_now (envs 1)) order_id claim 1 None db) db))
                    | Some provider_id \<Rightarrow>
                        recheck_supplier cr am numbers envs operator_id claim order_id row provider_id before db))))))"

section \<open>Refund\<close>

definition idempotency_header :: "crates \<Rightarrow> admin_headers \<Rightarrow> api_error + uuid" where
  "idempotency_header cr h =
     res_bind (ok_or (BadRequest ''Idempotency-Key header is required'') (ah_idempotency_key h)) (\<lambda>raw.
     ok_or (BadRequest ''Idempotency-Key must be a UUID'') (cr_parse_uuid cr raw))"

definition refund_key :: "crates \<Rightarrow> uuid \<Rightarrow> jval" where
  "refund_key cr key = JvStr (cr_show_uuid cr key)"

definition refund_replayed :: "crates \<Rightarrow> uuid \<Rightarrow> uuid \<Rightarrow> 'z admin_db_scheme \<Rightarrow> bool" where
  "refund_replayed cr order_id key db \<longleftrightarrow>
     list_ex (\<lambda>l. lg_action l = ''number_refund'' \<and> lg_target l = cr_show_uuid cr order_id \<and>
       jv_get (lg_after l) ''idempotencyKey'' = Some (refund_key cr key)) (audit db)"

text \<open>The first 200 characters of the reason.\<close>

definition clip_reason :: "string option \<Rightarrow> string option" where
  "clip_reason reason = map_option (\<lambda>r. concat (take 200 (characters r))) (trimmed_filter reason)"

definition refund_snapshot :: "crates \<Rightarrow> uuid \<Rightarrow> string option \<Rightarrow> (string \<times> jval) list \<Rightarrow> jval" where
  "refund_snapshot cr key reason after =
     JvObj (sort_key fst (after @ [(''idempotencyKey'', refund_key cr key)] @
       (case clip_reason reason of None \<Rightarrow> [] | Some r \<Rightarrow> [(''reason'', JvStr r)])))"

definition refund_allowed :: "admin_config \<Rightarrow> order_row \<Rightarrow> api_error + unit" where
  "refund_allowed cfg r =
     (if no_refunded r \<noteq> None \<or> no_status r \<notin> {OReserved, OAwaiting, OReview}
      then Inl (Conflict ''This order is not holding a reservation that can be refunded.'')
      else if aq_refund_cap cfg < no_price r then Inl RefundCap else Inr ())"

definition refund_order :: "auth_crates \<Rightarrow> crates \<Rightarrow> admin_crates \<Rightarrow> admin_config \<Rightarrow> (nat \<Rightarrow> env) \<Rightarrow> uuid \<Rightarrow>
    admin_headers \<Rightarrow> string option \<Rightarrow> uuid \<Rightarrow> 'z admin_db_scheme \<Rightarrow> (api_error + order_detail) \<times> 'z admin_db_scheme" where
  "refund_order au cr am cfg envs token h reason order_id db =
     (case res_bind (require_operator au am cfg (envs 0) h db) (\<lambda>operator_id.
           res_bind (idempotency_header cr h) (\<lambda>key. Inr (operator_id, key))) of
        Inl e \<Rightarrow> (Inl e, db)
      | Inr (operator_id, key) \<Rightarrow>
          if refund_replayed cr order_id key db then (load_detail cr am order_id db, db)
          else (case find_order order_id db of
             None \<Rightarrow> (Inl NotFound, db)
           | Some row \<Rightarrow>
               (case refund_allowed cfg row of
                  Inl e \<Rightarrow> (Inl e, db)
                | Inr _ \<Rightarrow>
                    and_then (commit (try_claim_held_order token (sql_now (envs 0)) order_id db) db) (\<lambda>claimed db.
                      (case claimed of
                         None \<Rightarrow> (Inl (reject_if_claimed (app_now (envs 0)) order_id db), db)
                       | Some claim \<Rightarrow>
                           and_then (map_prod map_claim_err id (commit (apply_claimed (cr_digest cr) (envs 1) order_id claim
                               (Refund RCancelled ''operator'') db) db)) (\<lambda>_ db.
                           (case order_journals cr order_id db of
                              Inl e \<Rightarrow> (Inl e, db)
                            | Inr after \<Rightarrow>
                                (let (audit_id, db1) = insert_audit am (cr_show_uuid cr) (sql_now (envs 2)) operator_id ''number_refund''
                                       order_id (JvObj (journal_snapshot cr row)) (refund_snapshot cr key reason after) db;
                                     db2 = insert_alert (''number-refund:'' @ cr_show_uuid cr order_id @ '':'' @ show_int audit_id)
                                       (new_id (envs 2) 0) (sql_now (envs 2)) order_id db1
                                 in (load_detail cr am order_id db2, db2)))))))))"

end
