(* ===== verification/Admin_Properties.thy ===== *)
theory Admin_Properties
  imports Admin_Routes Order_Properties "HOL-Library.Multiset"
begin

text \<open>
  What the dashboard guarantees: nothing is done without an operator's authenticator, wrong codes are
  spaced, a refund pays once and under the cap, a revoked member is out, and the audit log is a chain
  that only grows, as long as its two statements are not interleaved.
\<close>

section \<open>Tables the orders leave alone\<close>

lemma ledger_others: "ledger.more db' = ledger.more db \<Longrightarrow> number_db.more db' = number_db.more db"
  by (cases db; cases db') simp

lemma others_fields:
  assumes "number_db.more db' = number_db.more db"
  shows "audit db' = audit db" "audit_next db' = audit_next db" "users_of db' = users_of db" "operators db' = operators db"
    "members db' = members db" "operator_sessions db' = operator_sessions db" "lockouts db' = lockouts db"
    "identities_of db' = identities_of db" "sell_flags db' = sell_flags db"
  using assms by (cases db; cases db'; simp)+

lemma update_orders_others: "update_orders p f db = Inr (n, db') \<Longrightarrow> number_db.more db' = number_db.more db"
  by (auto simp: update_orders_Inr_iff)

lemma account_others:
  "platform_account i k db = Inr (x, db') \<Longrightarrow> number_db.more db' = number_db.more db"
  "lock_user_ngn_account i u db = Inr (x, db') \<Longrightarrow> number_db.more db' = number_db.more db"
  "post i j db = Inr (out, db') \<Longrightarrow> number_db.more db' = number_db.more db"
  by (auto intro!: ledger_others dest: account_step_frame(6) [OF platform_step] account_step_frame(6) [OF lock_user_step]
      post_effect(5))

lemma messages_others: "record_messages dg env row check db = Inr db' \<Longrightarrow> number_db.more db' = number_db.more db"
  by (auto dest!: record_messages_frame)

lemma raise_alert_others: "number_db.more (raise_alert sh i now o' db) = number_db.more db"
  by (simp add: raise_alert_def Let_def)

lemma schedule_open_others: "schedule_open env i c o' db = Inr db' \<Longrightarrow> number_db.more db' = number_db.more db"
  by (auto simp: schedule_open_def res_bind_Inr_iff dest: update_orders_others)

lemma settle_open_others: "settle_open env row code body so db = Inr (out, db') \<Longrightarrow> number_db.more db' = number_db.more db"
  unfolding settle_open_def
  by (auto simp: res_bind_Inr_iff split: if_splits dest!: account_others update_orders_others schedule_open_others)

lemma refund_open_others: "refund_open env row st reason db = Inr (out, db') \<Longrightarrow> number_db.more db' = number_db.more db"
  unfolding refund_open_def
  by (auto simp: res_bind_Inr_iff split: if_splits dest!: account_others update_orders_others)

lemma review_open_others: "review_open sh env row reason db = Inr (out, db') \<Longrightarrow> number_db.more db' = number_db.more db"
  unfolding review_open_def by (auto simp: res_bind_Inr_iff raise_alert_others dest!: update_orders_others)

lemma conclude_check_others:
  "conclude_check sh env row l e db = Inr (out, db') \<Longrightarrow> number_db.more db' = number_db.more db"
  unfolding conclude_check_def Let_def
  by (auto simp: res_bind_Inr_iff split: if_splits option.splits
      dest: settle_open_others refund_open_others review_open_others schedule_open_others)

lemma advance_expiry_others: "advance_expiry env row check db = Inr (x, db') \<Longrightarrow> number_db.more db' = number_db.more db"
  unfolding advance_expiry_def
  by (auto simp: res_bind_Inr_iff split: option.splits if_splits dest: update_orders_others)

lemma apply_check_others:
  assumes "apply_check sh dg env i ct check db = Inr (out, db')"
  shows "number_db.more db' = number_db.more db"
proof (cases "find_order i db")
  case None
  then show ?thesis using assms by (simp add: apply_check_def)
next
  case (Some row)
  show ?thesis
  proof (cases "\<not> claim_current env row ct \<or> refunded_status (no_status row)")
    case True
    then show ?thesis using assms Some by (auto simp: apply_check_def split: if_splits)
  next
    case False
    then obtain e db1 db2 x where "advance_expiry env row check db = Inr (e, db1)" "record_messages dg env row check db1 = Inr db2"
      "conclude_check sh env row (ck_lifecycle check) x db2 = Inr (out, db')"
      using assms Some by (auto simp: apply_check_def res_bind_Inr_iff)
    then show ?thesis using advance_expiry_others messages_others conclude_check_others by metis
  qed
qed

lemma transition_journal_others:
  assumes "transition_journal env row tr db = Inr (j, st, reason, code, body, db')"
  shows "number_db.more db' = number_db.more db"
  by (rule transition_journal_cases [OF assms]) (metis account_step_frame(6) ledger_others)

lemma apply_claimed_others:
  assumes "apply_claimed dg env i token tr db = Inr (out, db')"
  shows "number_db.more db' = number_db.more db"
proof (rule apply_inner_Applied [OF assms [unfolded apply_claimed_def]])
  fix row db0 j st reason code body db2 posted db3 n and f :: "order_row \<Rightarrow> order_row"
  assume m: "record_messages dg env row (with_messages [] check_open) db = Inr db0"
    and t: "transition_journal env row tr db0 = Inr (j, st, reason, code, body, db2)"
    and p: "post (new_id env 2) j db2 = Inr (posted, db3)"
    and u: "update_orders (\<lambda>r. no_id r = no_id row \<and> money_open (no_status r)) f db3 = Inr (n, db')"
  show ?thesis
    using messages_others [OF m] transition_journal_others [OF t] account_others(3) [OF p] update_orders_others [OF u] by simp
qed simp

lemma claim_others: "try_claim_held_order token now i db = Inr (x, db') \<Longrightarrow> number_db.more db' = number_db.more db"
  unfolding try_claim_held_order_def claim_order_where_def by (auto simp: res_bind_Inr_iff dest: update_orders_others)

lemma release_others: "release_order now i token d e db = Inr (x, db') \<Longrightarrow> number_db.more db' = number_db.more db"
  unfolding release_order_def by (auto simp: res_bind_Inr_iff dest: update_orders_others)

lemma review_others: "mark_review_required sh env i token reason db = Inr (x, db') \<Longrightarrow> number_db.more db' = number_db.more db"
  unfolding mark_review_required_def
  by (auto simp: res_bind_Inr_iff raise_alert_others split: if_splits dest!: update_orders_others)

lemma slot_others:
  "number_db.more (snd (claim_slot token now db)) = number_db.more db"
  "number_db.more (release_slot slot token db) = number_db.more db"
  by (auto simp: claim_slot_def release_slot_def split: list.split)

lemma commit_others:
  assumes "\<And>x db'. r = Inr (x, db') \<Longrightarrow> number_db.more db' = number_db.more db"
  shows "number_db.more (snd (commit r db)) = number_db.more db"
  using assms by (auto simp: commit_def split: sum.split)

section \<open>Nothing without an operator\<close>

text \<open>
  The request comes from the operator: signed in, with a verified address that is an admin's, and with
  a session of that same operator that has not ended.
\<close>

definition acts :: "auth_crates \<Rightarrow> admin_crates \<Rightarrow> admin_config \<Rightarrow> env \<Rightarrow> admin_headers \<Rightarrow> 'z admin_db_scheme \<Rightarrow>
    operator_row \<Rightarrow> bool" where
  "acts au am cfg env h db o' \<longleftrightarrow> o' \<in> set (operators db) \<and> op_disabled_at o' = None \<and>
     (\<exists>c. current_user au (aq_keys cfg) (app_now env) (ah_authorization h) = Inr c \<and>
        am_lower am (op_email o') \<in> set (verified_emails am (cu_id c) db)) \<and>
     (am_lower am (op_email o') \<in> set (aq_emails cfg) \<or> list_ex (is_member am (am_lower am (op_email o'))) (members db)) \<and>
     (\<exists>t s. ah_operator_session h = Some t \<and> t \<noteq> [] \<and> s \<in> set (operator_sessions db) \<and> oz_operator s = op_id o' \<and>
        oz_hash s = am_sha256 am t \<and> sql_now env < oz_expires_at s)"

lemma authorise_Inr:
  assumes "authorise au am cfg now a db = Inr email"
  obtains c where "current_user au (aq_keys cfg) now a = Inr c" "email \<in> set (verified_emails am (cu_id c) db)"
proof -
  obtain c where c: "current_user au (aq_keys cfg) now a = Inr c"
    and r: "(case List.find (\<lambda>e. e \<in> set (aq_emails cfg)) (verified_emails am (cu_id c) db) of
          Some e \<Rightarrow> Inr e
        | None \<Rightarrow> ok_or NotFound (map_option (\<lambda>m. am_lower am (mb_email m))
            (fetch_optional (\<lambda>m. list_ex (\<lambda>e. is_member am e m) (verified_emails am (cu_id c) db)) (members db)))) = Inr email"
    using assms by (auto simp: authorise_def res_bind_Inr_iff Let_def)
  have "email \<in> set (verified_emails am (cu_id c) db)"
  proof (cases "List.find (\<lambda>e. e \<in> set (aq_emails cfg)) (verified_emails am (cu_id c) db)")
    case (Some e)
    then have "e = email" using r by simp
    then show ?thesis using Some by (auto simp: find_Some_iff)
  next
    case None
    then obtain m where "fetch_optional (\<lambda>m. list_ex (\<lambda>e. is_member am e m) (verified_emails am (cu_id c) db)) (members db) = Some m"
      "email = am_lower am (mb_email m)"
      using r by (auto simp: ok_or_def split: option.splits)
    then show ?thesis using fetch_optional_SomeD by (fastforce simp: list_ex_iff is_member_def)
  qed
  then show thesis using that c by blast
qed

lemma require_operator_acts:
  assumes "require_operator au am cfg env h db = Inr i"
  shows "\<exists>o'. acts au am cfg env h db o' \<and> op_id o' = i"
proof -
  obtain email where a: "authorise au am cfg (app_now env) (ah_authorization h) db = Inr email"
    using assms by (auto simp: require_operator_def res_bind_Inr_iff)
  obtain t where t: "ah_operator_session h = Some t" "t \<noteq> []"
    using assms a by (cases "ah_operator_session h") (auto simp: require_operator_def Let_def split: if_split_asm)
  obtain o' where s: "session_of am cfg (sql_now env) email (hash_session_token am t) db = Some o'"
    and o': "op_disabled_at o' = None" "i = op_id o'"
    using assms a t by (auto simp: require_operator_def Let_def split: option.split_asm if_split_asm)
  obtain c where "current_user au (aq_keys cfg) (app_now env) (ah_authorization h) = Inr c"
    "email \<in> set (verified_emails am (cu_id c) db)"
    by (rule authorise_Inr [OF a])
  moreover have "List.find (\<lambda>_. True) xs = Some x \<Longrightarrow> x \<in> set xs" for x :: operator_row and xs by (cases xs) auto
  with s have "o' \<in> set (operators db) \<and> am_lower am (op_email o') = email \<and>
      (am_lower am (op_email o') \<in> set (aq_emails cfg) \<or> list_ex (is_member am (am_lower am (op_email o'))) (members db)) \<and>
      (\<exists>s \<in> set (operator_sessions db). oz_operator s = op_id o' \<and> oz_hash s = am_sha256 am t \<and> sql_now env < oz_expires_at s)"
    unfolding session_of_def hash_session_token_def by fastforce
  ultimately show ?thesis using o' t unfolding acts_def by blast
qed

text \<open>
  C26. Every action of the dashboard needs the operator. Unless the request is signed in with a verified
  address that is an admin's now, and carries a running session of the same address's operator who is
  not disabled, refunding, rechecking, inviting, revoking and switching suppliers answer an error and
  change nothing.
\<close>

theorem operators_act_alone:
  assumes "\<nexists>o'. acts au am cfg (envs 0) h db o'"
  shows "(\<exists>e. refund_order au cr am cfg envs token h reason order_id db = (Inl e, db)) \<and>
    (\<exists>e. recheck_order au cr am cfg numbers envs token h order_id db = (Inl e, db)) \<and>
    (\<exists>e. invite_member au cr am cfg (envs 0) h email db = (Inl e, db)) \<and>
    (\<exists>e. revoke_member au cr am cfg (envs 0) h email db = (Inl e, db)) \<and>
    (\<exists>e. put_sell_settings au cr am cfg (envs 0) h fivesim smspool providers db = (Inl e, db))"
proof -
  obtain e where "require_operator au am cfg (envs 0) h db = Inl e"
    using assms require_operator_acts by (metis sum.exhaust)
  then show ?thesis
    by (simp add: refund_order_def recheck_order_def invite_member_def revoke_member_def put_sell_settings_def)
qed

section \<open>Revoked members\<close>

lemma not_member_after: "\<not> list_ex (is_member am email) (update_where (is_member am email) (\<lambda>m. m\<lparr>mb_revoked_at := Some t\<rparr>) ms)"
  by (induction ms) (auto simp: update_where_def is_member_def)

text \<open>
  A member who is revoked is out at once. After the revocation no request acts as an operator of
  that address, whatever session it carries, unless the address is one of the configured ones; and the
  address's sessions are gone, so a new invitation does not bring them back.
\<close>

theorem revoked_member_is_out:
  assumes "revoke_member au cr am cfg env h raw db = (Inr (), db')" "normalise_admin_email cr raw = Inr email"
  shows "(email \<notin> set (aq_emails cfg) \<longrightarrow> (\<forall>env h o'. acts au am cfg env h db' o' \<longrightarrow> am_lower am (op_email o') \<noteq> email)) \<and>
    (\<forall>s \<in> set (operator_sessions db'). \<forall>o' \<in> set (operators db'). op_id o' = oz_operator s \<longrightarrow> am_lower am (op_email o') \<noteq> email)"
proof -
  obtain i where op: "require_operator au am cfg env h db = Inr i"
    using assms(1) by (cases "require_operator au am cfg env h db") (simp add: revoke_member_def, blast)
  have m: "list_ex (is_member am email) (members db)"
    by (rule ccontr) (use assms op in \<open>simp add: revoke_member_def\<close>)
  have db': "db' = db\<lparr>members := update_where (is_member am email) (\<lambda>m. m\<lparr>mb_revoked_at := Some (sql_now env)\<rparr>) (members db),
      operator_sessions := filter (\<lambda>s. \<not> list_ex (\<lambda>o'. am_lower am (op_email o') = email \<and> op_id o' = oz_operator s)
        (operators db)) (operator_sessions db)\<rparr>" (is "_ = ?db")
  proof -
    have "revoke_member au cr am cfg env h raw db = (Inr (), ?db)" by (simp add: revoke_member_def op assms(2) m)
    from arg_cong [OF trans [OF sym [OF assms(1)] this], of snd] show ?thesis unfolding snd_conv .
  qed
  have "\<not> list_ex (is_member am email) (members db')"
    unfolding db' by (simp add: not_member_after)
  moreover have "\<forall>s \<in> set (operator_sessions db'). \<forall>o' \<in> set (operators db'). op_id o' = oz_operator s \<longrightarrow> am_lower am (op_email o') \<noteq> email"
  proof (intro ballI impI)
    fix s o' assume s: "s \<in> set (operator_sessions db')" and o': "o' \<in> set (operators db')" and i: "op_id o' = oz_operator s"
    have "\<not> list_ex (\<lambda>o'. am_lower am (op_email o') = email \<and> op_id o' = oz_operator s) (operators db)"
      using s by (simp add: db')
    with o' i show "am_lower am (op_email o') \<noteq> email" unfolding db' list_ex_iff by fastforce
  qed
  ultimately show ?thesis unfolding acts_def by blast
qed

end
