(* ===== verification/Admin_Runs.thy ===== *)
theory Admin_Runs
  imports Admin_Properties "HOL-Library.Sublist"
begin

text \<open>
  Runs of the dashboard's handlers, one after the other: the audit log stays a chain of hashes that
  only grows, and the wrong codes of an address are spaced. The last section interleaves the two
  statements of the audit log's insert.
\<close>

section \<open>The chain\<close>

fun chained :: "admin_crates \<Rightarrow> (uuid \<Rightarrow> string) \<Rightarrow> string option \<Rightarrow> audit_row list \<Rightarrow> bool" where
  "chained am show_uuid prev [] = True"
| "chained am show_uuid prev (l # ls) =
     (lg_prev l = prev \<and>
      lg_hash l = audit_hash am prev (lg_actor_type l) (show_uuid (lg_actor l)) (lg_action l) (lg_target l)
        (am_json am (lg_before l)) (am_json am (lg_after l)) \<and>
      chained am show_uuid (Some (lg_hash l)) ls)"

definition audit_ok :: "admin_crates \<Rightarrow> (uuid \<Rightarrow> string) \<Rightarrow> 'z admin_db_scheme \<Rightarrow> bool" where
  "audit_ok am show_uuid db \<longleftrightarrow> sorted_wrt (<) (map lg_id (audit db)) \<and>
     list_all (\<lambda>l. lg_id l < audit_next db) (audit db) \<and> chained am show_uuid None (audit db)"

lemma chained_append:
  "chained am sh p (ls @ [l]) \<longleftrightarrow> chained am sh p ls \<and>
     chained am sh (case rev ls of [] \<Rightarrow> p | z # _ \<Rightarrow> Some (lg_hash z)) [l]"
proof (induction ls arbitrary: p)
  case (Cons a ls)
  then show ?case by (cases "rev ls") auto
qed simp

lemma chained_append2:
  "chained am sh p (ls @ [l, m]) \<longleftrightarrow> chained am sh p (ls @ [l]) \<and> chained am sh (Some (lg_hash l)) [m]"
  using chained_append [of am sh p "ls @ [l]" m] by simp

lemma rev_sorted_by_id:
  assumes "sorted_wrt (<) (map lg_id ls)"
  shows "sort_key (\<lambda>l. - lg_id l) ls = rev ls"
proof (rule sort_key_inj_key_eq)
  have d: "distinct (map lg_id ls)" using assms by (simp add: strict_sorted_iff)
  then show "inj_on (\<lambda>l. - lg_id l) (set ls)" by (auto simp: distinct_map inj_on_def)
  have "sorted (map lg_id ls)" using assms by (simp add: strict_sorted_iff)
  then have "sorted_wrt (\<lambda>x y. lg_id x \<le> lg_id y) ls" by (simp add: sorted_map)
  then show "sorted (map (\<lambda>l. - lg_id l) (rev ls))" by (simp add: sorted_map sorted_wrt_rev)
qed simp

lemma last_hash_ok:
  assumes "audit_ok am sh db"
  shows "last_hash db = (case rev (audit db) of [] \<Rightarrow> None | z # _ \<Rightarrow> Some (lg_hash z))"
  using assms by (simp add: last_hash_def audit_ok_def rev_sorted_by_id)

text \<open>What a handler may do to the log: add rows, which continue the chain.\<close>

definition audit_grows :: "admin_crates \<Rightarrow> (uuid \<Rightarrow> string) \<Rightarrow> 'z admin_db_scheme \<Rightarrow> 'z admin_db_scheme \<Rightarrow> bool" where
  "audit_grows am show_uuid db db' \<longleftrightarrow>
     (audit_ok am show_uuid db \<longrightarrow> audit_ok am show_uuid db' \<and> prefix (audit db) (audit db'))"

lemma audit_grows_refl [intro]: "audit_grows am sh db db"
  by (simp add: audit_grows_def)

lemma audit_grows_trans: "audit_grows am sh db db' \<Longrightarrow> audit_grows am sh db' db'' \<Longrightarrow> audit_grows am sh db db''"
  unfolding audit_grows_def using prefix_order.order_trans by blast

lemma audit_grows_same:
  assumes "audit db' = audit db" "audit_next db' = audit_next db"
  shows "audit_grows am sh db db'" "audit_grows am sh db'' db \<Longrightarrow> audit_grows am sh db'' db'"
  using assms by (simp_all add: audit_grows_def audit_ok_def)

lemma insert_audit_grows: "audit_grows am sh db (snd (insert_audit am sh now i action target before after db))"
proof (unfold audit_grows_def, intro impI conjI)
  assume ok: "audit_ok am sh db"
  show "prefix (audit db) (audit (snd (insert_audit am sh now i action target before after db)))"
    by (simp add: insert_audit_def append_audit_def)
  show "audit_ok am sh (snd (insert_audit am sh now i action target before after db))"
    using ok last_hash_ok [OF ok]
    by (auto simp: audit_ok_def insert_audit_def append_audit_def chained_append sorted_wrt_append list_all_iff)
qed

lemma orders_grow:
  "number_db.more db' = number_db.more db \<Longrightarrow> audit_grows am sh db db'"
  by (rule audit_grows_same(1)) (rule others_fields, assumption)+

lemma commit_grows:
  "(\<And>x db'. r = Inr (x, db') \<Longrightarrow> audit_grows am sh db db') \<Longrightarrow> audit_grows am sh db (snd (commit r db))"
  by (rule commit_keeps) auto

lemma and_then_grows:
  assumes "audit_grows am sh db (snd r)" "\<And>x db'. audit_grows am sh db' (snd (f x db'))"
  shows "audit_grows am sh db (snd (and_then r f))"
  by (rule and_then_keeps [where P = "audit_grows am sh db"]) (use assms audit_grows_trans in blast)+

lemma mapped_grows: "audit_grows am sh db (snd r) \<Longrightarrow> audit_grows am sh db (snd (map_prod g id r))"
  by (cases r) simp

lemma alert_grows: "audit_grows am sh db (insert_alert key i now o' db)"
  by (rule audit_grows_same(1)) (simp_all add: insert_alert_def)

lemma audited_grows: "audit_grows am (cr_show_uuid cr) db (snd (audited cr am now i o' before db))"
  by (auto simp: audited_def Let_def split: sum.split intro: insert_audit_grows)

lemma order_grows:
  "audit_grows am sh db (snd (commit (apply_claimed dg env i token tr db) db))"
  "audit_grows am sh db (snd (commit (apply_check shu dg env i ct check db) db))"
  "audit_grows am sh db (snd (commit (try_claim_held_order token now i db) db))"
  "audit_grows am sh db (snd (commit (release_order now i token d e db) db))"
  "audit_grows am sh db (snd (commit (mark_review_required shu env i token reason db) db))"
  by (rule commit_grows, rule orders_grow, erule apply_claimed_others apply_check_others claim_others release_others
      review_others)+

section \<open>Requests\<close>

datatype admin_request =
    Enroll env string string admin_headers
  | SignIn env string admin_headers string
  | SignOut env admin_headers
  | Invite env admin_headers string
  | Revoke env admin_headers string
  | PutSettings env admin_headers bool bool "(string \<times> bool) list"
  | Recheck "nat \<Rightarrow> env" uuid admin_headers uuid
  | RefundOrder "nat \<Rightarrow> env" uuid admin_headers "string option" uuid

definition admin_step :: "auth_crates \<Rightarrow> crates \<Rightarrow> admin_crates \<Rightarrow> admin_config \<Rightarrow> supplier \<Rightarrow> admin_request \<Rightarrow>
    'z admin_db_scheme \<Rightarrow> 'z admin_db_scheme" where
  "admin_step au cr am cfg numbers q db =
     (case q of
        Enroll env secret nonce h \<Rightarrow> snd (enroll_operator au am cfg env secret nonce h db)
      | SignIn env token h code \<Rightarrow> snd (create_session au cr am cfg env token h code db)
      | SignOut env h \<Rightarrow> snd (delete_session au am cfg env h db)
      | Invite env h email \<Rightarrow> snd (invite_member au cr am cfg env h email db)
      | Revoke env h email \<Rightarrow> snd (revoke_member au cr am cfg env h email db)
      | PutSettings env h fivesim smspool providers \<Rightarrow>
          snd (put_sell_settings au cr am cfg env h fivesim smspool providers db)
      | Recheck envs token h i \<Rightarrow> snd (recheck_order au cr am cfg numbers envs token h i db)
      | RefundOrder envs token h reason i \<Rightarrow> snd (refund_order au cr am cfg envs token h reason i db))"

lemma recheck_supplier_grows:
  "audit_grows am (cr_show_uuid cr) db (snd (recheck_supplier cr am numbers envs i claim o' row p before db))"
proof -
  obtain s db1 where s: "claim_slot claim (sql_now (envs 1)) db = (s, db1)" by fastforce
  then have g: "audit_grows am (cr_show_uuid cr) db db1" using orders_grow [OF slot_others(1)] by (metis snd_conv)
  moreover have "audit_grows am (cr_show_uuid cr) db1 (snd (recheck_supplier cr am numbers envs i claim o' row p before db))"
  proof (cases s)
    case None
    then show ?thesis unfolding recheck_supplier_def s
      by (auto intro!: and_then_grows order_grows)
  next
    case (Some slot)
    have r: "audit_grows am (cr_show_uuid cr) db1 (release_slot slot claim db1)" by (rule orders_grow [OF slot_others(2)])
    show ?thesis
      unfolding recheck_supplier_def s Some
      by (auto simp: Let_def split: sum.split
          intro!: and_then_grows order_grows audited_grows alert_grows mapped_grows audit_grows_trans [OF r])
  qed
  ultimately show ?thesis by (rule audit_grows_trans)
qed

lemma recheck_grows: "audit_grows am (cr_show_uuid cr) db (snd (recheck_order au cr am cfg numbers envs token h i db))"
  unfolding recheck_order_def
  by (auto simp: Let_def split: sum.split option.split
      intro!: and_then_grows order_grows audited_grows recheck_supplier_grows)

lemma refund_grows: "audit_grows am (cr_show_uuid cr) db (snd (refund_order au cr am cfg envs token h reason i db))"
  unfolding refund_order_def
  by (auto simp: Let_def split: sum.split option.split prod.split unit.split dest!: arg_cong [of _ _ snd]
      intro!: audit_grows_refl and_then_grows order_grows mapped_grows audit_grows_trans [OF insert_audit_grows alert_grows])

lemma settings_grow:
  "audit_grows am (cr_show_uuid cr) db (snd (put_sell_settings au cr am cfg env h f s ps db))"
proof -
  have "audit_grows am (cr_show_uuid cr) db (snd (insert_audit am (cr_show_uuid cr) now i a t b c (db\<lparr>sell_flags := x\<rparr>)))" for now i a t b c x
    by (rule audit_grows_trans [OF _ insert_audit_grows]) (rule audit_grows_same(1), simp_all)
  then show ?thesis
    by (auto simp: put_sell_settings_def Let_def audit_grows_same(1) split: sum.split prod.split)
qed

lemma admin_step_grows: "audit_grows am (cr_show_uuid cr) db (admin_step au cr am cfg numbers q db)"
proof (cases q)
  case (Enroll env secret nonce h)
  then show ?thesis by (auto simp: admin_step_def enroll_operator_def audit_grows_same(1) split: sum.split)
next
  case (SignIn env token h code)
  then show ?thesis
    by (auto simp: admin_step_def create_session_def totp_is_locked_def record_totp_failure_def clear_totp_failures_def
        audit_grows_same(1) Let_def split: sum.split option.split)
next
  case (SignOut env h)
  then show ?thesis by (auto simp: admin_step_def delete_session_def Let_def audit_grows_same(1) split: sum.split)
next
  case (Invite env h email)
  then show ?thesis by (auto simp: admin_step_def invite_member_def Let_def audit_grows_same(1) split: sum.split)
next
  case (Revoke env h email)
  then show ?thesis by (auto simp: admin_step_def revoke_member_def audit_grows_same(1) split: sum.split)
next
  case (PutSettings env h f s ps)
  then show ?thesis by (simp add: admin_step_def settings_grow)
next
  case (Recheck envs token h i)
  then show ?thesis by (simp add: admin_step_def recheck_grows)
next
  case (RefundOrder envs token h reason i)
  then show ?thesis by (simp add: admin_step_def refund_grows)
qed

definition admin_run :: "auth_crates \<Rightarrow> crates \<Rightarrow> admin_crates \<Rightarrow> admin_config \<Rightarrow> supplier \<Rightarrow> admin_request list \<Rightarrow>
    'z admin_db_scheme \<Rightarrow> 'z admin_db_scheme" where
  "admin_run au cr am cfg numbers qs db = fold (admin_step au cr am cfg numbers) qs db"

lemma admin_run_grows: "audit_grows am (cr_show_uuid cr) db (admin_run au cr am cfg numbers qs db)"
  unfolding admin_run_def
proof (induction qs arbitrary: db)
  case (Cons q qs)
  then show ?case using audit_grows_trans [OF admin_step_grows Cons.IH] by simp
qed auto

text \<open>
  C29. The audit log is a chain that only grows. Whatever the dashboard is asked, one request after the
  other, no row of the log is changed or removed, the rows are in the order of their ids, every row
  names the hash of the row before it and its own hash is that of its fields.
\<close>

theorem audit_chain_intact:
  assumes "audit_ok am (cr_show_uuid cr) db"
  shows "audit_ok am (cr_show_uuid cr) (admin_run au cr am cfg numbers qs db) \<and>
    prefix (audit db) (audit (admin_run au cr am cfg numbers qs db))"
  using admin_run_grows [of am cr db au cfg numbers qs] assms by (simp add: audit_grows_def)

section \<open>Two requests at once\<close>

text \<open>
  Two requests at once can fork the chain. The insert of an audit row is two statements, reading the
  last hash and inserting: when two requests read before either inserts, both rows follow the same row,
  whatever else they say, and the log is no chain any more.
\<close>

theorem audit_chain_forks:
  assumes "audit_ok am sh db"
  shows "\<not> audit_ok am sh (snd (append_audit am sh now' (last_hash db) i' action' target' before' after'
      (snd (append_audit am sh now (last_hash db) i action target before after db)))) \<or>
    last_hash db = Some (audit_hash am (last_hash db) ''admin'' (sh i) action (sh target) (am_json am before) (am_json am after))"
  using assms by (auto simp: audit_ok_def append_audit_def chained_append2 last_hash_ok)

end
