(* ===== verification/Admin_Refunds.thy ===== *)
theory Admin_Refunds
  imports Admin_Runs Cash_Runs
begin

text \<open>What an operator's refund does to the money, once and under the cap, and what it answers.\<close>

section \<open>The refund, taken apart\<close>

lemma and_then_Inr: "and_then r f = (Inr y, db') \<longleftrightarrow> (\<exists>x db1. r = (Inr x, db1) \<and> f x db1 = (Inr y, db'))"
  by (auto simp: and_then_def split: prod.splits sum.splits)

lemma commit_Inr: "commit r db = (Inr x, db') \<longleftrightarrow> r = Inr (x, db')"
  by (auto simp: commit_def split: sum.splits)

lemma claim_err_Inr: "map_prod map_claim_err id r = (Inr x, db') \<longleftrightarrow> r = (Inr x, db')"
  by (cases r) (auto simp: map_claim_err_def split: sum.splits api_error.splits)

lemma sort_key_map_of: "map_of (sort_key fst xs) (k :: string) = map_of xs k"
proof -
  have f: "map_of ys k = map_of (filter (\<lambda>p. fst p = k) ys) k" for ys :: "(string \<times> 'b) list"
    by (induction ys) auto
  show ?thesis using f [of xs] f [of "sort_key fst xs"] by (simp add: sort_key_stable)
qed

lemma snapshot_key: "journal_snapshot cr r = after \<Longrightarrow> map_of after ''idempotencyKey'' = None"
  by (auto simp: journal_snapshot_def)

lemma refund_snapshot_key:
  "order_journals cr i db = Inr after \<Longrightarrow> jv_get (refund_snapshot cr key reason after) ''idempotencyKey'' = Some (refund_key cr key)"
  by (auto simp: refund_snapshot_def sort_key_map_of order_journals_def ok_or_def journal_snapshot_def split: option.splits)

text \<open>A successful refund under a new key: who asked, the claim, the transition, and the log.\<close>

lemma refund_order_new:
  assumes res: "refund_order au cr am cfg envs token h reason i db = (out, db')"
    and op: "require_operator au am cfg (envs 0) h db = Inr op" and key: "idempotency_header cr h = Inr key"
    and new: "\<not> refund_replayed cr i key db"
    and claimed: "find_order i db = Some r" "refund_allowed cfg r = Inr ()"
      "try_claim_held_order token (sql_now (envs 0)) i db = Inr (Some claim, db1)"
    and applied: "apply_claimed (cr_digest cr) (envs 1) i claim (Refund RCancelled ''operator'') db1 = Inr (x, db2)"
    and found: "find_order i db2 = Some r2"
  shows "refund_replayed cr i key db'" "orders db' = orders db2" "accounts db' = accounts db2" "journals db' = journals db2"
    "entries db' = entries db2" "users_of db' = users_of db2" "out = load_detail cr am i db'"
proof -
  obtain after where after: "order_journals cr i db2 = Inr after"
    using found by (simp add: order_journals_def ok_or_def)
  obtain audit_id db3 where a: "insert_audit am (cr_show_uuid cr) (sql_now (envs 2)) op ''number_refund'' i
      (JvObj (journal_snapshot cr r)) (refund_snapshot cr key reason after) db2 = (audit_id, db3)" by fastforce
  define db4 where "db4 = insert_alert (''number-refund:'' @ cr_show_uuid cr i @ '':'' @ show_int audit_id)
      (new_id (envs 2) 0) (sql_now (envs 2)) i db3"
  have "refund_order au cr am cfg envs token h reason i db = (load_detail cr am i db4, db4)"
    by (simp add: refund_order_def op key new claimed applied [unfolded One_nat_def] after a and_then_def commit_def map_claim_err_def db4_def Let_def)
  then have r: "out = load_detail cr am i db4" "db' = db4" using res by simp_all
  have d3: "db3 = snd (insert_audit am (cr_show_uuid cr) (sql_now (envs 2)) op ''number_refund'' i
      (JvObj (journal_snapshot cr r)) (refund_snapshot cr key reason after) db2)" using a by simp
  show "refund_replayed cr i key db'"
    using refund_snapshot_key [OF after]
    by (simp add: r(2) db4_def d3 refund_replayed_def insert_alert_def insert_audit_def append_audit_def)
  show "orders db' = orders db2" "accounts db' = accounts db2" "journals db' = journals db2"
    "entries db' = entries db2" "users_of db' = users_of db2"
    by (simp_all add: r(2) db4_def d3 insert_alert_def insert_audit_def append_audit_def)
  show "out = load_detail cr am i db'" by (simp add: r)
qed

text \<open>The claim leaves the order as it was but for the claim.\<close>

lemma claim_held_row:
  assumes "try_claim_held_order token now i db = Inr (Some claim, db1)" "find_order i db = Some r"
  shows "claim = token" "find_order i db1 = Some (r\<lparr>no_claim := Some (token, now + lease_seconds)\<rparr>)"
    "accounts db1 = accounts db" "entries db1 = entries db" "journals db1 = journals db" "number_db.more db1 = number_db.more db"
proof -
  let ?p = "\<lambda>r. no_id r = i \<and> (no_status r = OReserved \<or> no_status r = OAwaiting \<or> no_status r = OReview) \<and> claim_free now (no_claim r)"
  let ?f = "\<lambda>r. r\<lparr>no_claim := Some (token, now + lease_seconds)\<rparr>"
  obtain x where x: "find_order i db = Some x" "no_status x = OReserved \<or> no_status x = OAwaiting \<or> no_status x = OReview"
      "claim_free now (no_claim x)" "db1 = db\<lparr>orders := update_where ?p ?f (orders db)\<rparr>" "claim = token"
    by (rule claim_order_where_Some [OF assms(1) [unfolded try_claim_held_order_def]])
  show "claim = token" by (rule x(5))
  have "no_id r = i" using find_order_SomeD [OF assms(2)] by simp
  moreover have "x = r" using x(1) assms(2) by simp
  moreover have "find_order i db1 = map_option (\<lambda>r. if ?p r then ?f r else r) (find_order i db)"
    unfolding x(4) find_order_def by (simp add: fetch_update_where)
  ultimately show "find_order i db1 = Some (r\<lparr>no_claim := Some (token, now + lease_seconds)\<rparr>)"
    using x(2,3) assms(2) by simp
  show "accounts db1 = accounts db" "entries db1 = entries db" "journals db1 = journals db" "number_db.more db1 = number_db.more db"
    by (simp_all add: x(4))
qed

lemma claim_held_free:
  assumes ok: "orders_ok (orders db)" and r: "find_order i db = Some r" "money_open (no_status r)" "claim_free now (no_claim r)"
  obtains db1 where "try_claim_held_order token now i db = Inr (Some token, db1)"
proof -
  let ?p = "\<lambda>r. no_id r = i \<and> (no_status r = OReserved \<or> no_status r = OAwaiting \<or> no_status r = OReview) \<and> claim_free now (no_claim r)"
  let ?f = "\<lambda>r. r\<lparr>no_claim := Some (token, now + lease_seconds)\<rparr>"
  have "list_all order_row_ok (update_where ?p ?f (orders db))"
    using ok by (auto simp: orders_ok_def list_all_iff set_update_where order_row_ok_def financial_ok_def)
  moreover have "orders_unique (update_where ?p ?f (orders db)) = orders_unique (orders db)"
    by (simp add: orders_unique_def map_update_where)
  ultimately have "orders_ok (update_where ?p ?f (orders db))" using ok by (simp add: orders_ok_def)
  moreover have "rows_affected ?p (orders db) = 1"
    using rows_affected_key [of no_id "orders db" i r
        "\<lambda>r. (no_status r = OReserved \<or> no_status r = OAwaiting \<or> no_status r = OReview) \<and> claim_free now (no_claim r)"]
      ok r by (simp add: orders_ok_def orders_unique_def find_order_def money_open_def)
  ultimately show thesis
    using that by (simp add: try_claim_held_order_def claim_order_where_def update_orders_def put_orders_def orders_ok_def)
qed

lemma refund_allowed_Inr:
  "refund_allowed cfg r = Inr () \<longleftrightarrow> no_refunded r = None \<and> money_open (no_status r) \<and> no_price r \<le> aq_refund_cap cfg"
  by (auto simp: refund_allowed_def money_open_def)

text \<open>Claim and transition, on the money.\<close>

lemma claimed_refund_effect:
  assumes inv: "orders_money shu base db" and r: "find_order i db = Some r" and op: "money_open (no_status r)"
    and c: "try_claim_held_order token now i db = Inr (Some claim, db1)"
    and t: "apply_claimed dg env i claim (Refund RCancelled ''operator'') db1 = Inr (x, db2)"
  shows "orders_money shu base db2"
    and "\<exists>r'. find_order i db2 = Some r' \<and> no_status r' = OCancelled \<and> no_price r' = no_price r"
    and "kind_balance db2 UserNgn (Some u) Ngn = kind_balance db UserNgn (Some u) Ngn - (if u = no_user r then no_price r else 0)"
proof -
  note row = claim_held_row [OF c r]
  have inv1: "orders_money shu base db1" using claim_money [OF c [unfolded try_claim_held_order_def] inv] .
  have x: "x = Applied"
    by (rule apply_inner_Applied [OF t [unfolded apply_claimed_def]]) (use row(2) op in auto)
  note t' = t [unfolded apply_claimed_def x]
  show "orders_money shu base db2" by (rule apply_inner_money [OF t' inv1])
  show "\<exists>r'. find_order i db2 = Some r' \<and> no_status r' = OCancelled \<and> no_price r' = no_price r"
    using applied_effect(1) [OF inv1 t' row(2)] by auto
  show "kind_balance db2 UserNgn (Some u) Ngn = kind_balance db UserNgn (Some u) Ngn - (if u = no_user r then no_price r else 0)"
    using applied_effect(2) [OF inv1 t' row(2)] kind_balance_cong [OF row(3,4)] by simp
qed

lemma refund_order_Inr:
  assumes res: "refund_order au cr am cfg envs token h reason i db = (Inr d, db')"
    and op: "require_operator au am cfg (envs 0) h db = Inr op" and key: "idempotency_header cr h = Inr key"
    and new: "\<not> refund_replayed cr i key db" and r: "find_order i db = Some r"
  obtains claim db1 x db2 where "refund_allowed cfg r = Inr ()"
    "try_claim_held_order token (sql_now (envs 0)) i db = Inr (Some claim, db1)"
    "apply_claimed (cr_digest cr) (envs 1) i claim (Refund RCancelled ''operator'') db1 = Inr (x, db2)"
proof (cases "refund_allowed cfg r")
  case (Inl e)
  then show ?thesis using res by (simp add: refund_order_def op key new r)
next
  case allowed: (Inr u)
  note unfolded = refund_order_def op key new r allowed
  show ?thesis
  proof (cases "try_claim_held_order token (sql_now (envs 0)) i db")
    case (Inl e)
    then show ?thesis using res by (simp add: unfolded and_then_def commit_def)
  next
    case (Inr z)
    obtain c db1 where z: "z = (c, db1)" by fastforce
    show ?thesis
    proof (cases c)
      case None
      then show ?thesis using res by (simp add: unfolded Inr z and_then_def commit_def)
    next
      case (Some claim)
      show ?thesis
      proof (cases "apply_claimed (cr_digest cr) (envs 1) i claim (Refund RCancelled ''operator'') db1")
        case (Inl e)
        then have "isl (fst (refund_order au cr am cfg envs token h reason i db))"
          using Inr by (simp add: unfolded z Some and_then_def commit_def map_claim_err_def split: api_error.split)
        then show ?thesis using res by simp
      next
        case applied: (Inr y)
        then show ?thesis using that [of claim db1 "fst y" "snd y"] allowed Inr z Some by simp
      qed
    qed
  qed
qed

section \<open>Properties\<close>

text \<open>
  C27. An operator's refund pays the order's user exactly its price back, once. When a refund asked for
  under a new key goes through, the order was open with a price under the cap, it is cancelled, its user
  can spend the price again, nobody else's money moved, and the request under that key again, by
  whomever and whenever, changes nothing.
\<close>

theorem operator_refund_pays:
  assumes "orders_money shu base db" "find_order i db = Some r"
    and "require_operator au am cfg (envs 0) h db = Inr op" "idempotency_header cr h = Inr key" "\<not> refund_replayed cr i key db"
    and "refund_order au cr am cfg envs token h reason i db = (Inr d, db')"
  shows "no_price r \<le> aq_refund_cap cfg \<and> money_open (no_status r) \<and>
    (\<exists>r'. find_order i db' = Some r' \<and> no_status r' = OCancelled \<and> no_price r' = no_price r) \<and>
    spendable db' u = spendable db u + (if u = no_user r then no_price r else 0) \<and> orders_money shu base db' \<and>
    snd (refund_order au cr am cfg envs' token' (h'\<lparr>ah_idempotency_key := ah_idempotency_key h\<rparr>) reason' i db') = db'"
proof -
  obtain claim db1 x db2 where a: "refund_allowed cfg r = Inr ()"
    and c: "try_claim_held_order token (sql_now (envs 0)) i db = Inr (Some claim, db1)"
    and t: "apply_claimed (cr_digest cr) (envs 1) i claim (Refund RCancelled ''operator'') db1 = Inr (x, db2)"
    by (rule refund_order_Inr [OF assms(6,3,4,5,2)])
  have open': "money_open (no_status r)" "no_price r \<le> aq_refund_cap cfg" using a by (simp_all add: refund_allowed_Inr)
  note e = claimed_refund_effect [OF assms(1,2) open'(1) c t]
  obtain r2 where r2: "find_order i db2 = Some r2" "no_status r2 = OCancelled" "no_price r2 = no_price r" using e(2) by blast
  note n = refund_order_new [OF assms(6,3,4,5,2) a c t r2(1)]
  have same: "find_order i db' = find_order i db2" by (rule find_order_frame [OF n(2)])
  have bal: "spendable db' u = spendable db u + (if u = no_user r then no_price r else 0)"
    using e(3) [of u] kind_balance_cong [OF n(3,5), of UserNgn "Some u" Ngn] by (simp add: spendable_raw)
  have inv: "orders_money shu base db'" using orders_money_cong [OF n(3,4,5,2)] e(1) by blast
  have again: "snd (refund_order au cr am cfg envs' token' (h'\<lparr>ah_idempotency_key := ah_idempotency_key h\<rparr>) reason' i db') = db'"
  proof -
    have k: "idempotency_header cr (h'\<lparr>ah_idempotency_key := ah_idempotency_key h\<rparr>) = Inr key"
      using assms(4) by (simp add: idempotency_header_def)
    show ?thesis
      by (cases "require_operator au am cfg (envs' 0) (h'\<lparr>ah_idempotency_key := ah_idempotency_key h\<rparr>) db'")
        (simp_all add: refund_order_def k n(1))
  qed
  show ?thesis using open' same r2 bal inv again by simp
qed

lemma applied_user:
  assumes t: "apply_inner dg env i tr ct ms db = Inr (Applied, db')" and r: "find_order i db = Some r"
    and r': "find_order i db' = Some r'"
  shows "no_user r' = no_user r"
proof -
  from t r obtain db0 j st reason code body db2 posted db3 n f where a:
      "record_messages dg env r (with_messages ms check_open) db = Inr db0"
      "transition_journal env r tr db0 = Inr (j, st, reason, code, body, db2)"
      "post (new_id env 2) j db2 = Inr (posted, db3)"
      "update_orders (\<lambda>x. no_id x = no_id r \<and> money_open (no_status x)) f db3 = Inr (n, db')"
      "\<And>x. no_id (f x) = no_id x \<and> no_user (f x) = no_user x"
    by (auto elim: apply_inner_Applied)
  have "orders db3 = orders db"
  proof (rule transition_journal_cases [OF a(2)], goal_cases)
    case (1 k1 u1 p1 x1 k2 u2 p2 x2 key db1)
    then have "ledger.more db3 = ledger.more db0"
      using post_effect(5) [OF a(3)] account_step_frame(6) by metis
    then show ?case using more_orders record_messages_frame [OF a(1)] by fastforce
  qed
  then have "find_order i db3 = Some r" using find_order_frame r by metis
  then have "find_order i db' = Some (if no_id r = no_id r \<and> money_open (no_status r) then f r else r)"
    using find_order_update(1) [OF a(4)] a(5) by simp
  then show ?thesis using r' a(5) by (auto split: if_splits)
qed

lemma refund_ids_kept:
  assumes "try_claim_held_order token now i db = Inr (Some claim, db1)" "refund_ids_fresh env db"
  shows "refund_ids_fresh env db1"
proof -
  have "accounts db1 = accounts db" "journals db1 = journals db" "map no_refunded (orders db1) = map no_refunded (orders db)"
    using assms(1) unfolding try_claim_held_order_def
    by (auto elim!: claim_order_where_Some simp: map_update_where)
  then show ?thesis using assms(2) by (metis refund_ids_fresh_def has_account_def set_map)
qed

text \<open>The refund of an open order that nobody works on goes through, whatever is shown afterwards.\<close>

lemma refund_runs:
  assumes "orders_money shu base db" "find_order i db = Some r" "refund_allowed cfg r = Inr ()"
    and "require_operator au am cfg (envs 0) h db = Inr op" "idempotency_header cr h = Inr key" "\<not> refund_replayed cr i key db"
    and "claim_free (sql_now (envs 0)) (no_claim r)" "app_now (envs 1) < sql_now (envs 0) + lease_seconds"
    and "refund_ids_fresh (envs 1) db"
  obtains db' r2 where "refund_order au cr am cfg envs token h reason i db = (load_detail cr am i db', db')"
    "find_order i db' = Some r2" "no_status r2 = OCancelled" "no_user r2 = no_user r" "users_of db' = users_of db"
    "spendable db' (no_user r) = spendable db (no_user r) + no_price r"
proof -
  have op: "money_open (no_status r)" using assms(3) by (simp add: refund_allowed_Inr)
  obtain db1 where c: "try_claim_held_order token (sql_now (envs 0)) i db = Inr (Some token, db1)"
    by (rule claim_held_free [OF money_ok [OF assms(1)] assms(2) op assms(7)])
  note row = claim_held_row [OF c assms(2)]
  have inv1: "orders_money shu base db1" using claim_money [OF c [unfolded try_claim_held_order_def] assms(1)] .
  have "trim ''operator'' \<noteq> []" by code_simp
  then obtain db2 where t: "apply_claimed (cr_digest cr) (envs 1) i token (Refund RCancelled ''operator'') db1 = Inr (Applied, db2)"
    unfolding apply_claimed_def
    using refund_succeeds [OF inv1 row(2), of "envs 1" "Some token" "''operator''"] op assms(8) refund_ids_kept [OF c assms(9)]
    by (auto simp: claim_current_def)
  note e = claimed_refund_effect [OF assms(1,2) op c t]
  obtain r2 where r2: "find_order i db2 = Some r2" "no_status r2 = OCancelled" using e(2) by blast
  obtain out db' where res: "refund_order au cr am cfg envs token h reason i db = (out, db')" by fastforce
  note n = refund_order_new [OF res assms(4,5,6,2,3) c t r2(1)]
  have f: "find_order i db' = Some r2" using find_order_frame [OF n(2)] r2(1) by simp
  have u: "no_user r2 = no_user r"
    using applied_user [OF t [unfolded apply_claimed_def] row(2) r2(1)] by simp
  have "users_of db2 = users_of db"
    using others_fields(3) [OF apply_claimed_others [OF t]] others_fields(3) [OF row(6)] by simp
  then have v: "users_of db' = users_of db" using n(6) by simp
  have "spendable db' (no_user r) = spendable db (no_user r) + no_price r"
    using e(3) [of "no_user r"] kind_balance_cong [OF n(3,5), of UserNgn "Some (no_user r)" Ngn] by (simp add: spendable_raw)
  then show thesis using that res n(7) f r2(2) u v by blast
qed

text \<open>
  C30. A refund can answer an error after paying. The order is shown with its user's address, which is
  read as a text that is always there; for a user without one the refund of an open, unclaimed order
  commits, cancels the order and pays the price back, and then answers an internal error.
\<close>

theorem refund_error_after_paying:
  assumes "orders_money shu base db" "find_order i db = Some r" "refund_allowed cfg r = Inr ()"
    and "require_operator au am cfg (envs 0) h db = Inr op" "idempotency_header cr h = Inr key" "\<not> refund_replayed cr i key db"
    and "claim_free (sql_now (envs 0)) (no_claim r)" "app_now (envs 1) < sql_now (envs 0) + lease_seconds"
    and "refund_ids_fresh (envs 1) db" "fetch_optional (\<lambda>u. us_id u = no_user r) (users_of db) = Some who" "us_email who = None"
  shows "\<exists>db'. refund_order au cr am cfg envs token h reason i db = (Inl (from_sqlx NullColumn), db') \<and>
    spendable db' (no_user r) = spendable db (no_user r) + no_price r \<and>
    map_option no_status (find_order i db') = Some OCancelled"
proof -
  obtain db' r2 where d: "refund_order au cr am cfg envs token h reason i db = (load_detail cr am i db', db')"
    "find_order i db' = Some r2" "no_status r2 = OCancelled" "no_user r2 = no_user r" "users_of db' = users_of db"
    "spendable db' (no_user r) = spendable db (no_user r) + no_price r"
    by (rule refund_runs [OF assms(1-9)])
  then have "load_detail cr am i db' = Inl (from_sqlx NullColumn)" using assms(10,11) by (simp add: load_detail_def)
  with d show ?thesis by simp
qed

end
