(* ===== verification/Admin_Lockout.thy ===== *)
theory Admin_Lockout
  imports Admin_Runs
begin

text \<open>
  Guessing authenticator codes: whatever else the dashboard is asked, at most five wrong codes of an
  address are looked at in a quarter of an hour.
\<close>

section \<open>What a request does to the lockouts\<close>

lemma others_lockouts: "number_db.more db' = number_db.more db \<Longrightarrow> lockouts db' = lockouts db"
  by (rule others_fields)

definition lockouts_kept :: "'z admin_db_scheme \<Rightarrow> 'z admin_db_scheme \<Rightarrow> bool" where
  "lockouts_kept db db' \<longleftrightarrow> lockouts db' = lockouts db"

lemma kept_trans: "lockouts_kept db db' \<Longrightarrow> lockouts_kept db' db'' \<Longrightarrow> lockouts_kept db db''"
  by (simp add: lockouts_kept_def)

lemma kept_orders: "number_db.more db' = number_db.more db \<Longrightarrow> lockouts_kept db db'"
  unfolding lockouts_kept_def by (rule others_lockouts)

lemma kept_refl [intro]: "lockouts_kept db db"
  by (simp add: lockouts_kept_def)

lemma commit_kept:
  "(\<And>x db'. r = Inr (x, db') \<Longrightarrow> lockouts_kept db db') \<Longrightarrow> lockouts_kept db (snd (commit r db))"
  by (rule commit_keeps) auto

lemma and_then_kept:
  assumes "lockouts_kept db (snd r)" "\<And>x db'. lockouts_kept db' (snd (f x db'))"
  shows "lockouts_kept db (snd (and_then r f))"
  by (rule and_then_keeps [where P = "lockouts_kept db"]) (use assms kept_trans in blast)+

lemma mapped_kept: "lockouts_kept db (snd r) \<Longrightarrow> lockouts_kept db (snd (map_prod g id r))"
  by (cases r) simp

lemma insert_kept:
  "lockouts_kept db (snd (insert_audit am sh now i a t b c db))" "lockouts_kept db (insert_alert key i now o' db)"
  by (simp_all add: lockouts_kept_def insert_audit_def append_audit_def insert_alert_def)

lemma audited_kept: "lockouts_kept db (snd (audited cr am now i o' before db))"
  by (auto simp: audited_def Let_def split: sum.split intro: insert_kept)

lemma orders_kept:
  "lockouts_kept db (snd (commit (apply_claimed dg env i token tr db) db))"
  "lockouts_kept db (snd (commit (apply_check shu dg env i ct check db) db))"
  "lockouts_kept db (snd (commit (try_claim_held_order token now i db) db))"
  "lockouts_kept db (snd (commit (release_order now i token d e db) db))"
  "lockouts_kept db (snd (commit (mark_review_required shu env i token reason db) db))"
  by (rule commit_kept, rule kept_orders, erule apply_claimed_others apply_check_others claim_others release_others
      review_others)+

lemma recheck_supplier_kept:
  "lockouts_kept db (snd (recheck_supplier cr am numbers envs i claim o' row p before db))"
proof -
  obtain s db1 where s: "claim_slot claim (sql_now (envs 1)) db = (s, db1)" by fastforce
  then have g: "lockouts_kept db db1" using kept_orders [OF slot_others(1)] by (metis snd_conv)
  moreover have "lockouts_kept db1 (snd (recheck_supplier cr am numbers envs i claim o' row p before db))"
  proof (cases s)
    case None
    then show ?thesis unfolding recheck_supplier_def s by (auto intro!: and_then_kept orders_kept)
  next
    case (Some slot)
    have r: "lockouts_kept db1 (release_slot slot claim db1)" by (rule kept_orders [OF slot_others(2)])
    show ?thesis
      unfolding recheck_supplier_def s Some
      by (auto simp: Let_def split: sum.split
          intro!: and_then_kept orders_kept audited_kept insert_kept mapped_kept kept_trans [OF r])
  qed
  ultimately show ?thesis by (rule kept_trans)
qed

lemma recheck_kept: "lockouts_kept db (snd (recheck_order au cr am cfg numbers envs token h i db))"
  unfolding recheck_order_def
  by (auto simp: Let_def split: sum.split option.split
      intro!: and_then_kept orders_kept audited_kept recheck_supplier_kept)

lemma refund_kept: "lockouts_kept db (snd (refund_order au cr am cfg envs token h reason i db))"
  unfolding refund_order_def
  by (auto simp: Let_def split: sum.split option.split prod.split unit.split dest!: arg_cong [of _ _ snd]
      intro!: kept_refl and_then_kept orders_kept mapped_kept kept_trans [OF insert_kept(1) insert_kept(2)])

lemma other_requests_kept:
  assumes "\<And>env token h code. q \<noteq> SignIn env token h code"
  shows "lockouts (admin_step au cr am cfg numbers q db) = lockouts db"
  using assms recheck_kept refund_kept
  by (cases q) (auto simp: admin_step_def enroll_operator_def delete_session_def invite_member_def revoke_member_def
      put_sell_settings_def insert_audit_def append_audit_def Let_def lockouts_kept_def split: sum.split prod.split)

section \<open>The wrong codes of an address\<close>

text \<open>
  \<open>wrong_codes\<close> are the times of the wrong codes of an address since its last right one; the address is
  the one the request is authorised for.
\<close>

definition note_sign_in :: "auth_crates \<Rightarrow> crates \<Rightarrow> admin_crates \<Rightarrow> admin_config \<Rightarrow> string \<Rightarrow> admin_request \<Rightarrow>
    'z admin_db_scheme \<Rightarrow> instant list \<Rightarrow> instant list" where
  "note_sign_in au cr am cfg k q db hist =
     (case q of
        SignIn env token h code \<Rightarrow>
          (case authorise au am cfg (app_now env) (ah_authorization h) db of
             Inl _ \<Rightarrow> hist
           | Inr email \<Rightarrow>
               if cr_to_lowercase cr email \<noteq> k then hist
               else (case fst (create_session au cr am cfg env token h code db) of
                  Inr _ \<Rightarrow> []
                | Inl e \<Rightarrow> if e = bad_totp then hist @ [app_now env] else hist))
      | _ \<Rightarrow> hist)"

fun wrong_codes :: "auth_crates \<Rightarrow> crates \<Rightarrow> admin_crates \<Rightarrow> admin_config \<Rightarrow> supplier \<Rightarrow> string \<Rightarrow> admin_request list \<Rightarrow>
    'z admin_db_scheme \<Rightarrow> instant list \<Rightarrow> instant list" where
  "wrong_codes au cr am cfg numbers k [] db hist = hist"
| "wrong_codes au cr am cfg numbers k (q # qs) db hist =
     wrong_codes au cr am cfg numbers k qs (admin_step au cr am cfg numbers q db) (note_sign_in au cr am cfg k q db hist)"

text \<open>The clock of the sign-ins does not go back.\<close>

fun times_from :: "instant \<Rightarrow> admin_request list \<Rightarrow> bool" where
  "times_from t [] = True"
| "times_from t (SignIn env token h code # qs) = (t \<le> app_now env \<and> times_from (app_now env) qs)"
| "times_from t (q # qs) = times_from t qs"

definition spaced :: "instant list \<Rightarrow> bool" where
  "spaced hist \<longleftrightarrow> list_all (\<lambda>i. hist ! i + lockout_window \<le> hist ! (i + 5)) [0..<length hist - 5]"

text \<open>
  The stamps in memory are a suffix of the history, and what was dropped is out of every later window.
\<close>

definition remembers :: "instant \<Rightarrow> instant list \<Rightarrow> instant list \<Rightarrow> bool" where
  "remembers t hist stamps \<longleftrightarrow> (\<exists>gone. hist = gone @ stamps \<and> (\<forall>d \<in> set gone. d + lockout_window \<le> t)) \<and>
     sorted hist \<and> (\<forall>d \<in> set hist. d \<le> t) \<and> spaced hist"

lemma remembers_later: "remembers t hist stamps \<Longrightarrow> t \<le> t' \<Longrightarrow> remembers t' hist stamps"
proof -
  assume r: "remembers t hist stamps" and le: "t \<le> t'"
  obtain gone where "hist = gone @ stamps" "\<forall>d \<in> set gone. d + lockout_window \<le> t"
    using r by (auto simp: remembers_def)
  then have "hist = gone @ stamps \<and> (\<forall>d \<in> set gone. d + lockout_window \<le> t')" using le by force
  moreover have "\<forall>d \<in> set hist. d \<le> t'" using r le by (force simp: remembers_def)
  ultimately show "remembers t' hist stamps" using r unfolding remembers_def by blast
qed

lemma filter_sorted_suffix:
  assumes "sorted (xs :: int list)"
  shows "\<exists>gone. xs = gone @ filter (\<lambda>x. t - x < w) xs \<and> (\<forall>d \<in> set gone. d + w \<le> t)"
  using assms
proof (induction xs)
  case (Cons x xs)
  then obtain gone where g: "xs = gone @ filter (\<lambda>x. t - x < w) xs" "\<forall>d \<in> set gone. d + w \<le> t" by auto
  show ?case
  proof (cases "t - x < w")
    case True
    then have "\<forall>y \<in> set xs. t - y < w" using Cons.prems by auto
    then have "filter (\<lambda>x. t - x < w) (x # xs) = x # xs" using True by (simp add: filter_id_conv)
    then show ?thesis by (intro exI [of _ "[]"]) simp
  next
    case False
    then show ?thesis using g by (intro exI [of _ "x # gone"]) auto
  qed
qed simp

lemma remembers_recent:
  assumes "remembers t hist stamps"
  shows "remembers t hist (recent_failures t stamps)"
proof -
  obtain gone where g: "hist = gone @ stamps" "\<forall>d \<in> set gone. d + lockout_window \<le> t" and s: "sorted hist"
    using assms by (auto simp: remembers_def)
  have "sorted stamps" using s g(1) by (simp add: sorted_append)
  then obtain g2 where "stamps = g2 @ recent_failures t stamps" "\<forall>d \<in> set g2. d + lockout_window \<le> t"
    using filter_sorted_suffix [of stamps t lockout_window] unfolding recent_failures_def by blast
  then have "hist = (gone @ g2) @ recent_failures t stamps" "\<forall>d \<in> set (gone @ g2). d + lockout_window \<le> t"
    using g by auto
  then show ?thesis using assms unfolding remembers_def by blast
qed

lemma spaced_snoc:
  assumes "spaced hist" "length hist < 5 \<or> hist ! (length hist - 5) + lockout_window \<le> t"
  shows "spaced (hist @ [t])"
proof -
  have "(hist @ [t]) ! i + lockout_window \<le> (hist @ [t]) ! (i + 5)" if "i < length hist + 1 - 5" for i
  proof (cases "i + 5 < length hist")
    case True
    then show ?thesis using assms(1) that by (simp add: spaced_def list_all_iff nth_append)
  next
    case False
    then have i: "i + 5 = length hist" using that by simp
    then have "i = length hist - 5" by simp
    with i show ?thesis using assms(2) by (auto simp: nth_append)
  qed
  then show ?thesis by (auto simp: spaced_def list_all_iff)
qed

lemma remembers_wrong:
  assumes "remembers t hist stamps" "length stamps < 5"
  shows "remembers t (hist @ [t]) (stamps @ [t])"
proof -
  obtain gone where g: "hist = gone @ stamps" "\<forall>d \<in> set gone. d + lockout_window \<le> t" and s: "sorted hist"
    "\<forall>d \<in> set hist. d \<le> t" "spaced hist"
    using assms(1) by (auto simp: remembers_def)
  have "length hist < 5 \<or> hist ! (length hist - 5) + lockout_window \<le> t"
  proof (cases "length hist < 5")
    case False
    then have "length hist - 5 < length gone" using g(1) assms(2) by simp
    then show ?thesis using g by (auto simp: nth_append)
  qed simp
  then have "spaced (hist @ [t])" by (rule spaced_snoc [OF s(3)])
  moreover have "hist @ [t] = gone @ (stamps @ [t])" using g(1) by simp
  moreover have "sorted (hist @ [t])" "\<forall>d \<in> set (hist @ [t]). d \<le> t" using s by (auto simp: sorted_append)
  ultimately show ?thesis using g(2) unfolding remembers_def by blast
qed

lemma remembers_nothing: "remembers t [] []"
  by (simp add: remembers_def spaced_def)

text \<open>One sign-in, by its answer.\<close>

lemma create_session_cases:
  fixes cr :: crates and token code :: string and db :: "'z admin_db_scheme"
  assumes a: "authorise au am cfg (app_now env) (ah_authorization h) db = Inr email"
  defines "k \<equiv> cr_to_lowercase cr email" and "t \<equiv> app_now env"
  defines "seen \<equiv> recent_failures t (lockouts db k)" and "r \<equiv> create_session au cr am cfg env token h code db"
  shows "\<exists>stamps. lockouts (snd r) = (lockouts db)(k := stamps) \<and>
     (stamps = seen \<and> isl (fst r) \<and> fst r \<noteq> Inl bad_totp \<or>
      stamps = seen @ [t] \<and> fst r = Inl bad_totp \<and> length seen < 5 \<or> stamps = [] \<and> \<not> isl (fst r))"
proof -
  let ?db1 = "db\<lparr>lockouts := (lockouts db)(k := seen)\<rparr>"
  have l: "totp_is_locked cr t email db = (5 \<le> length seen, ?db1)"
    by (simp add: totp_is_locked_def seen_def k_def Let_def)
  note unfolded = r_def create_session_def a l [unfolded t_def] sum.case prod.case Let_def
  show ?thesis
  proof (cases "5 \<le> length seen")
    case True
    then show ?thesis unfolding unfolded by (simp add: bad_totp_def)
  next
    case small: False
    show ?thesis
    proof (cases "fetch_optional (\<lambda>o'. am_lower am (op_email o') = email) (operators ?db1)")
      case None
      then show ?thesis using small unfolding unfolded by (simp add: record_totp_failure_def Let_def k_def t_def)
    next
      case (Some o')
      show ?thesis
      proof (cases "op_disabled_at o' = None")
        case False
        then show ?thesis using small Some unfolding unfolded by (simp add: bad_totp_def)
      next
        case True
        show ?thesis
        proof (cases "res_bind (totp_key cfg) (\<lambda>key. decrypt_totp_secret am key (op_secret o'))")
          case (Inl e)
          moreover from Inl have "e \<noteq> bad_totp"
            by (auto simp: bad_totp_def totp_key_def decrypt_totp_secret_def aes_key_def ok_or_def
                split: option.splits if_splits)
          ultimately show ?thesis using small Some True unfolding unfolded by simp
        next
          case (Inr secret)
          then show ?thesis using small Some True unfolding unfolded
            by (simp add: record_totp_failure_def clear_totp_failures_def Let_def k_def t_def)
        qed
      qed
    qed
  qed
qed

lemma sign_in_remembers:
  assumes rem: "remembers t hist (lockouts db k)" and t: "t \<le> app_now env"
  shows "remembers (app_now env) (note_sign_in au cr am cfg k (SignIn env token h code) db hist)
    (lockouts (admin_step au cr am cfg numbers (SignIn env token h code) db) k)"
proof (cases "authorise au am cfg (app_now env) (ah_authorization h) db")
  case (Inl e)
  then show ?thesis using remembers_later [OF rem t] by (simp add: note_sign_in_def admin_step_def create_session_def)
next
  case (Inr email)
  let ?r = "create_session au cr am cfg env token h code db"
  let ?seen = "recent_failures (app_now env) (lockouts db (cr_to_lowercase cr email))"
  obtain stamps where l: "lockouts (snd ?r) = (lockouts db)(cr_to_lowercase cr email := stamps)"
    and c: "stamps = ?seen \<and> isl (fst ?r) \<and> fst ?r \<noteq> Inl bad_totp \<or>
      stamps = ?seen @ [app_now env] \<and> fst ?r = Inl bad_totp \<and> length ?seen < 5 \<or> stamps = [] \<and> \<not> isl (fst ?r)"
    using create_session_cases [OF Inr] by blast
  show ?thesis
  proof (cases "cr_to_lowercase cr email = k")
    case False
    then show ?thesis using remembers_later [OF rem t] l Inr by (simp add: note_sign_in_def admin_step_def)
  next
    case True
    have seen: "remembers (app_now env) hist ?seen"
      using remembers_recent [OF remembers_later [OF rem t]] True by simp
    show ?thesis
      using c remembers_wrong [OF seen] seen remembers_nothing True l Inr
      by (cases "fst ?r") (auto simp: note_sign_in_def admin_step_def)
  qed
qed

lemma run_remembers:
  assumes "remembers t hist (lockouts db k)" "times_from t qs"
  shows "spaced (wrong_codes au cr am cfg numbers k qs db hist)"
  using assms
proof (induction qs arbitrary: t hist db)
  case Nil
  then show ?case by (simp add: remembers_def)
next
  case (Cons q qs)
  show ?case
  proof (cases "\<exists>env token h code. q = SignIn env token h code")
    case True
    then obtain env token h code where q: "q = SignIn env token h code" by blast
    then have "t \<le> app_now env" "times_from (app_now env) qs" using Cons.prems by simp_all
    then show ?thesis using Cons.IH [OF sign_in_remembers [OF Cons.prems(1)]] by (simp add: q)
  next
    case False
    then have "times_from t qs" "note_sign_in au cr am cfg k q db hist = hist"
      using Cons.prems(2) by (cases q; simp add: note_sign_in_def)+
    moreover have "lockouts (admin_step au cr am cfg numbers q db) = lockouts db"
      by (rule other_requests_kept) (use False in blast)
    ultimately show ?thesis using Cons.IH [of t hist "admin_step au cr am cfg numbers q db"] Cons.prems(1) by simp
  qed
qed


end
