(* ===== verification/Admin_Witnesses.thy ===== *)
theory Admin_Witnesses
  imports Admin_Refunds Admin_Lockout Order_Witnesses Auth_Witnesses
begin

text \<open>The properties of the dashboard, on a shop with one order, one operator and one member.\<close>

definition demo_admin_crates :: admin_crates where
  "demo_admin_crates = \<lparr>am_sha256 = (\<lambda>s. ''h'' @ s), am_sha256_hex = (\<lambda>s. ''x'' @ s), am_seal = (\<lambda>k n s. Some s),
     am_open = (\<lambda>k n s. Some s), am_totp = (\<lambda>s e c t. c = ''123456''), am_totp_url = (\<lambda>s e. e),
     am_json = (\<lambda>_. ''{}''), am_lower = to_ascii_lowercase, am_rfc3339 = (\<lambda>_. ''then'')\<rparr>"

definition demo_admin_config :: admin_config where
  "demo_admin_config = \<lparr>aq_keys = ''key'', aq_emails = [''ops@n.co''], aq_totp_key = Some ''01234567890123456789012345678901'',
     aq_refund_cap = 1000\<rparr>"

definition demo_user :: "uuid \<Rightarrow> string option \<Rightarrow> user_row" where
  "demo_user i e = \<lparr>us_id = i, us_phone = None, us_email = e, us_index = 1, us_pin_hash = None, us_tier = 1,
     us_display_name = None, us_avatar_seed = None, us_date_of_birth = None\<rparr>"

text \<open>User 7 bought the number and has the given address; user 5 is the operator.\<close>

definition demo_admin :: "string option \<Rightarrow> admin_db" where
  "demo_admin e = shop_db.extend demo_bought (admin_db.fields [demo_user 7 e, demo_user 5 None]
     [\<lparr>ir_user = 5, ir_provider = ByGoogle, ir_subject = ''s'', ir_email = Some ''Ops@n.co'', ir_phone = None, ir_verified_at = Some 0\<rparr>]
     [\<lparr>op_id = 50, op_email = ''ops@n.co'', op_secret = ''0123456789012'', op_disabled_at = None\<rparr>,
      \<lparr>op_id = 51, op_email = ''eve@n.co'', op_secret = ''0123456789012'', op_disabled_at = None\<rparr>]
     [\<lparr>oz_operator = 50, oz_hash = ''ht'', oz_expires_at = minutes 30\<rparr>,
      \<lparr>oz_operator = 51, oz_hash = ''hu'', oz_expires_at = minutes 30\<rparr>]
     [\<lparr>mb_email = ''eve@n.co'', mb_invited_by = ''ops@n.co'', mb_created_at = 0, mb_revoked_at = None\<rparr>]
     [] 1 (\<lambda>_. []))"

definition demo_headers :: admin_headers where
  "demo_headers = \<lparr>ah_authorization = Some ''Bearer a.b.c'', ah_operator_session = Some ''t'', ah_idempotency_key = Some ''k''\<rparr>"

definition demo_refund_envs :: "nat \<Rightarrow> env" where
  "demo_refund_envs n = demo_envs (n + 4)"

lemma demo_admin_fields:
  "orders (demo_admin e) = orders demo_bought" "accounts (demo_admin e) = accounts demo_bought"
  "journals (demo_admin e) = journals demo_bought" "entries (demo_admin e) = entries demo_bought"
  by (simp_all add: demo_admin_def shop_db.defs)

lemma demo_admin_money: "orders_money demo_uuid (basis_of demo_shop) (demo_admin e)"
  using orders_money_cong [OF demo_admin_fields(2,3,4,1)] demo_bought_money by blast

lemma demo_signed_in:
  "current_user demo_jwt ''key'' 1000 (Some ''Bearer a.b.c'') = Inr \<lparr>cu_id = 5, cu_tier_at_issue = 1, cu_session_family = 6\<rparr>"
proof -
  have "trim ''a.b.c'' = ''a.b.c''" by code_simp
  then show ?thesis
    by (simp add: current_user_def strip_prefix_def verify_access_def demo_jwt_def access_validation_def demo_claims_def
        map_err_def timestamp_def duration_defs ok_or_def)
qed

lemma demo_authorised:
  "authorise demo_jwt demo_admin_crates demo_admin_config 1000 (Some ''Bearer a.b.c'') (demo_admin e) = Inr ''ops@n.co''"
proof -
  have "to_ascii_lowercase ''Ops@n.co'' = ''ops@n.co''" by code_simp
  then show ?thesis
    by (simp add: authorise_def demo_admin_config_def demo_signed_in verified_emails_def demo_admin_def shop_db.defs admin_db.defs
        List.map_filter_simps demo_admin_crates_def Let_def)
qed

lemma demo_operator:
  "require_operator demo_jwt demo_admin_crates demo_admin_config (demo_envs n) demo_headers (demo_admin e) = Inr 50"
proof -
  have l: "to_ascii_lowercase ''ops@n.co'' = ''ops@n.co''" "to_ascii_lowercase ''eve@n.co'' = ''eve@n.co''" by code_simp+
  have "session_of demo_admin_crates demo_admin_config 1000 ''ops@n.co'' ''ht'' (demo_admin e) =
      Some \<lparr>op_id = 50, op_email = ''ops@n.co'', op_secret = ''0123456789012'', op_disabled_at = None\<rparr>"
    by (simp add: session_of_def demo_admin_def shop_db.defs admin_db.defs demo_admin_config_def demo_admin_crates_def l minutes_def
        duration_defs)
  moreover have "app_now (demo_envs n) = 1000" "sql_now (demo_envs n) = 1000" by (simp_all add: demo_envs_def)
  moreover have "am_sha256 demo_admin_crates s = ''h'' @ s" for s by (simp add: demo_admin_crates_def)
  ultimately show ?thesis
    by (simp add: require_operator_def demo_headers_def demo_authorised hash_session_token_def Let_def)
qed

lemma demo_emails: "verified_emails demo_admin_crates 5 (demo_admin e) = [''ops@n.co'']"
proof -
  have "to_ascii_lowercase ''Ops@n.co'' = ''ops@n.co''" by code_simp
  then show ?thesis
    by (simp add: verified_emails_def demo_admin_def shop_db.defs admin_db.defs List.map_filter_simps demo_admin_crates_def)
qed

lemma demo_order:
  obtains r where "find_order 104 (demo_admin e) = Some r" "no_user r = 7" "no_price r = 300" "no_claim r = None"
    "refund_allowed demo_admin_config r = Inr ()"
proof -
  obtain r where r: "orders demo_bought = [r]" "no_id r = 104" "no_user r = 7" "no_status r = OAwaiting" "no_price r = 300"
    by (rule demo_bought_order)
  have "map (\<lambda>r. (no_claim r, no_refunded r)) (orders demo_bought) = [(None, None)]" by code_simp
  then have "no_claim r = None" "no_refunded r = None" using r(1) by simp_all
  then show thesis
    using r by (intro that [of r]) (simp_all add: find_order_def demo_admin_fields refund_allowed_def demo_admin_config_def)
qed

lemma demo_ids_fresh: "refund_ids_fresh (demo_refund_envs 1) (demo_admin e)"
  using demo_refund_fresh by (simp add: refund_ids_fresh_def has_account_def demo_admin_fields demo_refund_envs_def)

lemma demo_key: "idempotency_header demo_crates demo_headers = Inr 9" "\<not> refund_replayed demo_crates 104 9 (demo_admin e)"
  by (simp_all add: idempotency_header_def demo_crates_def demo_headers_def ok_or_def refund_replayed_def demo_admin_def
      shop_db.defs admin_db.defs)

lemma demo_refund_operator:
  "require_operator demo_jwt demo_admin_crates demo_admin_config (demo_refund_envs n) demo_headers (demo_admin e) = Inr 50"
  by (simp add: demo_refund_envs_def demo_operator)

lemma demo_refund_times:
  "claim_free (sql_now (demo_refund_envs 0)) None" "app_now (demo_refund_envs 1) < sql_now (demo_refund_envs 0) + lease_seconds"
  by (simp_all add: claim_free_def demo_refund_envs_def demo_envs_def lease_seconds_def duration_defs)

lemma demo_admin_money': "orders_money (cr_show_uuid demo_crates) (basis_of demo_shop) (demo_admin e)"
  using demo_admin_money by (simp add: demo_crates_def)

section \<open>Witnesses\<close>

text \<open>With another operator's session the same request is refused.\<close>

theorem operators_act_alone_witness:
  "\<exists>e. refund_order demo_jwt demo_crates demo_admin_crates demo_admin_config demo_refund_envs 77
     (demo_headers\<lparr>ah_operator_session := Some ''u''\<rparr>) None 104 (demo_admin None) = (Inl e, demo_admin None)"
proof -
  let ?h = "demo_headers\<lparr>ah_operator_session := Some ''u''\<rparr>"
  have l: "to_ascii_lowercase ''eve@n.co'' = ''eve@n.co''" by code_simp
  have "\<not> acts demo_jwt demo_admin_crates demo_admin_config (demo_refund_envs 0) ?h (demo_admin None) o'" for o'
  proof
    assume a: "acts demo_jwt demo_admin_crates demo_admin_config (demo_refund_envs 0) ?h (demo_admin None) o'"
    then obtain s where s: "s \<in> set (operator_sessions (demo_admin None))" "oz_operator s = op_id o'" "oz_hash s = ''hu''"
      by (auto simp: acts_def demo_admin_crates_def)
    then have "op_id o' = 51" by (auto simp: demo_admin_def shop_db.defs admin_db.defs)
    moreover have "o' \<in> set (operators (demo_admin None))" using a by (simp add: acts_def)
    ultimately have "op_email o' = ''eve@n.co''" by (auto simp: demo_admin_def shop_db.defs admin_db.defs)
    moreover have "am_lower demo_admin_crates (op_email o') \<in> {''ops@n.co''}"
      using a by (auto simp: acts_def demo_refund_envs_def demo_envs_def demo_admin_config_def demo_headers_def demo_signed_in demo_emails)
    ultimately show False by (simp add: demo_admin_crates_def l)
  qed
  then show ?thesis using operators_act_alone by blast
qed

theorem revoked_member_is_out_witness:
  "\<exists>db. revoke_member demo_jwt demo_crates demo_admin_crates demo_admin_config (demo_envs 0) demo_headers '' Eve@n.co '' (demo_admin None) =
      (Inr (), db) \<and>
    \<not> acts demo_jwt demo_admin_crates demo_admin_config (demo_envs 0) demo_headers db
      \<lparr>op_id = 51, op_email = ''eve@n.co'', op_secret = ''0123456789012'', op_disabled_at = None\<rparr>"
proof -
  have n: "normalise_admin_email demo_crates '' Eve@n.co '' = Inr ''eve@n.co''" "to_ascii_lowercase ''eve@n.co'' = ''eve@n.co''"
    by code_simp+
  have "list_ex (is_member demo_admin_crates ''eve@n.co'') (admin_db.members (demo_admin None))"
    by (simp add: demo_admin_def shop_db.defs admin_db.defs is_member_def demo_admin_crates_def n(2))
  then obtain db where r: "revoke_member demo_jwt demo_crates demo_admin_crates demo_admin_config (demo_envs 0) demo_headers
      '' Eve@n.co '' (demo_admin None) = (Inr (), db)"
    by (simp add: revoke_member_def demo_operator n(1))
  have "''eve@n.co'' \<notin> set (aq_emails demo_admin_config)" by (simp add: demo_admin_config_def)
  moreover have "am_lower demo_admin_crates ''eve@n.co'' = ''eve@n.co''" by (simp add: demo_admin_crates_def n(2))
  ultimately have "\<not> acts demo_jwt demo_admin_crates demo_admin_config (demo_envs 0) demo_headers db o'"
    if "op_email o' = ''eve@n.co''" for o'
    using revoked_member_is_out [OF r n(1)] that by metis
  then show ?thesis using r by fastforce
qed

lemma demo_audit: "audit_ok am sh (demo_admin e)" "last_hash (demo_admin e) = None"
  by (simp_all add: audit_ok_def last_hash_def demo_admin_def shop_db.defs admin_db.defs)

theorem audit_chain_intact_witness:
  "audit_ok demo_admin_crates demo_uuid (admin_run demo_jwt demo_crates demo_admin_crates demo_admin_config demo_supplier
     [RefundOrder demo_refund_envs 77 demo_headers None 104, Revoke (demo_envs 0) demo_headers ''eve@n.co''] (demo_admin None))"
proof -
  have c: "cr_show_uuid demo_crates = demo_uuid" by (simp add: demo_crates_def)
  show ?thesis using audit_chain_intact [where cr = demo_crates, unfolded c, OF demo_audit(1)] by blast
qed

theorem audit_chain_forks_witness:
  "\<not> audit_ok demo_admin_crates demo_uuid (snd (append_audit demo_admin_crates demo_uuid 1000 (last_hash (demo_admin None)) 50 ''b'' 2 JvNull JvNull
      (snd (append_audit demo_admin_crates demo_uuid 1000 (last_hash (demo_admin None)) 50 ''a'' 1 JvNull JvNull (demo_admin None)))))"
  using audit_chain_forks [OF demo_audit(1)] demo_audit(2) by (metis option.distinct(1))

definition demo_tries :: "admin_request list" where
  "demo_tries = map (\<lambda>t. SignIn ((demo_envs 0)\<lparr>app_now := 1000 + seconds t\<rparr>) ''new'' demo_headers ''000000'') [0, 10, 20, 30, 40, 50, 60]"


theorem operator_refund_pays_witness:
  "\<exists>d db'. refund_order demo_jwt demo_crates demo_admin_crates demo_admin_config demo_refund_envs 77 demo_headers None 104
      (demo_admin (Some ''a@x.ng'')) = (Inr d, db') \<and>
    spendable db' 7 = spendable (demo_admin (Some ''a@x.ng'')) 7 + 300"
proof -
  let ?db = "demo_admin (Some ''a@x.ng'')"
  obtain r where r: "find_order 104 ?db = Some r" "no_user r = 7" "no_price r = 300" "no_claim r = None"
    "refund_allowed demo_admin_config r = Inr ()" by (rule demo_order)
  note h = demo_refund_operator demo_key
  obtain db' r2 where d: "refund_order demo_jwt demo_crates demo_admin_crates demo_admin_config demo_refund_envs 77 demo_headers None 104
      ?db = (load_detail demo_crates demo_admin_crates 104 db', db')" "find_order 104 db' = Some r2" "no_user r2 = no_user r"
      "users_of db' = users_of ?db"
    using refund_runs [OF demo_admin_money' r(1,5) h _ demo_refund_times(2) demo_ids_fresh] r(4) demo_refund_times(1) by metis
  have "\<exists>d. load_detail demo_crates demo_admin_crates 104 db' = Inr d"
    by (simp add: load_detail_def d(2,3,4) r(2) demo_admin_def shop_db.defs admin_db.defs demo_user_def)
  then obtain d' where "refund_order demo_jwt demo_crates demo_admin_crates demo_admin_config demo_refund_envs 77 demo_headers None 104
      ?db = (Inr d', db')" using d(1) by auto
  with operator_refund_pays [OF demo_admin_money' r(1) h this, of 7] r(2,3) show ?thesis by auto
qed

theorem refund_error_after_paying_witness:
  "\<exists>db'. refund_order demo_jwt demo_crates demo_admin_crates demo_admin_config demo_refund_envs 77 demo_headers None 104
      (demo_admin None) = (Inl (from_sqlx NullColumn), db') \<and> spendable db' 7 = spendable (demo_admin None) 7 + 300"
proof -
  obtain r where r: "find_order 104 (demo_admin None) = Some r" "no_user r = 7" "no_price r = 300" "no_claim r = None"
    "refund_allowed demo_admin_config r = Inr ()" by (rule demo_order)
  have "claim_free (sql_now (demo_refund_envs 0)) (no_claim r)" using r(4) demo_refund_times(1) by simp
  moreover have "fetch_optional (\<lambda>u. us_id u = no_user r) (users_of (demo_admin None)) = Some (demo_user 7 None)"
    by (simp add: r(2) demo_admin_def shop_db.defs admin_db.defs demo_user_def)
  moreover have "us_email (demo_user 7 None) = None" by (simp add: demo_user_def)
  ultimately show ?thesis
    using refund_error_after_paying [OF demo_admin_money' r(1,5) demo_refund_operator demo_key _ demo_refund_times(2) demo_ids_fresh] r(2,3)
    by metis
qed

end
