(* ===== verification/Kyc.thy ===== *)
theory Kyc
  imports Auth_Routes Shop_Reads
begin

text \<open>
  \<open>crates/api/src/kyc_routes.rs\<close>: reading one's verification and submitting the document of the next tier,
  over the users and the \<open>kyc_verifications\<close> of migration 0002, with its index of one undecided
  submission per tier and its trigger that a tier is earned.
\<close>

datatype kyc_state = KycPending | KycManualReview | KycApproved | KycRejected

definition kyc_state_as_str :: "kyc_state \<Rightarrow> string" where
  "kyc_state_as_str s = (case s of KycPending \<Rightarrow> ''pending'' | KycManualReview \<Rightarrow> ''manual_review''
     | KycApproved \<Rightarrow> ''approved'' | KycRejected \<Rightarrow> ''rejected'')"

record kyc_row =
  kv_user :: uuid
  kv_target :: int
  kv_provider :: string
  kv_status :: kyc_state
  kv_bvn_last4 :: "string option"
  kv_nin_last4 :: "string option"
  kv_full_name :: "string option"
  kv_born :: "int option"
  kv_rejection :: "string option"
  kv_reviewed_at :: "instant option"
  kv_created_at :: instant

record kyc_db =
  kd_users :: "user_row list"
  kd_rows :: "kyc_row list"

definition undecided :: "kyc_row \<Rightarrow> bool" where
  "undecided r \<longleftrightarrow> kv_status r = KycPending \<or> kv_status r = KycManualReview"

section \<open>The ladder\<close>

record tier_info =
  tf_tier :: int
  tf_name :: string
  tf_requirement :: string
  tf_daily_limit :: string

definition limit_text :: "crates \<Rightarrow> kyc_tier \<Rightarrow> string" where
  "limit_text cr t = (case daily_payout_cap t of Some c \<Rightarrow> cr_show_decimal cr c | None \<Rightarrow> ''0'')"

text \<open>The dash of the first requirement is the three bytes of its UTF-8 encoding.\<close>

definition em_dash :: string where
  "em_dash = map char_of [226 :: nat, 128, 148]"

definition tier_ladder :: "crates \<Rightarrow> tier_info list" where
  "tier_ladder cr = map (\<lambda>(t, name, requirement).
     \<lparr>tf_tier = tier_as_i16 t, tf_name = name, tf_requirement = requirement, tf_daily_limit = limit_text cr t\<rparr>)
     [(Tier0, ''Unverified'', ''Nothing '' @ em_dash @ '' you're here by default''),
      (Tier1, ''Verified'', ''Your BVN, name and date of birth''),
      (Tier2, ''Full'', ''Your NIN and a selfie''),
      (Tier3, ''Premium'', ''Proof of address'')]"

fun next_requirement :: "kyc_tier \<Rightarrow> string option" where
  "next_requirement Tier0 = Some ''bvn''"
| "next_requirement Tier1 = Some ''nin''"
| "next_requirement Tier2 = Some ''address''"
| "next_requirement Tier3 = None"

definition stored_tier :: "int \<Rightarrow> kyc_tier" where
  "stored_tier raw = (case tier_of_i16 raw of Some t \<Rightarrow> t | None \<Rightarrow> Tier0)"

section \<open>Status\<close>

record pending_verification =
  pv_target_tier :: int
  pv_status :: string
  pv_submitted_at :: instant
  pv_rejection_reason :: "string option"

record kyc_status_response =
  ks_tier :: int
  ks_can_withdraw :: bool
  ks_next_step :: "string option"
  ks_next_requirement :: "string option"
  ks_pending :: "pending_verification option"
  ks_daily_limit :: string
  ks_tiers :: "tier_info list"

definition user_of :: "uuid \<Rightarrow> kyc_db \<Rightarrow> api_error + user_row" where
  "user_of user db = ok_or (from_sqlx RowNotFound) (fetch_optional (\<lambda>u. us_id u = user) (kd_users db))"

definition latest_open :: "uuid \<Rightarrow> kyc_row list \<Rightarrow> kyc_row option" where
  "latest_open user rows =
     (case sort_key (\<lambda>r. - kv_created_at r) (filter (\<lambda>r. kv_user r = user \<and> (undecided r \<or> kv_status r = KycRejected)) rows) of
        [] \<Rightarrow> None | r # _ \<Rightarrow> Some r)"

definition kyc_status :: "crates \<Rightarrow> uuid \<Rightarrow> kyc_db \<Rightarrow> api_error + kyc_status_response" where
  "kyc_status cr user db =
     res_bind (user_of user db) (\<lambda>u.
       (let tier = stored_tier (us_tier u) in
        Inr \<lparr>ks_tier = us_tier u, ks_can_withdraw = can_withdraw tier, ks_next_step = next_step tier,
          ks_next_requirement = next_requirement tier,
          ks_pending = map_option (\<lambda>r. \<lparr>pv_target_tier = kv_target r, pv_status = kyc_state_as_str (kv_status r),
             pv_submitted_at = kv_created_at r, pv_rejection_reason = kv_rejection r\<rparr>) (latest_open user (kd_rows db)),
          ks_daily_limit = limit_text cr tier, ks_tiers = tier_ladder cr\<rparr>))"

section \<open>Submitting\<close>

record submit_kyc_body =
  kb_id_number :: string
  kb_full_name :: "string option"
  kb_date_of_birth :: "string option"

record submit_kyc_response =
  kr_status :: string
  kr_tier :: int
  kr_message :: string

definition text_of :: "string option \<Rightarrow> string option" where
  "text_of s = (case s of None \<Rightarrow> None | Some t \<Rightarrow> (let u = trim t in if u = [] then None else Some u))"

definition today_of :: "instant \<Rightarrow> int" where
  "today_of now = now div days 1"

text \<open>What is checked of a submission: the digits, the name and the day of birth it is filed with.\<close>

definition kyc_checked :: "auth_crates \<Rightarrow> crates \<Rightarrow> int \<Rightarrow> user_row \<Rightarrow> string \<Rightarrow> submit_kyc_body \<Rightarrow>
    api_error + (string \<times> string \<times> int)" where
  "kyc_checked au cr today u requirement body =
     (let digits = filter is_ascii_digit (kb_id_number body) in
      if length digits \<noteq> 11 then Inl (BadRequest (''A '' @ cr_to_uppercase cr requirement @ '' is 11 digits.''))
      else
     res_bind (ok_or (BadRequest ''Add your full name in your profile first.'')
         (case text_of (kb_full_name body) of Some n \<Rightarrow> Some n | None \<Rightarrow> us_display_name u)) (\<lambda>full_name.
     if length (split_whitespace full_name) < 2 then Inl (BadRequest ''Enter your full name as it appears on your ID.'')
     else
     res_bind (case text_of (kb_date_of_birth body) of
         Some raw \<Rightarrow> ok_or (BadRequest ''Enter your date of birth as YYYY-MM-DD.'') (au_parse_date au raw)
       | None \<Rightarrow> ok_or (BadRequest ''Add your date of birth in your profile first.'') (us_date_of_birth u)) (\<lambda>born.
     if age_in_years today born < 18 then Inl (BadRequest ''You must be 18 or older to verify.'')
     else Inr (drop (length digits - 4) digits, full_name, born))))"

text \<open>The insert with the index of undecided rows and the range of the tier.\<close>

definition insert_kyc :: "kyc_row \<Rightarrow> kyc_db \<Rightarrow> db_error + kyc_db" where
  "insert_kyc r db =
     (if kv_target r < 1 \<or> 3 < kv_target r then Inl CheckViolation
      else if undecided r \<and> list_ex (\<lambda>x. kv_user x = kv_user r \<and> kv_target x = kv_target r \<and> undecided x) (kd_rows db)
      then Inl UniqueViolation
      else Inr (db\<lparr>kd_rows := kd_rows db @ [r]\<rparr>))"

text \<open>\<open>UPDATE users SET kyc_tier\<close> under the trigger \<open>assert_tier_is_earned\<close>.\<close>

definition raise_tier :: "uuid \<Rightarrow> int \<Rightarrow> kyc_db \<Rightarrow> db_error + kyc_db" where
  "raise_tier user tier db =
     (if list_ex (\<lambda>u. us_id u = user \<and> us_tier u < tier) (kd_users db) \<and>
         \<not> list_ex (\<lambda>r. kv_user r = user \<and> tier \<le> kv_target r \<and> kv_status r = KycApproved) (kd_rows db)
      then Inl CheckViolation
      else Inr (db\<lparr>kd_users := update_where (\<lambda>u. us_id u = user) (\<lambda>u. u\<lparr>us_tier := tier\<rparr>) (kd_users db)\<rparr>))"

definition file_kyc :: "bool \<Rightarrow> env \<Rightarrow> uuid \<Rightarrow> user_row \<Rightarrow> string \<Rightarrow> string \<times> string \<times> int \<Rightarrow> kyc_db \<Rightarrow>
    api_error + (int \<times> kyc_db)" where
  "file_kyc auto env user u requirement = (\<lambda>(last4, full_name, born) db.
     (let target = us_tier u + 1 in
      res_bind (map_err via_anyhow (insert_kyc
        \<lparr>kv_user = user, kv_target = target, kv_provider = (if auto then ''dev'' else ''manual''),
         kv_status = (if auto then KycApproved else KycPending),
         kv_bvn_last4 = (if requirement = ''bvn'' then Some last4 else None),
         kv_nin_last4 = (if requirement = ''nin'' then Some last4 else None),
         kv_full_name = Some full_name, kv_born = Some born, kv_rejection = None,
         kv_reviewed_at = (if auto then Some (app_now env) else None), kv_created_at = sql_now env\<rparr> db)) (\<lambda>db1.
      (let db2 = db1\<lparr>kd_users := update_where (\<lambda>u. us_id u = user)
             (\<lambda>u. u\<lparr>us_display_name := coalesce (us_display_name u) (Some full_name),
                us_date_of_birth := coalesce (us_date_of_birth u) (Some born)\<rparr>) (kd_users db1)\<rparr>
       in if auto then res_bind (map_err via_anyhow (raise_tier user target db2)) (\<lambda>db3. Inr (target, db3))
          else Inr (us_tier u, db2)))))"

definition submit_kyc :: "auth_crates \<Rightarrow> crates \<Rightarrow> bool \<Rightarrow> env \<Rightarrow> uuid \<Rightarrow> submit_kyc_body \<Rightarrow> kyc_db \<Rightarrow>
    (api_error + submit_kyc_response) \<times> kyc_db" where
  "submit_kyc au cr auto env user body db =
     (case res_bind (user_of user db) (\<lambda>u.
           res_bind (ok_or (BadRequest ''You're already fully verified.'') (next_requirement (stored_tier (us_tier u)))) (\<lambda>requirement.
           if list_ex (\<lambda>r. kv_user r = user \<and> undecided r) (kd_rows db)
           then Inl (BadRequest ''We're already checking your details.'')
           else res_bind (kyc_checked au cr (today_of (app_now env)) u requirement body) (\<lambda>filed.
           file_kyc auto env user u requirement filed db))) of
        Inl e \<Rightarrow> (Inl e, db)
      | Inr (tier, db') \<Rightarrow>
          (Inr \<lparr>kr_status = kyc_state_as_str (if auto then KycApproved else KycPending), kr_tier = tier,
             kr_message = (if auto then ''You're verified.''
               else ''We're checking your details. This usually takes a few minutes.'')\<rparr>, db'))"

end
