(* ===== verification/Config.thy ===== *)
theory Config
  imports Rust_Text Order_Create
begin

text \<open>
  \<open>crates/api/src/config.rs\<close>: the configuration read once at boot, and what makes the process refuse to
  start. The environment is a map from names to values; a value that is not Unicode reads like an unset
  one, as \<open>env::var\<close> answers an error for both.
\<close>

type_synonym vars = "string \<Rightarrow> string option"

datatype environment = Development | Staging | Production

definition is_production :: "environment \<Rightarrow> bool" where
  "is_production e \<longleftrightarrow> e = Production"

record activate_credentials =
  ak_provider :: string
  ak_api_key :: string
  ak_currency :: "string option"
  ak_base_url :: "string option"

record rate_limit_quotas =
  rq_global_ip :: nat
  rq_auth_ip :: nat
  rq_public_read_ip :: nat
  rq_funding_ip :: nat
  rq_funding_user :: nat
  rq_purchase_ip :: nat
  rq_purchase_user :: nat
  rq_poll_ip :: nat
  rq_poll_user :: nat
  rq_cancel_ip :: nat
  rq_cancel_user :: nat

record config =
  cf_environment :: environment
  cf_bind_addr :: string
  cf_database_url :: string
  cf_jwt_secret :: string
  cf_termii_api_key :: "string option"
  cf_termii_sender_id :: string
  cf_resend_api_key :: "string option"
  cf_operations_alert_email :: "string option"
  cf_email_from :: string
  cf_signer_url :: "string option"
  cf_dev_mnemonic :: "string option"
  cf_auto_approve_kyc :: bool
  cf_dev_otp_code :: "string option"
  cf_paystack_secret_key :: "string option"
  cf_google_client_id :: "string option"
  cf_fivesim_api_key :: "string option"
  cf_fivesim_currency :: "string option"
  cf_smspool_api_key :: "string option"
  cf_smspool_currency :: "string option"
  cf_smspool_base_url :: string
  cf_activate_keys :: "activate_credentials list"
  cf_google_allowed_emails :: "string list"
  cf_admin_emails :: "string list"
  cf_web_app_url :: string
  cf_numbers_margin :: decimal
  cf_min_price_fraction :: decimal
  cf_usd_ngn_mid :: decimal
  cf_spread_ngn_per_usd :: decimal
  cf_cors_allowed_origins :: "string list"
  cf_trusted_proxy_loopback :: bool
  cf_rate_limits :: rate_limit_quotas
  cf_operator_totp_key :: "string option"
  cf_admin_refund_cap_ngn :: decimal

text \<open>One constructor for every \<open>bail!\<close> and every context of a failed parse.\<close>

datatype config_error =
    VarNotSet string
  | VarEmpty string
  | VarNotANumber string
  | VarBelowOne string
  | VarNotADecimal string string
  | JwtSecretShort nat
  | DevOtpNotSixDigits string
  | CorsOriginsEmpty
  | CorsListEmpty
  | CorsWildcard string
  | CorsLocal string
  | CorsPreview string
  | CorsNoScheme string
  | CorsPath string
  | CorsWithoutProduction
  | ProxyFlagUnknown string
  | TotpKeyShort nat
  | RefundCapNotPositive
  | MarginAtALoss decimal
  | PriceFractionOutside decimal
  | AlertsRequired
  | PaystackRequired
  | SignerRequired
  | MnemonicInProduction
  | FixedCodeInProduction
  | AutoKycInProduction
  | TermiiRequired
  | ResendRequired
  | FivesimRequired
  | TotpKeyRequired
  | WebAppLocal string

section \<open>Readers\<close>

text \<open>\<open>env::var(..).ok().filter(|s| !s.is_empty())\<close>, and \<open>unwrap_or_else\<close>.\<close>

definition set_var :: "vars \<Rightarrow> string \<Rightarrow> string option" where
  "set_var vars name = (case vars name of Some v \<Rightarrow> if v = [] then None else Some v | None \<Rightarrow> None)"

definition var_or :: "vars \<Rightarrow> string \<Rightarrow> string \<Rightarrow> string" where
  "var_or vars name fallback = (case vars name of Some v \<Rightarrow> v | None \<Rightarrow> fallback)"

definition require :: "vars \<Rightarrow> string \<Rightarrow> config_error + string" where
  "require vars key =
     (case vars key of None \<Rightarrow> Inl (VarNotSet key) | Some v \<Rightarrow> if trim v = [] then Inl (VarEmpty key) else Inr v)"

definition u32_env :: "vars \<Rightarrow> string \<Rightarrow> nat \<Rightarrow> config_error + nat" where
  "u32_env vars key fallback =
     (case vars key of
        None \<Rightarrow> Inr fallback
      | Some raw \<Rightarrow>
          if trim raw = [] then Inr fallback
          else (case parse_unsigned (2 ^ 32) (trim raw) of
             None \<Rightarrow> Inl (VarNotANumber key)
           | Some v \<Rightarrow> if v = 0 then Inl (VarBelowOne key) else Inr v))"

definition decimal_env :: "crates \<Rightarrow> vars \<Rightarrow> string \<Rightarrow> decimal \<Rightarrow> config_error + decimal" where
  "decimal_env cr vars key fallback =
     (case vars key of
        None \<Rightarrow> Inr fallback
      | Some raw \<Rightarrow>
          if trim raw = [] then Inr fallback else ok_or (VarNotADecimal key raw) (cr_parse_decimal cr (trim raw)))"

definition email_list :: "string \<Rightarrow> string list" where
  "email_list raw = filter (\<lambda>e. e \<noteq> []) (map (\<lambda>e. to_ascii_lowercase (trim e)) (split_on (CHR '','') raw))"

definition default_admin_email :: string where
  "default_admin_email = ''naivolt7@gmail.com''"

definition email_list_env :: "vars \<Rightarrow> string \<Rightarrow> string \<Rightarrow> string list" where
  "email_list_env vars name fallback = email_list (var_or vars name fallback)"

definition activate_prefixes :: "(string \<times> string) list" where
  "activate_prefixes = [(''smsactivate'', ''SMSACTIVATE''), (''daisysms'', ''DAISYSMS''), (''smshub'', ''SMSHUB''),
     (''tigersms'', ''TIGERSMS'')]"

definition activate_credentials_of :: "vars \<Rightarrow> activate_credentials list" where
  "activate_credentials_of vars =
     List.map_filter (\<lambda>(provider, prefix). map_option (\<lambda>key.
         \<lparr>ak_provider = provider, ak_api_key = key, ak_currency = set_var vars (prefix @ ''_CURRENCY''),
          ak_base_url = set_var vars (prefix @ ''_BASE_URL'')\<rparr>) (set_var vars (prefix @ ''_API_KEY'')))
       activate_prefixes"

definition default_quotas :: rate_limit_quotas where
  "default_quotas = \<lparr>rq_global_ip = 120, rq_auth_ip = 10, rq_public_read_ip = 60, rq_funding_ip = 20, rq_funding_user = 10,
     rq_purchase_ip = 20, rq_purchase_user = 15, rq_poll_ip = 60, rq_poll_user = 30, rq_cancel_ip = 20, rq_cancel_user = 10\<rparr>"

definition quotas_from_env :: "vars \<Rightarrow> config_error + rate_limit_quotas" where
  "quotas_from_env vars =
     res_bind (u32_env vars ''RATE_LIMIT_GLOBAL_IP'' 120) (\<lambda>global_ip.
     res_bind (u32_env vars ''RATE_LIMIT_AUTH_IP'' 10) (\<lambda>auth_ip.
     res_bind (u32_env vars ''RATE_LIMIT_PUBLIC_READ_IP'' 60) (\<lambda>public_read_ip.
     res_bind (u32_env vars ''RATE_LIMIT_FUNDING_IP'' 20) (\<lambda>funding_ip.
     res_bind (u32_env vars ''RATE_LIMIT_FUNDING_USER'' 10) (\<lambda>funding_user.
     res_bind (u32_env vars ''RATE_LIMIT_PURCHASE_IP'' 20) (\<lambda>purchase_ip.
     res_bind (u32_env vars ''RATE_LIMIT_PURCHASE_USER'' 15) (\<lambda>purchase_user.
     res_bind (u32_env vars ''RATE_LIMIT_POLL_IP'' 60) (\<lambda>poll_ip.
     res_bind (u32_env vars ''RATE_LIMIT_POLL_USER'' 30) (\<lambda>poll_user.
     res_bind (u32_env vars ''RATE_LIMIT_CANCEL_IP'' 20) (\<lambda>cancel_ip.
     res_bind (u32_env vars ''RATE_LIMIT_CANCEL_USER'' 10) (\<lambda>cancel_user.
     Inr \<lparr>rq_global_ip = global_ip, rq_auth_ip = auth_ip, rq_public_read_ip = public_read_ip, rq_funding_ip = funding_ip,
       rq_funding_user = funding_user, rq_purchase_ip = purchase_ip, rq_purchase_user = purchase_user, rq_poll_ip = poll_ip,
       rq_poll_user = poll_user, rq_cancel_ip = cancel_ip, rq_cancel_user = cancel_user\<rparr>)))))))))))"

section \<open>Origins\<close>

definition production_web_origin :: string where
  "production_web_origin = ''https://www.naivolt.com''"

definition trim_slashes :: "string \<Rightarrow> string" where
  "trim_slashes s = rev (dropWhile (\<lambda>c. c = CHR ''/'') (rev s))"

definition parse_origin_list :: "string \<Rightarrow> config_error + string list" where
  "parse_origin_list raw =
     (let origins = filter (\<lambda>o'. o' \<noteq> []) (map (\<lambda>part. trim_slashes (trim part)) (split_on (CHR '','') raw))
      in if origins = [] then Inl CorsOriginsEmpty else Inr origins)"

text \<open>What follows the first \<open>://\<close>.\<close>

fun after_scheme :: "string \<Rightarrow> string option" where
  "after_scheme [] = None"
| "after_scheme (c # s) = (if prefix ''://'' (c # s) then Some (drop 2 s) else after_scheme s)"

definition reject_origin :: "string \<Rightarrow> config_error option" where
  "reject_origin origin =
     (let lower = to_ascii_lowercase origin in
      if origin = ''*'' \<or> contains ''*'' lower then Some (CorsWildcard origin)
      else if contains ''localhost'' lower \<or> contains ''127.0.0.1'' lower \<or> contains ''127.'' lower then Some (CorsLocal origin)
      else if contains ''vercel.app'' lower then Some (CorsPreview origin)
      else if \<not> prefix ''https://'' lower \<and> \<not> prefix ''http://'' lower then Some (CorsNoScheme origin)
      else if CHR ''/'' \<in> set (case after_scheme origin of Some host \<Rightarrow> host | None \<Rightarrow> origin) then Some (CorsPath origin)
      else None)"

definition reject_public_origins :: "string list \<Rightarrow> config_error + unit" where
  "reject_public_origins origins =
     (if origins = [] then Inl CorsListEmpty
      else (case List.map_filter reject_origin origins of [] \<Rightarrow> Inr () | e # _ \<Rightarrow> Inl e))"

definition resolve_cors_origins :: "environment \<Rightarrow> string \<Rightarrow> string option \<Rightarrow> config_error + string list" where
  "resolve_cors_origins environment web_app_url cors =
     res_bind (case map_option trim cors of
         Some raw \<Rightarrow> if raw = [] then Inl CorsOriginsEmpty else parse_origin_list raw
       | None \<Rightarrow> Inr (case environment of
           Production \<Rightarrow> [production_web_origin]
         | Staging \<Rightarrow> [trim_slashes web_app_url]
         | Development \<Rightarrow> [''http://localhost:5173'', ''http://127.0.0.1:5173''])) (\<lambda>parsed.
     res_bind (if environment = Production \<or> environment = Staging
         then res_bind (reject_public_origins parsed) (\<lambda>_.
           if environment = Production \<and> production_web_origin \<notin> set parsed then Inl CorsWithoutProduction else Inr ())
         else Inr ()) (\<lambda>_.
     if parsed = [] then Inl CorsListEmpty else Inr parsed))"

definition trusted_proxy_loopback :: "vars \<Rightarrow> environment \<Rightarrow> config_error + bool" where
  "trusted_proxy_loopback vars environment =
     (case vars ''TRUSTED_PROXY_LOOPBACK'' of
        Some raw \<Rightarrow>
          (let raw = trim raw in
           if raw = ''true'' \<or> raw = ''1'' then Inr True
           else if raw = ''false'' \<or> raw = ''0'' then Inr False
           else Inl (ProxyFlagUnknown raw))
      | None \<Rightarrow> Inr (environment \<noteq> Development))"

definition operator_totp_key_from_env :: "vars \<Rightarrow> config_error + string option" where
  "operator_totp_key_from_env vars =
     (case vars ''OPERATOR_TOTP_KEY'' of
        None \<Rightarrow> Inr None
      | Some raw \<Rightarrow> if raw = [] then Inr None else if length raw < 32 then Inl (TotpKeyShort (length raw)) else Inr (Some raw))"

section \<open>The rules of production\<close>

text \<open>The \<open>bail!\<close>s of a function in their order: the first failing one is the answer.\<close>

fun first_failure :: "(bool \<times> config_error) list \<Rightarrow> config_error + unit" where
  "first_failure [] = Inr ()"
| "first_failure ((bad, e) # rest) = (if bad then Inl e else first_failure rest)"

definition validate_for_environment :: "config \<Rightarrow> config_error + unit" where
  "validate_for_environment c =
     res_bind (first_failure
       [(cf_fivesim_api_key c \<noteq> None \<and> (cf_resend_api_key c = None \<or> cf_operations_alert_email c = None), AlertsRequired),
        (cf_environment c \<noteq> Development \<and> cf_paystack_secret_key c = None, PaystackRequired)]) (\<lambda>_.
     if \<not> is_production (cf_environment c) then Inr ()
     else first_failure
       [(cf_signer_url c = None, SignerRequired),
        (cf_dev_mnemonic c \<noteq> None, MnemonicInProduction),
        (cf_dev_otp_code c \<noteq> None, FixedCodeInProduction),
        (cf_auto_approve_kyc c, AutoKycInProduction),
        (cf_termii_api_key c = None, TermiiRequired),
        (cf_resend_api_key c = None, ResendRequired),
        (cf_paystack_secret_key c = None, PaystackRequired),
        (cf_fivesim_api_key c = None, FivesimRequired),
        (cf_operator_totp_key c = None, TotpKeyRequired),
        (case cf_operator_totp_key c of Some key \<Rightarrow> length key < 32 | None \<Rightarrow> False,
          TotpKeyShort (case cf_operator_totp_key c of Some key \<Rightarrow> length key | None \<Rightarrow> 0)),
        (prefix ''http://localhost'' (cf_web_app_url c) \<or> prefix ''http://127.'' (cf_web_app_url c),
          WebAppLocal (cf_web_app_url c))])"

section \<open>Loading\<close>

definition environment_of :: "vars \<Rightarrow> environment" where
  "environment_of vars =
     (case vars ''APP_ENV'' of
        Some v \<Rightarrow> if v = ''production'' \<or> v = ''prod'' then Production else if v = ''staging'' then Staging else Development
      | None \<Rightarrow> Development)"

definition default_dev_otp_code :: string where
  "default_dev_otp_code = ''021236''"

definition dev_otp_code_of :: "vars \<Rightarrow> environment \<Rightarrow> string option" where
  "dev_otp_code_of vars environment =
     (case vars ''DEV_OTP_CODE'' of
        Some raw \<Rightarrow> if trim raw = [] then None else Some (trim raw)
      | None \<Rightarrow> if environment = Development then Some default_dev_otp_code else None)"

definition otp_code_ok :: "string option \<Rightarrow> config_error + unit" where
  "otp_code_ok code =
     (case code of
        None \<Rightarrow> Inr ()
      | Some c \<Rightarrow> if length c \<noteq> 6 \<or> \<not> list_all is_ascii_digit c then Inl (DevOtpNotSixDigits c) else Inr ())"

definition auto_approve_kyc_of :: "vars \<Rightarrow> environment \<Rightarrow> bool" where
  "auto_approve_kyc_of vars environment =
     (case vars ''DEV_AUTO_APPROVE_KYC'' of
        Some raw \<Rightarrow> raw = ''true'' \<or> raw = ''1''
      | None \<Rightarrow> environment = Development)"

text \<open>The fields in the order the code reads them, up to the ones set after the struct.\<close>

definition first_config :: "crates \<Rightarrow> vars \<Rightarrow> config_error + config" where
  "first_config cr vars =
     (let environment = environment_of vars in
     res_bind (require vars ''JWT_SECRET'') (\<lambda>jwt_secret.
     res_bind (if length jwt_secret < 32 then Inl (JwtSecretShort (length jwt_secret)) else Inr ()) (\<lambda>_.
     (let dev_otp_code = dev_otp_code_of vars environment in
     res_bind (otp_code_ok dev_otp_code) (\<lambda>_.
     res_bind (require vars ''DATABASE_URL'') (\<lambda>database_url.
     res_bind (decimal_env cr vars ''NUMBERS_MARGIN'' (16 / 10)) (\<lambda>margin.
     res_bind (decimal_env cr vars ''NUMBERS_MIN_PRICE_FRACTION'' (6 / 10)) (\<lambda>fraction.
     res_bind (decimal_env cr vars ''USD_NGN_MID'' 1530) (\<lambda>mid.
     res_bind (decimal_env cr vars ''SPREAD_NGN_PER_USD'' 10) (\<lambda>spread.
     Inr \<lparr>cf_environment = environment, cf_bind_addr = var_or vars ''BIND_ADDR'' ''0.0.0.0:5000'',
       cf_database_url = database_url, cf_jwt_secret = jwt_secret, cf_termii_api_key = set_var vars ''TERMII_API_KEY'',
       cf_termii_sender_id = var_or vars ''TERMII_SENDER_ID'' ''Naivolt'',
       cf_resend_api_key = set_var vars ''RESEND_API_KEY'',
       cf_operations_alert_email = (case vars ''OPERATIONS_ALERT_EMAIL'' of
          Some v \<Rightarrow> if trim v = [] then None else Some v | None \<Rightarrow> None),
       cf_email_from = var_or vars ''EMAIL_FROM'' ''Naivolt <no-reply@naivolt.com>'',
       cf_signer_url = set_var vars ''SIGNER_URL'', cf_dev_mnemonic = set_var vars ''DEV_MNEMONIC'',
       cf_auto_approve_kyc = auto_approve_kyc_of vars environment, cf_dev_otp_code = dev_otp_code,
       cf_paystack_secret_key = set_var vars ''PAYSTACK_SECRET_KEY'', cf_google_client_id = set_var vars ''GOOGLE_CLIENT_ID'',
       cf_fivesim_api_key = set_var vars ''FIVESIM_API_KEY'', cf_fivesim_currency = set_var vars ''FIVESIM_CURRENCY'',
       cf_smspool_api_key = set_var vars ''SMSPOOL_API_KEY'', cf_smspool_currency = set_var vars ''SMSPOOL_CURRENCY'',
       cf_smspool_base_url = (case set_var vars ''SMSPOOL_BASE_URL'' of Some u \<Rightarrow> u | None \<Rightarrow> ''https://api.smspool.net''),
       cf_activate_keys = activate_credentials_of vars,
       cf_google_allowed_emails = email_list_env vars ''GOOGLE_ALLOWED_EMAILS'' [],
       cf_admin_emails = email_list_env vars ''ADMIN_EMAILS'' default_admin_email,
       cf_web_app_url = trim_slashes (var_or vars ''WEB_APP_URL'' ''http://localhost:5173''),
       cf_numbers_margin = margin, cf_min_price_fraction = fraction, cf_usd_ngn_mid = mid, cf_spread_ngn_per_usd = spread,
       cf_cors_allowed_origins = [], cf_trusted_proxy_loopback = False, cf_rate_limits = default_quotas,
       cf_operator_totp_key = None, cf_admin_refund_cap_ngn = 100000\<rparr>))))))))))"

definition load :: "crates \<Rightarrow> vars \<Rightarrow> config_error + config" where
  "load cr vars =
     res_bind (first_config cr vars) (\<lambda>c.
     res_bind (resolve_cors_origins (cf_environment c) (cf_web_app_url c) (vars ''CORS_ALLOWED_ORIGINS'')) (\<lambda>origins.
     res_bind (trusted_proxy_loopback vars (cf_environment c)) (\<lambda>trusted.
     res_bind (quotas_from_env vars) (\<lambda>quotas.
     res_bind (operator_totp_key_from_env vars) (\<lambda>totp.
     res_bind (decimal_env cr vars ''ADMIN_REFUND_CAP_NGN'' 100000) (\<lambda>cap.
     res_bind (first_failure
       [(cap \<le> 0, RefundCapNotPositive),
        (cf_numbers_margin c \<le> 1, MarginAtALoss (cf_numbers_margin c)),
        (cf_min_price_fraction c < 0 \<or> 1 < cf_min_price_fraction c, PriceFractionOutside (cf_min_price_fraction c))]) (\<lambda>_.
     (let c = c\<lparr>cf_cors_allowed_origins := origins, cf_trusted_proxy_loopback := trusted, cf_rate_limits := quotas,
        cf_operator_totp_key := totp, cf_admin_refund_cap_ngn := cap\<rparr>
      in res_bind (validate_for_environment c) (\<lambda>_. Inr c)))))))))"

end
