(* ===== verification/Boundary.thy ===== *)
theory Boundary
  imports Config Auth_Routes
begin

text \<open>
  \<open>crates/api/src/boundary.rs\<close>: what stands before every route. The query's length, who the request is
  counted for, which limiters it is counted by, and the answer to one too many. The limiter itself is of
  the \<open>governor\<close> crate and a parameter: \<open>gl_check\<close> takes a time and a key, and answers how many
  nanoseconds to wait when the key is over its quota.
\<close>

section \<open>Requests\<close>

datatype http_method = GET | POST | PUT | PATCH | DELETE | OPTIONS | OtherMethod string

text \<open>Header values that are not visible ASCII read like missing ones.\<close>

record http_request =
  hr_method :: http_method
  hr_path :: string
  hr_query :: "string option"
  hr_real_ip :: "string option"
  hr_authorization :: "string option"

text \<open>Addresses: \<open>ip_parse\<close> reads one, \<open>ip_show\<close> writes it, \<open>ip_loopback\<close> is \<open>is_loopback\<close>.\<close>

record 'ip ip_crates =
  ip_parse :: "string \<Rightarrow> 'ip option"
  ip_show :: "'ip \<Rightarrow> string"
  ip_loopback :: "'ip \<Rightarrow> bool"
  ip_localhost :: 'ip

record 'l limiter_crate =
  gl_new :: "nat \<Rightarrow> 'l"
  gl_check :: "instant \<Rightarrow> string \<Rightarrow> 'l \<Rightarrow> nat option \<times> 'l"

datatype bucket =
    GlobalIp | AuthIp | PublicReadIp | FundingIp | FundingUser | PurchaseIp | PurchaseUser | PollIp | PollUser
  | CancelIp | CancelUser

record boundary_config =
  bc_origins :: "string list"
  bc_trusted_proxy_loopback :: bool
  bc_keys :: string

section \<open>Limiters\<close>

text \<open>\<open>keyed\<close>: a quota of none is one a minute.\<close>

definition keyed :: "'l limiter_crate \<Rightarrow> nat \<Rightarrow> 'l" where
  "keyed gl per_minute = gl_new gl (max per_minute 1)"

definition quota_of :: "rate_limit_quotas \<Rightarrow> bucket \<Rightarrow> nat" where
  "quota_of q b =
     (case b of GlobalIp \<Rightarrow> rq_global_ip q | AuthIp \<Rightarrow> rq_auth_ip q | PublicReadIp \<Rightarrow> rq_public_read_ip q
      | FundingIp \<Rightarrow> rq_funding_ip q | FundingUser \<Rightarrow> rq_funding_user q | PurchaseIp \<Rightarrow> rq_purchase_ip q
      | PurchaseUser \<Rightarrow> rq_purchase_user q | PollIp \<Rightarrow> rq_poll_ip q | PollUser \<Rightarrow> rq_poll_user q
      | CancelIp \<Rightarrow> rq_cancel_ip q | CancelUser \<Rightarrow> rq_cancel_user q)"

definition limiters_new :: "'l limiter_crate \<Rightarrow> rate_limit_quotas \<Rightarrow> bucket \<Rightarrow> 'l" where
  "limiters_new gl q b = keyed gl (quota_of q b)"

definition is_order_detail :: "string \<Rightarrow> bool" where
  "is_order_detail path =
     (case strip_prefix ''/api/v1/numbers/orders/'' path of
        None \<Rightarrow> False
      | Some rest \<Rightarrow> rest \<noteq> [] \<and> CHR ''/'' \<notin> set rest)"

definition bucket_of :: "http_method \<Rightarrow> string \<Rightarrow> bucket \<times> bucket option" where
  "bucket_of m path =
     (if m = POST \<and> prefix ''/api/v1/auth/'' path then (AuthIp, None)
      else if m = GET \<and> (path = ''/api/v1/numbers/catalog'' \<or> path = ''/api/v1/numbers/offers'' \<or>
          path = ''/api/v1/numbers/products'' \<or> prefix ''/api/v1/numbers/products/'' path \<or> path = ''/api/v1/rates'')
      then (PublicReadIp, None)
      else if m = POST \<and> path = ''/api/v1/funding/intents'' then (FundingIp, Some FundingUser)
      else if m = POST \<and> path = ''/api/v1/numbers/orders'' then (PurchaseIp, Some PurchaseUser)
      else if m = GET \<and> (path = ''/api/v1/numbers/orders'' \<or> is_order_detail path) then (PollIp, Some PollUser)
      else if m = POST \<and> prefix ''/api/v1/numbers/orders/'' path \<and> suffix ''/cancel'' path then (CancelIp, Some CancelUser)
      else (GlobalIp, None))"

text \<open>\<open>retry_seconds\<close> of a wait in nanoseconds.\<close>

definition retry_seconds :: "nat \<Rightarrow> int" where
  "retry_seconds wait = sint (word_of_nat (max (wait div 10 ^ 9 + (if wait mod 10 ^ 9 > 0 then 1 else 0)) 1) :: 64 word)"

definition limit_check :: "'l limiter_crate \<Rightarrow> instant \<Rightarrow> bucket \<Rightarrow> string \<Rightarrow> (bucket \<Rightarrow> 'l) \<Rightarrow>
    api_error option \<times> (bucket \<Rightarrow> 'l)" where
  "limit_check gl now b key s =
     (case gl_check gl now key (s b) of
        (None, l) \<Rightarrow> (None, s(b := l))
      | (Some wait, l) \<Rightarrow> (Some (RateLimited (retry_seconds wait)), s(b := l)))"

definition enforce :: "'l limiter_crate \<Rightarrow> (uuid \<Rightarrow> string) \<Rightarrow> instant \<Rightarrow> http_method \<Rightarrow> string \<Rightarrow> string \<Rightarrow> uuid option \<Rightarrow>
    (bucket \<Rightarrow> 'l) \<Rightarrow> api_error option \<times> (bucket \<Rightarrow> 'l)" where
  "enforce gl show_uuid now m path ip_key user s =
     (let (ip_limiter, user_limiter) = bucket_of m path in
      case limit_check gl now ip_limiter ip_key s of
        (Some e, s1) \<Rightarrow> (Some e, s1)
      | (None, s1) \<Rightarrow>
          (case (user_limiter, user) of
             (Some b, Some u) \<Rightarrow> limit_check gl now b (show_uuid u) s1
           | _ \<Rightarrow> (None, s1)))"

section \<open>The middleware\<close>

definition client_ip :: "'ip ip_crates \<Rightarrow> boundary_config \<Rightarrow> 'ip \<Rightarrow> string option \<Rightarrow> 'ip" where
  "client_ip ic bc peer real_ip =
     (if \<not> bc_trusted_proxy_loopback bc \<or> \<not> ip_loopback ic peer then peer
      else (case Option.bind real_ip (\<lambda>raw. ip_parse ic (trim raw)) of Some ip \<Rightarrow> ip | None \<Rightarrow> peer))"

definition peek_user_id :: "auth_crates \<Rightarrow> string \<Rightarrow> instant \<Rightarrow> string option \<Rightarrow> uuid option" where
  "peek_user_id au keys now authorization =
     Option.bind authorization (\<lambda>header.
     Option.bind (case strip_prefix ''Bearer '' header of Some t \<Rightarrow> Some t | None \<Rightarrow> strip_prefix ''bearer '' header) (\<lambda>token.
     map_option ac_sub (ok (verify_access au keys (trim token) now))))"

definition rate_limit :: "'l limiter_crate \<Rightarrow> 'ip ip_crates \<Rightarrow> auth_crates \<Rightarrow> (uuid \<Rightarrow> string) \<Rightarrow> boundary_config \<Rightarrow> instant \<Rightarrow>
    http_request \<Rightarrow> 'ip option \<Rightarrow> (bucket \<Rightarrow> 'l) \<Rightarrow> api_error option \<times> (bucket \<Rightarrow> 'l)" where
  "rate_limit gl ic au show_uuid bc now q peer s =
     (if hr_method q = OPTIONS \<or> hr_path q = ''/health'' then (None, s)
      else enforce gl show_uuid now (hr_method q) (hr_path q)
        (ip_show ic (client_ip ic bc (case peer of Some ip \<Rightarrow> ip | None \<Rightarrow> ip_localhost ic) (hr_real_ip q)))
        (peek_user_id au (bc_keys bc) now (hr_authorization q)) s)"

definition max_query_bytes :: nat where
  "max_query_bytes = 2048"

definition query_length :: "http_request \<Rightarrow> api_error option" where
  "query_length q =
     (case hr_query q of
        Some s \<Rightarrow> if max_query_bytes < length s then Some (BadRequest ''query string is too long'') else None
      | None \<Rightarrow> None)"

text \<open>
  \<open>apply\<close>: the query is measured before the limits, and a request goes on to its route when both let it.
  The headers of \<open>security_headers\<close> are on every answer.
\<close>

definition security_headers :: "(string \<times> string) list" where
  "security_headers = [(''x-content-type-options'', ''nosniff''), (''x-frame-options'', ''DENY'')]"

definition boundary :: "'l limiter_crate \<Rightarrow> 'ip ip_crates \<Rightarrow> auth_crates \<Rightarrow> (uuid \<Rightarrow> string) \<Rightarrow> boundary_config \<Rightarrow> instant \<Rightarrow>
    http_request \<Rightarrow> 'ip option \<Rightarrow> (bucket \<Rightarrow> 'l) \<Rightarrow> api_error option \<times> (bucket \<Rightarrow> 'l)" where
  "boundary gl ic au show_uuid bc now q peer s =
     (case query_length q of
        Some e \<Rightarrow> (Some e, s)
      | None \<Rightarrow> rate_limit gl ic au show_uuid bc now q peer s)"

text \<open>The origins that are let in, each as a header value or the one of production.\<close>

definition header_value_ok :: "string \<Rightarrow> bool" where
  "header_value_ok s \<longleftrightarrow> list_all (\<lambda>c. let n = of_char c :: nat in (32 \<le> n \<and> n \<noteq> 127) \<or> n = 9) s"

definition cors_origins :: "string list \<Rightarrow> string list" where
  "cors_origins origins = map (\<lambda>o'. if header_value_ok o' then o' else production_web_origin) origins"

end
