(* ===== verification/Boot.thy ===== *)
theory Boot
  imports Boundary Number_Providers Funding Payouts
begin

text \<open>
  \<open>crates/api/src/main.rs\<close>: which adapters the process is started with. The clients of the suppliers, of
  Paystack and of the signer are parameters, built from their keys; the database, the migrations and the
  listener are not modelled.
\<close>

datatype 'seed address_provider = RemoteSigner string | LocalSigner 'seed

datatype notifier = HttpNotifier "string option" string "string option" string | LogNotifier

record 'seed http_crates =
  hc_fivesim :: "string \<Rightarrow> string option \<Rightarrow> fivesim_conn"
  hc_stub :: "string \<Rightarrow> string \<Rightarrow> string"
  hc_smspool :: "string \<Rightarrow> string option \<Rightarrow> string option \<Rightarrow> smspool_conn"
  hc_activate :: "activate_flavor \<Rightarrow> string \<Rightarrow> string option \<Rightarrow> string option \<Rightarrow> activate_conn"
  hc_initialize :: "string \<Rightarrow> string \<Rightarrow> decimal \<Rightarrow> string \<Rightarrow> string \<Rightarrow> string reply"
  hc_verify :: "string \<Rightarrow> string \<Rightarrow> verify_data reply"
  hc_resolve :: "string \<Rightarrow> string \<Rightarrow> string \<Rightarrow> string reply"
  hc_seed :: "string \<Rightarrow> 'seed option"

record 'seed app_state =
  ap_keys :: string
  ap_notifier :: notifier
  ap_addresses :: "'seed address_provider"
  ap_numbers :: number_providers
  ap_funding :: funding_provider
  ap_payouts :: payout_provider
  ap_config :: config

datatype boot_error = BadConfig config_error | BadKeys session_error | BadMnemonic | NoAddresses

definition build_activate_providers :: "'seed http_crates \<Rightarrow> activate_credentials list \<Rightarrow> activate_conn list" where
  "build_activate_providers hc creds =
     List.map_filter (\<lambda>c. map_option (\<lambda>flavor. hc_activate hc flavor (ak_api_key c) (ak_currency c) (ak_base_url c))
       (flavor_parse (ak_provider c))) creds"

definition choose_notifier :: "config \<Rightarrow> notifier" where
  "choose_notifier c =
     (if is_production (cf_environment c) \<or> cf_termii_api_key c \<noteq> None \<or> cf_resend_api_key c \<noteq> None
      then HttpNotifier (cf_termii_api_key c) (cf_termii_sender_id c) (cf_resend_api_key c) (cf_email_from c)
      else LogNotifier)"

definition choose_addresses :: "'seed http_crates \<Rightarrow> config \<Rightarrow> boot_error + 'seed address_provider" where
  "choose_addresses hc c =
     (case (cf_signer_url c, cf_dev_mnemonic c) of
        (Some url, _) \<Rightarrow> Inr (RemoteSigner url)
      | (None, Some mnemonic) \<Rightarrow> ok_or BadMnemonic (map_option LocalSigner (hc_seed hc mnemonic))
      | (None, None) \<Rightarrow> Inl NoAddresses)"

definition choose_numbers :: "'seed http_crates \<Rightarrow> config \<Rightarrow> number_providers" where
  "choose_numbers hc c =
     \<lparr>np_primary = (case cf_fivesim_api_key c of
        Some key \<Rightarrow> FiveSim (hc_fivesim hc key (cf_fivesim_currency c))
      | None \<Rightarrow> Stub (hc_stub hc)),
      np_smspool = map_option (\<lambda>key. hc_smspool hc key (cf_smspool_currency c) (Some (cf_smspool_base_url c))) (cf_smspool_api_key c),
      np_activate = build_activate_providers hc (cf_activate_keys c)\<rparr>"

definition choose_funding :: "'seed http_crates \<Rightarrow> config \<Rightarrow> funding_provider" where
  "choose_funding hc c =
     (case cf_paystack_secret_key c of Some key \<Rightarrow> PaystackFunding (hc_initialize hc key) (hc_verify hc key) | None \<Rightarrow> StubFunding)"

definition choose_payouts :: "'seed http_crates \<Rightarrow> config \<Rightarrow> payout_provider" where
  "choose_payouts hc c =
     (case cf_paystack_secret_key c of Some key \<Rightarrow> PaystackPayouts (hc_resolve hc key) | None \<Rightarrow> StubPayouts)"

text \<open>\<open>main\<close>, up to the listener.\<close>

definition boot :: "crates \<Rightarrow> 'seed http_crates \<Rightarrow> vars \<Rightarrow> boot_error + 'seed app_state" where
  "boot cr hc vars =
     res_bind (map_err BadConfig (load cr vars)) (\<lambda>c.
     res_bind (map_err BadKeys (keys_from_secret (cf_jwt_secret c))) (\<lambda>keys.
     res_bind (choose_addresses hc c) (\<lambda>addresses.
     Inr \<lparr>ap_keys = keys, ap_notifier = choose_notifier c, ap_addresses = addresses, ap_numbers = choose_numbers hc c,
       ap_funding = choose_funding hc c, ap_payouts = choose_payouts hc c, ap_config = c\<rparr>)))"

definition boundary_config_of :: "'seed app_state \<Rightarrow> boundary_config" where
  "boundary_config_of s =
     \<lparr>bc_origins = cf_cors_allowed_origins (ap_config s), bc_trusted_proxy_loopback = cf_trusted_proxy_loopback (ap_config s),
      bc_keys = ap_keys s\<rparr>"

end
