(* ===== verification/Boot_Properties.thy ===== *)
theory Boot_Properties
  imports Boot
begin

text \<open>
  What a started process guarantees: the settings of production, what a misspelled environment does, who
  a request is counted for, how many requests get through, and how long a refused one is told to wait.
\<close>

section \<open>Settings\<close>

lemma first_failure_Inr: "first_failure bads = Inr () \<longleftrightarrow> list_all (\<lambda>(bad, e). \<not> bad) bads"
  by (induction bads rule: first_failure.induct) auto

declare first_failure.simps [simp del]

lemma map_filter_Nil: "List.map_filter f xs = [] \<longleftrightarrow> (\<forall>x \<in> set xs. f x = None)"
  by (induction xs) (auto simp: List.map_filter_simps split: option.splits)

lemma reject_public_origins_Inr:
  "reject_public_origins origins = Inr () \<longleftrightarrow> origins \<noteq> [] \<and> (\<forall>o' \<in> set origins. reject_origin o' = None)"
  unfolding reject_public_origins_def using map_filter_Nil [of reject_origin origins] by (auto split: list.split)

lemma resolve_cors_Inr:
  assumes "resolve_cors_origins e url cors = Inr origins" "e \<noteq> Development"
  shows "origins \<noteq> []" "o' \<in> set origins \<Longrightarrow> reject_origin o' = None" "e = Production \<Longrightarrow> production_web_origin \<in> set origins"
  using assms
  by (auto simp: resolve_cors_origins_def res_bind_Inr_iff reject_public_origins_Inr split: if_splits environment.splits)

lemma u32_env_Inr: "u32_env vars key fallback = Inr v \<Longrightarrow> 0 < fallback \<Longrightarrow> 0 < v"
  by (auto simp: u32_env_def split: option.splits if_splits)

lemma quotas_Inr:
  assumes "quotas_from_env vars = Inr q"
  shows "0 < quota_of q b"
  using assms unfolding quotas_from_env_def
  by (elim res_bind_Inr_E) ((drule u32_env_Inr, simp)+, cases b, auto simp: quota_of_def)

text \<open>What \<open>load\<close> read, taken apart.\<close>

lemma load_Inr:
  assumes "load cr vars = Inr c"
  obtains c0 origins trusted quotas totp cap where "first_config cr vars = Inr c0"
    "resolve_cors_origins (cf_environment c0) (cf_web_app_url c0) (vars ''CORS_ALLOWED_ORIGINS'') = Inr origins"
    "trusted_proxy_loopback vars (cf_environment c0) = Inr trusted" "quotas_from_env vars = Inr quotas"
    "operator_totp_key_from_env vars = Inr totp" "decimal_env cr vars ''ADMIN_REFUND_CAP_NGN'' 100000 = Inr cap"
    "0 < cap" "1 < cf_numbers_margin c0" "0 \<le> cf_min_price_fraction c0" "cf_min_price_fraction c0 \<le> 1"
    "c = c0\<lparr>cf_cors_allowed_origins := origins, cf_trusted_proxy_loopback := trusted, cf_rate_limits := quotas,
        cf_operator_totp_key := totp, cf_admin_refund_cap_ngn := cap\<rparr>" "validate_for_environment c = Inr ()"
  using assms unfolding load_def Let_def
  by (elim res_bind_Inr_E) (rule that; (assumption | (simp add: first_failure_Inr not_le not_less; fail) | (simp, erule sym)))

lemma validated:
  assumes "validate_for_environment c = Inr ()" "cf_environment c = Production"
  shows "cf_signer_url c \<noteq> None" "cf_dev_mnemonic c = None" "cf_dev_otp_code c = None" "\<not> cf_auto_approve_kyc c"
    "cf_termii_api_key c \<noteq> None" "cf_resend_api_key c \<noteq> None" "cf_paystack_secret_key c \<noteq> None" "cf_fivesim_api_key c \<noteq> None"
    "\<exists>key. cf_operator_totp_key c = Some key \<and> 32 \<le> length key" "cf_operations_alert_email c \<noteq> None"
  using assms
  by (auto simp: validate_for_environment_def res_bind_Inr_iff first_failure_Inr is_production_def)

lemma first_config_secret: "first_config cr vars = Inr c \<Longrightarrow> 32 \<le> length (cf_jwt_secret c) \<and> cf_environment c = environment_of vars"
  by (auto simp: first_config_def res_bind_Inr_iff Let_def split: if_splits)

lemma exact_origin:
  assumes "reject_origin o' = None"
  shows "CHR ''*'' \<notin> set o'" "prefix ''http'' (to_ascii_lowercase o')" "\<not> contains ''localhost'' (to_ascii_lowercase o')"
proof -
  have r: "\<not> contains ''*'' (to_ascii_lowercase o')" "\<not> contains ''localhost'' (to_ascii_lowercase o')"
    "prefix ''https://'' (to_ascii_lowercase o') \<or> prefix ''http://'' (to_ascii_lowercase o')"
    using assms by (auto simp: reject_origin_def Let_def split: if_splits)
  show "CHR ''*'' \<notin> set o'"
  proof
    assume "CHR ''*'' \<in> set o'"
    then obtain xs ys where "o' = xs @ CHR ''*'' # ys" by (meson split_list)
    then have "to_ascii_lowercase o' = to_ascii_lowercase xs @ ''*'' @ to_ascii_lowercase ys"
      by (simp add: to_ascii_lowercase_def to_ascii_lower_char_def)
    then show False using r(1) by (metis contains_def sublist_appendI)
  qed
  show "prefix ''http'' (to_ascii_lowercase o')" using r(3) by (auto simp: prefix_def)
qed (use assms in \<open>auto simp: reject_origin_def Let_def split: if_splits\<close>)

lemma production_settings:
  assumes "boot cr hc vars = Inr s" "environment_of vars = Production"
  shows "cf_dev_otp_code (ap_config s) = None \<and> \<not> cf_auto_approve_kyc (ap_config s)"
proof -
  obtain c where l: "load cr vars = Inr c" and s: "ap_config s = c"
    using assms(1) by (auto simp: boot_def res_bind_Inr_iff)
  obtain c0 origins trusted quotas totp cap where c0: "first_config cr vars = Inr c0"
    and c: "c = c0\<lparr>cf_cors_allowed_origins := origins, cf_trusted_proxy_loopback := trusted, cf_rate_limits := quotas,
        cf_operator_totp_key := totp, cf_admin_refund_cap_ngn := cap\<rparr>" and v: "validate_for_environment c = Inr ()"
    by (rule load_Inr [OF l])
  have "cf_environment c = Production" using first_config_secret [OF c0] assms(2) by (simp add: c)
  then show ?thesis using validated(3,4) [OF v] s by simp
qed


text \<open>A name that is not one of the three words changes nothing but what development turns on.\<close>

lemma other_name_reads:
  assumes "n \<noteq> ''APP_ENV''"
  shows "set_var (vars(''APP_ENV'' := w)) n = set_var vars n" "var_or (vars(''APP_ENV'' := w)) n f = var_or vars n f"
    "require (vars(''APP_ENV'' := w)) n = require vars n" "decimal_env cr (vars(''APP_ENV'' := w)) n d = decimal_env cr vars n d"
    "u32_env (vars(''APP_ENV'' := w)) n q = u32_env vars n q"
    "email_list_env (vars(''APP_ENV'' := w)) n f = email_list_env vars n f"
  using assms by (simp_all add: set_var_def var_or_def require_def decimal_env_def u32_env_def email_list_env_def)

lemma other_first_config:
  assumes "first_config cr vars = Inr c" "environment_of vars' = Development" "vars' = vars(''APP_ENV'' := w)"
    and "vars ''DEV_OTP_CODE'' = None" "vars ''DEV_AUTO_APPROVE_KYC'' = None"
  shows "first_config cr vars' = Inr (c\<lparr>cf_environment := Development, cf_dev_otp_code := Some default_dev_otp_code,
      cf_auto_approve_kyc := True\<rparr>)"
proof -
  have creds: "activate_credentials_of vars' = activate_credentials_of vars"
    by (simp add: activate_credentials_of_def activate_prefixes_def List.map_filter_simps assms(3) other_name_reads)
  have code: "dev_otp_code_of vars' Development = Some default_dev_otp_code" "auto_approve_kyc_of vars' Development"
    using assms(4,5) by (simp_all add: dev_otp_code_of_def auto_approve_kyc_of_def assms(3))
  have ok: "otp_code_ok (Some default_dev_otp_code) = Inr ()" by code_simp
  show ?thesis
    using assms(1) unfolding first_config_def assms(2) Let_def code(1) creds
    by (auto simp: res_bind_Inr_iff assms(3) other_name_reads ok code(2) [unfolded assms(3)] split: if_splits)
qed

lemma other_cors: "resolve_cors_origins Production url cors = Inr origins \<Longrightarrow> \<exists>origins'. resolve_cors_origins Development url' cors = Inr origins'"
  by (auto simp: resolve_cors_origins_def res_bind_Inr_iff parse_origin_list_def Let_def split: option.splits if_splits)

lemma other_proxy: "trusted_proxy_loopback vars e = Inr t \<Longrightarrow> w' = vars(''APP_ENV'' := w) \<Longrightarrow> \<exists>t'. trusted_proxy_loopback w' Development = Inr t'"
  by (auto simp: trusted_proxy_loopback_def Let_def split: option.splits if_splits)


section \<open>Who is counted\<close>

text \<open>
  Nobody outside chooses who they are counted as. Unless the proxy is trusted and the connection comes
  from the machine itself, the answer of the boundary and its limiters are the same whatever the request
  says in X-Real-IP.
\<close>

theorem address_not_forged:
  assumes "\<not> bc_trusted_proxy_loopback bc \<or> \<not> ip_loopback ic peer"
  shows "boundary gl ic au show_uuid bc now (q\<lparr>hr_real_ip := x\<rparr>) (Some peer) s =
    boundary gl ic au show_uuid bc now q (Some peer) s"
proof -
  have "rate_limit gl ic au show_uuid bc now (q\<lparr>hr_real_ip := x\<rparr>) (Some peer) s =
      rate_limit gl ic au show_uuid bc now q (Some peer) s"
    using assms by (auto simp: rate_limit_def client_ip_def)
  moreover have "query_length (q\<lparr>hr_real_ip := x\<rparr>) = query_length q" by (simp add: query_length_def)
  ultimately show ?thesis by (cases "query_length q") (simp_all add: boundary_def)
qed

section \<open>How many get through\<close>

text \<open>The limiters a request has to pass, each with the key it is counted by.\<close>

definition counted_by :: "'ip ip_crates \<Rightarrow> auth_crates \<Rightarrow> (uuid \<Rightarrow> string) \<Rightarrow> boundary_config \<Rightarrow> instant \<Rightarrow> http_request \<Rightarrow>
    'ip option \<Rightarrow> (bucket \<times> string) list" where
  "counted_by ic au show_uuid bc now q peer =
     (if hr_method q = OPTIONS \<or> hr_path q = ''/health'' then []
      else (let (ip_limiter, user_limiter) = bucket_of (hr_method q) (hr_path q) in
        (ip_limiter, ip_show ic (client_ip ic bc (case peer of Some ip \<Rightarrow> ip | None \<Rightarrow> ip_localhost ic) (hr_real_ip q))) #
        (case (user_limiter, peek_user_id au (bc_keys bc) now (hr_authorization q)) of
           (Some b, Some u) \<Rightarrow> [(b, show_uuid u)] | _ \<Rightarrow> [])))"

fun check_all :: "'l limiter_crate \<Rightarrow> instant \<Rightarrow> (bucket \<times> string) list \<Rightarrow> (bucket \<Rightarrow> 'l) \<Rightarrow> api_error option \<times> (bucket \<Rightarrow> 'l)" where
  "check_all gl now [] s = (None, s)"
| "check_all gl now ((b, key) # rest) s =
     (case limit_check gl now b key s of (Some e, s') \<Rightarrow> (Some e, s') | (None, s') \<Rightarrow> check_all gl now rest s')"

lemma boundary_checks:
  "boundary gl ic au sh bc now q peer s =
     (case query_length q of Some e \<Rightarrow> (Some e, s) | None \<Rightarrow> check_all gl now (counted_by ic au sh bc now q peer) s)"
  by (auto simp: boundary_def rate_limit_def counted_by_def enforce_def Let_def split: option.split prod.split)

lemma counted_once: "distinct (map fst (counted_by ic au sh bc now q peer))"
  by (auto simp: counted_by_def bucket_of_def Let_def split: option.split)

text \<open>The requests that reach their route, in a run from given limiters.\<close>

type_synonym 'ip arrival = "instant \<times> http_request \<times> 'ip option"

fun reached :: "'l limiter_crate \<Rightarrow> 'ip ip_crates \<Rightarrow> auth_crates \<Rightarrow> (uuid \<Rightarrow> string) \<Rightarrow> boundary_config \<Rightarrow> 'ip arrival list \<Rightarrow>
    (bucket \<Rightarrow> 'l) \<Rightarrow> 'ip arrival list" where
  "reached gl ic au show_uuid bc [] s = []"
| "reached gl ic au show_uuid bc ((now, q, peer) # rest) s =
     (case boundary gl ic au show_uuid bc now q peer s of
        (None, s') \<Rightarrow> (now, q, peer) # reached gl ic au show_uuid bc rest s'
      | (Some e, s') \<Rightarrow> reached gl ic au show_uuid bc rest s')"

text \<open>What a single limiter admits of a sequence of checks, and the promise of its quota.\<close>

fun admitted :: "'l limiter_crate \<Rightarrow> (instant \<times> string) list \<Rightarrow> 'l \<Rightarrow> (instant \<times> string) list" where
  "admitted gl [] l = []"
| "admitted gl ((now, key) # cs) l =
     (case gl_check gl now key l of
        (None, l') \<Rightarrow> (now, key) # admitted gl cs l'
      | (Some w, l') \<Rightarrow> admitted gl cs l')"

definition in_minute :: "instant \<Rightarrow> string \<Rightarrow> instant \<times> string \<Rightarrow> bool" where
  "in_minute t key c \<longleftrightarrow> t \<le> fst c \<and> fst c < t + minutes 1 \<and> snd c = key"

definition keeps_quota :: "'l limiter_crate \<Rightarrow> (nat \<Rightarrow> nat) \<Rightarrow> bool" where
  "keeps_quota gl cap \<longleftrightarrow> (\<forall>n cs t key. sorted (map fst cs) \<longrightarrow> length (filter (in_minute t key) (admitted gl cs (gl_new gl n))) \<le> cap n)"

text \<open>The checks a run makes of one limiter.\<close>

fun checks_made :: "'l limiter_crate \<Rightarrow> bucket \<Rightarrow> instant \<Rightarrow> (bucket \<times> string) list \<Rightarrow> (bucket \<Rightarrow> 'l) \<Rightarrow> (instant \<times> string) list" where
  "checks_made gl b now [] s = []"
| "checks_made gl b now ((b', key) # rest) s =
     (let more = (case limit_check gl now b' key s of (Some e, s') \<Rightarrow> [] | (None, s') \<Rightarrow> checks_made gl b now rest s')
      in if b' = b then (now, key) # more else more)"

fun run_checks :: "'l limiter_crate \<Rightarrow> 'ip ip_crates \<Rightarrow> auth_crates \<Rightarrow> (uuid \<Rightarrow> string) \<Rightarrow> boundary_config \<Rightarrow> bucket \<Rightarrow>
    'ip arrival list \<Rightarrow> (bucket \<Rightarrow> 'l) \<Rightarrow> (instant \<times> string) list" where
  "run_checks gl ic au sh bc b [] s = []"
| "run_checks gl ic au sh bc b ((now, q, peer) # rest) s =
     (if query_length q = None then checks_made gl b now (counted_by ic au sh bc now q peer) s else []) @
     run_checks gl ic au sh bc b rest (snd (boundary gl ic au sh bc now q peer s))"

fun check_state :: "'l limiter_crate \<Rightarrow> (instant \<times> string) list \<Rightarrow> 'l \<Rightarrow> 'l" where
  "check_state gl [] l = l"
| "check_state gl ((now, key) # cs) l = check_state gl cs (snd (gl_check gl now key l))"

lemma check_state_append: "check_state gl (cs @ ds) l = check_state gl ds (check_state gl cs l)"
  by (induction cs arbitrary: l) auto

lemma admitted_append: "admitted gl (cs @ ds) l = admitted gl cs l @ admitted gl ds (check_state gl cs l)"
proof (induction cs arbitrary: l)
  case (Cons c cs)
  obtain now key where c: "c = (now, key)" by fastforce
  obtain w l' where g: "gl_check gl now key l = (w, l')" by fastforce
  show ?case by (cases w) (simp_all add: c g Cons.IH)
qed simp

lemma limit_check_cases:
  obtains w l' where "gl_check gl now key (s b) = (w, l')"
    "limit_check gl now b key s = (map_option (\<lambda>w. RateLimited (retry_seconds w)) w, s(b := l'))"
  by (cases "gl_check gl now key (s b)"; cases "fst (gl_check gl now key (s b))") (auto simp: limit_check_def)

lemma check_all_state:
  "snd (check_all gl now xs s) b = check_state gl (checks_made gl b now xs s) (s b)"
proof (induction xs arbitrary: s)
  case (Cons x xs)
  obtain b' key where x: "x = (b', key)" by fastforce
  obtain w l' where g: "gl_check gl now key (s b') = (w, l')"
    "limit_check gl now b' key s = (map_option (\<lambda>w. RateLimited (retry_seconds w)) w, s(b' := l'))"
    by (rule limit_check_cases)
  define s1 where "s1 = s(b' := l')"
  note g2 = g(2) [folded s1_def]
  show ?case
  proof (cases "b' = b")
    case True
    then have "s1 b = l'" by (simp add: s1_def)
    then show ?thesis using Cons.IH [of s1] g(1) g2 True by (cases w) (simp_all add: x Let_def)
  next
    case False
    then have "s1 b = s b" by (simp add: s1_def)
    then show ?thesis using Cons.IH [of s1] g2 False by (cases w) (simp_all add: x Let_def)
  qed
qed simp

text \<open>A request that gets through was admitted by every limiter it is counted by.\<close>

lemma check_all_admits:
  assumes "fst (check_all gl now xs s) = None" "(b, key) \<in> set xs" "distinct (map fst xs)"
  shows "(now, key) \<in> set (admitted gl (checks_made gl b now xs s) (s b))"
  using assms
proof (induction xs arbitrary: s)
  case (Cons x xs)
  obtain b' k where x: "x = (b', k)" by fastforce
  obtain w l' where g: "gl_check gl now k (s b') = (w, l')"
    "limit_check gl now b' k s = (map_option (\<lambda>w. RateLimited (retry_seconds w)) w, s(b' := l'))"
    by (rule limit_check_cases)
  define s1 where "s1 = s(b' := l')"
  note g2 = g(2) [folded s1_def]
  have w: "w = None" using Cons.prems(1) by (cases w) (simp_all add: x g(1) g2)
  then have all: "fst (check_all gl now xs s1) = None" using Cons.prems(1) by (simp add: x g2)
  show ?case
  proof (cases "b' = b")
    case True
    then have "k = key" using Cons.prems(2,3) by (auto simp: x image_iff)
    then show ?thesis using True g(1) g2 w by (simp add: x Let_def)
  next
    case False
    then have "s1 b = s b" by (simp add: s1_def)
    moreover have "(b, key) \<in> set xs" "distinct (map fst xs)" using Cons.prems(2,3) False by (auto simp: x)
    ultimately show ?thesis using Cons.IH [OF all] False w by (simp add: x g2 Let_def)
  qed
qed simp

lemma checks_made_times: "c \<in> set (checks_made gl b now xs s) \<Longrightarrow> fst c = now"
  by (induction xs arbitrary: s) (auto simp: Let_def split: if_splits option.splits prod.splits)

lemma run_checks_sorted:
  assumes "sorted (map fst rs)" "\<forall>r \<in> set rs. t \<le> fst r"
  shows "sorted (map fst (run_checks gl ic au sh bc b rs s)) \<and> (\<forall>c \<in> set (run_checks gl ic au sh bc b rs s). t \<le> fst c)"
  using assms
proof (induction rs arbitrary: s t)
  case (Cons r rs)
  obtain now q peer where r: "r = (now, q, peer)" by (metis prod.exhaust)
  define s' where "s' = snd (boundary gl ic au sh bc now q peer s)"
  define cs where "cs = (if query_length q = None then checks_made gl b now (counted_by ic au sh bc now q peer) s else [])"
  have cs: "\<forall>c \<in> set cs. fst c = now" using checks_made_times by (auto simp: cs_def)
  then have "sorted (map fst cs)" by (induction cs) auto
  moreover have "sorted (map fst (run_checks gl ic au sh bc b rs s')) \<and> (\<forall>c \<in> set (run_checks gl ic au sh bc b rs s'). now \<le> fst c)"
    by (rule Cons.IH) (use Cons.prems in \<open>auto simp: r\<close>)
  ultimately show ?case
    using cs Cons.prems by (fastforce simp: r sorted_append simp flip: s'_def cs_def)
qed simp

lemma reached_admitted:
  "length (filter (\<lambda>(now, q, peer). (b, key) \<in> set (counted_by ic au sh bc now q peer) \<and> t \<le> now \<and> now < t + minutes 1)
      (reached gl ic au sh bc rs s)) \<le>
   length (filter (in_minute t key) (admitted gl (run_checks gl ic au sh bc b rs s) (s b)))"
proof (induction rs arbitrary: s)
  case (Cons r rs)
  obtain now q peer where r: "r = (now, q, peer)" by (metis prod.exhaust)
  let ?xs = "counted_by ic au sh bc now q peer"
  let ?P = "\<lambda>(now, q, peer). (b, key) \<in> set (counted_by ic au sh bc now q peer) \<and> t \<le> now \<and> now < t + minutes 1"
  define s' where "s' = snd (boundary gl ic au sh bc now q peer s)"
  define cs where "cs = (if query_length q = None then checks_made gl b now ?xs s else [])"
  have st: "s' b = check_state gl cs (s b)"
    by (cases "query_length q") (simp_all add: s'_def cs_def boundary_checks check_all_state)
  have rest: "length (filter ?P (reached gl ic au sh bc rs s')) \<le>
      length (filter (in_minute t key) (admitted gl (run_checks gl ic au sh bc b rs s') (check_state gl cs (s b))))"
    using Cons.IH [of s'] by (simp add: st)
  have step: "length (filter (in_minute t key) (admitted gl (run_checks gl ic au sh bc b (r # rs) s) (s b))) =
      length (filter (in_minute t key) (admitted gl cs (s b))) +
      length (filter (in_minute t key) (admitted gl (run_checks gl ic au sh bc b rs s') (check_state gl cs (s b))))"
    by (simp add: r admitted_append flip: s'_def cs_def)
  show ?case
  proof (cases "fst (boundary gl ic au sh bc now q peer s)")
    case (Some e)
    then have "reached gl ic au sh bc (r # rs) s = reached gl ic au sh bc rs s'"
      by (cases "boundary gl ic au sh bc now q peer s") (simp add: r s'_def)
    then show ?thesis using rest step by simp
  next
    case None
    then have re: "reached gl ic au sh bc (r # rs) s = r # reached gl ic au sh bc rs s'"
      by (cases "boundary gl ic au sh bc now q peer s") (simp add: r s'_def)
    show ?thesis
    proof (cases "?P r")
      case False
      then show ?thesis using rest step re by simp
    next
      case True
      from None have "query_length q = None" "fst (check_all gl now ?xs s) = None"
        by (cases "query_length q"; simp add: boundary_checks)+
      then have "(now, key) \<in> set (admitted gl cs (s b))"
        using check_all_admits [OF _ _ counted_once, of gl now ic au sh bc now q peer s b key] True by (simp add: r cs_def)
      then have "(now, key) \<in> set (filter (in_minute t key) (admitted gl cs (s b)))" using True by (simp add: r in_minute_def)
      then have "0 < length (filter (in_minute t key) (admitted gl cs (s b)))" by (rule length_pos_if_in_set)
      then have "1 + length (filter ?P (reached gl ic au sh bc rs s')) \<le>
          length (filter (in_minute t key) (admitted gl (run_checks gl ic au sh bc b (r # rs) s) (s b)))"
        using rest unfolding step by linarith
      then show ?thesis using re True by simp
    qed
  qed
qed simp

text \<open>
  C33. Floods are bounded. If a limiter of quota n admits at most cap n checks of a key a minute, then
  whatever requests arrive, on whatever paths and from however many addresses and tokens, at most cap of
  the quota of them reach a route in any minute that are counted by one limiter under one key: one address
  in one group of routes, or one user where users are counted.
\<close>

theorem floods_are_bounded:
  assumes "keeps_quota gl cap" "sorted (map fst rs)"
  shows "length (filter (\<lambda>(now, q, peer). (b, key) \<in> set (counted_by ic au show_uuid bc now q peer) \<and> t \<le> now \<and> now < t + minutes 1)
      (reached gl ic au show_uuid bc rs (limiters_new gl quotas))) \<le> cap (max (quota_of quotas b) 1)"
proof -
  have s: "sorted (map fst (run_checks gl ic au show_uuid bc b rs (limiters_new gl quotas)))"
  proof (cases rs)
    case (Cons r rs')
    then have "\<forall>x \<in> set rs. fst r \<le> fst x" using assms(2) by auto
    then show ?thesis using run_checks_sorted [OF assms(2)] by blast
  qed simp
  have "limiters_new gl quotas b = gl_new gl (max (quota_of quotas b) 1)" by (simp add: limiters_new_def keyed_def)
  then have "length (filter (in_minute t key) (admitted gl (run_checks gl ic au show_uuid bc b rs (limiters_new gl quotas))
      (limiters_new gl quotas b))) \<le> cap (max (quota_of quotas b) 1)"
    using assms(1) s by (simp add: keeps_quota_def)
  then show ?thesis by (rule le_trans [OF reached_admitted])
qed

section \<open>How long to wait\<close>

text \<open>
  A refused request is told to wait long enough and less than a second too long: the seconds of the
  answer cover the wait, are at least one, and one second less would be too few unless it is the least.
\<close>

theorem retry_covers_wait:
  assumes "wait < (2 ^ 63 - 1) * 10 ^ 9"
  shows "int wait \<le> retry_seconds wait * 10 ^ 9 \<and> 1 \<le> retry_seconds wait \<and>
    (retry_seconds wait = 1 \<or> (retry_seconds wait - 1) * 10 ^ 9 < int wait)"
proof -
  define n where "n = max (wait div 10 ^ 9 + (if wait mod 10 ^ 9 > 0 then 1 else 0)) 1"
  define k m where "k = wait div 10 ^ 9" and "m = wait mod 10 ^ 9"
  have d: "int wait = 10 ^ 9 * int k + int m" "int m < 10 ^ 9"
  proof -
    have "wait = 10 ^ 9 * k + m" "m < 10 ^ 9" by (simp_all add: k_def m_def)
    then show "int wait = 10 ^ 9 * int k + int m" "int m < 10 ^ 9" by simp_all
  qed
  have "k < 2 ^ 63 - 1" using assms by (simp add: k_def div_less_iff_less_mult)
  then have "int n < 2 ^ 63" by (simp add: n_def k_def)
  then have "sint (word_of_nat n :: 64 word) = int n"
    using signed_take_bit_int_eq_self [of 63 "int n"] by (simp add: sint_sbintrunc' signed_of_nat)
  then have r: "retry_seconds wait = int n" by (simp add: retry_seconds_def n_def)
  have n: "n = max (k + (if m > 0 then 1 else 0)) 1" by (simp add: n_def k_def m_def)
  show ?thesis
  proof (cases "m = 0")
    case True
    then show ?thesis using d unfolding r n by auto
  next
    case False
    then have "int n = int k + 1" "0 < int m" by (simp_all add: n)
    then show ?thesis using d unfolding r by simp
  qed
qed

end
