(* ===== verification/Kyc_Properties.thy ===== *)
theory Kyc_Properties
  imports Kyc Boot_Properties
begin

text \<open>What the verification guarantees, over runs of submissions.\<close>

type_synonym submission = "env \<times> uuid \<times> submit_kyc_body"

definition submit_all :: "auth_crates \<Rightarrow> crates \<Rightarrow> bool \<Rightarrow> submission list \<Rightarrow> kyc_db \<Rightarrow> kyc_db" where
  "submit_all au cr auto = fold (\<lambda>(env, user, body) db. snd (submit_kyc au cr auto env user body db))"

text \<open>A tier is earned by an approved submission for it, and a user has one undecided submission at most.\<close>

definition tiers_earned :: "kyc_db \<Rightarrow> bool" where
  "tiers_earned db \<longleftrightarrow> list_all (\<lambda>u. us_tier u \<le> 0 \<or>
     list_ex (\<lambda>r. kv_user r = us_id u \<and> us_tier u \<le> kv_target r \<and> kv_status r = KycApproved) (kd_rows db)) (kd_users db)"

definition one_undecided :: "kyc_db \<Rightarrow> bool" where
  "one_undecided db \<longleftrightarrow> (\<forall>user. length (filter (\<lambda>r. kv_user r = user \<and> undecided r) (kd_rows db)) \<le> 1)"

text \<open>A submission that was taken, by what it wrote.\<close>

definition profiled :: "bool \<Rightarrow> uuid \<Rightarrow> int \<Rightarrow> string \<Rightarrow> int \<Rightarrow> user_row \<Rightarrow> user_row" where
  "profiled auto user tier full_name born u =
     (if us_id u = user
      then u\<lparr>us_display_name := coalesce (us_display_name u) (Some full_name),
         us_date_of_birth := coalesce (us_date_of_birth u) (Some born), us_tier := (if auto then tier else us_tier u)\<rparr>
      else u)"

lemma profiled_simps [simp]:
  "us_id (profiled auto user tier n b u) = us_id u"
  "us_tier (profiled auto user tier n b u) = (if us_id u = user \<and> auto then tier else us_tier u)"
  by (simp_all add: profiled_def)

lemma file_kyc_Inr:
  assumes "file_kyc auto env user u requirement (last4, full_name, born) db = Inr (tier, db')"
  obtains r where "kv_user r = user" "kv_status r = (if auto then KycApproved else KycPending)" "kv_born r = Some born"
    "kv_target r = us_tier u + 1" "kd_rows db' = kd_rows db @ [r]"
    "kd_users db' = map (profiled auto user (us_tier u + 1) full_name born) (kd_users db)"
    "tier = (if auto then us_tier u + 1 else us_tier u)"
proof -
  define r where "r = \<lparr>kv_user = user, kv_target = us_tier u + 1, kv_provider = (if auto then ''dev'' else ''manual''),
         kv_status = (if auto then KycApproved else KycPending),
         kv_bvn_last4 = (if requirement = ''bvn'' then Some last4 else None),
         kv_nin_last4 = (if requirement = ''nin'' then Some last4 else None),
         kv_full_name = Some full_name, kv_born = Some born, kv_rejection = None,
         kv_reviewed_at = (if auto then Some (app_now env) else None), kv_created_at = sql_now env\<rparr>"
  define db2 where "db2 = db\<lparr>kd_rows := kd_rows db @ [r], kd_users := update_where (\<lambda>u. us_id u = user)
             (\<lambda>u. u\<lparr>us_display_name := coalesce (us_display_name u) (Some full_name),
                us_date_of_birth := coalesce (us_date_of_birth u) (Some born)\<rparr>) (kd_users db)\<rparr>"
  have r: "kv_user r = user" "kv_status r = (if auto then KycApproved else KycPending)" "kv_born r = Some born"
    "kv_target r = us_tier u + 1" by (simp_all add: r_def)
  from assms have f: "(if auto then res_bind (map_err via_anyhow (raise_tier user (us_tier u + 1) db2)) (\<lambda>db3. Inr (us_tier u + 1, db3))
      else Inr (us_tier u, db2)) = Inr (tier, db')"
    unfolding file_kyc_def Let_def prod.case r_def [symmetric]
    by (auto simp: insert_kyc_def db2_def split: if_splits)
  show thesis
  proof (cases auto)
    case True
    have "list_ex (\<lambda>r. kv_user r = user \<and> us_tier u + 1 \<le> kv_target r \<and> kv_status r = KycApproved) (kd_rows db2)"
      using r True by (simp add: db2_def)
    then have raise: "raise_tier user (us_tier u + 1) db2 =
        Inr (db2\<lparr>kd_users := update_where (\<lambda>u. us_id u = user) (\<lambda>x. x\<lparr>us_tier := us_tier u + 1\<rparr>) (kd_users db2)\<rparr>)"
      unfolding raise_tier_def by (simp only: not_True_eq_False simp_thms if_False)
    define db3 where "db3 = db2\<lparr>kd_users := update_where (\<lambda>u. us_id u = user) (\<lambda>x. x\<lparr>us_tier := us_tier u + 1\<rparr>) (kd_users db2)\<rparr>"
    from f True have "db' = db3" and t: "tier = us_tier u + 1"
      unfolding raise [folded db3_def] by simp_all
    then have d: "db' = db2\<lparr>kd_users := update_where (\<lambda>u. us_id u = user) (\<lambda>x. x\<lparr>us_tier := us_tier u + 1\<rparr>) (kd_users db2)\<rparr>"
      by (simp only: db3_def)
    have "kd_users db' = map (profiled auto user (us_tier u + 1) full_name born) (kd_users db)"
      by (simp add: d db2_def update_where_def profiled_def True)
    then show thesis using that [OF r] t True by (simp add: d db2_def)
  next
    case False
    then have d: "db' = db2" "tier = us_tier u" using f by simp_all
    have "kd_users db' = map (profiled auto user (us_tier u + 1) full_name born) (kd_users db)"
      by (simp add: d db2_def update_where_def profiled_def False)
    then show thesis using that [OF r] d(2) False by (simp add: d(1) db2_def)
  qed
qed

lemma submit_cases:
  obtains (refused) e where "submit_kyc au cr auto env user body db = (Inl e, db)"
  | (filed) resp db' r u requirement last4 full_name born where "submit_kyc au cr auto env user body db = (Inr resp, db')"
    "user_of user db = Inr u" "next_requirement (stored_tier (us_tier u)) = Some requirement"
    "\<not> list_ex (\<lambda>r. kv_user r = user \<and> undecided r) (kd_rows db)"
    "kyc_checked au cr (today_of (app_now env)) u requirement body = Inr (last4, full_name, born)"
    "kv_user r = user" "kv_status r = (if auto then KycApproved else KycPending)" "kv_born r = Some born"
    "kv_target r = us_tier u + 1" "kd_rows db' = kd_rows db @ [r]"
    "kd_users db' = map (profiled auto user (us_tier u + 1) full_name born) (kd_users db)"
proof -
  let ?all = "res_bind (user_of user db) (\<lambda>u.
           res_bind (ok_or (BadRequest ''You're already fully verified.'') (next_requirement (stored_tier (us_tier u)))) (\<lambda>requirement.
           if list_ex (\<lambda>r. kv_user r = user \<and> undecided r) (kd_rows db)
           then Inl (BadRequest ''We're already checking your details.'')
           else res_bind (kyc_checked au cr (today_of (app_now env)) u requirement body) (\<lambda>filed.
           file_kyc auto env user u requirement filed db)))"
  show thesis
  proof (cases ?all)
    case (Inl e)
    then have "submit_kyc au cr auto env user body db = (Inl e, db)" by (simp add: submit_kyc_def)
    then show thesis by (rule refused)
  next
    case (Inr x)
    obtain tier db' where x: "x = (tier, db')" by fastforce
    have s: "submit_kyc au cr auto env user body db = (Inr \<lparr>kr_status = kyc_state_as_str (if auto then KycApproved else KycPending),
        kr_tier = tier, kr_message = (if auto then ''You're verified.''
               else ''We're checking your details. This usually takes a few minutes.'')\<rparr>, db')"
      using Inr x by (simp add: submit_kyc_def)
    from Inr x obtain u requirement last4 full_name born where f: "user_of user db = Inr u"
      "next_requirement (stored_tier (us_tier u)) = Some requirement" "\<not> list_ex (\<lambda>r. kv_user r = user \<and> undecided r) (kd_rows db)"
      "kyc_checked au cr (today_of (app_now env)) u requirement body = Inr (last4, full_name, born)"
      and k: "file_kyc auto env user u requirement (last4, full_name, born) db = Inr (tier, db')"
      by (auto simp: res_bind_Inr_iff ok_or_def split: option.splits if_splits)
    show thesis
      by (rule file_kyc_Inr [OF k]) (rule filed [OF s f])
  qed
qed

lemma submit_keeps_earned:
  assumes "tiers_earned db"
  shows "tiers_earned (snd (submit_kyc au cr auto env user body db))"
proof (cases rule: submit_cases [of au cr auto env user body db])
  case (refused e)
  then show ?thesis using assms by simp
next
  case (filed resp db' r u requirement last4 full_name born)
  have "us_tier x \<le> 0 \<or> (\<exists>v \<in> set (kd_rows db'). kv_user v = us_id x \<and> us_tier x \<le> kv_target v \<and> kv_status v = KycApproved)"
    if x: "x \<in> set (kd_users db')" for x
  proof -
    obtain y where y: "y \<in> set (kd_users db)" "x = profiled auto user (us_tier u + 1) full_name born y"
      using x filed(11) by auto
    show ?thesis
    proof (cases "us_id y = user \<and> auto")
      case True
      then have "us_id x = user" "us_tier x = us_tier u + 1" using y(2) by simp_all
      then show ?thesis using True filed by force
    next
      case False
      then have "us_tier x = us_tier y" "us_id x = us_id y" using y(2) by auto
      moreover have "us_tier y \<le> 0 \<or> (\<exists>v \<in> set (kd_rows db). kv_user v = us_id y \<and> us_tier y \<le> kv_target v \<and> kv_status v = KycApproved)"
        using assms y(1) by (auto simp: tiers_earned_def list_all_iff list_ex_iff)
      ultimately show ?thesis using filed by auto
    qed
  qed
  then show ?thesis using filed(1) by (simp add: tiers_earned_def list_all_iff list_ex_iff)
qed

lemma submit_keeps_one:
  assumes "one_undecided db"
  shows "one_undecided (snd (submit_kyc au cr auto env user body db))"
proof (cases rule: submit_cases [of au cr auto env user body db])
  case (refused e)
  then show ?thesis using assms by simp
next
  case (filed resp db' r u requirement last4 full_name born)
  have "length (filter (\<lambda>x. kv_user x = v \<and> undecided x) (kd_rows db')) \<le> 1" for v
  proof (cases "v = user")
    case True
    then have "filter (\<lambda>x. kv_user x = v \<and> undecided x) (kd_rows db) = []"
      using filed(4) by (auto simp: filter_empty_conv list_ex_iff)
    then show ?thesis using filed by simp
  next
    case False
    then show ?thesis using assms filed by (simp add: one_undecided_def)
  qed
  then show ?thesis using filed(1) by (simp add: one_undecided_def)
qed

text \<open>
  C34. A tier is earned, and in production by nobody's own request. In any run of submissions, whoever
  stands above tier zero has an approved submission for that tier and no user has two undecided ones; and
  with the settings a production process starts with, no run of submissions changes anyone's tier or
  approves anything.
\<close>

theorem tiers_are_earned:
  assumes "tiers_earned db" "one_undecided db"
  shows "tiers_earned (submit_all au cr auto subs db) \<and> one_undecided (submit_all au cr auto subs db) \<and>
    (boot cr' hc vars = Inr s \<and> environment_of vars = Production \<and> auto = cf_auto_approve_kyc (ap_config s) \<longrightarrow>
      map (\<lambda>u. (us_id u, us_tier u)) (kd_users (submit_all au cr auto subs db)) = map (\<lambda>u. (us_id u, us_tier u)) (kd_users db) \<and>
      filter (\<lambda>r. kv_status r = KycApproved) (kd_rows (submit_all au cr auto subs db)) =
      filter (\<lambda>r. kv_status r = KycApproved) (kd_rows db))"
proof -
  have inv: "tiers_earned (submit_all au cr auto subs db) \<and> one_undecided (submit_all au cr auto subs db)"
    using assms unfolding submit_all_def
    by (induction subs arbitrary: db) (auto simp: submit_keeps_earned submit_keeps_one)
  have quiet: "map (\<lambda>u. (us_id u, us_tier u)) (kd_users (submit_all au cr False subs db)) = map (\<lambda>u. (us_id u, us_tier u)) (kd_users db) \<and>
      filter (\<lambda>r. kv_status r = KycApproved) (kd_rows (submit_all au cr False subs db)) =
      filter (\<lambda>r. kv_status r = KycApproved) (kd_rows db)"
    unfolding submit_all_def
  proof (induction subs arbitrary: db)
    case (Cons x subs)
    obtain env user body where x: "x = (env, user, body)" by (metis prod.exhaust)
    have "map (\<lambda>u. (us_id u, us_tier u)) (kd_users (snd (submit_kyc au cr False env user body db))) = map (\<lambda>u. (us_id u, us_tier u)) (kd_users db) \<and>
      filter (\<lambda>r. kv_status r = KycApproved) (kd_rows (snd (submit_kyc au cr False env user body db))) =
      filter (\<lambda>r. kv_status r = KycApproved) (kd_rows db)"
      by (rule submit_cases [of au cr False env user body db]) (simp_all add: comp_def)
    then show ?case using Cons.IH [of "snd (submit_kyc au cr False env user body db)"] by (simp add: x)
  qed simp
  have "\<not> cf_auto_approve_kyc (ap_config s)" if "boot cr' hc vars = Inr s" "environment_of vars = Production"
    using production_settings [OF that] by blast
  then show ?thesis using inv quiet by auto
qed

lemma age_floor: "age_in_years today born < 18 \<longleftrightarrow> today - born < 18 * 365"
  by (auto simp: age_in_years_def)

text \<open>
  Nobody is filed before 18 times 365 days of age, which is four or five days before they are 18. A
  submission that is taken was checked to be that old, and the day a person is that old to the day the
  age is no longer an objection.
\<close>

theorem adults_by_short_years:
  assumes "submit_kyc au cr auto env user body db = (Inr resp, db')"
  shows "\<exists>r born. kd_rows db' = kd_rows db @ [r] \<and> kv_user r = user \<and> kv_born r = Some born \<and>
    18 * 365 \<le> today_of (app_now env) - born \<and> age_in_years (today_of (app_now env)) (today_of (app_now env) - 18 * 365) = 18"
proof (cases rule: submit_cases [of au cr auto env user body db])
  case (refused e)
  then show ?thesis using assms by simp
next
  case (filed resp' db1 r u requirement last4 full_name born)
  have "\<not> age_in_years (today_of (app_now env)) born < 18"
    using filed(5) by (auto simp: kyc_checked_def Let_def res_bind_Inr_iff split: if_splits)
  then have "18 * 365 \<le> today_of (app_now env) - born" by (simp add: age_floor)
  moreover have "age_in_years (today_of (app_now env)) (today_of (app_now env) - 18 * 365) = 18" by (simp add: age_in_years_def)
  ultimately show ?thesis using filed assms by auto
qed

text \<open>
  An approval does not clear a rejection. What the status shows as awaiting a decision is the same
  with and without the approved submissions: whoever was rejected once and approved later is still shown
  the rejection.
\<close>

theorem approval_keeps_rejection:
  "kyc_status cr user (db\<lparr>kd_rows := filter (\<lambda>r. kv_status r \<noteq> KycApproved) (kd_rows db)\<rparr>) = kyc_status cr user db"
proof -
  have "latest_open user (filter (\<lambda>r. kv_status r \<noteq> KycApproved) rows) = latest_open user rows" for rows
    unfolding latest_open_def by (rule arg_cong [where f = "\<lambda>xs. case sort_key _ xs of [] \<Rightarrow> None | r # _ \<Rightarrow> Some r"])
      (auto simp: undecided_def intro!: filter_cong)
  then show ?thesis by (simp add: kyc_status_def user_of_def)
qed

end
