(* ===== verification/Boot_Witnesses.thy ===== *)
theory Boot_Witnesses
  imports Kyc_Properties Order_Witnesses Auth_Witnesses
begin

text \<open>A process started in production, a limiter that counts, and a submission that is taken.\<close>

section \<open>Starting\<close>

definition demo_http :: "nat http_crates" where
  "demo_http = \<lparr>hc_fivesim = (\<lambda>k cur. \<lparr>fc_currency = cur, fc_buy = (\<lambda>_ _ _. RequestFailed), fc_recent = (\<lambda>_. RequestFailed),
       fc_check = (\<lambda>_. RequestFailed), fc_cancel = (\<lambda>_. RequestFailed)\<rparr>),
     hc_stub = (\<lambda>_ _. ''0123456789abcdef''),
     hc_smspool = (\<lambda>k cur url. \<lparr>sc_currency = ''USD'', sc_buy = (\<lambda>_ _. RequestFailed), sc_check = (\<lambda>_. RequestFailed),
       sc_cancel = (\<lambda>_. RequestFailed)\<rparr>),
     hc_activate = (\<lambda>fl k cur url. \<lparr>ac_flavor = fl, ac_currency = ''USD'', ac_buy = (\<lambda>_ _. RequestFailed),
       ac_check = (\<lambda>_. RequestFailed), ac_cancel = (\<lambda>_. RequestFailed)\<rparr>),
     hc_initialize = (\<lambda>k _ _ _ _. Unreachable), hc_verify = (\<lambda>k _. Unreachable), hc_resolve = (\<lambda>k _ _. Unreachable),
     hc_seed = (\<lambda>_. None)\<rparr>"

definition demo_vars :: vars where
  "demo_vars = map_of [(''APP_ENV'', ''production''), (''JWT_SECRET'', ''0123456789abcdef0123456789abcdef''),
     (''DATABASE_URL'', ''postgres:''), (''SIGNER_URL'', ''http://signer''), (''TERMII_API_KEY'', ''t''),
     (''RESEND_API_KEY'', ''r''), (''OPERATIONS_ALERT_EMAIL'', ''ops@naivolt.com''), (''PAYSTACK_SECRET_KEY'', ''p''),
     (''FIVESIM_API_KEY'', ''f''), (''OPERATOR_TOTP_KEY'', ''fedcba9876543210fedcba9876543210''),
     (''WEB_APP_URL'', ''https://www.naivolt.com'')]"

lemma demo_boots:
  obtains s where "boot demo_crates demo_http demo_vars = Inr s"
proof -
  have "case boot demo_crates demo_http demo_vars of Inr _ \<Rightarrow> True | Inl _ \<Rightarrow> False" by code_simp
  then show thesis using that by (auto split: sum.splits)
qed

lemma demo_production: "environment_of demo_vars = Production"
  by code_simp



section \<open>Requests\<close>

definition demo_ips :: "string ip_crates" where
  "demo_ips = \<lparr>ip_parse = Some, ip_show = id, ip_loopback = (\<lambda>ip. ip = ''127.0.0.1''), ip_localhost = ''127.0.0.1''\<rparr>"

text \<open>A limiter that admits its quota of every key and no more.\<close>

definition counting :: "(nat \<times> (string \<Rightarrow> nat)) limiter_crate" where
  "counting = \<lparr>gl_new = (\<lambda>n. (n, \<lambda>_. 0)),
     gl_check = (\<lambda>now key (n, used). if used key < n then (None, (n, used(key := used key + 1))) else (Some 1500000000, (n, used)))\<rparr>"

lemma counting_check:
  "gl_check counting now key (n, used) = (if used key < n then (None, (n, used(key := used key + 1))) else (Some 1500000000, (n, used)))"
  by (simp add: counting_def)

lemma counting_admits: "length (filter (in_minute t key) (admitted counting cs (n, used))) \<le> n - used key"
proof (induction cs arbitrary: used)
  case (Cons c cs)
  obtain now k where c: "c = (now, k)" by fastforce
  show ?case
  proof (cases "used k < n")
    case True
    define used' where "used' = used(k := used k + 1)"
    have a: "admitted counting (c # cs) (n, used) = c # admitted counting cs (n, used')"
      using True by (simp add: c counting_check used'_def)
    have u: "used' key = (if k = key then used key + 1 else used key)" by (simp add: used'_def)
    show ?thesis
    proof (cases "k = key")
      case True
      then show ?thesis using Cons.IH [of used'] u \<open>used k < n\<close> by (auto simp: a)
    next
      case False
      then have "\<not> in_minute t key c" by (simp add: in_minute_def c)
      then show ?thesis using Cons.IH [of used'] u False by (simp add: a)
    qed
  next
    case False
    then show ?thesis using Cons.IH [of used] by (simp add: c counting_check)
  qed
qed simp

lemma counting_keeps: "keeps_quota counting (\<lambda>n. n)"
  using counting_admits [where used = "\<lambda>_. 0"] by (simp add: keeps_quota_def counting_def)

definition demo_boundary :: boundary_config where
  "demo_boundary = \<lparr>bc_origins = [production_web_origin], bc_trusted_proxy_loopback = True, bc_keys = ''key''\<rparr>"

definition demo_request :: http_request where
  "demo_request = \<lparr>hr_method = POST, hr_path = ''/api/v1/auth/request-otp'', hr_query = None, hr_real_ip = Some ''9.9.9.9'',
     hr_authorization = None\<rparr>"

definition demo_quotas :: rate_limit_quotas where
  "demo_quotas = default_quotas\<lparr>rq_auth_ip := 2\<rparr>"

definition demo_arrivals :: "string arrival list" where
  "demo_arrivals = map (\<lambda>t. (t, demo_request, Some ''127.0.0.1'')) [0, 1, 2, 3]"

theorem address_not_forged_witness:
  "boundary counting demo_ips demo_jwt demo_uuid demo_boundary 0 (demo_request\<lparr>hr_real_ip := Some ''1.1.1.1''\<rparr>) (Some ''8.8.8.8'')
     (limiters_new counting demo_quotas) =
   boundary counting demo_ips demo_jwt demo_uuid demo_boundary 0 demo_request (Some ''8.8.8.8'') (limiters_new counting demo_quotas)"
proof -
  have "\<not> bc_trusted_proxy_loopback demo_boundary \<or> \<not> ip_loopback demo_ips ''8.8.8.8''" by code_simp
  then show ?thesis by (rule address_not_forged)
qed

lemma demo_counted:
  "counted_by demo_ips demo_jwt demo_uuid demo_boundary now demo_request (Some ''127.0.0.1'') = [(AuthIp, ''9.9.9.9'')]"
proof -
  have "bucket_of POST ''/api/v1/auth/request-otp'' = (AuthIp, None)" "trim ''9.9.9.9'' = ''9.9.9.9''" by code_simp+
  then show ?thesis
    by (simp add: counted_by_def demo_request_def demo_ips_def demo_boundary_def client_ip_def)
qed

lemma demo_boundary_step:
  assumes "s AuthIp = (2, used)"
  shows "boundary counting demo_ips demo_jwt demo_uuid demo_boundary now demo_request (Some ''127.0.0.1'') s =
    (if used ''9.9.9.9'' < 2 then (None, s(AuthIp := (2, used(''9.9.9.9'' := used ''9.9.9.9'' + 1))))
     else (Some (RateLimited (retry_seconds 1500000000)), s(AuthIp := (2, used))))"
proof -
  have "query_length demo_request = None" by (simp add: query_length_def demo_request_def)
  then show ?thesis using assms by (simp add: boundary_checks demo_counted limit_check_def counting_check)
qed

lemma demo_reached:
  "map fst (reached counting demo_ips demo_jwt demo_uuid demo_boundary demo_arrivals (limiters_new counting demo_quotas)) = [0, 1]"
proof -
  have "limiters_new counting demo_quotas AuthIp = (2, \<lambda>_. 0)"
    by (simp add: limiters_new_def keyed_def counting_def quota_of_def demo_quotas_def default_quotas_def)
  then show ?thesis by (simp add: demo_arrivals_def demo_boundary_step)
qed

theorem floods_are_bounded_witness:
  "length (filter (\<lambda>(now, q, peer). (AuthIp, ''9.9.9.9'') \<in> set (counted_by demo_ips demo_jwt demo_uuid demo_boundary now q peer) \<and>
      0 \<le> now \<and> now < 0 + minutes 1)
     (reached counting demo_ips demo_jwt demo_uuid demo_boundary demo_arrivals (limiters_new counting demo_quotas))) \<le> 2 \<and>
   length (reached counting demo_ips demo_jwt demo_uuid demo_boundary demo_arrivals (limiters_new counting demo_quotas)) = 2"
proof -
  have s: "sorted (map fst demo_arrivals)" by code_simp
  have "max (quota_of demo_quotas AuthIp) 1 = 2" by code_simp
  moreover have "length (reached counting demo_ips demo_jwt demo_uuid demo_boundary demo_arrivals (limiters_new counting demo_quotas)) = 2"
    using arg_cong [OF demo_reached, of length] by simp
  ultimately show ?thesis
    using floods_are_bounded [OF counting_keeps s, of AuthIp "''9.9.9.9''" demo_ips demo_jwt demo_uuid demo_boundary 0 demo_quotas]
    by simp
qed

theorem retry_covers_wait_witness:
  "int 1500000000 \<le> retry_seconds 1500000000 * 10 ^ 9 \<and> 1 \<le> retry_seconds 1500000000"
  using retry_covers_wait [of 1500000000] by simp

section \<open>Verification\<close>

definition demo_dated :: auth_crates where
  "demo_dated = demo_auth\<lparr>au_parse_date := (\<lambda>s. Some 0)\<rparr>"

definition demo_kyc :: kyc_db where
  "demo_kyc = \<lparr>kd_users = [\<lparr>us_id = 7, us_phone = None, us_email = Some ''ada@x.ng'', us_index = 1, us_pin_hash = None, us_tier = 0,
     us_display_name = None, us_avatar_seed = None, us_date_of_birth = None\<rparr>], kd_rows = []\<rparr>"

definition demo_submission :: submission where
  "demo_submission = (demo_env (18 * 365 * 24 * 3600) 50, 7,
     \<lparr>kb_id_number = ''2222 222 2223'', kb_full_name = Some ''Ada Obi'', kb_date_of_birth = Some ''1970-01-01''\<rparr>)"

theorem tiers_are_earned_witness:
  "tiers_earned (submit_all demo_dated demo_crates False [demo_submission] demo_kyc) \<and>
   map (\<lambda>u. (us_id u, us_tier u)) (kd_users (submit_all demo_dated demo_crates False [demo_submission] demo_kyc)) = [(7, 0)] \<and>
   map kv_status (kd_rows (submit_all demo_dated demo_crates False [demo_submission] demo_kyc)) = [KycPending]"
proof -
  obtain s where s: "boot demo_crates demo_http demo_vars = Inr s" by (rule demo_boots)
  have auto: "False = cf_auto_approve_kyc (ap_config s)" using production_settings [OF s demo_production] by simp
  have e: "tiers_earned demo_kyc" "one_undecided demo_kyc"
    by (simp_all add: tiers_earned_def one_undecided_def demo_kyc_def)
  have "map kv_status (kd_rows (submit_all demo_dated demo_crates False [demo_submission] demo_kyc)) = [KycPending]" by code_simp
  moreover have "map (\<lambda>u. (us_id u, us_tier u)) (kd_users demo_kyc) = [(7, 0)]" by (simp add: demo_kyc_def)
  ultimately show ?thesis
    using tiers_are_earned [OF e, of demo_dated demo_crates False "[demo_submission]" demo_crates demo_http demo_vars s]
      s demo_production auto by simp
qed

theorem adults_by_short_years_witness:
  "\<exists>r born. kd_rows (submit_all demo_dated demo_crates True [demo_submission] demo_kyc) = [r] \<and> kv_born r = Some born \<and>
     18 * 365 \<le> today_of (app_now (fst demo_submission)) - born"
proof -
  define out where "out = submit_kyc demo_dated demo_crates True (fst demo_submission) (fst (snd demo_submission))
    (snd (snd demo_submission)) demo_kyc"
  have "case fst out of Inr _ \<Rightarrow> True | Inl _ \<Rightarrow> False" unfolding out_def by code_simp
  then obtain resp where r: "out = (Inr resp, snd out)" by (cases out) (auto split: sum.splits)
  have all: "submit_all demo_dated demo_crates True [demo_submission] demo_kyc = snd out"
    by (simp add: submit_all_def out_def demo_submission_def)
  have "kd_rows demo_kyc = []" by (simp add: demo_kyc_def)
  then show ?thesis using adults_by_short_years [OF r [unfolded out_def]] unfolding all out_def by auto
qed

end
