(* ===== verification/Rates.thy ===== *)
theory Rates
  imports Config Funding
begin

text \<open>
  \<open>crates/api/src/pricing.rs\<close> and \<open>rate_routes.rs\<close>: the market prices with their cache, the margin, and
  the board of rates. Floating point numbers are of a type \<open>'f\<close> of their own, and the reply of
  CoinGecko is a parameter: no reply, or a quote for some of the ids. A cache entry carries the time of
  the monotonic clock, an answer the time of day.
\<close>

section \<open>Prices\<close>

record 'f float_crate =
  fl_positive :: "'f \<Rightarrow> bool"
  fl_decimal :: "'f \<Rightarrow> decimal option"

definition coingecko_ids :: "(string \<times> string) list" where
  "coingecko_ids = [(''BTC'', ''bitcoin''), (''ETH'', ''ethereum''), (''USDT'', ''tether''), (''USDC'', ''usd-coin''),
     (''BNB'', ''binancecoin''), (''SOL'', ''solana''), (''TRX'', ''tron'')]"

record 'f coin_quote =
  cq_usd :: "'f option"
  cq_change :: "'f option"

type_synonym 'f coin_reply = "(string \<rightharpoonup> 'f coin_quote) option"
type_synonym 'f usd_prices = "(string \<times> decimal \<times> 'f option) list"

text \<open>One asset of \<open>fetch\<close>: skipped without a quote, a price, a positive price or a decimal of it.\<close>

definition usable_price :: "'f float_crate \<Rightarrow> (string \<rightharpoonup> 'f coin_quote) \<Rightarrow> string \<times> string \<Rightarrow> (string \<times> decimal \<times> 'f option) option" where
  "usable_price fl body = (\<lambda>(asset, id).
     Option.bind (body id) (\<lambda>quote.
     Option.bind (cq_usd quote) (\<lambda>usd.
     if \<not> fl_positive fl usd then None
     else map_option (\<lambda>price. (asset, price, cq_change quote)) (fl_decimal fl usd))))"

definition fetch_prices :: "'f float_crate \<Rightarrow> 'f coin_reply \<Rightarrow> 'f usd_prices option" where
  "fetch_prices fl reply =
     Option.bind reply (\<lambda>body.
       (let out = List.map_filter (usable_price fl body) coingecko_ids in if out = [] then None else Some out))"

section \<open>The cache\<close>

definition cache_ttl :: int where "cache_ttl = seconds 30"
definition stale_limit :: int where "stale_limit = minutes 5"

record 'f price_cache =
  ce_usd :: "'f usd_prices"
  ce_fetched_at :: instant
  ce_as_of :: instant

text \<open>\<open>Instant::elapsed\<close> is not negative.\<close>

definition elapsed :: "instant \<Rightarrow> instant \<Rightarrow> int" where
  "elapsed now t = max 0 (now - t)"

definition prices_cached :: "instant \<Rightarrow> 'f price_cache option \<Rightarrow> ('f usd_prices \<times> instant) option" where
  "prices_cached now cache =
     Option.bind cache (\<lambda>c. if elapsed now (ce_fetched_at c) < cache_ttl then Some (ce_usd c, ce_as_of c) else None)"

text \<open>What follows the reply, at \<open>now\<close> of the monotonic clock and \<open>utc\<close> of the day.\<close>

definition prices_answered :: "'f float_crate \<Rightarrow> instant \<Rightarrow> instant \<Rightarrow> 'f coin_reply \<Rightarrow> 'f price_cache option \<Rightarrow>
    ('f usd_prices \<times> instant) option \<times> 'f price_cache option" where
  "prices_answered fl now utc reply cache =
     (case fetch_prices fl reply of
        Some fresh \<Rightarrow> (Some (fresh, utc), Some \<lparr>ce_usd = fresh, ce_fetched_at = now, ce_as_of = utc\<rparr>)
      | None \<Rightarrow>
          (Option.bind cache (\<lambda>c. if elapsed now (ce_fetched_at c) < stale_limit then Some (ce_usd c, ce_as_of c) else None),
           cache))"

text \<open>A whole call, from \<open>t0\<close> to \<open>t1\<close>, when nothing else writes the cache in between.\<close>

definition prices_of :: "'f float_crate \<Rightarrow> instant \<Rightarrow> instant \<Rightarrow> instant \<Rightarrow> 'f coin_reply \<Rightarrow> 'f price_cache option \<Rightarrow>
    ('f usd_prices \<times> instant) option \<times> 'f price_cache option" where
  "prices_of fl t0 t1 utc reply cache =
     (case prices_cached t0 cache of Some a \<Rightarrow> (Some a, cache) | None \<Rightarrow> prices_answered fl t1 utc reply cache)"

section \<open>The margin and the board\<close>

record rates =
  rx_mid :: decimal
  rx_spread :: decimal

definition rates_new :: "config \<Rightarrow> rates" where
  "rates_new c = \<lparr>rx_mid = cf_usd_ngn_mid c, rx_spread = cf_spread_ngn_per_usd c\<rparr>"

definition net_ngn_per_usd :: "rates \<Rightarrow> decimal" where
  "net_ngn_per_usd r = max (rx_mid r - rx_spread r) 0"

definition ngn_rate_for :: "rates \<Rightarrow> decimal \<Rightarrow> decimal" where
  "ngn_rate_for r usd_price = max (usd_price * net_ngn_per_usd r) 0"

record 'f asset_price =
  sa_asset :: string
  sa_usd_price :: decimal
  sa_ngn_rate :: decimal
  sa_change :: "'f option"

record 'f rate_board =
  rb_ngn_per_usd :: decimal
  rb_assets :: "'f asset_price list"
  rb_as_of :: instant

text \<open>\<open>order\<close> is the order in which the hash map of prices is iterated.\<close>

definition board_of :: "('f usd_prices \<Rightarrow> 'f usd_prices) \<Rightarrow> rates \<Rightarrow> 'f usd_prices \<times> instant \<Rightarrow> 'f rate_board" where
  "board_of order r = (\<lambda>(usd, as_of).
     \<lparr>rb_ngn_per_usd = net_ngn_per_usd r,
      rb_assets = sort_key (\<lambda>a. - sa_usd_price a) (filter (\<lambda>a. 0 < sa_ngn_rate a)
        (map (\<lambda>(asset, price, change). \<lparr>sa_asset = asset, sa_usd_price = price, sa_ngn_rate = ngn_rate_for r price,
           sa_change = change\<rparr>) (order usd))),
      rb_as_of = as_of\<rparr>)"

definition ngn_rate_of :: "rates \<Rightarrow> ('f usd_prices \<times> instant) option \<Rightarrow> string \<Rightarrow> decimal option" where
  "ngn_rate_of r answer asset =
     Option.bind answer (\<lambda>(usd, as_of). map_option (\<lambda>(price, change). ngn_rate_for r price) (map_of usd asset))"

section \<open>The route\<close>

definition round_dp :: "nat \<Rightarrow> decimal \<Rightarrow> decimal" where
  "round_dp n x = round_half_even (x * 10 ^ n) / 10 ^ n"

record 'f asset_rate_response =
  ar_asset :: string
  ar_usd_price :: string
  ar_rate :: string
  ar_change :: "'f option"

record 'f rate_board_response =
  rr_ngn_per_usd :: string
  rr_as_of :: instant
  rr_assets :: "'f asset_rate_response list"

definition rates_response :: "crates \<Rightarrow> ('f usd_prices \<Rightarrow> 'f usd_prices) \<Rightarrow> rates \<Rightarrow> ('f usd_prices \<times> instant) option \<Rightarrow>
    api_error + 'f rate_board_response" where
  "rates_response cr order r answer =
     res_bind (ok_or (ServiceUnavailable ''Rates are unavailable right now.'') (map_option (board_of order r) answer)) (\<lambda>board.
     Inr \<lparr>rr_ngn_per_usd = cr_show_decimal cr (rb_ngn_per_usd board), rr_as_of = rb_as_of board,
       rr_assets = map (\<lambda>row. \<lparr>ar_asset = sa_asset row, ar_usd_price = cr_show_decimal cr (sa_usd_price row),
          ar_rate = cr_show_decimal cr (round_dp 4 (sa_ngn_rate row)), ar_change = sa_change row\<rparr>) (rb_assets board)\<rparr>)"

end
