(* ===== verification/Google_Keys.thy ===== *)
theory Google_Keys
  imports Auth_Routes Rates
begin

text \<open>
  \<open>crates/api/src/google_keys.rs\<close>: Google's signing keys and their cache. The reply is a parameter: no
  answer, an error status, an unreadable body, or a list of keys. \<open>rsa\<close> is
  \<open>DecodingKey::from_rsa_components\<close>.
\<close>

record jwk_key =
  jk_kid :: string
  jk_n :: string
  jk_e :: string
  jk_kty :: string

type_synonym jwks_reply = "jwk_key list option"

definition google_unavailable :: api_error where
  "google_unavailable = ServiceUnavailable ''Google sign-in is unavailable right now.''"

definition google_cache_ttl :: int where "google_cache_ttl = minutes 60"
definition min_refetch_interval :: int where "min_refetch_interval = seconds 30"

record key_cache =
  kc_keys :: "string \<rightharpoonup> string"
  kc_fetched_at :: instant

text \<open>Of two keys with one name the later is kept, as \<open>collect\<close> inserts them in order.\<close>

definition usable_keys :: "(string \<Rightarrow> string \<Rightarrow> string option) \<Rightarrow> jwk_key list \<Rightarrow> (string \<times> string) list" where
  "usable_keys rsa ks =
     List.map_filter (\<lambda>k. map_option (\<lambda>key. (jk_kid k, key)) (rsa (jk_n k) (jk_e k)))
       (filter (\<lambda>k. jk_kty k = [] \<or> jk_kty k = ''RSA'') ks)"

definition fetch_keys :: "(string \<Rightarrow> string \<Rightarrow> string option) \<Rightarrow> jwks_reply \<Rightarrow> api_error + (string \<rightharpoonup> string)" where
  "fetch_keys rsa reply =
     (case reply of
        None \<Rightarrow> Inl google_unavailable
      | Some ks \<Rightarrow> if usable_keys rsa ks = [] then Inl google_unavailable else Inr (map_of (rev (usable_keys rsa ks))))"

text \<open>The first block of \<open>decoding_key\<close>: an answer from the cache, or none and the keys are fetched.\<close>

definition cached_key :: "instant \<Rightarrow> string \<Rightarrow> key_cache option \<Rightarrow> (api_error + string) option" where
  "cached_key now kid cache =
     Option.bind cache (\<lambda>c.
       if elapsed now (kc_fetched_at c) < google_cache_ttl
       then (case kc_keys c kid of
               Some key \<Rightarrow> Some (Inr key)
             | None \<Rightarrow> if elapsed now (kc_fetched_at c) < min_refetch_interval then Some (Inl Unauthorized) else None)
       else None)"

definition answered_key :: "(string \<Rightarrow> string \<Rightarrow> string option) \<Rightarrow> instant \<Rightarrow> jwks_reply \<Rightarrow> string \<Rightarrow> key_cache option \<Rightarrow>
    (api_error + string) \<times> key_cache option" where
  "answered_key rsa now reply kid cache =
     (case fetch_keys rsa reply of
        Inl e \<Rightarrow> (Inl e, cache)
      | Inr keys \<Rightarrow> (ok_or Unauthorized (keys kid), Some \<lparr>kc_keys = keys, kc_fetched_at = now\<rparr>))"

text \<open>A whole call, from \<open>t0\<close> to \<open>t1\<close>, when nothing else writes the cache in between.\<close>

definition decoding_key :: "(string \<Rightarrow> string \<Rightarrow> string option) \<Rightarrow> instant \<Rightarrow> instant \<Rightarrow> jwks_reply \<Rightarrow> string \<Rightarrow> key_cache option \<Rightarrow>
    (api_error + string) \<times> key_cache option" where
  "decoding_key rsa t0 t1 reply kid cache =
     (case cached_key t0 kid cache of Some a \<Rightarrow> (a, cache) | None \<Rightarrow> answered_key rsa t1 reply kid cache)"

end
