(* ===== verification/Cache_Properties.thy ===== *)
theory Cache_Properties
  imports Google_Keys
begin

text \<open>
  What the two caches promise. A cache is looked up and written by requests that overlap; what happens to
  it is a list of look-ups and of answers from outside, each at its time. The interface says what a write
  does; the lemmas hold for both caches.
\<close>

datatype 'r cache_event = LookedUp instant | GotReply instant 'r

fun event_time :: "'r cache_event \<Rightarrow> instant" where
  "event_time (LookedUp t) = t"
| "event_time (GotReply t r) = t"

fun cache_step :: "(instant \<Rightarrow> 'r \<Rightarrow> 'c option \<Rightarrow> 'c option) \<Rightarrow> 'r cache_event \<Rightarrow> 'c option \<Rightarrow> 'c option" where
  "cache_step store (LookedUp t) cache = cache"
| "cache_step store (GotReply t r) cache = store t r cache"

definition cache_run :: "(instant \<Rightarrow> 'r \<Rightarrow> 'c option \<Rightarrow> 'c option) \<Rightarrow> 'r cache_event list \<Rightarrow> 'c option" where
  "cache_run store es = fold (cache_step store) es None"

locale timed_cache =
  fixes store :: "instant \<Rightarrow> 'r \<Rightarrow> 'c option \<Rightarrow> 'c option"
    and good :: "'r \<Rightarrow> 'v option"
    and stamp :: "'c \<Rightarrow> instant"
    and content :: "'c \<Rightarrow> 'v"
  assumes good_is_stored: "good r = Some v \<Longrightarrow> \<exists>c. store t r old = Some c \<and> stamp c = t \<and> content c = v"
    and bad_is_not: "good r = None \<Longrightarrow> store t r old = old"
begin

text \<open>The cache holds the last good answer.\<close>

definition holds_last :: "'r cache_event list \<Rightarrow> 'c option \<Rightarrow> bool" where
  "holds_last es cache \<longleftrightarrow>
     (case cache of
        None \<Rightarrow> \<forall>t r. GotReply t r \<in> set es \<longrightarrow> good r = None
      | Some c \<Rightarrow> (\<exists>r. GotReply (stamp c) r \<in> set es \<and> good r = Some (content c)) \<and>
          (\<forall>t r. GotReply t r \<in> set es \<and> good r \<noteq> None \<longrightarrow> t \<le> stamp c))"

lemma run_holds_last: "sorted (map event_time es) \<Longrightarrow> holds_last es (cache_run store es)"
proof (induction es rule: rev_induct)
  case Nil
  then show ?case by (simp add: holds_last_def cache_run_def)
next
  case (snoc e es)
  have IH: "holds_last es (cache_run store es)" and le: "\<forall>e' \<in> set es. event_time e' \<le> event_time e"
    using snoc by (simp_all add: sorted_append)
  show ?case
  proof (cases e)
    case (LookedUp t)
    then have "cache_run store (es @ [e]) = cache_run store es" by (simp add: cache_run_def)
    then show ?thesis using IH by (cases "cache_run store es") (auto simp: LookedUp holds_last_def)
  next
    case (GotReply t r)
    have run: "cache_run store (es @ [e]) = store t r (cache_run store es)" by (simp add: cache_run_def GotReply)
    show ?thesis
    proof (cases "good r")
      case None
      then have "cache_run store (es @ [e]) = cache_run store es" by (simp add: run bad_is_not)
      then show ?thesis using IH None by (cases "cache_run store es") (auto simp: GotReply holds_last_def)
    next
      case (Some v)
      obtain c where c: "store t r (cache_run store es) = Some c" "stamp c = t" "content c = v"
        using good_is_stored [OF Some] by blast
      have "t' \<le> t" if "GotReply t' r' \<in> set es" for t' r'
        using le that GotReply by force
      then show ?thesis unfolding run c(1) using c(2,3) Some by (auto simp: GotReply holds_last_def)
    qed
  qed
qed

lemma held_origin:
  assumes "sorted (map event_time es)" "cache_run store es = Some c"
  obtains r where "GotReply (stamp c) r \<in> set es" "good r = Some (content c)"
  using run_holds_last [OF assms(1)] assms(2) by (auto simp: holds_last_def)

lemma held_latest:
  assumes "sorted (map event_time es)" "GotReply t r \<in> set es" "good r \<noteq> None"
  obtains c where "cache_run store es = Some c" "t \<le> stamp c"
  using run_holds_last [OF assms(1)] assms(2,3) by (cases "cache_run store es") (auto simp: holds_last_def)

end

section \<open>Prices\<close>

definition store_prices :: "'f float_crate \<Rightarrow> instant \<Rightarrow> instant \<times> 'f coin_reply \<Rightarrow> 'f price_cache option \<Rightarrow> 'f price_cache option" where
  "store_prices fl t = (\<lambda>(utc, reply) cache. snd (prices_answered fl t utc reply cache))"

definition good_prices :: "'f float_crate \<Rightarrow> instant \<times> 'f coin_reply \<Rightarrow> ('f usd_prices \<times> instant) option" where
  "good_prices fl = (\<lambda>(utc, reply). map_option (\<lambda>usd. (usd, utc)) (fetch_prices fl reply))"

interpretation price_store: timed_cache "store_prices fl" "good_prices fl" ce_fetched_at "\<lambda>c. (ce_usd c, ce_as_of c)" for fl
  by unfold_locales (auto simp: store_prices_def good_prices_def prices_answered_def)

text \<open>
  C35. A quote rests on a price that is fresh, or there is none. Whatever requests looked and asked before,
  overlapping as they may: a price served from the cache was fetched less than thirty seconds before, one
  served after asking was fetched now or less than five minutes before, each as of the time it says; and a
  request that asked gets no price exactly if the market did not answer it and no answer of the last five
  minutes was usable.
\<close>

theorem quotes_are_fresh:
  assumes "sorted (map event_time es)" "\<forall>e \<in> set es. event_time e \<le> now"
  shows "(prices_cached now (cache_run (store_prices fl) es) = Some (usd, as_of) \<longrightarrow>
      (\<exists>t reply. GotReply t (as_of, reply) \<in> set es \<and> fetch_prices fl reply = Some usd \<and> now - t < seconds 30)) \<and>
    (fst (prices_answered fl now utc reply (cache_run (store_prices fl) es)) = Some (usd, as_of) \<longrightarrow>
      fetch_prices fl reply = Some usd \<and> as_of = utc \<or>
      (\<exists>t reply. GotReply t (as_of, reply) \<in> set es \<and> fetch_prices fl reply = Some usd \<and> now - t < minutes 5)) \<and>
    (fst (prices_answered fl now utc reply (cache_run (store_prices fl) es)) = None \<longleftrightarrow>
      fetch_prices fl reply = None \<and>
      \<not> (\<exists>t utc reply. GotReply t (utc, reply) \<in> set es \<and> fetch_prices fl reply \<noteq> None \<and> now - t < minutes 5))"
proof -
  let ?cache = "cache_run (store_prices fl) es"
  have held: "\<exists>t reply. GotReply t (ce_as_of c, reply) \<in> set es \<and> fetch_prices fl reply = Some (ce_usd c) \<and>
      t = ce_fetched_at c \<and> elapsed now (ce_fetched_at c) = now - t" if sm: "?cache = Some c" for c
  proof -
    obtain r where r: "GotReply (ce_fetched_at c) r \<in> set es" "good_prices fl r = Some (ce_usd c, ce_as_of c)"
      by (rule price_store.held_origin [OF assms(1) sm])
    moreover have "ce_fetched_at c \<le> now" using r(1) assms(2) by force
    ultimately show ?thesis by (cases r) (auto simp: good_prices_def elapsed_def)
  qed
  have fresh: "\<exists>c. ?cache = Some c \<and> elapsed now (ce_fetched_at c) < minutes 5"
    if a: "GotReply t (u, r) \<in> set es" "fetch_prices fl r \<noteq> None" "now - t < minutes 5" for t u r
  proof -
    have "good_prices fl (u, r) \<noteq> None" using a(2) by (auto simp: good_prices_def)
    then obtain c where "?cache = Some c" "t \<le> ce_fetched_at c"
      by (rule price_store.held_latest [OF assms(1) a(1)])
    then show ?thesis using a(3) by (auto simp: elapsed_def duration_defs)
  qed
  show ?thesis
  proof (intro conjI)
    show "prices_cached now ?cache = Some (usd, as_of) \<longrightarrow>
      (\<exists>t reply. GotReply t (as_of, reply) \<in> set es \<and> fetch_prices fl reply = Some usd \<and> now - t < seconds 30)"
      using held by (fastforce simp: prices_cached_def cache_ttl_def bind_eq_Some_conv split: if_splits)
    show "fst (prices_answered fl now utc reply ?cache) = Some (usd, as_of) \<longrightarrow>
      fetch_prices fl reply = Some usd \<and> as_of = utc \<or>
      (\<exists>t reply. GotReply t (as_of, reply) \<in> set es \<and> fetch_prices fl reply = Some usd \<and> now - t < minutes 5)"
      using held by (fastforce simp: prices_answered_def stale_limit_def bind_eq_Some_conv split: if_splits option.splits)
    show "fst (prices_answered fl now utc reply ?cache) = None \<longleftrightarrow>
      fetch_prices fl reply = None \<and>
      \<not> (\<exists>t utc reply. GotReply t (utc, reply) \<in> set es \<and> fetch_prices fl reply \<noteq> None \<and> now - t < minutes 5)"
    proof (cases "fetch_prices fl reply")
      case None
      show ?thesis
      proof (cases ?cache)
        case None
        then show ?thesis using fresh \<open>fetch_prices fl reply = None\<close> by (auto simp: prices_answered_def)
      next
        case (Some c)
        obtain r where o: "GotReply (ce_fetched_at c) (ce_as_of c, r) \<in> set es" "fetch_prices fl r = Some (ce_usd c)"
          "elapsed now (ce_fetched_at c) = now - ce_fetched_at c" using held [OF Some] by blast
        have "(\<exists>t utc reply. GotReply t (utc, reply) \<in> set es \<and> fetch_prices fl reply \<noteq> None \<and> now - t < minutes 5) \<longleftrightarrow>
            now - ce_fetched_at c < minutes 5"
          using fresh o Some by (metis option.distinct(1) option.inject)
        then show ?thesis
          by (simp add: prices_answered_def stale_limit_def Some o(3) \<open>fetch_prices fl reply = None\<close>)
      qed
    qed (simp add: prices_answered_def)
  qed
qed

section \<open>Google's keys\<close>

definition store_keys :: "(string \<Rightarrow> string \<Rightarrow> string option) \<Rightarrow> instant \<Rightarrow> string \<times> jwks_reply \<Rightarrow> key_cache option \<Rightarrow> key_cache option" where
  "store_keys rsa t = (\<lambda>(kid, reply) cache. snd (answered_key rsa t reply kid cache))"

definition good_keys :: "(string \<Rightarrow> string \<Rightarrow> string option) \<Rightarrow> string \<times> jwks_reply \<Rightarrow> (string \<rightharpoonup> string) option" where
  "good_keys rsa = (\<lambda>(kid, reply). ok (fetch_keys rsa reply))"

interpretation key_store: timed_cache "store_keys rsa" "good_keys rsa" kc_fetched_at kc_keys for rsa
  by unfold_locales (auto simp: store_keys_def good_keys_def answered_key_def ok_def split: sum.splits)

definition lists_key :: "(string \<Rightarrow> string \<Rightarrow> string option) \<Rightarrow> jwks_reply \<Rightarrow> string \<Rightarrow> string \<Rightarrow> bool" where
  "lists_key rsa reply kid key \<longleftrightarrow> (\<exists>ks k. reply = Some ks \<and> k \<in> set ks \<and> jk_kid k = kid \<and> rsa (jk_n k) (jk_e k) = Some key \<and>
     (jk_kty k = [] \<or> jk_kty k = ''RSA''))"

lemma mem_map_filter: "y \<in> set (List.map_filter f xs) \<longleftrightarrow> (\<exists>x \<in> set xs. f x = Some y)"
  by (force simp: List.map_filter_def image_iff)

lemma usable_keys_set:
  "(kid, key) \<in> set (usable_keys rsa ks) \<longleftrightarrow> lists_key rsa (Some ks) kid key"
  by (fastforce simp: usable_keys_def lists_key_def mem_map_filter)

lemma fetched_key_listed: "fetch_keys rsa reply = Inr keys \<Longrightarrow> keys kid = Some key \<Longrightarrow> lists_key rsa reply kid key"
  by (auto simp: fetch_keys_def usable_keys_set dest!: map_of_SomeD split: option.splits if_splits)

lemma sole_key_fetched:
  assumes "lists_key rsa reply kid key" "\<And>key'. lists_key rsa reply kid key' \<Longrightarrow> key' = key"
  obtains keys where "fetch_keys rsa reply = Inr keys" "keys kid = Some key"
proof -
  obtain ks where r: "reply = Some ks" using assms(1) by (auto simp: lists_key_def)
  have mem: "(kid, key) \<in> set (usable_keys rsa ks)" using assms(1) by (simp add: usable_keys_set r)
  then obtain key' where k: "map_of (rev (usable_keys rsa ks)) kid = Some key'"
    by (cases "map_of (rev (usable_keys rsa ks)) kid") (force simp: map_of_eq_None_iff image_iff)+
  then have "key' = key" using assms(2) by (auto simp: r usable_keys_set dest: map_of_SomeD)
  moreover have "usable_keys rsa ks \<noteq> []" using mem by auto
  ultimately show thesis using that k by (simp add: fetch_keys_def r)
qed

text \<open>
  Sign-in with Google survives a rotation and does not wait for Google otherwise. Whatever requests
  looked and asked before: a key used without asking was in a list fetched within the hour; within thirty
  seconds of a good list nobody asks again, whatever name of a key a token claims; and once thirty seconds
  have passed since every good list, a key that is new in Google's list is asked for and used.
\<close>

theorem google_keys_rotate:
  assumes "sorted (map event_time es)" "\<forall>e \<in> set es. event_time e \<le> now"
  shows "(cached_key now kid (cache_run (store_keys rsa) es) = Some (Inr key) \<longrightarrow>
      (\<exists>t kid' reply. GotReply t (kid', reply) \<in> set es \<and> lists_key rsa reply kid key \<and> now - t < minutes 60)) \<and>
    ((\<exists>t kid' reply. GotReply t (kid', reply) \<in> set es \<and> (\<exists>keys. fetch_keys rsa reply = Inr keys) \<and> now - t < seconds 30) \<longrightarrow>
      cached_key now kid (cache_run (store_keys rsa) es) \<noteq> None) \<and>
    ((\<forall>t kid' reply. GotReply t (kid', reply) \<in> set es \<and> (\<exists>keys. fetch_keys rsa reply = Inr keys) \<longrightarrow>
        seconds 30 \<le> now - t \<and> (\<forall>key'. \<not> lists_key rsa reply kid key')) \<and>
      lists_key rsa reply kid key \<and> (\<forall>key'. lists_key rsa reply kid key' \<longrightarrow> key' = key) \<longrightarrow>
      fst (decoding_key rsa now t1 reply kid (cache_run (store_keys rsa) es)) = Inr key)"
proof -
  let ?cache = "cache_run (store_keys rsa) es"
  have held: "\<exists>kid' reply. GotReply (kc_fetched_at c) (kid', reply) \<in> set es \<and> fetch_keys rsa reply = Inr (kc_keys c) \<and>
      elapsed now (kc_fetched_at c) = now - kc_fetched_at c" if sm: "?cache = Some c" for c
  proof -
    obtain r where r: "GotReply (kc_fetched_at c) r \<in> set es" "good_keys rsa r = Some (kc_keys c)"
      by (rule key_store.held_origin [OF assms(1) sm])
    moreover have "kc_fetched_at c \<le> now" using r(1) assms(2) by force
    ultimately show ?thesis by (cases r) (auto simp: good_keys_def elapsed_def ok_def split: sum.splits)
  qed
  show ?thesis
  proof (intro conjI impI)
    assume "cached_key now kid ?cache = Some (Inr key)"
    then obtain c where c: "?cache = Some c" "elapsed now (kc_fetched_at c) < minutes 60" "kc_keys c kid = Some key"
      by (auto simp: cached_key_def google_cache_ttl_def bind_eq_Some_conv split: if_splits option.splits)
    obtain kid' reply where "GotReply (kc_fetched_at c) (kid', reply) \<in> set es" "fetch_keys rsa reply = Inr (kc_keys c)"
      "elapsed now (kc_fetched_at c) = now - kc_fetched_at c" using held [OF c(1)] by blast
    then show "\<exists>t kid' reply. GotReply t (kid', reply) \<in> set es \<and> lists_key rsa reply kid key \<and> now - t < minutes 60"
      using c(2,3) fetched_key_listed by fastforce
  next
    assume "\<exists>t kid' reply. GotReply t (kid', reply) \<in> set es \<and> (\<exists>keys. fetch_keys rsa reply = Inr keys) \<and> now - t < seconds 30"
    then obtain t kid' reply' keys where a: "GotReply t (kid', reply') \<in> set es" "fetch_keys rsa reply' = Inr keys" "now - t < seconds 30"
      by blast
    have "good_keys rsa (kid', reply') \<noteq> None" using a(2) by (simp add: good_keys_def ok_def)
    then obtain c where c: "?cache = Some c" "t \<le> kc_fetched_at c" by (rule key_store.held_latest [OF assms(1) a(1)])
    then have "elapsed now (kc_fetched_at c) < seconds 30" using a(3) by (auto simp: elapsed_def seconds_def)
    then show "cached_key now kid ?cache \<noteq> None"
      using c(1) by (auto simp: cached_key_def google_cache_ttl_def min_refetch_interval_def duration_defs split: option.split)
  next
    assume new: "(\<forall>t kid' reply. GotReply t (kid', reply) \<in> set es \<and> (\<exists>keys. fetch_keys rsa reply = Inr keys) \<longrightarrow>
        seconds 30 \<le> now - t \<and> (\<forall>key'. \<not> lists_key rsa reply kid key')) \<and>
      lists_key rsa reply kid key \<and> (\<forall>key'. lists_key rsa reply kid key' \<longrightarrow> key' = key)"
    have miss: "cached_key now kid ?cache = None"
    proof (cases ?cache)
      case (Some c)
      obtain kid' reply' where o: "GotReply (kc_fetched_at c) (kid', reply') \<in> set es" "fetch_keys rsa reply' = Inr (kc_keys c)"
        "elapsed now (kc_fetched_at c) = now - kc_fetched_at c" using held [OF Some] by blast
      then have "seconds 30 \<le> now - kc_fetched_at c" "kc_keys c kid = None"
        using new fetched_key_listed [OF o(2)] by (blast, metis option.exhaust)
      then show ?thesis using o(3) by (simp add: cached_key_def Some min_refetch_interval_def)
    qed (simp add: cached_key_def)
    obtain keys where "fetch_keys rsa reply = Inr keys" "keys kid = Some key"
      using sole_key_fetched [of rsa reply kid key] new by blast
    then show "fst (decoding_key rsa now t1 reply kid ?cache) = Inr key"
      by (simp add: decoding_key_def miss answered_key_def ok_or_def)
  qed
qed

end
