(* ===== verification/Derivation.thy ===== *)
theory Derivation
  imports Boot Chains "HOL-Library.Word"
begin

unbundle bit_operations_syntax

text \<open>
  \<open>crates/wallet/src/address.rs\<close> and \<open>seed.rs\<close>: the address of a user on every chain, derived from the
  master seed, and \<open>crates/api/src/signer.rs\<close>, which asks for them. The curves, the hashes and the
  base58 and bech32 encodings are parameters; the paths, the SLIP-0010 chain of hashes, the checksum by
  case and the payloads are the code's own.
\<close>

type_synonym bytes = "8 word list"

text \<open>
  \<open>wc_path\<close> parses a BIP-32 path, \<open>wc_master\<close> makes the master key of a seed, \<open>wc_derive\<close> the public key
  at a path below it; \<open>wc_p2wpkh\<close> is the address of a Bitcoin key, \<open>wc_uncompressed\<close> the 65 bytes of a
  key, \<open>wc_ed25519\<close> the public key of a secret.
\<close>

record ('path, 'master, 'key) wallet_crates =
  wc_path :: "string \<Rightarrow> string + 'path"
  wc_master :: "bytes \<Rightarrow> string + 'master"
  wc_derive :: "'master \<Rightarrow> 'path \<Rightarrow> string + 'key"
  wc_p2wpkh :: "'key \<Rightarrow> string"
  wc_uncompressed :: "'key \<Rightarrow> bytes"
  wc_keccak :: "bytes \<Rightarrow> bytes"
  wc_hmac_sha512 :: "bytes \<Rightarrow> bytes \<Rightarrow> bytes"
  wc_ed25519 :: "bytes \<Rightarrow> bytes"
  wc_base58 :: "bytes \<Rightarrow> string"
  wc_base58check :: "bytes \<Rightarrow> string"
  wc_mnemonic :: "string \<Rightarrow> string + (string \<Rightarrow> bytes)"

text \<open>\<open>Unreached\<close> is the \<open>unreachable!\<close> arm.\<close>

datatype derive_error = IndexTooLarge "32 word" | BadPath string | DerivationFailed string | Unreached

definition derive_error_text :: "derive_error \<Rightarrow> string" where
  "derive_error_text e =
     (case e of
        IndexTooLarge i \<Rightarrow> ''address index '' @ show_nat (unat i) @ '' is out of range (must be < 2^31)''
      | BadPath s \<Rightarrow> ''invalid derivation path: '' @ s
      | DerivationFailed s \<Rightarrow> ''derivation failed: '' @ s
      | Unreached \<Rightarrow> [])"

definition map_res :: "('a \<Rightarrow> 'b) \<Rightarrow> 'e + 'a \<Rightarrow> 'e + 'b" where
  "map_res f r = (case r of Inl e \<Rightarrow> Inl e | Inr x \<Rightarrow> Inr (f x))"

lemma map_res_simps [simp]: "map_res f (Inl e) = Inl e" "map_res f (Inr x) = Inr (f x)"
  by (simp_all add: map_res_def)

section \<open>Seeds\<close>

text \<open>\<open>MasterSeed::from_mnemonic\<close>.\<close>

definition seed_from_mnemonic :: "('p, 'm, 'k) wallet_crates \<Rightarrow> string \<Rightarrow> string \<Rightarrow> string + bytes" where
  "seed_from_mnemonic wc phrase passphrase =
     res_bind (map_err (\<lambda>e. ''invalid mnemonic: '' @ e) (wc_mnemonic wc (trim phrase))) (\<lambda>to_seed. Inr (to_seed passphrase))"

section \<open>The addresses of a secp256k1 key\<close>

definition derive_secp256k1 :: "('p, 'm, 'k) wallet_crates \<Rightarrow> bytes \<Rightarrow> string \<Rightarrow> derive_error + 'k" where
  "derive_secp256k1 wc seed path =
     res_bind (map_err BadPath (wc_path wc path)) (\<lambda>p.
     res_bind (map_err DerivationFailed (wc_master wc seed)) (\<lambda>master.
     map_err DerivationFailed (wc_derive wc master p)))"

definition keccak_address_bytes :: "('p, 'm, 'k) wallet_crates \<Rightarrow> 'k \<Rightarrow> bytes" where
  "keccak_address_bytes wc key = drop 12 (wc_keccak wc (drop 1 (wc_uncompressed wc key)))"

definition hex_digit :: "nat \<Rightarrow> char" where
  "hex_digit n = (if n < 10 then char_of (48 + n) else char_of (87 + n))"

definition hex_encode :: "bytes \<Rightarrow> string" where
  "hex_encode bs = concat (map (\<lambda>b. [hex_digit (unat b div 16), hex_digit (unat b mod 16)]) bs)"

definition is_ascii_alphabetic :: "char \<Rightarrow> bool" where
  "is_ascii_alphabetic c = (let n = of_char c :: nat in (65 \<le> n \<and> n \<le> 90) \<or> (97 \<le> n \<and> n \<le> 122))"

text \<open>The bytes of a string, as \<open>as_bytes\<close> gives them.\<close>

definition bytes_of :: "string \<Rightarrow> bytes" where
  "bytes_of s = map of_char s"

definition nibble_at :: "bytes \<Rightarrow> nat \<Rightarrow> 8 word" where
  "nibble_at hash i = (if i mod 2 = 0 then drop_bit 4 (hash ! (i div 2)) else hash ! (i div 2) AND 0x0f)"

definition checksum_char :: "bytes \<Rightarrow> nat \<times> char \<Rightarrow> char" where
  "checksum_char hash = (\<lambda>(i, ch). if is_ascii_alphabetic ch \<and> 8 \<le> nibble_at hash i then to_ascii_upper_char ch else ch)"

definition to_eip55 :: "('p, 'm, 'k) wallet_crates \<Rightarrow> bytes \<Rightarrow> string" where
  "to_eip55 wc bs =
     (let lower = hex_encode bs; hash = wc_keccak wc (bytes_of lower)
      in ''0x'' @ map (checksum_char hash) (enumerate 0 lower))"

definition evm_address :: "('p, 'm, 'k) wallet_crates \<Rightarrow> 'k \<Rightarrow> string" where
  "evm_address wc key = to_eip55 wc (keccak_address_bytes wc key)"

definition tron_address :: "('p, 'm, 'k) wallet_crates \<Rightarrow> 'k \<Rightarrow> string" where
  "tron_address wc key = wc_base58check wc (0x41 # keccak_address_bytes wc key)"

section \<open>The address of an ed25519 key\<close>

definition hardened_bit :: "32 word" where "hardened_bit = 0x80000000"

definition to_be_bytes :: "32 word \<Rightarrow> bytes" where
  "to_be_bytes i = map (\<lambda>k. ucast (drop_bit k i)) [24, 16, 8, 0]"

text \<open>One segment of \<open>parse_hardened_path\<close>: \<open>None\<close> for a skipped one.\<close>

definition hardened_segment :: "string \<Rightarrow> string \<Rightarrow> derive_error + 32 word option" where
  "hardened_segment path segment =
     (if segment = [] \<or> segment = ''m'' then Inr None
      else if \<not> (suffix [CHR 0x27] segment \<or> suffix ''h'' segment)
      then Inl (BadPath (''ed25519 requires hardened derivation, got '' @ [CHR 0x27] @ segment @ [CHR 0x27] @ '' in '' @
          [CHR 0x27] @ path @ [CHR 0x27]))
      else (case parse_unsigned (2 ^ 32) (rev (dropWhile (\<lambda>c. c = CHR 0x27 \<or> c = CHR ''h'') (rev segment))) of
          None \<Rightarrow> Inl (BadPath (''bad index '' @ [CHR 0x27] @ segment @ [CHR 0x27]))
        | Some raw \<Rightarrow>
            if 2 ^ 31 \<le> raw then Inl (IndexTooLarge (word_of_nat raw)) else Inr (Some (word_of_nat raw OR hardened_bit))))"

fun hardened_segments :: "string \<Rightarrow> string list \<Rightarrow> derive_error + 32 word list" where
  "hardened_segments path [] = Inr []"
| "hardened_segments path (s # ss) =
     res_bind (hardened_segment path s) (\<lambda>i.
     res_bind (hardened_segments path ss) (\<lambda>is. Inr (case i of None \<Rightarrow> is | Some i \<Rightarrow> i # is)))"

definition parse_hardened_path :: "string \<Rightarrow> derive_error + 32 word list" where
  "parse_hardened_path path = hardened_segments path (split_on (CHR ''/'') (strip_leading [''m/''] path))"

text \<open>A key and a chain code, from 64 bytes; a step hashes a zero byte, the key and the index.\<close>

definition halves :: "bytes \<Rightarrow> bytes \<times> bytes" where
  "halves bs = (take 32 bs, drop 32 bs)"

definition slip10_step :: "('p, 'm, 'k) wallet_crates \<Rightarrow> 32 word \<Rightarrow> bytes \<times> bytes \<Rightarrow> bytes \<times> bytes" where
  "slip10_step wc index = (\<lambda>(key, chain_code). halves (wc_hmac_sha512 wc chain_code (0 # key @ to_be_bytes index)))"

definition derive_ed25519 :: "('p, 'm, 'k) wallet_crates \<Rightarrow> bytes \<Rightarrow> string \<Rightarrow> derive_error + bytes" where
  "derive_ed25519 wc seed path =
     (let start = halves (wc_hmac_sha512 wc (bytes_of ''ed25519 seed'') seed) in
      res_bind (parse_hardened_path path) (\<lambda>is. Inr (fst (fold (slip10_step wc) is start))))"

definition solana_address :: "('p, 'm, 'k) wallet_crates \<Rightarrow> bytes \<Rightarrow> string" where
  "solana_address wc key = wc_base58 wc (wc_ed25519 wc key)"

section \<open>The address of a user\<close>

record wallet_address =
  wa_chain :: chain
  wa_index :: "32 word"
  wa_address :: string
  wa_path :: string

definition derive_address :: "('p, 'm, 'k) wallet_crates \<Rightarrow> bytes \<Rightarrow> chain \<Rightarrow> 32 word \<Rightarrow> derive_error + wallet_address" where
  "derive_address wc seed c index =
     (if hardened_bit \<le> index then Inl (IndexTooLarge index)
      else
        (let path = derivation_path c index in
         res_bind
           (case chain_curve c of
              Secp256k1 \<Rightarrow>
                res_bind (derive_secp256k1 wc seed path) (\<lambda>key.
                  (case c of Bitcoin \<Rightarrow> Inr (wc_p2wpkh wc key) | Evm \<Rightarrow> Inr (evm_address wc key)
                   | Tron \<Rightarrow> Inr (tron_address wc key) | Solana \<Rightarrow> Inl Unreached))
            | Ed25519 \<Rightarrow> map_res (solana_address wc) (derive_ed25519 wc seed path))
           (\<lambda>address. Inr \<lparr>wa_chain = c, wa_index = index, wa_address = address, wa_path = path\<rparr>)))"

section \<open>The signer\<close>

datatype signer_reply = SignerUnreachable | SignerStatus string | SignerUnreadable | SignerAddresses "derived_address list"

definition remote_derive_all :: "(string \<Rightarrow> signer_reply) \<Rightarrow> string \<Rightarrow> 32 word \<Rightarrow> internal_error + derived_address list" where
  "remote_derive_all http base_url index =
     (case http (trim_slashes base_url @ ''/derive/'' @ show_nat (unat index)) of
        SignerUnreachable \<Rightarrow> Inl (IMsg ''signer unreachable'')
      | SignerStatus st \<Rightarrow> Inl (IMsg (''signer returned '' @ st))
      | SignerUnreadable \<Rightarrow> Inl (IMsg ''signer returned an unreadable response'')
      | SignerAddresses ds \<Rightarrow> Inr ds)"

fun collect_results :: "('e + 'a) list \<Rightarrow> 'e + 'a list" where
  "collect_results [] = Inr []"
| "collect_results (r # rs) = res_bind r (\<lambda>x. res_bind (collect_results rs) (\<lambda>xs. Inr (x # xs)))"

definition local_derive_all :: "('p, 'm, 'k) wallet_crates \<Rightarrow> bytes \<Rightarrow> 32 word \<Rightarrow> internal_error + derived_address list" where
  "local_derive_all wc seed index =
     collect_results (map (\<lambda>c. map_err (\<lambda>e. IMsg (derive_error_text e)) (map_res (\<lambda>w.
         \<lparr>da_chain = c, da_address = wa_address w, da_path = wa_path w\<rparr>) (derive_address wc seed c index))) all_chains)"

definition derive_all :: "('p, 'm, 'k) wallet_crates \<Rightarrow> (string \<Rightarrow> signer_reply) \<Rightarrow> bytes address_provider \<Rightarrow> 32 word \<Rightarrow>
    internal_error + derived_address list" where
  "derive_all wc http p index =
     (case p of RemoteSigner url \<Rightarrow> remote_derive_all http url index | LocalSigner seed \<Rightarrow> local_derive_all wc seed index)"

section \<open>The checksum of an EVM address\<close>

lemma of_char_hex_digit: "n < 16 \<Longrightarrow> of_char (hex_digit n) = (if n < 10 then 48 + n else 87 + n)"
  by (simp add: hex_digit_def)

lemma hex_digits:
  assumes "n < 16"
  shows "to_ascii_lower_char (hex_digit n) = hex_digit n" "m < 16 \<Longrightarrow> hex_digit m = hex_digit n \<longleftrightarrow> m = n"
proof -
  show "to_ascii_lower_char (hex_digit n) = hex_digit n"
    using of_char_hex_digit [OF assms] assms by (auto simp: to_ascii_lower_char_def Let_def)
  assume "m < 16"
  show "hex_digit m = hex_digit n \<longleftrightarrow> m = n"
  proof
    assume "hex_digit m = hex_digit n"
    then have "(of_char (hex_digit m) :: nat) = of_char (hex_digit n)" by simp
    then show "m = n" using of_char_hex_digit [OF assms] of_char_hex_digit [OF \<open>m < 16\<close>] assms \<open>m < 16\<close>
      by (auto split: if_splits)
  qed simp
qed

lemma byte_nibbles: "unat (b :: 8 word) div 16 < 16" "unat b mod 16 < 16"
proof -
  have "unat b < 2 ^ LENGTH(8)" by (rule unsigned_less)
  then have "unat b < 256" by simp
  then show "unat b div 16 < 16" by (simp add: div_less_iff_less_mult)
qed simp

lemma hex_encode_lower: "to_ascii_lowercase (hex_encode bs) = hex_encode bs"
  by (induction bs) (simp_all add: hex_encode_def to_ascii_lowercase_def hex_digits byte_nibbles)

lemma hex_encode_length: "length (hex_encode bs) = 2 * length bs"
  by (induction bs) (simp_all add: hex_encode_def)

lemma hex_encode_inj: "hex_encode bs = hex_encode cs \<longleftrightarrow> bs = cs"
proof (induction bs arbitrary: cs)
  case Nil
  then show ?case by (cases cs) (simp_all add: hex_encode_def)
next
  case (Cons b bs)
  show ?case
  proof (cases cs)
    case Nil
    then show ?thesis by (simp add: hex_encode_def)
  next
    case C: (Cons c cs')
    have "unat b div 16 = unat c div 16 \<and> unat b mod 16 = unat c mod 16 \<longleftrightarrow> b = c"
      by (metis div_mult_mod_eq word_unat_eq_iff)
    then show ?thesis using Cons.IH [of cs'] by (auto simp: C hex_encode_def hex_digits(2) byte_nibbles)
  qed
qed

lemma checksum_lower: "to_ascii_lower_char (checksum_char hash (i, ch)) = to_ascii_lower_char ch"
  by (auto simp: checksum_char_def to_ascii_lower_char_def to_ascii_upper_char_def Let_def)

lemma eip55_lower: "to_ascii_lowercase (to_eip55 wc bs) = ''0x'' @ hex_encode bs"
proof -
  have "map (to_ascii_lower_char \<circ> checksum_char hash) (enumerate n s) = map to_ascii_lower_char s" for hash n s
    by (induction s arbitrary: n) (simp_all add: checksum_lower)
  then have "to_ascii_lowercase (map (checksum_char hash) (enumerate n s)) = to_ascii_lowercase s" for hash n s
    by (simp add: to_ascii_lowercase_def)
  then show ?thesis
    using hex_encode_lower [of bs]
    by (simp add: to_eip55_def Let_def) (simp add: to_ascii_lowercase_def to_ascii_lower_char_def)
qed

text \<open>
  An EVM address is its twenty bytes, and the case of its letters only a checksum: in lower case it is
  0x and their hexadecimal digits, and two addresses are the same exactly if their bytes are, so two users
  share one only if their keys have the same hash.
\<close>

theorem evm_address_is_bytes:
  "to_ascii_lowercase (evm_address wc key) = ''0x'' @ hex_encode (keccak_address_bytes wc key) \<and>
   length (evm_address wc key) = 2 + 2 * length (keccak_address_bytes wc key) \<and>
   (evm_address wc key = evm_address wc key' \<longleftrightarrow> keccak_address_bytes wc key = keccak_address_bytes wc key')"
proof -
  have "length (evm_address wc key) = 2 + 2 * length (keccak_address_bytes wc key)"
    by (simp add: evm_address_def to_eip55_def Let_def hex_encode_length)
  moreover have "evm_address wc key = evm_address wc key' \<longleftrightarrow> keccak_address_bytes wc key = keccak_address_bytes wc key'"
  proof
    assume "evm_address wc key = evm_address wc key'"
    then have "''0x'' @ hex_encode (keccak_address_bytes wc key) = ''0x'' @ hex_encode (keccak_address_bytes wc key')"
      unfolding evm_address_def eip55_lower [of wc, symmetric] by (rule arg_cong)
    then show "keccak_address_bytes wc key = keccak_address_bytes wc key'" by (simp add: hex_encode_inj)
  qed (simp add: evm_address_def)
  moreover have "to_ascii_lowercase (evm_address wc key) = ''0x'' @ hex_encode (keccak_address_bytes wc key)"
    unfolding evm_address_def by (rule eip55_lower)
  ultimately show ?thesis by blast
qed

section \<open>The hardened path\<close>

lemma last_not_in: "c \<notin> set xs \<Longrightarrow> xs \<noteq> [] \<Longrightarrow> last xs \<noteq> c"
  by (metis last_in_set)

lemma hardened_segment_show:
  assumes "raw < 2 ^ 31"
  shows "hardened_segment path (show_nat raw @ [CHR 0x27]) = Inr (Some (word_of_nat raw OR hardened_bit))"
proof -
  have "CHR 0x27 \<notin> set (show_nat raw)" "CHR ''h'' \<notin> set (show_nat raw)"
    using show_nat_no_special [of "CHR 0x27" raw] show_nat_digits [of raw] by (auto simp: list_all_iff is_ascii_digit_def)
  then have "dropWhile (\<lambda>c. c = CHR 0x27 \<or> c = CHR ''h'') (rev (show_nat raw)) = rev (show_nat raw)"
    using last_not_in [of _ "show_nat raw"] by (simp add: dropWhile_eq_self_iff hd_rev)
  moreover have "parse_unsigned (2 ^ 32) (show_nat raw) = Some raw" using assms by (intro parse_show_nat) simp
  moreover have "show_nat raw @ [CHR 0x27] \<noteq> ''m''" by (cases "show_nat raw") simp_all
  ultimately show ?thesis using assms by (simp add: hardened_segment_def suffix_def)
qed

lemma solana_path_parsed:
  assumes "index < hardened_bit"
  shows "parse_hardened_path (derivation_path Solana index) = Inr [0x8000002C, 0x800001F5, index OR hardened_bit, hardened_bit]"
proof -
  let ?q = "CHR 0x27"
  have "strip_leading [''m/''] (derivation_path Solana index) =
      strip_leading [''m/''] (''44'' @ [?q] @ CHR ''/'' # ''501'' @ [?q] @ CHR ''/'' # show_nat (unat index) @ [?q] @ CHR ''/'' # ''0'' @ [?q])"
    by (subst strip_leading.simps) (simp add: prefix_def)
  also have "\<dots> = (''44'' @ [?q]) @ CHR ''/'' # (''501'' @ [?q]) @ CHR ''/'' # (show_nat (unat index) @ [?q]) @ CHR ''/'' # (''0'' @ [?q])"
    by (subst strip_leading.simps) (simp add: prefix_def)
  finally have p: "strip_leading [''m/''] (derivation_path Solana index) =
      (''44'' @ [?q]) @ CHR ''/'' # (''501'' @ [?q]) @ CHR ''/'' # (show_nat (unat index) @ [?q]) @ CHR ''/'' # (''0'' @ [?q])" .
  have s: "split_on (CHR ''/'') (strip_leading [''m/''] (derivation_path Solana index)) =
      [''44'' @ [?q], ''501'' @ [?q], show_nat (unat index) @ [?q], ''0'' @ [?q]]"
  proof -
    have "CHR ''/'' \<notin> set (show_nat (unat index) @ [?q])" using show_nat_no_special [of "CHR ''/''" "unat index"] by simp
    have "split_on (CHR ''/'') ((show_nat (unat index) @ [?q]) @ CHR ''/'' # (''0'' @ [?q])) =
        [show_nat (unat index) @ [?q], ''0'' @ [?q]]"
      unfolding split_on_append [OF \<open>CHR ''/'' \<notin> set (show_nat (unat index) @ [?q])\<close>] by (simp add: split_on_no_sep)
    then show ?thesis unfolding p by (simp add: split_on_append)
  qed
  have n: "unat index < 2 ^ 31" using assms by (simp add: hardened_bit_def word_less_nat_alt)
  have d: "show_nat 44 = ''44''" "show_nat 501 = ''501''" "show_nat 0 = ''0''" by code_simp+
  have w: "(44 :: 32 word) OR hardened_bit = 0x8000002C" "(501 :: 32 word) OR hardened_bit = 0x800001F5"
    "(0 :: 32 word) OR hardened_bit = hardened_bit"
    by (simp_all add: hardened_bit_def)
  show ?thesis
    unfolding parse_hardened_path_def s
    using hardened_segment_show [of 44] hardened_segment_show [of 501] hardened_segment_show [OF n] hardened_segment_show [of 0]
    by (simp add: d w)
qed


end
