(* ===== verification/Account_Reads.thy ===== *)
theory Account_Reads
  imports Auth_Routes Payouts Deposit_Store Rates "HOL-Library.List_Lexorder" "HOL-Library.Char_ord"
begin

text \<open>
  What a signed-in user reads: \<open>me\<close>, the portfolio, the wallets, the deposit address and the limits of
  \<open>crates/api/src/user_routes.rs\<close>, and the activity feed with its receipts of \<open>activity_routes.rs\<close>. The
  rates are a function from an asset's name, as every look-up may find another price.
\<close>

section \<open>The profile\<close>

record me_response =
  mr_id :: uuid
  mr_phone :: "string option"
  mr_email :: "string option"
  mr_display_name :: "string option"
  mr_avatar_seed :: "string option"
  mr_date_of_birth :: "int option"
  mr_profile_complete :: bool
  mr_kyc_tier :: int
  mr_has_pin :: bool
  mr_can_withdraw :: bool
  mr_next_kyc_step :: "string option"

definition tier_stored :: "int \<Rightarrow> kyc_tier" where
  "tier_stored raw = (case tier_of_i16 raw of Some t \<Rightarrow> t | None \<Rightarrow> Tier0)"

definition me :: "uuid \<Rightarrow> auth_db \<Rightarrow> api_error + me_response" where
  "me user db =
     res_bind (ok_or (from_sqlx RowNotFound) (fetch_optional (\<lambda>u. us_id u = user) (users db))) (\<lambda>u.
     Inr \<lparr>mr_id = user, mr_phone = us_phone u, mr_email = us_email u, mr_display_name = us_display_name u,
       mr_avatar_seed = us_avatar_seed u, mr_date_of_birth = us_date_of_birth u,
       mr_profile_complete = (map_option (\<lambda>n. 2 \<le> length (split_whitespace n)) (us_display_name u) = Some True \<and>
          us_date_of_birth u \<noteq> None),
       mr_kyc_tier = us_tier u, mr_has_pin = (us_pin_hash u \<noteq> None), mr_can_withdraw = can_withdraw (tier_stored (us_tier u)),
       mr_next_kyc_step = next_step (tier_stored (us_tier u))\<rparr>)"

section \<open>The portfolio\<close>

record holding =
  ho_asset :: string
  ho_balance :: string
  ho_ngn_value :: string
  ho_rate :: string

record portfolio_response =
  pf_total_ngn :: string
  pf_ngn_balance :: string
  pf_holdings :: "holding list"

text \<open>\<open>ledger_balances\<close> of one user: the kinds, assets and balances of their accounts.\<close>

definition user_balances :: "uuid \<Rightarrow> 'z ledger_scheme \<Rightarrow> (account_kind \<times> asset \<times> decimal) list" where
  "user_balances user db =
     map (\<lambda>a. (la_kind a, la_asset a, raw_balance db (la_id a)))
       (filter (\<lambda>a. la_user_id a = Some user \<and> la_kind a \<in> {UserNgn, UserCrypto}) (accounts db))"

text \<open>The loop, with the balance of naira, the holdings and the worth of the others so far.\<close>

fun portfolio_rows :: "crates \<Rightarrow> (string \<Rightarrow> decimal option) \<Rightarrow> (account_kind \<times> asset \<times> decimal) list \<Rightarrow>
    decimal \<times> holding list \<times> decimal \<Rightarrow> decimal \<times> holding list \<times> decimal" where
  "portfolio_rows cr rate [] acc = acc"
| "portfolio_rows cr rate ((kind, asset, raw) # rows) (ngn, holdings, worth) =
     portfolio_rows cr rate rows
       (if kind = UserNgn then (user_facing_balance UserNgn raw, holdings, worth)
        else if kind \<noteq> UserCrypto then (ngn, holdings, worth)
        else (let shown = user_facing_balance UserCrypto raw in
          if shown \<le> 0 then (ngn, holdings, worth)
          else (let r = (case rate (asset_as_str asset) of Some r \<Rightarrow> r | None \<Rightarrow> 0); value = round_dp 4 (shown * r) in
            (ngn, holdings @ [\<lparr>ho_asset = asset_as_str asset, ho_balance = cr_show_decimal cr shown,
                ho_ngn_value = cr_show_decimal cr value, ho_rate = cr_show_decimal cr (round_dp 4 r)\<rparr>], worth + value))))"

definition portfolio :: "crates \<Rightarrow> (string \<Rightarrow> decimal option) \<Rightarrow> uuid \<Rightarrow> 'z ledger_scheme \<Rightarrow> portfolio_response" where
  "portfolio cr rate user db =
     (let (ngn, holdings, worth) = portfolio_rows cr rate (user_balances user db) (0, [], 0) in
      \<lparr>pf_total_ngn = cr_show_decimal cr (ngn + worth), pf_ngn_balance = cr_show_decimal cr ngn, pf_holdings = holdings\<rparr>)"

section \<open>Wallets\<close>

definition wallets_of :: "uuid \<Rightarrow> auth_db \<Rightarrow> (string \<times> string) list" where
  "wallets_of user db =
     sort_key fst (map (\<lambda>w. (chain_as_str (uw_chain w), uw_address w)) (filter (\<lambda>w. uw_user w = user) (user_wallets db)))"

record deposit_address_query =
  dq_asset :: string
  dq_chain :: string

record deposit_address_response =
  da_asset :: string
  da_shown_chain :: string
  da_network :: string
  da_to :: string
  da_min_confirmations :: nat
  da_minimum_deposit :: string

definition resolve_network :: "string \<Rightarrow> api_error + (chain \<times> string)" where
  "resolve_network input =
     (let l = to_ascii_lowercase input in
      if l = ''tron'' then Inr (Tron, ''TRC-20'')
      else if l = ''ethereum'' then Inr (Evm, ''ERC-20'')
      else if l = ''bsc'' then Inr (Evm, ''BEP-20'')
      else if l = ''polygon'' then Inr (Evm, ''Polygon'')
      else if l = ''base'' then Inr (Evm, ''Base'')
      else if l = ''bitcoin'' then Inr (Bitcoin, ''Bitcoin'')
      else if l = ''solana'' then Inr (Solana, ''Solana'')
      else Inl (BadRequest (''unknown network '' @ l)))"

definition confirmations_for :: "string \<Rightarrow> chain \<Rightarrow> nat" where
  "confirmations_for network c =
     (let l = to_ascii_lowercase network in
      if l = ''ethereum'' then 12 else if l = ''bsc'' \<or> l = ''polygon'' then 20 else if l = ''base'' then 10
      else chain_min_confirmations c)"

definition shown_minimum :: "asset \<Rightarrow> string" where
  "shown_minimum a =
     (case a of Usdt \<Rightarrow> ''1'' | Usdc \<Rightarrow> ''1'' | Btc \<Rightarrow> ''0.0001'' | Eth \<Rightarrow> ''0.005'' | Bnb \<Rightarrow> ''0.01'' | Sol \<Rightarrow> ''0.05'' | _ \<Rightarrow> ''0'')"

definition deposit_address :: "uuid \<Rightarrow> deposit_address_query \<Rightarrow> auth_db \<Rightarrow> api_error + deposit_address_response" where
  "deposit_address user q db =
     res_bind (map_err (\<lambda>_. BadRequest (''unknown asset '' @ dq_asset q)) (asset_from_str (dq_asset q))) (\<lambda>asset.
     res_bind (resolve_network (dq_chain q)) (\<lambda>(c, network).
     res_bind (ok_or NotFound (map_option uw_address
         (fetch_optional (\<lambda>w. uw_user w = user \<and> uw_chain w = c) (user_wallets db)))) (\<lambda>address.
     Inr \<lparr>da_asset = asset_as_str asset, da_shown_chain = dq_chain q, da_network = network, da_to = address,
       da_min_confirmations = confirmations_for (dq_chain q) c, da_minimum_deposit = shown_minimum asset\<rparr>)))"

section \<open>Limits\<close>

definition min_withdrawal_ngn :: int where "min_withdrawal_ngn = 100"

record limits_response =
  li_kyc_tier :: int
  li_can_withdraw :: bool
  li_daily_payout_cap :: "string option"
  li_used_today :: string
  li_remaining_today :: "string option"
  li_next_step :: "string option"
  li_daily_limit_ngn :: string
  li_daily_remaining_ngn :: string
  li_per_transaction_max_ngn :: string
  li_min_withdrawal_ngn :: string

definition limits :: "cash_crates \<Rightarrow> instant \<Rightarrow> uuid \<Rightarrow> 'z cash_db_scheme \<Rightarrow> api_error + limits_response" where
  "limits ck now user db =
     res_bind (ok_or (from_sqlx RowNotFound) (fetch_optional (\<lambda>u. us_id u = user) (members db))) (\<lambda>u.
     (let tier = tier_stored (us_tier u); used = used_ngn now user db; cap = daily_payout_cap tier;
          remaining = (case cap of Some c \<Rightarrow> max (c - used) 0 | None \<Rightarrow> 0);
          whole = (case cap of Some c \<Rightarrow> c | None \<Rightarrow> 0)
      in Inr \<lparr>li_kyc_tier = us_tier u, li_can_withdraw = can_withdraw tier, li_daily_payout_cap = map_option (ck_show_decimal ck) cap,
        li_used_today = ck_show_decimal ck used, li_remaining_today = map_option (\<lambda>c. ck_show_decimal ck (max (c - used) 0)) cap,
        li_next_step = next_step tier, li_daily_limit_ngn = ck_show_decimal ck whole,
        li_daily_remaining_ngn = ck_show_decimal ck remaining, li_per_transaction_max_ngn = ck_show_decimal ck whole,
        li_min_withdrawal_ngn = show_int min_withdrawal_ngn\<rparr>))"

section \<open>The feed\<close>

text \<open>The columns of the two tables that only the feed reads.\<close>

record shown_deposit = deposit_row +
  sd_created_at :: instant

record shown_payout = payout_row +
  sp_failure :: "string option"
  sp_updated_at :: instant

record activity_db =
  ad_deposits :: "shown_deposit list"
  ad_payouts :: "shown_payout list"
  ad_accounts :: "bank_account_row list"

fun deposit_status_str :: "deposit_status \<Rightarrow> string" where
  "deposit_status_str Seen = ''seen''"
| "deposit_status_str Confirming = ''confirming''"
| "deposit_status_str Confirmed = ''confirmed''"
| "deposit_status_str Reversed = ''reversed''"
| "deposit_status_str Ignored = ''ignored''"

record activity_item =
  ai_id :: uuid
  ai_kind :: string
  ai_asset :: string
  ai_amount :: string
  ai_ngn_value :: "string option"
  ai_status :: string
  ai_created_at :: string
  ai_detail :: "string option"

text \<open>A middle dot, in UTF-8.\<close>

definition middle_dot :: string where
  "middle_dot = [CHR 0xC2, CHR 0xB7]"

definition last4 :: "string \<Rightarrow> string" where
  "last4 s = drop (length s - 4) s"

definition deposit_item :: "cash_crates \<Rightarrow> (string \<Rightarrow> decimal option) \<Rightarrow> shown_deposit \<Rightarrow> activity_item" where
  "deposit_item ck rate d =
     \<lparr>ai_id = dp_id d, ai_kind = ''deposit'', ai_asset = dp_asset d, ai_amount = ck_show_decimal ck (dp_amount d),
      ai_ngn_value = map_option (\<lambda>r. ck_show_decimal ck (round_dp 4 (dp_amount d * r))) (rate (dp_asset d)),
      ai_status = deposit_status_str (dp_status d), ai_created_at = ck_rfc3339 ck (sd_created_at d),
      ai_detail = Some (network_as_str (dp_network d) @ '' '' @ middle_dot @ '' '' @ show_int (dp_confirmations d) @ '' confirmations'')\<rparr>"

definition payout_item :: "cash_crates \<Rightarrow> shown_payout \<Rightarrow> bank_account_row \<Rightarrow> activity_item" where
  "payout_item ck p b =
     \<lparr>ai_id = po_id p, ai_kind = ''payout'', ai_asset = ''NGN'', ai_amount = ck_show_decimal ck (po_amount p),
      ai_ngn_value = Some (ck_show_decimal ck (po_amount p)), ai_status = payout_status_str (po_status p),
      ai_created_at = ck_rfc3339 ck (po_created_at p),
      ai_detail = Some (bank_name (ba_code b) @ '' '' @ middle_dot @ middle_dot @ middle_dot @ last4 (ba_number b))\<rparr>"

definition account_of_payout :: "activity_db \<Rightarrow> shown_payout \<Rightarrow> bank_account_row option" where
  "account_of_payout db p = fetch_optional (\<lambda>b. ba_id b = po_account p) (ad_accounts db)"

text \<open>\<open>sort_by(|a, b| b.created_at.cmp(&a.created_at))\<close>: descending and stable, by the written time.\<close>

definition newest_first :: "activity_item list \<Rightarrow> activity_item list" where
  "newest_first items = rev (sort_key ai_created_at (rev items))"

definition list_activity :: "cash_crates \<Rightarrow> (string \<Rightarrow> decimal option) \<Rightarrow> uuid \<Rightarrow> activity_db \<Rightarrow> activity_item list" where
  "list_activity ck rate user db =
     newest_first
       (map (deposit_item ck rate)
          (take 100 (sort_key (\<lambda>d. - sd_created_at d) (filter (\<lambda>d. dp_user d = user) (ad_deposits db)))) @
        map (\<lambda>(p, b). payout_item ck p b)
          (take 100 (sort_key (\<lambda>(p, b). - po_created_at p)
             (List.map_filter (\<lambda>p. map_option (Pair p) (account_of_payout db p))
               (filter (\<lambda>p. po_user p = user) (ad_payouts db))))))"

section \<open>Receipts\<close>

record timeline_step =
  tl_label :: string
  tl_at :: "string option"
  tl_state :: string

record activity_detail =
  ae_item :: activity_item
  ae_reference :: "string option"
  ae_timeline :: "timeline_step list"
  ae_tx_hash :: "string option"
  ae_explorer_url :: "string option"
  ae_network :: "string option"
  ae_confirmations :: "int option"
  ae_min_confirmations :: "int option"
  ae_bank_name :: "string option"
  ae_account_number :: "string option"
  ae_account_name :: "string option"
  ae_fee :: "string option"
  ae_failure_reason :: "string option"

definition short_reference :: "cash_crates \<Rightarrow> uuid \<Rightarrow> string" where
  "short_reference ck i = ''NV-'' @ to_ascii_uppercase (take 8 (ck_simple_uuid ck i))"

definition min_confirmations_for :: "string \<Rightarrow> int" where
  "min_confirmations_for network =
     (let l = to_ascii_lowercase network in
      if l = ''ethereum'' then 12 else if l = ''bsc'' \<or> l = ''polygon'' \<or> l = ''tron'' then 20
      else if l = ''base'' then 10 else if l = ''bitcoin'' then 2 else if l = ''solana'' then 1 else 12)"

definition explorer_base :: "string \<Rightarrow> string option" where
  "explorer_base c =
     (let l = to_ascii_lowercase c in
      if l = ''tron'' then Some ''https://tronscan.org/#/transaction/''
      else if l = ''evm'' \<or> l = ''ethereum'' then Some ''https://etherscan.io/tx/''
      else if l = ''bsc'' then Some ''https://bscscan.com/tx/''
      else if l = ''polygon'' then Some ''https://polygonscan.com/tx/''
      else if l = ''base'' then Some ''https://basescan.org/tx/''
      else if l = ''bitcoin'' then Some ''https://mempool.space/tx/''
      else if l = ''solana'' then Some ''https://solscan.io/tx/''
      else None)"

definition explorer_url :: "string \<Rightarrow> string \<Rightarrow> string option" where
  "explorer_url c tx_hash = map_option (\<lambda>base. base @ tx_hash) (explorer_base c)"

definition deposit_timeline :: "string \<Rightarrow> string \<Rightarrow> int \<Rightarrow> int \<Rightarrow> timeline_step list" where
  "deposit_timeline status created_at confirmations minimum =
     [\<lparr>tl_label = ''Seen on-chain'', tl_at = Some created_at, tl_state = ''done''\<rparr>,
      \<lparr>tl_label = ''Confirming ('' @ show_int confirmations @ ''/'' @ show_int minimum @ '')'', tl_at = Some created_at,
       tl_state = (if status = ''reversed'' then ''failed'' else if status = ''credited'' then ''done'' else ''current'')\<rparr>,
      \<lparr>tl_label = ''Credited to your balance'', tl_at = (if status = ''credited'' then Some created_at else None),
       tl_state = (if status = ''credited'' then ''done'' else ''pending'')\<rparr>]"

definition deposit_receipt :: "cash_crates \<Rightarrow> (string \<Rightarrow> decimal option) \<Rightarrow> shown_deposit \<Rightarrow> activity_detail" where
  "deposit_receipt ck rate d =
     (let minimum = min_confirmations_for (network_as_str (dp_network d)) in
      \<lparr>ae_item = deposit_item ck rate d, ae_reference = Some (short_reference ck (dp_id d)),
       ae_timeline = deposit_timeline (deposit_status_str (dp_status d)) (ck_rfc3339 ck (sd_created_at d)) (dp_confirmations d) minimum,
       ae_tx_hash = Some (dp_tx_hash d), ae_explorer_url = explorer_url (chain_as_str (dp_chain d)) (dp_tx_hash d),
       ae_network = Some (network_as_str (dp_network d)), ae_confirmations = Some (dp_confirmations d),
       ae_min_confirmations = Some minimum, ae_bank_name = None, ae_account_number = None, ae_account_name = None, ae_fee = None,
       ae_failure_reason = (if deposit_status_str (dp_status d) = ''reversed''
          then Some ''This deposit was reversed after a chain reorganisation.'' else None)\<rparr>)"

definition deposit_detail :: "cash_crates \<Rightarrow> (string \<Rightarrow> decimal option) \<Rightarrow> uuid \<Rightarrow> uuid \<Rightarrow> activity_db \<Rightarrow> activity_detail option" where
  "deposit_detail ck rate user i db =
     map_option (deposit_receipt ck rate) (fetch_optional (\<lambda>d. dp_id d = i \<and> dp_user d = user) (ad_deposits db))"

definition payout_timeline :: "string \<Rightarrow> string \<Rightarrow> string \<Rightarrow> timeline_step list" where
  "payout_timeline status created_at updated_at =
     (let settled = status = ''settled''; failed = status \<in> {''failed'', ''reversed''}; sent = status \<in> {''processing'', ''settled''} in
      [\<lparr>tl_label = ''Requested'', tl_at = Some created_at, tl_state = ''done''\<rparr>,
       \<lparr>tl_label = (if failed then ''Failed at the bank'' else ''Sent to your bank''),
        tl_at = (if sent \<or> failed then Some updated_at else None),
        tl_state = (if failed then ''failed'' else if sent then ''done'' else ''current'')\<rparr>,
       \<lparr>tl_label = ''Settled'', tl_at = (if settled then Some updated_at else None),
        tl_state = (if settled then ''done'' else if sent then ''current'' else ''pending'')\<rparr>])"

definition payout_receipt :: "cash_crates \<Rightarrow> shown_payout \<Rightarrow> bank_account_row \<Rightarrow> activity_detail" where
  "payout_receipt ck p b =
     \<lparr>ae_item = payout_item ck p b, ae_reference = Some (po_reference p),
      ae_timeline = payout_timeline (payout_status_str (po_status p)) (ck_rfc3339 ck (po_created_at p)) (ck_rfc3339 ck (sp_updated_at p)),
      ae_tx_hash = None, ae_explorer_url = None, ae_network = None, ae_confirmations = None, ae_min_confirmations = None,
      ae_bank_name = Some (bank_name (ba_code b)), ae_account_number = Some (ba_number b), ae_account_name = Some (ba_name b),
      ae_fee = Some (ck_show_decimal ck (po_fee p)), ae_failure_reason = sp_failure p\<rparr>"

definition payout_detail :: "cash_crates \<Rightarrow> uuid \<Rightarrow> uuid \<Rightarrow> activity_db \<Rightarrow> activity_detail option" where
  "payout_detail ck user i db =
     Option.bind (fetch_optional (\<lambda>p. po_id p = i \<and> po_user p = user) (ad_payouts db)) (\<lambda>p.
     map_option (payout_receipt ck p) (account_of_payout db p))"

definition activity_detail_of :: "cash_crates \<Rightarrow> (string \<Rightarrow> decimal option) \<Rightarrow> uuid \<Rightarrow> uuid \<Rightarrow> activity_db \<Rightarrow> api_error + activity_detail" where
  "activity_detail_of ck rate user i db =
     (case deposit_detail ck rate user i db of
        Some d \<Rightarrow> Inr d
      | None \<Rightarrow> ok_or NotFound (payout_detail ck user i db))"

end
