(* ===== verification/Account_Properties.thy ===== *)
theory Account_Properties
  imports Account_Reads
begin

text \<open>
  What the screens promise against what the rest of the program does: the deposit screen and the watcher,
  the receipts and the status the watcher writes, the limits and the check of a payout, and the feed.
\<close>

section \<open>The deposit screen\<close>

text \<open>The number a plain decimal literal stands for.\<close>

definition plain_decimal :: "string \<Rightarrow> decimal" where
  "plain_decimal s =
     (case split_once (CHR ''.'') s of
        None \<Rightarrow> of_nat (digits_val s)
      | Some (whole, part) \<Rightarrow> of_nat (digits_val whole) + of_nat (digits_val part) / 10 ^ length part)"

lemma shown_minimum_agrees: "a \<notin> {Trx, Matic} \<Longrightarrow> plain_decimal (shown_minimum a) = minimum_deposit a"
  by (cases a) (simp_all add: shown_minimum_def plain_decimal_def digits_val_def digit_val_def)

lemma resolved_network:
  assumes "resolve_network s = Inr (c, label)"
  obtains n where "network_from_str s = Inr n" "network_chain n = c" "int (confirmations_for s c) = min_confirmations n"
  using assms
  by (auto simp: resolve_network_def network_from_str_def confirmations_for_def Let_def split: if_splits)

lemma deposit_address_Inr:
  assumes "deposit_address user q db = Inr resp"
  obtains a c label w where "asset_from_str (dq_asset q) = Inr a" "resolve_network (dq_chain q) = Inr (c, label)"
    "w \<in> set (user_wallets db)" "uw_user w = user" "uw_chain w = c" "da_to resp = uw_address w"
    "da_min_confirmations resp = confirmations_for (dq_chain q) c" "da_minimum_deposit resp = shown_minimum a"
proof -
  from assms obtain a c label x where a: "asset_from_str (dq_asset q) = Inr a" "resolve_network (dq_chain q) = Inr (c, label)"
    and x: "ok_or NotFound (map_option uw_address (fetch_optional (\<lambda>w. uw_user w = user \<and> uw_chain w = c) (user_wallets db))) = Inr x"
    and resp: "resp = \<lparr>da_asset = asset_as_str a, da_shown_chain = dq_chain q, da_network = label, da_to = x,
      da_min_confirmations = confirmations_for (dq_chain q) c, da_minimum_deposit = shown_minimum a\<rparr>"
    unfolding deposit_address_def by (elim res_bind_Inr_E) (auto simp: map_err_Inr_iff elim!: res_bind_Inr_E)
  from x obtain w where "fetch_optional (\<lambda>w. uw_user w = user \<and> uw_chain w = c) (user_wallets db) = Some w" "uw_address w = x"
    by (auto simp: ok_or_def split: option.splits)
  then show thesis using that [OF a] by (auto simp: resp dest!: fetch_optional_SomeD)
qed


section \<open>Receipts\<close>

lemma update_where_all:
  assumes "r \<in> set (update_where p f rows)" "\<And>x. p x \<Longrightarrow> P (f x)" "\<And>x. \<not> p x \<Longrightarrow> P x"
  shows "P r"
  using assms by (auto simp: update_where_def split: if_splits)

lemma credited_is_confirmed:
  assumes "credit_deposit sh env i t db = Inr (True, db')" "r \<in> set (deposits db')" "dp_id r = i"
  shows "dp_status r = Confirmed"
proof -
  have "\<exists>outcome rows. deposits db' = update_where (\<lambda>r. dp_id r = i)
      (\<lambda>r. r\<lparr>dp_status := Confirmed, dp_credited := Some (outcome_journal_id outcome)\<rparr>) rows"
    using assms(1) unfolding credit_deposit_def
    by (auto simp: res_bind_Inr_iff split: option.splits if_splits prod.splits) (rule exI, rule exI, rule refl)
  then obtain outcome rows where u: "deposits db' = update_where (\<lambda>r. dp_id r = i)
      (\<lambda>r. r\<lparr>dp_status := Confirmed, dp_credited := Some (outcome_journal_id outcome)\<rparr>) rows" by blast
  have "dp_id r = i \<longrightarrow> dp_status r = Confirmed"
    by (rule update_where_all [OF assms(2) [unfolded u]]) simp_all
  then show ?thesis using assms(3) by blast
qed

text \<open>
  C38. A receipt never says a deposit was credited. After the watcher has credited one, its receipt still
  shows it as confirming and the credit as pending, because the receipt looks for a status that nobody
  writes.
\<close>

theorem receipt_never_credited:
  assumes "credit_deposit sh env i t db = Inr (True, db')" "dp_id d = i" "deposit_row.truncate d \<in> set (deposits db')"
  shows "map tl_state (ae_timeline (deposit_receipt ck rate d)) = [''done'', ''current'', ''pending''] \<and>
    tl_at (ae_timeline (deposit_receipt ck rate d) ! 2) = None"
proof -
  have "dp_status (deposit_row.truncate d) = Confirmed"
    by (rule credited_is_confirmed [OF assms(1,3)]) (simp add: deposit_row.defs assms(2))
  then have "dp_status d = Confirmed" by (simp add: deposit_row.defs)
  then show ?thesis by (simp add: deposit_receipt_def deposit_timeline_def Let_def)
qed

section \<open>Limits\<close>

text \<open>
  The limits shown are the limits enforced. An amount passes the check of a payout exactly if the screen
  says the user can withdraw and the amount is at most the rest of the day that it shows.
\<close>

theorem limits_screen_holds:
  assumes "limits ck now user db = Inr r"
  shows "\<exists>u rest. fetch_optional (\<lambda>u. us_id u = user) (members db) = Some u \<and> li_daily_remaining_ngn r = ck_show_decimal ck rest \<and>
    0 \<le> rest \<and> (\<forall>amount > 0. check_payout (tier_stored (us_tier u)) amount (used_ngn now user db) = PayoutAllowed \<longleftrightarrow>
      li_can_withdraw r \<and> amount \<le> rest)"
proof -
  obtain u where u: "fetch_optional (\<lambda>u. us_id u = user) (members db) = Some u"
    using assms by (auto simp: limits_def ok_or_def split: option.splits)
  let ?tier = "tier_stored (us_tier u)" and ?used = "used_ngn now user db"
  define rest where "rest = (case daily_payout_cap ?tier of Some c \<Rightarrow> max (c - ?used) 0 | None \<Rightarrow> 0)"
  have r: "li_daily_remaining_ngn r = ck_show_decimal ck rest" "li_can_withdraw r = can_withdraw ?tier"
    using assms u by (auto simp: limits_def ok_or_def Let_def rest_def)
  have "0 \<le> rest" by (simp add: rest_def split: option.split)
  moreover have "check_payout ?tier amount ?used = PayoutAllowed \<longleftrightarrow> can_withdraw ?tier \<and> amount \<le> rest" if "0 < amount" for amount
    using that by (cases "daily_payout_cap ?tier") (auto simp: check_payout_def can_withdraw_def rest_def Let_def)
  ultimately show ?thesis using u r by blast
qed

section \<open>The feed\<close>

definition rows_identified :: "activity_db \<Rightarrow> bool" where
  "rows_identified db \<longleftrightarrow> distinct (map dp_id (ad_deposits db) @ map po_id (ad_payouts db))"

lemma newest_first_set [simp]: "set (newest_first items) = set items"
  by (simp add: newest_first_def)

lemma newest_first_sorted: "sorted (rev (map ai_created_at (newest_first items)))"
  by (simp add: newest_first_def rev_map)

lemma listed_cases:
  assumes "item \<in> set (list_activity ck rate user db)"
  obtains (deposit) d where "d \<in> set (ad_deposits db)" "dp_user d = user" "item = deposit_item ck rate d"
  | (payout) p b where "p \<in> set (ad_payouts db)" "po_user p = user" "account_of_payout db p = Some b" "item = payout_item ck p b"
proof -
  let ?ds = "filter (\<lambda>d. dp_user d = user) (ad_deposits db)"
  let ?ps = "List.map_filter (\<lambda>p. map_option (Pair p) (account_of_payout db p)) (filter (\<lambda>p. po_user p = user) (ad_payouts db))"
  from assms consider (d) d where "d \<in> set (take 100 (sort_key (\<lambda>d. - sd_created_at d) ?ds))" "item = deposit_item ck rate d"
    | (p) p b where "(p, b) \<in> set (take 100 (sort_key (\<lambda>(p, b). - po_created_at p) ?ps))" "item = payout_item ck p b"
    by (auto simp: list_activity_def)
  then show thesis
  proof cases
    case d
    then have "d \<in> set ?ds" by (auto dest: in_set_takeD)
    then show thesis using deposit d(2) by auto
  next
    case p
    then have "(p, b) \<in> set ?ps" by (auto dest: in_set_takeD)
    then show thesis using payout p(2) by (auto simp: List.map_filter_def)
  qed
qed

text \<open>
  C39. The feed is the user's own, newest first, and every row of it opens. The rows are deposits and payouts
  of that user in descending order of the time they show; the receipt of a row's id is found and is of
  that row; and for another user no id of theirs opens.
\<close>

theorem feed_rows_open:
  assumes "rows_identified db"
  shows "sorted (rev (map ai_created_at (list_activity ck rate user db))) \<and>
    (\<forall>item \<in> set (list_activity ck rate user db).
      (\<exists>det. activity_detail_of ck rate user (ai_id item) db = Inr det \<and> ae_item det = item) \<and>
      (\<forall>other. other \<noteq> user \<longrightarrow> activity_detail_of ck rate other (ai_id item) db = Inl NotFound))"
proof -
  have dist: "distinct (map dp_id (ad_deposits db))" "distinct (map po_id (ad_payouts db))"
    "dp_id ` set (ad_deposits db) \<inter> po_id ` set (ad_payouts db) = {}"
    using assms by (auto simp: rows_identified_def)
  have own: "(\<exists>det. activity_detail_of ck rate user (ai_id item) db = Inr det \<and> ae_item det = item) \<and>
      (\<forall>other. other \<noteq> user \<longrightarrow> activity_detail_of ck rate other (ai_id item) db = Inl NotFound)"
    if item: "item \<in> set (list_activity ck rate user db)" for item
    using item
  proof (cases rule: listed_cases)
    case (deposit d)
    have sole: "d' = d" if "d' \<in> set (ad_deposits db)" "dp_id d' = dp_id d" for d'
      using that dist(1) deposit(1) by (auto simp: distinct_map inj_on_def)
    have none: "fetch_optional (\<lambda>p. po_id p = dp_id d \<and> po_user p = v) (ad_payouts db) = None" for v
      using dist(3) deposit(1) by (auto simp: fetch_optional_None_iff)
    have "fetch_optional (\<lambda>d'. dp_id d' = dp_id d \<and> dp_user d' = user) (ad_deposits db) = Some d"
      by (rule fetch_optional_unique) (use sole deposit in auto)
    moreover have "fetch_optional (\<lambda>d'. dp_id d' = dp_id d \<and> dp_user d' = other) (ad_deposits db) = None" if "other \<noteq> user" for other
      using that sole deposit by (auto simp: fetch_optional_None_iff)
    moreover have "ai_id item = dp_id d" "ae_item (deposit_receipt ck rate d) = item"
      by (simp_all add: deposit(3) deposit_item_def deposit_receipt_def Let_def)
    ultimately show ?thesis
      by (simp add: activity_detail_of_def deposit_detail_def payout_detail_def none ok_or_def)
  next
    case (payout p b)
    have sole: "p' = p" if "p' \<in> set (ad_payouts db)" "po_id p' = po_id p" for p'
      using that dist(2) payout(1) by (auto simp: distinct_map inj_on_def)
    have none: "fetch_optional (\<lambda>d. dp_id d = po_id p \<and> dp_user d = v) (ad_deposits db) = None" for v
      using dist(3) payout(1) by (auto simp: fetch_optional_None_iff)
    have "fetch_optional (\<lambda>p'. po_id p' = po_id p \<and> po_user p' = user) (ad_payouts db) = Some p"
      by (rule fetch_optional_unique) (use sole payout in auto)
    moreover have "fetch_optional (\<lambda>p'. po_id p' = po_id p \<and> po_user p' = other) (ad_payouts db) = None" if "other \<noteq> user" for other
      using that sole payout by (auto simp: fetch_optional_None_iff)
    moreover have "ai_id item = po_id p" "ae_item (payout_receipt ck p b) = item"
      by (simp_all add: payout(4) payout_item_def payout_receipt_def)
    ultimately show ?thesis
      using payout(3) by (simp add: activity_detail_of_def deposit_detail_def payout_detail_def none ok_or_def)
  qed
  moreover have "sorted (rev (map ai_created_at (list_activity ck rate user db)))"
    unfolding list_activity_def by (rule newest_first_sorted)
  ultimately show ?thesis by blast
qed

end
