(* ===== verification/Gift_Cards.thy ===== *)
theory Gift_Cards
  imports Catalogue_Store Shop_Reads Rates
begin

text \<open>
  \<open>crates/api/src/giftcard_routes.rs\<close> over the tables of migration 0005: the brands and their rates, the
  queue of submitted cards, which pays nothing by itself, and the push tokens of devices.
\<close>

section \<open>Tables\<close>

record brand_row =
  gb_id :: uuid
  gb_slug :: string
  gb_name :: string
  gb_logo_url :: "string option"
  gb_requires_image :: bool
  gb_has_pin :: bool
  gb_note :: "string option"
  gb_active :: bool

record rate_row =
  gr_id :: uuid
  gr_brand :: uuid
  gr_country_code :: string
  gr_country_name :: string
  gr_currency :: string
  gr_rate_per_unit :: decimal
  gr_min_face :: decimal
  gr_max_face :: decimal
  gr_active :: bool

datatype review_state = CardPending | CardReviewing | CardApproved | CardRejected

fun review_state_str :: "review_state \<Rightarrow> string" where
  "review_state_str CardPending = ''pending''"
| "review_state_str CardReviewing = ''reviewing''"
| "review_state_str CardApproved = ''approved''"
| "review_state_str CardRejected = ''rejected''"

record submission_row =
  gs_id :: uuid
  gs_user :: uuid
  gs_brand :: uuid
  gs_rate :: uuid
  gs_face_value :: decimal
  gs_currency :: string
  gs_rate_per_unit :: decimal
  gs_payout :: decimal
  gs_card_code :: string
  gs_card_pin :: "string option"
  gs_image_url :: "string option"
  gs_status :: review_state
  gs_reference :: string
  gs_key :: string
  gs_created_at :: instant

record push_row =
  pt_user :: uuid
  pt_device :: string
  pt_token :: string
  pt_platform :: string
  pt_updated_at :: instant

record gift_db =
  gd_users :: "uuid list"
  gd_brands :: "brand_row list"
  gd_rates :: "rate_row list"
  gd_submissions :: "submission_row list"
  gd_tokens :: "push_row list"

section \<open>Brands\<close>

record gift_card_rate =
  gc_country_code :: string
  gc_country_name :: string
  gc_currency :: string
  gc_rate_per_unit :: string
  gc_min_face_value :: string
  gc_max_face_value :: string

record gift_card_brand =
  gq_id :: uuid
  gq_name :: string
  gq_slug :: string
  gq_logo_url :: "string option"
  gq_requires_image :: bool
  gq_has_pin :: bool
  gq_note :: "string option"
  gq_rates :: "gift_card_rate list"

text \<open>The left join: a brand without an active rate has one row, with none.\<close>

definition brand_rows :: "gift_db \<Rightarrow> (brand_row \<times> rate_row option) list" where
  "brand_rows db = concat (map (\<lambda>b.
     (let rs = filter (\<lambda>r. gr_brand r = gb_id b \<and> gr_active r) (gd_rates db)
      in if rs = [] then [(b, None)] else map (\<lambda>r. (b, Some r)) rs)) (filter gb_active (gd_brands db)))"

definition shown_rate :: "crates \<Rightarrow> rate_row \<Rightarrow> gift_card_rate" where
  "shown_rate cr r =
     \<lparr>gc_country_code = gr_country_code r, gc_country_name = gr_country_name r, gc_currency = gr_currency r,
      gc_rate_per_unit = cr_show_decimal cr (gr_rate_per_unit r), gc_min_face_value = cr_show_decimal cr (gr_min_face r),
      gc_max_face_value = cr_show_decimal cr (gr_max_face r)\<rparr>"

definition shown_brand :: "brand_row \<Rightarrow> gift_card_rate list \<Rightarrow> gift_card_brand" where
  "shown_brand b rates =
     \<lparr>gq_id = gb_id b, gq_name = gb_name b, gq_slug = gb_slug b, gq_logo_url = gb_logo_url b,
      gq_requires_image = gb_requires_image b, gq_has_pin = gb_has_pin b, gq_note = gb_note b, gq_rates = rates\<rparr>"

text \<open>One row of the loop, onto the brands so far: a new brand unless the last one is the same.\<close>

definition push_row_of :: "crates \<Rightarrow> gift_card_brand list \<Rightarrow> brand_row \<times> rate_row option \<Rightarrow> gift_card_brand list" where
  "push_row_of cr acc = (\<lambda>(b, r).
     (let acc = (if acc \<noteq> [] \<and> gq_id (last acc) = gb_id b then acc else acc @ [shown_brand b []])
      in case r of
           None \<Rightarrow> acc
         | Some r \<Rightarrow> butlast acc @ [(last acc)\<lparr>gq_rates := gq_rates (last acc) @ [shown_rate cr r]\<rparr>]))"

definition gift_brands :: "crates \<Rightarrow> shop_text \<Rightarrow> gift_db \<Rightarrow> gift_card_brand list" where
  "gift_brands cr tx db = foldl (push_row_of cr) []
     (sort_key (\<lambda>(b, r). st_collate tx (gb_name b))
       (sort_key (\<lambda>(b, r). case r of None \<Rightarrow> 0 | Some r \<Rightarrow> - gr_rate_per_unit r) (brand_rows db)))"

section \<open>Submitting\<close>

record submit_card_body =
  sb_brand_id :: uuid
  sb_country_code :: string
  sb_face_value :: string
  sb_card_code :: string
  sb_card_pin :: "string option"
  sb_image_url :: "string option"

record submission_response =
  sr_id :: uuid
  sr_brand_name :: string
  sr_country_code :: string
  sr_face_value :: string
  sr_currency :: string
  sr_payout_ngn :: string
  sr_status :: string
  sr_reference :: string
  sr_created_at :: instant

text \<open>\<open>find_by_key\<close>: an inner join with the brand and the rate, active or not.\<close>

definition find_by_key :: "crates \<Rightarrow> uuid \<Rightarrow> string \<Rightarrow> gift_db \<Rightarrow> submission_response option" where
  "find_by_key cr user key db =
     Option.bind (fetch_optional (\<lambda>s. gs_key s = key \<and> gs_user s = user) (gd_submissions db)) (\<lambda>s.
     Option.bind (fetch_optional (\<lambda>b. gb_id b = gs_brand s) (gd_brands db)) (\<lambda>b.
     map_option (\<lambda>r. \<lparr>sr_id = gs_id s, sr_brand_name = gb_name b, sr_country_code = gr_country_code r,
         sr_face_value = cr_show_decimal cr (gs_face_value s), sr_currency = gs_currency s,
         sr_payout_ngn = cr_show_decimal cr (gs_payout s), sr_status = review_state_str (gs_status s),
         sr_reference = gs_reference s, sr_created_at = gs_created_at s\<rparr>)
       (fetch_optional (\<lambda>r. gr_id r = gs_rate s) (gd_rates db))))"

definition offered_rate :: "submit_card_body \<Rightarrow> gift_db \<Rightarrow> (brand_row \<times> rate_row) option" where
  "offered_rate body db =
     Option.bind (fetch_optional (\<lambda>b. gb_id b = sb_brand_id body \<and> gb_active b) (gd_brands db)) (\<lambda>b.
     map_option (Pair b) (fetch_optional (\<lambda>r. gr_brand r = sb_brand_id body \<and> gr_country_code r = sb_country_code body \<and> gr_active r)
       (gd_rates db)))"

definition card_face_value :: "crates \<Rightarrow> submit_card_body \<Rightarrow> api_error + decimal" where
  "card_face_value cr body =
     res_bind (ok_or (BadRequest ''That amount isn't a number.'') (cr_parse_decimal cr (trim (sb_face_value body)))) (\<lambda>face.
     if face \<le> 0 then Inl (BadRequest ''Enter the value printed on the card.'')
     else if trim (sb_card_code body) = [] then Inl (BadRequest ''Enter the card code.'')
     else Inr face)"

definition card_allowed :: "crates \<Rightarrow> submit_card_body \<Rightarrow> decimal \<Rightarrow> brand_row \<times> rate_row \<Rightarrow> api_error + unit" where
  "card_allowed cr body face = (\<lambda>(b, r).
     if face < gr_min_face r
     then Inl (BadRequest (''Minimum for '' @ gb_name b @ '' is '' @ gr_currency r @ '' '' @ cr_show_decimal cr (gr_min_face r) @ ''.''))
     else if gr_max_face r < face
     then Inl (BadRequest (''Maximum for '' @ gb_name b @ '' is '' @ gr_currency r @ '' '' @ cr_show_decimal cr (gr_max_face r) @ ''.''))
     else if gb_requires_image b \<and> trim (case sb_image_url body of Some u \<Rightarrow> u | None \<Rightarrow> []) = []
     then Inl (BadRequest ''A photo of the card is required.'')
     else Inr ())"

text \<open>The insert, with the constraints of the table and the scale of its columns.\<close>

definition insert_submission :: "submission_row \<Rightarrow> gift_db \<Rightarrow> db_error + gift_db" where
  "insert_submission s db =
     (let s = s\<lparr>gs_face_value := numeric_column 2 (gs_face_value s), gs_payout := numeric_column 4 (gs_payout s)\<rparr> in
      if gs_face_value s \<le> 0 \<or> gs_payout s \<le> 0 then Inl CheckViolation
      else if gs_id s \<in> gs_id ` set (gd_submissions db) \<or> gs_reference s \<in> gs_reference ` set (gd_submissions db) \<or>
        gs_key s \<in> gs_key ` set (gd_submissions db) then Inl UniqueViolation
      else if gs_user s \<notin> set (gd_users db) then Inl ForeignKeyViolation
      else Inr (db\<lparr>gd_submissions := gd_submissions db @ [s]\<rparr>))"

definition card_payout :: "decimal \<Rightarrow> decimal \<Rightarrow> decimal" where
  "card_payout face rate = round_dp 4 (face * rate)"

definition new_submission :: "crates \<Rightarrow> env \<Rightarrow> uuid \<Rightarrow> string \<Rightarrow> submit_card_body \<Rightarrow> decimal \<Rightarrow> rate_row \<Rightarrow> submission_row" where
  "new_submission cr env user key body face r =
     \<lparr>gs_id = new_id env 1, gs_user = user, gs_brand = sb_brand_id body, gs_rate = gr_id r, gs_face_value = face,
      gs_currency = gr_currency r, gs_rate_per_unit = gr_rate_per_unit r, gs_payout = card_payout face (gr_rate_per_unit r),
      gs_card_code = trim (sb_card_code body), gs_card_pin = map_option trim (sb_card_pin body),
      gs_image_url = sb_image_url body, gs_status = CardPending,
      gs_reference = ''NVGC-'' @ to_ascii_uppercase (take 10 (cr_simple_uuid cr (new_id env 0))), gs_key = key,
      gs_created_at = sql_now env\<rparr>"

definition submit_card :: "crates \<Rightarrow> env \<Rightarrow> uuid \<Rightarrow> string option \<Rightarrow> submit_card_body \<Rightarrow> gift_db \<Rightarrow>
    (api_error + submission_response) \<times> gift_db" where
  "submit_card cr env user header body db =
     (case header of
        None \<Rightarrow> (Inl (BadRequest ''Idempotency-Key header is required''), db)
      | Some key \<Rightarrow>
     (case find_by_key cr user key db of
        Some existing \<Rightarrow> (Inr existing, db)
      | None \<Rightarrow>
     (case res_bind (card_face_value cr body) (\<lambda>face.
           res_bind (ok_or (BadRequest ''We don't buy that card from there right now.'') (offered_rate body db)) (\<lambda>(b, r).
           res_bind (card_allowed cr body face (b, r)) (\<lambda>_.
           res_bind (map_err from_sqlx (insert_submission (new_submission cr env user key body face r) db)) (\<lambda>db'.
           (let s = new_submission cr env user key body face r in
            Inr (\<lparr>sr_id = gs_id s, sr_brand_name = gb_name b, sr_country_code = sb_country_code body,
              sr_face_value = cr_show_decimal cr face, sr_currency = gr_currency r, sr_payout_ngn = cr_show_decimal cr (gs_payout s),
              sr_status = ''pending'', sr_reference = gs_reference s, sr_created_at = gs_created_at s\<rparr>, db')))))) of
        Inl e \<Rightarrow> (Inl e, db)
      | Inr (resp, db') \<Rightarrow> (Inr resp, db'))))"

section \<open>Push tokens\<close>

record push_token_body =
  pb_token :: string
  pb_device_id :: string
  pb_platform :: string

definition register_push_token :: "env \<Rightarrow> uuid \<Rightarrow> push_token_body \<Rightarrow> gift_db \<Rightarrow> (api_error + unit) \<times> gift_db" where
  "register_push_token env user body db =
     (if pb_platform body \<notin> {''ios'', ''android''} then (Inl (BadRequest ''unknown platform''), db)
      else if trim (pb_token body) = [] \<or> trim (pb_device_id body) = []
      then (Inl (BadRequest ''token and deviceId are required''), db)
      else if user \<notin> set (gd_users db) then (Inl (from_sqlx ForeignKeyViolation), db)
      else
        (let device = trim (pb_device_id body); token = trim (pb_token body);
             mine = (\<lambda>t. pt_user t = user \<and> pt_device t = device)
         in (Inr (),
           (if list_ex mine (gd_tokens db)
            then db\<lparr>gd_tokens := update_where mine
              (\<lambda>t. t\<lparr>pt_token := token, pt_platform := pb_platform body, pt_updated_at := sql_now env\<rparr>) (gd_tokens db)\<rparr>
            else db\<lparr>gd_tokens := gd_tokens db @ [\<lparr>pt_user = user, pt_device = device, pt_token = token,
              pt_platform = pb_platform body, pt_updated_at = sql_now env\<rparr>]\<rparr>))))"

section \<open>What the queue keeps\<close>

definition queue_ok :: "gift_db \<Rightarrow> bool" where
  "queue_ok db \<longleftrightarrow> distinct (map gs_key (gd_submissions db)) \<and> distinct (map gs_reference (gd_submissions db)) \<and>
     distinct (map gs_id (gd_submissions db))"

lemma round_dp_column: "numeric_column 4 (round_dp 4 x) = round_dp 4 x"
proof -
  obtain k :: int where k: "round_half_even (x * 10 ^ 4) = of_int k"
    by (auto simp: round_half_even_def Let_def split: if_splits)
  have n: "\<bar>of_int k / 10 ^ 4 :: decimal\<bar> * 10 ^ 4 = of_int \<bar>k\<bar>" by simp
  have f: "\<lfloor>of_int \<bar>k\<bar> + 1 / 2 :: decimal\<rfloor> = \<bar>k\<bar>" by linarith
  have "numeric_column 4 (of_int k / 10 ^ 4) = of_int k / 10 ^ 4"
    unfolding numeric_column_def n f Let_def by (simp add: divide_less_0_iff)
  then show ?thesis by (simp only: round_dp_def k)
qed

lemma submit_card_cases:
  obtains (refused) e where "submit_card cr env user header body db = (Inl e, db)"
  | (replayed) key resp where "header = Some key" "find_by_key cr user key db = Some resp"
      "submit_card cr env user header body db = (Inr resp, db)"
  | (queued) key face b r s resp where "header = Some key" "find_by_key cr user key db = None" "card_face_value cr body = Inr face"
      "offered_rate body db = Some (b, r)" "card_allowed cr body face (b, r) = Inr ()"
      "s = (new_submission cr env user key body face r)\<lparr>gs_face_value := numeric_column 2 face\<rparr>"
      "gs_key s \<notin> gs_key ` set (gd_submissions db)" "gs_reference s \<notin> gs_reference ` set (gd_submissions db)"
      "gs_id s \<notin> gs_id ` set (gd_submissions db)" "0 < gs_payout s" "0 < gs_face_value s"
      "resp = \<lparr>sr_id = gs_id s, sr_brand_name = gb_name b, sr_country_code = sb_country_code body,
              sr_face_value = cr_show_decimal cr face, sr_currency = gr_currency r, sr_payout_ngn = cr_show_decimal cr (gs_payout s),
              sr_status = ''pending'', sr_reference = gs_reference s, sr_created_at = gs_created_at s\<rparr>"
      "submit_card cr env user header body db = (Inr resp, db\<lparr>gd_submissions := gd_submissions db @ [s]\<rparr>)"
proof (cases header)
  case None
  then show thesis using refused by (simp add: submit_card_def)
next
  case (Some key)
  show thesis
  proof (cases "find_by_key cr user key db")
    case (Some resp)
    then show thesis using replayed [of key resp] \<open>header = Some key\<close> by (simp add: submit_card_def)
  next
    case None
    show thesis
    proof (cases "snd (submit_card cr env user header body db) = db \<and> (\<exists>e. fst (submit_card cr env user header body db) = Inl e)")
      case True
      then show thesis using refused by (metis prod.collapse)
    next
      case False
      define s0 where "s0 = (\<lambda>face r. new_submission cr env user key body face r)"
      obtain face b r db' where f: "card_face_value cr body = Inr face" "offered_rate body db = Some (b, r)"
        "card_allowed cr body face (b, r) = Inr ()" "insert_submission (s0 face r) db = Inr db'"
        using False \<open>header = Some key\<close> None
        by (auto simp: submit_card_def s0_def res_bind_def ok_or_def map_err_def Let_def split: sum.splits option.splits)
      define s where "s = (s0 face r)\<lparr>gs_face_value := numeric_column 2 face\<rparr>"
      have col: "(s0 face r)\<lparr>gs_face_value := numeric_column 2 (gs_face_value (s0 face r)), gs_payout := numeric_column 4 (gs_payout (s0 face r))\<rparr> = s"
        by (simp add: s_def s0_def new_submission_def card_payout_def round_dp_column)
      have ins: "db' = db\<lparr>gd_submissions := gd_submissions db @ [s]\<rparr>" "gs_key s \<notin> gs_key ` set (gd_submissions db)"
        "gs_reference s \<notin> gs_reference ` set (gd_submissions db)" "gs_id s \<notin> gs_id ` set (gd_submissions db)"
        "0 < gs_payout s" "0 < gs_face_value s"
        using f(4) unfolding insert_submission_def col Let_def by (auto split: if_splits)
      have same: "gs_id s = gs_id (s0 face r)" "gs_payout s = gs_payout (s0 face r)" "gs_reference s = gs_reference (s0 face r)"
        "gs_created_at s = gs_created_at (s0 face r)"
        by (simp_all add: s_def)
      show thesis
        by (rule queued [OF \<open>header = Some key\<close> None f(1,2,3) s_def [unfolded s0_def] ins(2,3,4,5,6) refl])
          (use f ins(1) \<open>header = Some key\<close> None same in \<open>simp add: submit_card_def s0_def Let_def\<close>)
    qed
  qed
qed

end
