(* ===== verification/Gift_Properties.thy ===== *)
theory Gift_Properties
  imports Gift_Cards
begin

text \<open>A card is queued once, at the price it was offered at.\<close>

lemma offered_unique:
  assumes "offered_rate body db = Some (b, r)" "distinct (map gb_id (gd_brands db))" "distinct (map gr_id (gd_rates db))"
  shows "fetch_optional (\<lambda>b. gb_id b = sb_brand_id body) (gd_brands db) = Some b"
    "fetch_optional (\<lambda>x. gr_id x = gr_id r) (gd_rates db) = Some r"
proof -
  have b: "b \<in> set (gd_brands db)" "gb_id b = sb_brand_id body" and r: "r \<in> set (gd_rates db)"
    using assms(1) by (auto simp: offered_rate_def bind_eq_Some_conv dest!: fetch_optional_SomeD)
  show "fetch_optional (\<lambda>b. gb_id b = sb_brand_id body) (gd_brands db) = Some b"
    by (rule fetch_optional_unique) (use b assms(2) in \<open>auto simp: distinct_map inj_on_def\<close>)
  show "fetch_optional (\<lambda>x. gr_id x = gr_id r) (gd_rates db) = Some r"
    by (rule fetch_optional_unique) (use r assms(3) in \<open>auto simp: distinct_map inj_on_def\<close>)
qed

lemma replay_answers:
  assumes "find_by_key cr user key db = Some resp"
  shows "submit_card cr env user (Some key) body db = (Inr resp, db)"
  using assms by (simp add: submit_card_def)


text \<open>
  A key is unique among all users, and its replay is only looked for among one user's own: whoever comes
  second with a key is refused, however good the card.
\<close>

lemma key_of_another_refused:
  assumes "queue_ok db" "s \<in> set (gd_submissions db)" "gs_key s = key" "gs_user s \<noteq> user"
  shows "\<exists>e. submit_card cr env user (Some key) body db = (Inl e, db)"
proof (cases rule: submit_card_cases [of cr env user "Some key" body db])
  case (replayed k resp)
  then obtain s' where "s' \<in> set (gd_submissions db)" "gs_key s' = key" "gs_user s' = user"
    by (auto simp: find_by_key_def bind_eq_Some_conv dest!: fetch_optional_SomeD)
  then show ?thesis using assms by (auto simp: queue_ok_def distinct_map inj_on_def)
next
  case (queued k face b r s' resp)
  then have "gs_key s' = key" by (simp add: new_submission_def)
  then have "gs_key s \<notin> gs_key ` set (gd_submissions db)" using queued(7) assms(3) by simp
  then show ?thesis using assms(2) by blast
qed blast

end
