(* ===== verification/Reads_Witnesses.thy ===== *)
theory Reads_Witnesses
  imports Cache_Properties Derivation Account_Properties Gift_Properties Watcher_Runs Cash_Witnesses Order_Witnesses
begin

text \<open>The properties of the caches, the addresses, the screens and the queue of cards, at concrete states.\<close>

section \<open>Prices\<close>

text \<open>Prices in whole dollars, and one answer of the market at time 0.\<close>

definition whole_dollars :: "int float_crate" where
  "whole_dollars = \<lparr>fl_positive = (\<lambda>x. 0 < x), fl_decimal = (\<lambda>x. Some (of_int x))\<rparr>"

definition demo_market :: "(instant \<times> int coin_reply) cache_event list" where
  "demo_market = [GotReply 0 (100, Some [''bitcoin'' \<mapsto> \<lparr>cq_usd = Some 64000, cq_change = None\<rparr>]), LookedUp 5]"

theorem quotes_are_fresh_witness:
  "fst (prices_answered whole_dollars (minutes 6) 900 None (cache_run (store_prices whole_dollars) demo_market)) = None \<and>
   fst (prices_answered whole_dollars (minutes 4) 900 None (cache_run (store_prices whole_dollars) demo_market)) =
     Some ([(''BTC'', 64000, None)], 100)"
proof -
  have s: "sorted (map event_time demo_market)" "\<forall>e \<in> set demo_market. event_time e \<le> minutes 6"
    by (simp_all add: demo_market_def duration_defs)
  have f: "fetch_prices whole_dollars None = None" by (simp add: fetch_prices_def)
  have late: "\<not> (\<exists>t utc reply. GotReply t (utc, reply) \<in> set demo_market \<and> fetch_prices whole_dollars reply \<noteq> None \<and>
      minutes 6 - t < minutes 5)"
    by (auto simp: demo_market_def duration_defs)
  have "fst (prices_answered whole_dollars (minutes 6) 900 None (cache_run (store_prices whole_dollars) demo_market)) = None"
    using quotes_are_fresh [OF s, of whole_dollars "[]" 0 900 None] f late by blast
  moreover have "fst (prices_answered whole_dollars (minutes 4) 900 None (cache_run (store_prices whole_dollars) demo_market)) =
     Some ([(''BTC'', 64000, None)], 100)"
    by code_simp
  ultimately show ?thesis by blast
qed

section \<open>Addresses\<close>

definition demo_wallet_crates :: "(string, bytes, string) wallet_crates" where
  "demo_wallet_crates = \<lparr>wc_path = Inr, wc_master = Inr, wc_derive = (\<lambda>m p. Inr p), wc_p2wpkh = (\<lambda>k. ''bc1'' @ k),
     wc_uncompressed = (\<lambda>k. 4 # bytes_of k), wc_keccak = (\<lambda>bs. replicate 32 0xab), wc_hmac_sha512 = (\<lambda>k m. take 64 (rev m @ replicate 64 0)),
     wc_ed25519 = (\<lambda>k. k), wc_base58 = hex_encode, wc_base58check = hex_encode, wc_mnemonic = (\<lambda>_. Inl ''none'')\<rparr>"


section \<open>Screens\<close>

definition demo_holder :: auth_db where
  "demo_holder = \<lparr>users = [], identities = [], user_wallets = [\<lparr>uw_user = 7, uw_chain = Evm, uw_address = ''0xab'', uw_path = ''m''\<rparr>],
     challenges = [], sessions = []\<rparr>"


definition demo_confirming :: deposit_row where
  "demo_confirming = \<lparr>dp_id = 9, dp_user = 7, dp_wallet = 5, dp_chain = Evm, dp_network = Bsc, dp_asset = ''BNB'', dp_tx_hash = ''0x1'',
     dp_output_index = 0, dp_amount = 2, dp_block_number = 100, dp_block_hash = None, dp_confirmations = 19, dp_status = Confirming,
     dp_credited = None, dp_reversed = None\<rparr>"

definition demo_paid :: "watch_error + (bool \<times> watcher_db)" where
  "demo_paid = credit_deposit (\<lambda>_. []) Watcher_Runs.demo_env 9 demo_transfer (demo_wallets\<lparr>deposits := [demo_confirming]\<rparr>)"

theorem receipt_never_credited_witness:
  "\<exists>db'. demo_paid = Inr (True, db') \<and> user_crypto_balance db' 7 Bnb = 2 \<and>
    map tl_state (ae_timeline (deposit_receipt demo_cash (\<lambda>_. None) (deposit_row.extend (hd (deposits db')) (shown_deposit.fields 60)))) =
      [''done'', ''current'', ''pending'']"
proof -
  have "case demo_paid of Inr (paid, db') \<Rightarrow> paid \<and> map dp_id (deposits db') = [9] \<and> user_crypto_balance db' 7 Bnb = 2 | Inl _ \<Rightarrow> False"
    by code_simp
  then obtain db' where p: "demo_paid = Inr (True, db')" "map dp_id (deposits db') = [9]" "user_crypto_balance db' 7 Bnb = 2"
    by (auto split: sum.splits)
  then obtain r where r: "deposits db' = [r]" "dp_id r = 9" by (cases "deposits db'") auto
  let ?d = "deposit_row.extend r (shown_deposit.fields 60)"
  have "dp_id ?d = 9" "deposit_row.truncate ?d \<in> set (deposits db')" using r by (simp_all add: deposit_row.defs)
  then show ?thesis using receipt_never_credited [OF p(1) [unfolded demo_paid_def], of ?d demo_cash "\<lambda>_. None"] p r by auto
qed

definition demo_activity :: activity_db where
  "demo_activity = \<lparr>ad_deposits = [deposit_row.extend demo_confirming (shown_deposit.fields 60)], ad_payouts = [], ad_accounts = []\<rparr>"

theorem feed_rows_open_witness:
  "(\<exists>det. activity_detail_of demo_cash (\<lambda>_. None) 7 9 demo_activity = Inr det) \<and>
   activity_detail_of demo_cash (\<lambda>_. None) 8 9 demo_activity = Inl NotFound"
proof -
  have "rows_identified demo_activity" by (simp add: rows_identified_def demo_activity_def)
  note f = feed_rows_open [OF this, of demo_cash "\<lambda>_. None" 7]
  have "map ai_id (list_activity demo_cash (\<lambda>_. None) 7 demo_activity) = [9]" by code_simp
  then obtain item where "item \<in> set (list_activity demo_cash (\<lambda>_. None) 7 demo_activity)" "ai_id item = 9" by auto
  moreover have "(8 :: uuid) \<noteq> 7" by simp
  ultimately show ?thesis using f by metis
qed

section \<open>Cards\<close>

definition demo_gift_crates :: crates where
  "demo_gift_crates = demo_crates\<lparr>cr_parse_decimal := (\<lambda>_. Some 50)\<rparr>"

definition demo_gifts :: gift_db where
  "demo_gifts = \<lparr>gd_users = [7], gd_brands = [\<lparr>gb_id = 1, gb_slug = ''steam'', gb_name = ''Steam'', gb_logo_url = None,
     gb_requires_image = False, gb_has_pin = False, gb_note = None, gb_active = True\<rparr>],
     gd_rates = [\<lparr>gr_id = 2, gr_brand = 1, gr_country_code = ''US'', gr_country_name = ''United States'', gr_currency = ''USD'',
       gr_rate_per_unit = 900, gr_min_face = 10, gr_max_face = 1000, gr_active = True\<rparr>],
     gd_submissions = [], gd_tokens = []\<rparr>"

definition demo_card :: submit_card_body where
  "demo_card = \<lparr>sb_brand_id = 1, sb_country_code = ''US'', sb_face_value = ''50'', sb_card_code = ''ABCD'', sb_card_pin = None,
     sb_image_url = None\<rparr>"

definition demo_queued :: gift_db where
  "demo_queued = snd (submit_card demo_gift_crates (demo_envs 0) 7 (Some ''k'') demo_card demo_gifts)"

lemma demo_card_queued:
  "\<exists>resp. submit_card demo_gift_crates (demo_envs 0) 7 (Some ''k'') demo_card demo_gifts = (Inr resp, demo_queued)"
  "map gs_payout (gd_submissions demo_queued) = [45000]"
proof -
  let ?b = "hd (gd_brands demo_gifts)" and ?r = "hd (gd_rates demo_gifts)"
  define s where "s = new_submission demo_gift_crates (demo_envs 0) 7 ''k'' demo_card 50 ?r"
  have f: "find_by_key demo_gift_crates 7 ''k'' demo_gifts = None" "card_face_value demo_gift_crates demo_card = Inr 50" by code_simp+
  have o: "offered_rate demo_card demo_gifts = Some (?b, ?r)" by (simp add: offered_rate_def demo_card_def demo_gifts_def)
  have a: "card_allowed demo_gift_crates demo_card 50 (?b, ?r) = Inr ()" by (simp add: card_allowed_def demo_gifts_def)
  have c: "card_payout 50 900 = 45000" "numeric_column 4 45000 = 45000" "numeric_column 2 50 = 50" by code_simp+
  have p: "gs_payout s = 45000" "gs_face_value s = 50" "gs_user s = 7" by (simp_all add: s_def new_submission_def demo_gifts_def c)
  have "insert_submission s demo_gifts = Inr (demo_gifts\<lparr>gd_submissions := [s\<lparr>gs_face_value := 50, gs_payout := 45000\<rparr>]\<rparr>)"
    by (simp add: insert_submission_def Let_def p c) (simp add: demo_gifts_def)
  then have e: "\<exists>resp. submit_card demo_gift_crates (demo_envs 0) 7 (Some ''k'') demo_card demo_gifts =
      (Inr resp, demo_gifts\<lparr>gd_submissions := [s\<lparr>gs_face_value := 50, gs_payout := 45000\<rparr>]\<rparr>)"
    by (simp add: submit_card_def f o a Let_def flip: s_def)
  then show "\<exists>resp. submit_card demo_gift_crates (demo_envs 0) 7 (Some ''k'') demo_card demo_gifts = (Inr resp, demo_queued)"
    "map gs_payout (gd_submissions demo_queued) = [45000]"
    by (auto simp: demo_queued_def)
qed


end
