(* ===== verification/Spec2Isabelle.thy ===== *)
theory Spec2Isabelle
  imports Ledger_Runs Watcher_Liveness Order_Witnesses Auth_Witnesses Cash_Witnesses Shop_Witnesses Supplier_Witnesses Admin_Witnesses Boot_Witnesses Reads_Witnesses
begin

text \<open>
  A verification development for the Rust backend of NaiVolt, \<open>backend-rs/crates/\<close>.
\<close>

end
